(* ===== verification/Prelude.thy ===== *)
theory Prelude
  imports Main "HOL-Library.Word" "HOL-Library.AList" "HOL-Library.List_Lexorder"
    "HOL-Library.Product_Lexorder"
begin

text \<open>
  Shared vocabulary of the development: Python values (byte strings, text, dictionaries),
  exceptions as values, the result type every fallible operation returns, and the generic list
  and dictionary lemmas the component theories rest on.

  \<^item> \<open>bytes\<close> is a list of 8-bit words, Python's \<^verbatim>\<open>bytes\<close>.
  \<^item> \<open>pystr\<close> is a list of Unicode code points, Python's \<^verbatim>\<open>str\<close>; its lexicographic order is
    Python's \<^verbatim>\<open><\<close> on \<^verbatim>\<open>str\<close> and SQLite's BINARY collation of the same text.
  \<^item> \<open>'a result\<close> is \<open>exn + 'a\<close>: \<open>Inl\<close> is a raised exception.
  \<^item> \<open>('s, 'a) op\<close> is a method that may mutate its object \<open>'s\<close> and may raise: the state is
    returned in both cases, so what a failed call leaves behind is visible.
  \<^item> a dictionary is an association list with distinct keys, in insertion order.
\<close>

named_theorems inv_intros \<open>introduction rules that carry component invariants across operations\<close>
named_theorems op_simps \<open>unfolding rules of operations, for case analysis on their branches\<close>

section \<open>Python values\<close>

type_synonym byte = "8 word"
type_synonym bytes = "8 word list"
type_synonym pystr = "int list"
type_synonym ('k, 'v) dict = "('k \<times> 'v) list"

definition ascii :: "string \<Rightarrow> pystr" where
  "ascii s = map of_char s"

lemma ascii_Nil [simp]: "ascii [] = []"
  by (simp add: ascii_def)

lemma length_ascii [simp]: "length (ascii s) = length s"
  by (simp add: ascii_def)

section \<open>Exceptions\<close>

text \<open>
  The exception classes the package raises or lets through, with the text of \<^verbatim>\<open>str(exc)\<close> where
  the package writes one. \<open>Diverges\<close> is no exception of the program: it is the value of a loop
  that does not return.
\<close>

datatype exn =
    ConsensusError pystr
  | StorageError pystr
  | ForkChoiceError pystr
  | ConsensusNodeError pystr
  | MempoolPolicyError pystr
  | NetworkError pystr
  | PeerError pystr
  | PeerManagerError pystr
  | NodeServiceError pystr
  | TransportError pystr
  | RuntimeConfigError pystr \<comment> \<open>\<^verbatim>\<open>RuntimeError\<close> of \<^verbatim>\<open>runtime.py\<close>\<close>
  | ValueError pystr
  | JSONDecodeError
  | StructError
  | UnicodeEncodeError
  | UnicodeDecodeError
  | TypeError
  | AttributeError
  | OverflowError
  | IntegrityError
  | KeyError
  | IndexError
  | AssertionError
  | OSError
  | ConnectionResetError
  | SystemExit pystr \<comment> \<open>no \<^verbatim>\<open>Exception\<close>; only the command line raises it\<close>
  | Diverges

text \<open>The subclasses of \<^verbatim>\<open>ValueError\<close>, for the handlers that catch it; \<^verbatim>\<open>struct.error\<close> is not one.\<close>

fun is_value_error :: "exn \<Rightarrow> bool" where
  "is_value_error (ConsensusError m) = True"
| "is_value_error (NetworkError m) = True"
| "is_value_error (PeerManagerError m) = True"
| "is_value_error (RuntimeConfigError m) = True"
| "is_value_error (ValueError m) = True"
| "is_value_error JSONDecodeError = True"
| "is_value_error UnicodeEncodeError = True"
| "is_value_error UnicodeDecodeError = True"
| "is_value_error _ = False"

type_synonym 'a result = "exn + 'a"
type_synonym ('s, 'a) op = "'s \<Rightarrow> 'a result \<times> 's"

abbreviation raises :: "'a result \<Rightarrow> bool" where
  "raises r \<equiv> \<exists>e. r = Inl e"

abbreviation consensus_error :: "string \<Rightarrow> 'a result" where
  "consensus_error s \<equiv> Inl (ConsensusError (ascii s))"

section \<open>Sequencing of fallible computations\<close>

definition rbind :: "'a result \<Rightarrow> ('a \<Rightarrow> 'b result) \<Rightarrow> 'b result" where
  "rbind m f = (case m of Inl e \<Rightarrow> Inl e | Inr x \<Rightarrow> f x)"

lemma rbind_simps [simp]: "rbind (Inl e) f = Inl e" "rbind (Inr x) f = f x"
  by (simp_all add: rbind_def)

lemma rbind_eq_Inr [simp]: "rbind m f = Inr y \<longleftrightarrow> (\<exists>x. m = Inr x \<and> f x = Inr y)"
  by (cases m) auto

lemma rbind_eq_Inl: "rbind m f = Inl e \<longleftrightarrow> m = Inl e \<or> (\<exists>x. m = Inr x \<and> f x = Inl e)"
  by (cases m) auto

lemma rbind_cong [fundef_cong]:
  "m = m' \<Longrightarrow> (\<And>x. m' = Inr x \<Longrightarrow> f x = f' x) \<Longrightarrow> rbind m f = rbind m' f'"
  by (cases m') auto

lemma rbind_assoc: "rbind (rbind m f) g = rbind m (\<lambda>x. rbind (f x) g)"
  by (cases m) auto

lemma rbind_Inr_right [simp]: "rbind m Inr = m"
  by (cases m) auto

text \<open>A comprehension over a list whose body may raise: the first exception wins.\<close>

primrec rmap :: "('a \<Rightarrow> 'b result) \<Rightarrow> 'a list \<Rightarrow> 'b list result" where
  "rmap f [] = Inr []"
| "rmap f (x # xs) = rbind (f x) (\<lambda>y. rbind (rmap f xs) (\<lambda>ys. Inr (y # ys)))"

lemma rmap_eq_Inr: "rmap f xs = Inr ys \<longleftrightarrow> list_all2 (\<lambda>x y. f x = Inr y) xs ys"
  by (induction xs arbitrary: ys) (auto simp: list_all2_Cons1)

lemma rmap_length: "rmap f xs = Inr ys \<Longrightarrow> length ys = length xs"
  by (auto simp: rmap_eq_Inr dest: list_all2_lengthD)

lemma rmap_total: "(\<And>x. x \<in> set xs \<Longrightarrow> f x = Inr (g x)) \<Longrightarrow> rmap f xs = Inr (map g xs)"
  by (induction xs) auto

lemma rmap_Inr_ex: "(\<And>x. x \<in> set xs \<Longrightarrow> \<exists>y. f x = Inr y) \<Longrightarrow> \<exists>ys. rmap f xs = Inr ys"
  by (induction xs) fastforce+

text \<open>A \<^verbatim>\<open>for\<close> loop whose body updates a local and may raise.\<close>

primrec rfold :: "('a \<Rightarrow> 's \<Rightarrow> 's result) \<Rightarrow> 'a list \<Rightarrow> 's \<Rightarrow> 's result" where
  "rfold f [] s = Inr s"
| "rfold f (x # xs) s = rbind (f x s) (rfold f xs)"

lemma rfold_append: "rfold f (xs @ ys) s = rbind (rfold f xs s) (rfold f ys)"
  by (induction xs arbitrary: s) (auto simp: rbind_assoc intro!: rbind_cong)

lemma rfold_invariant:
  assumes "rfold f xs s = Inr s'" and "P s"
    and "\<And>x s s'. x \<in> set xs \<Longrightarrow> f x s = Inr s' \<Longrightarrow> P s \<Longrightarrow> P s'"
  shows "P s'"
  using assms by (induction xs arbitrary: s) fastforce+

lemma rfold_cong_state:
  assumes "\<And>x s. x \<in> set xs \<Longrightarrow> f x s = g x s"
  shows "rfold f xs s = rfold g xs s"
  using assms by (induction xs arbitrary: s) (auto intro!: rbind_cong)

text \<open>Comprehensions with a filter, and \<^verbatim>\<open>any\<close>, whose conditions may raise.\<close>

primrec rfilter :: "('a \<Rightarrow> bool result) \<Rightarrow> 'a list \<Rightarrow> 'a list result" where
  "rfilter f [] = Inr []"
| "rfilter f (x # xs) =
     rbind (f x) (\<lambda>b. rbind (rfilter f xs) (\<lambda>ys. Inr (if b then x # ys else ys)))"

primrec rany :: "('a \<Rightarrow> bool result) \<Rightarrow> 'a list \<Rightarrow> bool result" where
  "rany f [] = Inr False"
| "rany f (x # xs) = rbind (f x) (\<lambda>b. if b then Inr True else rany f xs)"

lemma rfilter_subset: "rfilter f xs = Inr ys \<Longrightarrow> set ys \<subseteq> set xs \<and> length ys \<le> length xs"
  by (induction xs arbitrary: ys) (fastforce split: if_splits)+

text \<open>Statements of a method that mutates its object: what a raising statement did so far stays.\<close>

definition obind :: "('s, 'a) op \<Rightarrow> ('a \<Rightarrow> ('s, 'b) op) \<Rightarrow> ('s, 'b) op" where
  "obind m f s = (case m s of (Inl e, s') \<Rightarrow> (Inl e, s') | (Inr x, s') \<Rightarrow> f x s')"

definition oreturn :: "'a \<Rightarrow> ('s, 'a) op" where
  "oreturn x s = (Inr x, s)"

text \<open>An expression over the current state, and an assignment.\<close>

definition oeval :: "('s \<Rightarrow> 'a result) \<Rightarrow> ('s, 'a) op" where
  "oeval f s = (f s, s)"

definition omodify :: "('s \<Rightarrow> 's) \<Rightarrow> ('s, unit) op" where
  "omodify f s = (Inr (), f s)"

lemma obind_Inr: "obind m f s = (Inr y, s'') \<longleftrightarrow> (\<exists>x s'. m s = (Inr x, s') \<and> f x s' = (Inr y, s''))"
  by (auto simp: obind_def split: prod.splits sum.splits)

lemma obind_Inl: "obind m f s = (Inl e, s'') \<longleftrightarrow>
    m s = (Inl e, s'') \<or> (\<exists>x s'. m s = (Inr x, s') \<and> f x s' = (Inl e, s''))"
  by (auto simp: obind_def split: prod.splits sum.splits)

lemma op_simps_basic [simp]:
  "oreturn x s = (Inr x, s)" "oeval f s = (f s, s)" "omodify g s = (Inr (), g s)"
  by (simp_all add: oreturn_def oeval_def omodify_def)

section \<open>Dictionaries\<close>

text \<open>
  Python's \<^verbatim>\<open>dict\<close> keeps insertion order; storing to a present key keeps its place, a new key goes
  to the end. \<open>AList.update\<close> and \<open>AList.delete\<close> do the same.
\<close>

abbreviation dict_keys :: "('k, 'v) dict \<Rightarrow> 'k list" where
  "dict_keys d \<equiv> map fst d"

abbreviation dict_ok :: "('k, 'v) dict \<Rightarrow> bool" where
  "dict_ok d \<equiv> distinct (map fst d)"

lemma map_of_filter_fst:
  "map_of (filter (\<lambda>p. P (fst p)) d) k = (if P k then map_of d k else None)"
  by (induction d) auto

lemma delete_filter: "AList.delete k d = filter (\<lambda>p. fst p \<noteq> k) d"
  by (auto simp: AList.delete_eq case_prod_unfold intro!: filter_cong)

lemma map_of_delete_dict: "map_of (AList.delete k d) = (map_of d)(k := None)"
  by (simp add: AList.delete_conv')

lemma map_of_update_dict: "map_of (AList.update k v d) = (map_of d)(k \<mapsto> v)"
  by (simp add: AList.update_conv')

lemma update_fresh: "k \<notin> fst ` set d \<Longrightarrow> AList.update k v d = d @ [(k, v)]"
  by (induction d) auto

lemma sum_list_delete:
  fixes f :: "'v \<Rightarrow> int"
  assumes "dict_ok d" and "map_of d k = Some v"
  shows "sum_list (map (\<lambda>p. f (snd p)) (AList.delete k d)) =
         sum_list (map (\<lambda>p. f (snd p)) d) - f v"
  using assms
proof (induction d)
  case Nil
  then show ?case by simp
next
  case (Cons p d)
  show ?case
  proof (cases "fst p = k")
    case True
    with Cons.prems have "AList.delete k d = d"
      by (auto intro!: AList.delete_idem)
    with True Cons.prems show ?thesis by (cases p) auto
  next
    case False
    with Cons show ?thesis by (cases p) auto
  qed
qed

section \<open>Lists\<close>

lemma foldl_append_concat: "foldl (\<lambda>acc x. acc @ f x) acc xs = acc @ concat (map f xs)"
  by (induction xs arbitrary: acc) auto

lemma take_length_append: "length xs = n \<Longrightarrow> take n (xs @ ys) = xs"
  by auto

lemma drop_length_append: "length xs = n \<Longrightarrow> drop n (xs @ ys) = ys"
  by auto

end
