(* ===== verification/Byte_Codec.thy ===== *)
theory Byte_Codec
  imports Prelude
begin

text \<open>
  The byte level of \<^verbatim>\<open>consensus.py\<close>: big-endian \<^verbatim>\<open>struct\<close> packing with its range errors,
  hexadecimal text (\<^verbatim>\<open>bytes.hex\<close>, \<^verbatim>\<open>bytes.fromhex\<close>), the bounds-checked cursor \<^verbatim>\<open>_ByteReader\<close>,
  and the interface \<open>reader_codec\<close> of a pair of an encoder and a cursor decoder. Every codec of the
  package is an interpretation of that interface; what it gives for free is that decoding inverts
  encoding, that any accepted input is the encoding of what was read, and both for sequences.
\<close>

section \<open>Big-endian integers\<close>

primrec be_encode :: "nat \<Rightarrow> int \<Rightarrow> bytes" where
  "be_encode 0 x = []"
| "be_encode (Suc n) x = be_encode n (x div 256) @ [word_of_int x]"

definition be_decode :: "bytes \<Rightarrow> int" where
  "be_decode bs = foldl (\<lambda>acc b. acc * 256 + uint b) 0 bs"

definition pack_q :: "int \<Rightarrow> bytes result" where
  "pack_q v = (if - (2 ^ 63) \<le> v \<and> v < 2 ^ 63 then Inr (be_encode 8 v) else Inl StructError)"

definition pack_Q :: "int \<Rightarrow> bytes result" where
  "pack_Q v = (if 0 \<le> v \<and> v < 2 ^ 64 then Inr (be_encode 8 v) else Inl StructError)"

definition pack_I :: "int \<Rightarrow> bytes result" where
  "pack_I v = (if 0 \<le> v \<and> v < 2 ^ 32 then Inr (be_encode 4 v) else Inl StructError)"

definition pack_H :: "int \<Rightarrow> bytes result" where
  "pack_H v = (if 0 \<le> v \<and> v < 2 ^ 16 then Inr (be_encode 2 v) else Inl StructError)"

definition pack_d :: "64 word \<Rightarrow> bytes" where
  "pack_d w = be_encode 8 (uint w)"

definition unpack_q :: "bytes \<Rightarrow> int" where
  "unpack_q bs = (let u = be_decode bs in if u < 2 ^ 63 then u else u - 2 ^ 64)"

definition unpack_d :: "bytes \<Rightarrow> 64 word" where
  "unpack_d bs = word_of_int (be_decode bs)"

lemma length_be_encode [simp]: "length (be_encode n x) = n"
  by (induction n arbitrary: x) auto

lemma be_decode_Nil [simp]: "be_decode [] = 0"
  by (simp add: be_decode_def)

lemma be_decode_snoc [simp]: "be_decode (bs @ [b]) = be_decode bs * 256 + uint b"
  by (simp add: be_decode_def)

lemma uint_byte_bounds: "0 \<le> uint (b :: byte) \<and> uint b < 256"
  using uint_lt2p [of b] by simp

lemma uint_byte_of_int: "0 \<le> x \<Longrightarrow> x < 256 \<Longrightarrow> uint (word_of_int x :: byte) = x"
  by (simp add: uint_word_of_int)

lemma byte_of_int_low: "(word_of_int (a * 256 + uint b) :: byte) = b"
proof -
  have "uint (word_of_int (a * 256 + uint b) :: byte) = (a * 256 + uint b) mod 2 ^ LENGTH(8)"
    by (rule uint_word_of_int)
  also have "\<dots> = uint b" using uint_byte_bounds [of b] by simp
  finally show ?thesis by (simp only: word_uint_eq_iff)
qed

lemma be_decode_encode: "be_decode (be_encode n x) = x mod 256 ^ n"
proof (induction n arbitrary: x)
  case 0
  then show ?case by simp
next
  case (Suc n)
  have "x mod 256 ^ Suc n = 256 * (x div 256 mod 256 ^ n) + x mod 256"
    by (simp add: zmod_zmult2_eq)
  with Suc show ?case by (simp add: uint_word_of_int)
qed

lemma be_decode_bounds: "0 \<le> be_decode bs \<and> be_decode bs < 256 ^ length bs"
proof (induction bs rule: rev_induct)
  case Nil
  then show ?case by simp
next
  case (snoc b bs)
  then show ?case using uint_byte_bounds [of b] by auto
qed

lemma be_encode_decode: "length bs = n \<Longrightarrow> be_encode n (be_decode bs) = bs"
proof (induction bs arbitrary: n rule: rev_induct)
  case Nil
  then show ?case by simp
next
  case (snoc b bs)
  have "(be_decode bs * 256 + uint b) div 256 = be_decode bs"
    using uint_byte_bounds [of b] by simp
  moreover have "(word_of_int (be_decode bs * 256 + uint b) :: byte) = b"
    by (rule byte_of_int_low)
  ultimately show ?case using snoc by auto
qed

lemma be_encode_mod: "be_encode n (x mod 256 ^ n) = be_encode n x"
  by (metis be_decode_encode be_encode_decode length_be_encode)

section \<open>Hexadecimal text\<close>

definition hex_digit :: "int \<Rightarrow> int" where
  "hex_digit d = (if d < 10 then 48 + d else 87 + d)"

definition hexlify :: "bytes \<Rightarrow> pystr" where
  "hexlify bs = concat (map (\<lambda>b. [hex_digit (uint b div 16), hex_digit (uint b mod 16)]) bs)"

definition hex_value :: "int \<Rightarrow> int option" where
  "hex_value c =
     (if 48 \<le> c \<and> c \<le> 57 then Some (c - 48)
      else if 97 \<le> c \<and> c \<le> 102 then Some (c - 87)
      else if 65 \<le> c \<and> c \<le> 70 then Some (c - 55)
      else None)"

definition ascii_space :: "int \<Rightarrow> bool" where
  "ascii_space c \<longleftrightarrow> c = 32 \<or> (9 \<le> c \<and> c \<le> 13)"

fun fromhex :: "pystr \<Rightarrow> bytes result" where
  "fromhex [] = Inr []"
| "fromhex (c # cs) =
     (if ascii_space c then fromhex cs
      else case cs of
        [] \<Rightarrow> Inl (ValueError (ascii ''non-hexadecimal number found in fromhex() arg''))
      | d # ds \<Rightarrow>
          (case (hex_value c, hex_value d) of
             (Some x, Some y) \<Rightarrow> rbind (fromhex ds) (\<lambda>bs. Inr (word_of_int (16 * x + y) # bs))
           | _ \<Rightarrow> Inl (ValueError (ascii ''non-hexadecimal number found in fromhex() arg''))))"

definition is_lower_hex :: "int \<Rightarrow> bool" where
  "is_lower_hex c \<longleftrightarrow> c \<in> set (ascii ''0123456789abcdef'')"

definition is_hash :: "pystr \<Rightarrow> bool" where
  "is_hash s \<longleftrightarrow> length s = 64 \<and> list_all is_lower_hex s"

lemma is_lower_hex_iff: "is_lower_hex c \<longleftrightarrow> (48 \<le> c \<and> c \<le> 57) \<or> (97 \<le> c \<and> c \<le> 102)"
  by (simp add: is_lower_hex_def ascii_def) presburger

lemma hexlify_Nil [simp]: "hexlify [] = []"
  by (simp add: hexlify_def)

lemma hexlify_Cons [simp]:
  "hexlify (b # bs) = hex_digit (uint b div 16) # hex_digit (uint b mod 16) # hexlify bs"
  by (simp add: hexlify_def)

lemma length_hexlify [simp]: "length (hexlify bs) = 2 * length bs"
  by (induction bs) auto

lemma hex_digit_props:
  assumes "0 \<le> d" and "d < 16"
  shows "hex_value (hex_digit d) = Some d" and "\<not> ascii_space (hex_digit d)"
    and "is_lower_hex (hex_digit d)"
  using assms by (auto simp: hex_value_def hex_digit_def ascii_space_def is_lower_hex_iff)

lemma nibble_bounds:
  "0 \<le> uint (b :: byte) div 16" "uint b div 16 < 16" "0 \<le> uint b mod 16" "uint b mod 16 < 16"
  using uint_byte_bounds [of b] by (auto simp: pos_imp_zdiv_nonneg_iff)

lemma fromhex_hexlify [simp]: "fromhex (hexlify bs) = Inr bs"
proof (induction bs)
  case Nil
  then show ?case by simp
next
  case (Cons b bs)
  have "(word_of_int (16 * (uint b div 16) + uint b mod 16) :: byte) = b" by simp
  with Cons show ?case by (simp add: hex_digit_props nibble_bounds)
qed

lemma hexlify_inject [simp]: "hexlify a = hexlify b \<longleftrightarrow> a = b"
  by (metis fromhex_hexlify sum.inject(2))

lemma hexlify_lower: "list_all is_lower_hex (hexlify bs)"
  by (induction bs) (auto simp: hex_digit_props nibble_bounds)

lemma is_hash_hexlify: "length bs = 32 \<Longrightarrow> is_hash (hexlify bs)"
  by (simp add: is_hash_def hexlify_lower)

lemma lower_hex_value:
  assumes "is_lower_hex c"
  obtains x where "hex_value c = Some x" "0 \<le> x" "x < 16" "hex_digit x = c" "\<not> ascii_space c"
  using assms by (auto simp: is_lower_hex_iff hex_value_def hex_digit_def ascii_space_def)

lemma fromhex_lower:
  assumes "list_all is_lower_hex s" and "even (length s)"
  shows "\<exists>bs. fromhex s = Inr bs \<and> hexlify bs = s"
  using assms
proof (induction s rule: fromhex.induct)
  case 1
  then show ?case by simp
next
  case (2 c cs)
  then obtain x where x: "hex_value c = Some x" "0 \<le> x" "x < 16" "hex_digit x = c"
      "\<not> ascii_space c"
    by (auto elim: lower_hex_value)
  from 2 obtain d ds where cs: "cs = d # ds" by (cases cs) auto
  with 2 obtain y where y: "hex_value d = Some y" "0 \<le> y" "y < 16" "hex_digit y = d"
    by (auto elim: lower_hex_value)
  from "2.IH"(2) [OF x(5) cs refl x(1) y(1)] "2.prems" cs
  obtain bs where bs: "fromhex ds = Inr bs" "hexlify bs = ds" by auto
  have "uint (word_of_int (16 * x + y) :: byte) = 16 * x + y"
    using x y by (intro uint_byte_of_int) auto
  with x y cs bs show ?case by auto
qed

lemma is_hash_fromhex:
  assumes "is_hash s"
  obtains bs where "fromhex s = Inr bs" "hexlify bs = s" "length bs = 32"
proof -
  from assms obtain bs where bs: "fromhex s = Inr bs" "hexlify bs = s"
    using fromhex_lower [of s] by (auto simp: is_hash_def)
  with assms have "length bs = 32" using length_hexlify [of bs] by (auto simp: is_hash_def)
  with bs that show ?thesis by blast
qed

section \<open>The byte cursor\<close>

record byte_reader =
  rd_payload :: bytes
  rd_offset :: nat

definition new_reader :: "bytes \<Rightarrow> byte_reader" where
  "new_reader p = \<lparr>rd_payload = p, rd_offset = 0\<rparr>"

definition reader_read :: "int \<Rightarrow> byte_reader \<Rightarrow> (bytes \<times> byte_reader) result" where
  "reader_read n r =
     (let end = int (rd_offset r) + n
      in if n < 0 \<or> end > int (length (rd_payload r))
         then consensus_error ''binary payload is truncated''
         else Inr (take (nat n) (drop (rd_offset r) (rd_payload r)), r\<lparr>rd_offset := nat end\<rparr>))"

definition require_finished :: "byte_reader \<Rightarrow> unit result" where
  "require_finished r =
     (if rd_offset r \<noteq> length (rd_payload r)
      then consensus_error ''binary payload has trailing bytes'' else Inr ())"

text \<open>
  \<open>consumes r bs r'\<close>: the unread input of \<open>r\<close> begins with \<open>bs\<close>, and \<open>r'\<close> is the cursor
  behind it. It is what a decoder's steps compose by.
\<close>

definition consumes :: "byte_reader \<Rightarrow> bytes \<Rightarrow> byte_reader \<Rightarrow> bool" where
  "consumes r bs r' \<longleftrightarrow>
     rd_offset r + length bs \<le> length (rd_payload r) \<and>
     take (length bs) (drop (rd_offset r) (rd_payload r)) = bs \<and>
     r' = r\<lparr>rd_offset := rd_offset r + length bs\<rparr>"

lemma consumes_Nil [simp]: "consumes r [] r' \<longleftrightarrow> rd_offset r \<le> length (rd_payload r) \<and> r' = r"
  by (auto simp: consumes_def)

lemma take_add_eq_append:
  assumes "length as + length bs \<le> length xs"
  shows "take (length as + length bs) xs = as @ bs \<longleftrightarrow>
         take (length as) xs = as \<and> take (length bs) (drop (length as) xs) = bs"
  using assms by (simp add: take_add append_eq_append_conv)

lemma consumes_append:
  "consumes r (as @ bs) r' \<longleftrightarrow> (\<exists>r1. consumes r as r1 \<and> consumes r1 bs r')"
proof -
  let ?o = "rd_offset r" and ?p = "rd_payload r"
  have "(\<exists>r1. consumes r as r1 \<and> consumes r1 bs r') \<longleftrightarrow>
        ?o + length as + length bs \<le> length ?p \<and>
        take (length as) (drop ?o ?p) = as \<and>
        take (length bs) (drop (length as) (drop ?o ?p)) = bs \<and>
        r' = r\<lparr>rd_offset := ?o + length as + length bs\<rparr>"
    unfolding consumes_def by (auto simp: add.commute)
  also have "\<dots> \<longleftrightarrow> consumes r (as @ bs) r'"
  proof (cases "?o + length as + length bs \<le> length ?p")
    case True
    then have "length as + length bs \<le> length (drop ?o ?p)" by simp
    from take_add_eq_append [OF this] True show ?thesis
      unfolding consumes_def length_append by (simp add: add.assoc)
  next
    case False
    then show ?thesis by (simp add: consumes_def)
  qed
  finally show ?thesis by blast
qed

lemma reader_read_consumes:
  "reader_read n r = Inr (bs, r') \<longleftrightarrow> consumes r bs r' \<and> n = int (length bs)"
proof
  assume "reader_read n r = Inr (bs, r')"
  then have n: "0 \<le> n" "int (rd_offset r) + n \<le> int (length (rd_payload r))"
    and bs: "bs = take (nat n) (drop (rd_offset r) (rd_payload r))"
    and r': "r' = r\<lparr>rd_offset := nat (int (rd_offset r) + n)\<rparr>"
    by (auto simp: reader_read_def Let_def split: if_splits)
  from n bs have len: "length bs = nat n" by simp
  with n r' show "consumes r bs r' \<and> n = int (length bs)"
    unfolding consumes_def by (auto simp: bs nat_add_distrib)
next
  assume c: "consumes r bs r' \<and> n = int (length bs)"
  then have "int (rd_offset r) + n \<le> int (length (rd_payload r))"
    "take (nat n) (drop (rd_offset r) (rd_payload r)) = bs"
    "r\<lparr>rd_offset := nat (int (rd_offset r) + n)\<rparr> = r'"
    by (auto simp: consumes_def nat_add_distrib)
  with c show "reader_read n r = Inr (bs, r')" by (simp add: reader_read_def Let_def)
qed

lemma consumes_new_reader:
  assumes "consumes (new_reader p) bs r"
  shows "require_finished r = Inr () \<longleftrightarrow> p = bs"
proof -
  from assms have "take (length bs) p = bs" "rd_offset r = length bs" "rd_payload r = p"
    by (simp_all add: consumes_def new_reader_def)
  then show ?thesis
    by (metis (no_types, lifting) Inl_Inr_False order_refl require_finished_def take_all)
qed

lemma consumes_whole: "consumes (new_reader p) p \<lparr>rd_payload = p, rd_offset = length p\<rparr>"
  by (simp add: consumes_def new_reader_def)

section \<open>The interface of a codec\<close>

locale reader_codec =
  fixes enc :: "'a \<Rightarrow> bytes result"
    and dec :: "byte_reader \<Rightarrow> ('a \<times> byte_reader) result"
    and wf :: "'a \<Rightarrow> bool"
  assumes enc_total: "wf x \<Longrightarrow> \<exists>bs. enc x = Inr bs"
    and dec_enc: "wf x \<Longrightarrow> enc x = Inr bs \<Longrightarrow> consumes r bs r' \<Longrightarrow> dec r = Inr (x, r')"
    and enc_dec: "dec r = Inr (x, r') \<Longrightarrow> wf x \<and> (\<exists>bs. enc x = Inr bs \<and> consumes r bs r')"

text \<open>Encoding a sequence item by item, and reading \<open>n\<close> items: \<^verbatim>\<open>for _ in range(n)\<close>.\<close>

definition encode_list :: "('a \<Rightarrow> bytes result) \<Rightarrow> 'a list \<Rightarrow> bytes result" where
  "encode_list enc xs = rbind (rmap enc xs) (\<lambda>bss. Inr (concat bss))"

primrec decode_n ::
  "(byte_reader \<Rightarrow> ('a \<times> byte_reader) result) \<Rightarrow> nat \<Rightarrow> byte_reader \<Rightarrow> ('a list \<times> byte_reader) result"
where
  "decode_n dec 0 r = Inr ([], r)"
| "decode_n dec (Suc n) r =
     rbind (dec r) (\<lambda>(x, r1). rbind (decode_n dec n r1) (\<lambda>(xs, r2). Inr (x # xs, r2)))"

definition decode_all :: "(byte_reader \<Rightarrow> ('a \<times> byte_reader) result) \<Rightarrow> bytes \<Rightarrow> 'a result" where
  "decode_all dec p =
     rbind (dec (new_reader p)) (\<lambda>(x, r). rbind (require_finished r) (\<lambda>_. Inr x))"

lemma encode_list_Nil [simp]: "encode_list enc [] = Inr []"
  by (simp add: encode_list_def)

lemma encode_list_Cons [simp]:
  "encode_list enc (x # xs) =
     rbind (enc x) (\<lambda>b. rbind (encode_list enc xs) (\<lambda>bs. Inr (b @ bs)))"
  by (simp add: encode_list_def rbind_assoc)

context reader_codec
begin

lemma list_total: "list_all wf xs \<Longrightarrow> \<exists>bs. encode_list enc xs = Inr bs"
proof (induction xs)
  case Nil
  then show ?case by simp
next
  case (Cons x xs)
  then show ?case using enc_total [of x] by auto
qed

lemma list_dec_enc:
  "list_all wf xs \<Longrightarrow> encode_list enc xs = Inr bs \<Longrightarrow> consumes r bs r' \<Longrightarrow> length xs = n \<Longrightarrow>
   decode_n dec n r = Inr (xs, r')"
proof (induction xs arbitrary: bs r n)
  case Nil
  then show ?case by auto
next
  case (Cons x xs)
  then obtain b bs' r1 where "enc x = Inr b" "encode_list enc xs = Inr bs'"
      "consumes r b r1" "consumes r1 bs' r'"
    by (auto simp: consumes_append)
  with Cons show ?case by (auto simp: dec_enc)
qed

lemma list_enc_dec:
  assumes "rd_offset r \<le> length (rd_payload r)"
  shows "decode_n dec n r = Inr (xs, r') \<Longrightarrow>
    list_all wf xs \<and> length xs = n \<and> (\<exists>bs. encode_list enc xs = Inr bs \<and> consumes r bs r')"
  using assms
proof (induction n arbitrary: xs r)
  case 0
  then show ?case by auto
next
  case (Suc n)
  then obtain x r1 xs1 where x: "dec r = Inr (x, r1)" "decode_n dec n r1 = Inr (xs1, r')"
      "xs = x # xs1"
    by auto
  from enc_dec [OF x(1)] obtain b where b: "wf x" "enc x = Inr b" "consumes r b r1" by blast
  then have "rd_offset r1 \<le> length (rd_payload r1)" by (auto simp: consumes_def)
  with Suc.IH [OF x(2)] b x(3) show ?case by (auto simp: consumes_append)
qed

lemma all_dec_enc: "wf x \<Longrightarrow> enc x = Inr p \<Longrightarrow> decode_all dec p = Inr x"
  using dec_enc [OF _ _ consumes_whole [of p]]
  by (auto simp: decode_all_def require_finished_def)

lemma all_enc_dec: "decode_all dec p = Inr x \<Longrightarrow> wf x \<and> enc x = Inr p"
  using enc_dec consumes_new_reader by (fastforce simp: decode_all_def)

lemma enc_inject: "wf x \<Longrightarrow> wf y \<Longrightarrow> enc x = enc y \<Longrightarrow> x = y"
  by (metis all_dec_enc enc_total sum.inject(2))

end

end
