(* ===== verification/Utf8.thy ===== *)
theory Utf8
  imports Byte_Codec
begin

text \<open>
  UTF-8 as \<^verbatim>\<open>str.encode("utf-8")\<close> and \<^verbatim>\<open>bytes.decode("utf-8")\<close> compute it (strict mode):
  surrogates cannot be encoded; overlong forms, encoded surrogates, values past U+10FFFF and stray
  or missing continuation bytes do not decode. The two are inverse to each other in both directions,
  which is what makes the text fields of the consensus encoding canonical.
\<close>

definition is_scalar :: "int \<Rightarrow> bool" where
  "is_scalar c \<longleftrightarrow> 0 \<le> c \<and> c \<le> 0x10FFFF \<and> \<not> (0xD800 \<le> c \<and> c \<le> 0xDFFF)"

definition utf8_char :: "int \<Rightarrow> bytes" where
  "utf8_char c =
     (if c < 0x80 then [word_of_int c]
      else if c < 0x800 then [word_of_int (0xC0 + c div 64), word_of_int (0x80 + c mod 64)]
      else if c < 0x10000 then
        [word_of_int (0xE0 + c div 4096), word_of_int (0x80 + c div 64 mod 64),
         word_of_int (0x80 + c mod 64)]
      else
        [word_of_int (0xF0 + c div 262144), word_of_int (0x80 + c div 4096 mod 64),
         word_of_int (0x80 + c div 64 mod 64), word_of_int (0x80 + c mod 64)])"

definition utf8_encode :: "pystr \<Rightarrow> bytes result" where
  "utf8_encode s =
     (if list_all is_scalar s then Inr (concat (map utf8_char s)) else Inl UnicodeEncodeError)"

text \<open>The payload bits of a continuation byte, if it is one.\<close>

definition cont :: "byte \<Rightarrow> int option" where
  "cont b = (if 0x80 \<le> uint b \<and> uint b < 0xC0 then Some (uint b - 0x80) else None)"

fun utf8_decode :: "bytes \<Rightarrow> pystr option" where
  "utf8_decode [] = Some []"
| "utf8_decode (b0 # bs) =
     (let n = uint b0 in
      if n < 0x80 then map_option ((#) n) (utf8_decode bs)
      else if 0xC0 \<le> n \<and> n < 0xE0 then
        (case bs of
           b1 # bs1 \<Rightarrow>
             (case cont b1 of
                Some x1 \<Rightarrow>
                  (let v = (n - 0xC0) * 64 + x1 in
                   if 0x80 \<le> v then map_option ((#) v) (utf8_decode bs1) else None)
              | None \<Rightarrow> None)
         | _ \<Rightarrow> None)
      else if 0xE0 \<le> n \<and> n < 0xF0 then
        (case bs of
           b1 # b2 # bs2 \<Rightarrow>
             (case (cont b1, cont b2) of
                (Some x1, Some x2) \<Rightarrow>
                  (let v = (n - 0xE0) * 4096 + x1 * 64 + x2 in
                   if 0x800 \<le> v \<and> is_scalar v then map_option ((#) v) (utf8_decode bs2) else None)
              | _ \<Rightarrow> None)
         | _ \<Rightarrow> None)
      else if 0xF0 \<le> n \<and> n < 0xF8 then
        (case bs of
           b1 # b2 # b3 # bs3 \<Rightarrow>
             (case (cont b1, cont b2, cont b3) of
                (Some x1, Some x2, Some x3) \<Rightarrow>
                  (let v = (n - 0xF0) * 262144 + x1 * 4096 + x2 * 64 + x3 in
                   if 0x10000 \<le> v \<and> is_scalar v then map_option ((#) v) (utf8_decode bs3)
                   else None)
              | _ \<Rightarrow> None)
         | _ \<Rightarrow> None)
      else None)"

section \<open>Decoding inverts encoding\<close>

lemma cont_of_int: "0 \<le> x \<Longrightarrow> x < 64 \<Longrightarrow> cont (word_of_int (0x80 + x)) = Some x"
  using uint_byte_of_int [of "0x80 + x"] by (simp add: cont_def)

lemma cont_SomeD: "cont b = Some x \<Longrightarrow> b = word_of_int (0x80 + x) \<and> 0 \<le> x \<and> x < 64"
  by (auto simp: cont_def split: if_splits)

lemma lead_of_int: "0 \<le> x \<Longrightarrow> x < 256 \<Longrightarrow> uint (word_of_int x :: byte) = x"
  by (rule uint_byte_of_int)

lemma div_4096: "(c :: int) div 4096 = c div 64 div 64"
  using zdiv_zmult2_eq [of 64 c 64] by simp

lemma div_262144: "(c :: int) div 262144 = c div 64 div 64 div 64"
  using zdiv_zmult2_eq [of 64 c 4096] by (simp add: div_4096)

lemma join_3: "(c :: int) div 4096 * 4096 + c div 64 mod 64 * 64 + c mod 64 = c"
  using div_mult_mod_eq [of c 64] div_mult_mod_eq [of "c div 64" 64]
  unfolding div_4096 by linarith

lemma join_4:
  "(c :: int) div 262144 * 262144 + c div 4096 mod 64 * 4096 + c div 64 mod 64 * 64 + c mod 64 = c"
  using div_mult_mod_eq [of c 64] div_mult_mod_eq [of "c div 64" 64]
    div_mult_mod_eq [of "c div 64 div 64" 64]
  unfolding div_262144 div_4096 by linarith

lemma split_2:
  fixes q r :: int
  assumes "0 \<le> r" and "r < 64"
  shows "(q * 64 + r) div 64 = q" and "(q * 64 + r) mod 64 = r"
  using assms by auto

lemma split_3:
  fixes q r s v :: int
  assumes "0 \<le> r" "r < 64" "0 \<le> s" "s < 64" and v: "v = q * 4096 + r * 64 + s"
  shows "v div 4096 = q" and "v div 64 mod 64 = r" and "v mod 64 = s"
proof -
  have "v = (q * 64 + r) * 64 + s" by (simp add: v)
  with assms split_2 [of s "q * 64 + r"] split_2 [of r q]
  show "v div 4096 = q" "v div 64 mod 64 = r" "v mod 64 = s" by (simp_all add: div_4096)
qed

lemma split_4:
  fixes q r s t v :: int
  assumes "0 \<le> r" "r < 64" "0 \<le> s" "s < 64" "0 \<le> t" "t < 64"
    and v: "v = q * 262144 + r * 4096 + s * 64 + t"
  shows "v div 262144 = q" and "v div 4096 mod 64 = r" and "v div 64 mod 64 = s" and "v mod 64 = t"
proof -
  have "v = (q * 4096 + r * 64 + s) * 64 + t" by (simp add: v)
  with assms have "v div 64 = q * 4096 + r * 64 + s" and t: "v mod 64 = t"
    using split_2 [of t "q * 4096 + r * 64 + s"] by simp_all
  with split_3 [OF assms(1-4), of "v div 64" q]
  show "v div 262144 = q" "v div 4096 mod 64 = r" "v div 64 mod 64 = s"
    by (simp_all add: div_262144 div_4096)
  show "v mod 64 = t" by (rule t)
qed

lemma utf8_decode_char:
  assumes "is_scalar c"
  shows "utf8_decode (utf8_char c @ bs) = map_option ((#) c) (utf8_decode bs)"
proof -
  from assms have c: "0 \<le> c" "c \<le> 0x10FFFF" by (auto simp: is_scalar_def)
  have m64: "cont (word_of_int (0x80 + x mod 64)) = Some (x mod 64)" for x
    by (rule cont_of_int) auto
  consider "c < 0x80" | "0x80 \<le> c" "c < 0x800" | "0x800 \<le> c" "c < 0x10000" | "0x10000 \<le> c"
    by linarith
  then show ?thesis
  proof cases
    case 1
    with c have "uint (word_of_int c :: byte) = c" by (intro lead_of_int) auto
    with 1 show ?thesis by (simp add: utf8_char_def)
  next
    case 2
    then have l: "uint (word_of_int (0xC0 + c div 64) :: byte) = 0xC0 + c div 64"
      and "c div 64 * 64 + c mod 64 = c" by (intro lead_of_int) auto
    moreover have "c div 64 < 32" "0 \<le> c div 64" using 2 by auto
    ultimately show ?thesis using 2 c m64 [of c]
      by (simp add: utf8_char_def Let_def del: of_int_add)
  next
    case 3
    then have l: "uint (word_of_int (0xE0 + c div 4096) :: byte) = 0xE0 + c div 4096"
      by (intro lead_of_int) auto
    moreover have "c div 4096 < 16" "0 \<le> c div 4096" using 3 by auto
    ultimately show ?thesis using 3 c m64 [of c] m64 [of "c div 64"] assms join_3 [of c]
      by (simp add: utf8_char_def Let_def del: of_int_add)
  next
    case 4
    then have l: "uint (word_of_int (0xF0 + c div 262144) :: byte) = 0xF0 + c div 262144"
      using c by (intro lead_of_int) auto
    moreover have "c div 262144 < 8" "0 \<le> c div 262144" using 4 c by auto
    ultimately show ?thesis
      using 4 c m64 [of c] m64 [of "c div 64"] m64 [of "c div 4096"] assms join_4 [of c]
      by (simp add: utf8_char_def Let_def del: of_int_add)
  qed
qed

lemma utf8_decode_encode: "utf8_encode s = Inr bs \<Longrightarrow> utf8_decode bs = Some s"
proof (induction s arbitrary: bs)
  case Nil
  then show ?case by (simp add: utf8_encode_def)
next
  case (Cons c s)
  then show ?case by (auto simp: utf8_encode_def utf8_decode_char split: if_splits)
qed

section \<open>Every accepted byte string is an encoding\<close>

text \<open>One step of the decoder: the first character and the bytes behind it.\<close>

lemma utf8_decode_step:
  assumes "utf8_decode (b # bs) = Some s"
  obtains c cs rest where "s = c # cs" "is_scalar c" "b # bs = utf8_char c @ rest"
    "utf8_decode rest = Some cs" "length rest < length (b # bs)"
proof -
  have bnd: "0 \<le> uint b" "uint b < 256" using uint_byte_bounds [of b] by auto
  have b: "b = word_of_int (uint b)" by simp
  consider "uint b < 0x80" | "0xC0 \<le> uint b" "uint b < 0xE0" | "0xE0 \<le> uint b" "uint b < 0xF0"
    | "0xF0 \<le> uint b" "uint b < 0xF8" | "utf8_decode (b # bs) = None"
    by (force simp: Let_def)
  then show ?thesis
  proof cases
    case 1
    with assms obtain cs where "s = uint b # cs" "utf8_decode bs = Some cs" by auto
    with 1 bnd that [of "uint b" cs bs] show ?thesis
      by (simp add: is_scalar_def utf8_char_def)
  next
    case 2
    with assms obtain b1 bs1 x1 cs where p: "bs = b1 # bs1" "cont b1 = Some x1"
        "0x80 \<le> (uint b - 0xC0) * 64 + x1" "s = ((uint b - 0xC0) * 64 + x1) # cs"
        "utf8_decode bs1 = Some cs"
      by (auto simp: Let_def split: list.splits option.splits if_splits)
    define v where "v = (uint b - 0xC0) * 64 + x1"
    from cont_SomeD [OF p(2)] have x: "b1 = word_of_int (0x80 + x1)" "0 \<le> x1" "x1 < 64" by auto
    with 2 have "v div 64 = uint b - 0xC0" "v mod 64 = x1" "v < 0x800"
      using split_2 [OF x(2,3), of "uint b - 0xC0"] by (simp_all add: v_def)
    moreover have "0x80 \<le> v" using p(3) by (simp add: v_def)
    ultimately have "is_scalar v" "b # bs = utf8_char v @ bs1"
      using p x by (simp_all add: is_scalar_def utf8_char_def del: of_int_add)
    with p show ?thesis by (intro that [of v cs bs1]) (auto simp: v_def)
  next
    case 3
    with assms obtain b1 b2 bs2 x1 x2 cs where p: "bs = b1 # b2 # bs2" "cont b1 = Some x1"
        "cont b2 = Some x2" "0x800 \<le> (uint b - 0xE0) * 4096 + x1 * 64 + x2"
        "is_scalar ((uint b - 0xE0) * 4096 + x1 * 64 + x2)"
        "s = ((uint b - 0xE0) * 4096 + x1 * 64 + x2) # cs" "utf8_decode bs2 = Some cs"
      by (auto simp: Let_def split: list.splits option.splits if_splits)
    define v where "v = (uint b - 0xE0) * 4096 + x1 * 64 + x2"
    from cont_SomeD [OF p(2)] cont_SomeD [OF p(3)]
    have x: "b1 = word_of_int (0x80 + x1)" "0 \<le> x1" "x1 < 64"
      "b2 = word_of_int (0x80 + x2)" "0 \<le> x2" "x2 < 64" by auto
    have "v < 0x10000" using 3 x by (simp add: v_def)
    moreover have "0x800 \<le> v" using p(4) by (simp add: v_def)
    ultimately have "b # bs = utf8_char v @ bs2"
      using p x split_3 [OF x(2,3,5,6) v_def] by (simp add: utf8_char_def del: of_int_add)
    with p show ?thesis by (intro that [of v cs bs2]) (auto simp: v_def)
  next
    case 4
    with assms obtain b1 b2 b3 bs3 x1 x2 x3 cs where p: "bs = b1 # b2 # b3 # bs3"
        "cont b1 = Some x1" "cont b2 = Some x2" "cont b3 = Some x3"
        "0x10000 \<le> (uint b - 0xF0) * 262144 + x1 * 4096 + x2 * 64 + x3"
        "is_scalar ((uint b - 0xF0) * 262144 + x1 * 4096 + x2 * 64 + x3)"
        "s = ((uint b - 0xF0) * 262144 + x1 * 4096 + x2 * 64 + x3) # cs"
        "utf8_decode bs3 = Some cs"
      by (auto simp: Let_def split: list.splits option.splits if_splits)
    define v where "v = (uint b - 0xF0) * 262144 + x1 * 4096 + x2 * 64 + x3"
    from cont_SomeD [OF p(2)] cont_SomeD [OF p(3)] cont_SomeD [OF p(4)]
    have x: "b1 = word_of_int (0x80 + x1)" "0 \<le> x1" "x1 < 64"
      "b2 = word_of_int (0x80 + x2)" "0 \<le> x2" "x2 < 64"
      "b3 = word_of_int (0x80 + x3)" "0 \<le> x3" "x3 < 64" by auto
    moreover have "0x10000 \<le> v" using p(5) by (simp add: v_def)
    ultimately have "b # bs = utf8_char v @ bs3"
      using p split_4 [OF x(2,3,5,6,8,9) v_def] by (simp add: utf8_char_def del: of_int_add)
    with p show ?thesis by (intro that [of v cs bs3]) (auto simp: v_def)
  next
    case 5
    with assms show ?thesis by simp
  qed
qed

lemma utf8_encode_decode: "utf8_decode bs = Some s \<Longrightarrow> utf8_encode s = Inr bs"
proof (induction "length bs" arbitrary: bs s rule: less_induct)
  case less
  show ?case
  proof (cases bs)
    case Nil
    with less.prems show ?thesis by (simp add: utf8_encode_def)
  next
    case (Cons b bs')
    from less.prems Cons obtain c cs rest where st: "s = c # cs" "is_scalar c"
        "bs = utf8_char c @ rest" "utf8_decode rest = Some cs" "length rest < length bs"
      by (metis utf8_decode_step)
    with less.hyps [of rest cs] show ?thesis by (auto simp: utf8_encode_def split: if_splits)
  qed
qed

lemma utf8_decode_iff: "utf8_decode bs = Some s \<longleftrightarrow> utf8_encode s = Inr bs"
  using utf8_decode_encode utf8_encode_decode by blast

end
