(* ===== verification/Json.thy ===== *)
theory Json
  imports Utf8
begin

text \<open>
  JSON values and \<^verbatim>\<open>json.dumps(value, sort_keys=True, separators=(",", ":"), ensure_ascii=True)\<close>,
  the text \<^verbatim>\<open>crypto.canonical_json\<close> produces for signing messages, chain parameters and key
  fingerprints: objects in key order, no blanks, every character outside printable ASCII escaped.
  A \<^verbatim>\<open>float\<close> in a JSON value is kept as its \<^verbatim>\<open>repr\<close>, the text \<^verbatim>\<open>json.dumps\<close> writes for it.
\<close>

datatype json =
    JNull
  | JBool bool
  | JInt int
  | JFloat pystr
  | JStr pystr
  | JList "json list"
  | JObj "(pystr \<times> json) list"

fun nat_repr :: "nat \<Rightarrow> pystr" where
  "nat_repr n = (if n < 10 then [48 + int n] else nat_repr (n div 10) @ [48 + int (n mod 10)])"

declare nat_repr.simps [simp del]

definition int_repr :: "int \<Rightarrow> pystr" where
  "int_repr i = (if i < 0 then 45 # nat_repr (nat (- i)) else nat_repr (nat i))"

definition hex4 :: "int \<Rightarrow> pystr" where
  "hex4 n = ascii [CHR 0x5C, CHR ''u''] @
     [hex_digit (n div 4096 mod 16), hex_digit (n div 256 mod 16), hex_digit (n div 16 mod 16),
      hex_digit (n mod 16)]"

definition json_char :: "int \<Rightarrow> pystr" where
  "json_char c =
     (if c = 34 then [92, 34]
      else if c = 92 then [92, 92]
      else if c = 10 then [92, 110]
      else if c = 13 then [92, 114]
      else if c = 9 then [92, 116]
      else if c = 12 then [92, 102]
      else if c = 8 then [92, 98]
      else if 32 \<le> c \<and> c \<le> 126 then [c]
      else if c < 0x10000 then hex4 c
      else hex4 (0xD800 + (c - 0x10000) div 1024) @ hex4 (0xDC00 + (c - 0x10000) mod 1024))"

definition json_string :: "pystr \<Rightarrow> pystr" where
  "json_string s = [34] @ concat (map json_char s) @ [34]"

fun join_comma :: "pystr list \<Rightarrow> pystr" where
  "join_comma [] = []"
| "join_comma [x] = x"
| "join_comma (x # y # ys) = x @ [44] @ join_comma (y # ys)"

primrec dumps :: "json \<Rightarrow> pystr" where
  "dumps JNull = ascii ''null''"
| "dumps (JBool b) = (if b then ascii ''true'' else ascii ''false'')"
| "dumps (JInt i) = int_repr i"
| "dumps (JFloat t) = t"
| "dumps (JStr s) = json_string s"
| "dumps (JList vs) = [91] @ join_comma (map dumps vs) @ [93]"
| "dumps (JObj kvs) =
     [123] @ join_comma (map (\<lambda>(k, t). json_string k @ [58] @ t)
                             (sort_key fst (map (map_prod id dumps) kvs))) @ [125]"

section \<open>The text is ASCII, so encoding it never fails\<close>

definition is_ascii :: "pystr \<Rightarrow> bool" where
  "is_ascii s \<longleftrightarrow> list_all (\<lambda>c. 0 \<le> c \<and> c < 128) s"

lemma is_ascii_simps [simp]:
  "is_ascii []" "is_ascii (c # s) \<longleftrightarrow> 0 \<le> c \<and> c < 128 \<and> is_ascii s"
  "is_ascii (s @ t) \<longleftrightarrow> is_ascii s \<and> is_ascii t"
  by (auto simp: is_ascii_def)

lemma is_ascii_concat: "(\<And>x. x \<in> set xs \<Longrightarrow> is_ascii x) \<Longrightarrow> is_ascii (concat xs)"
  by (induction xs) auto

lemma is_ascii_join_comma: "(\<And>x. x \<in> set xs \<Longrightarrow> is_ascii x) \<Longrightarrow> is_ascii (join_comma xs)"
  by (induction xs rule: join_comma.induct) auto

lemma is_ascii_nat_repr: "is_ascii (nat_repr n)"
proof (induction n rule: nat_repr.induct)
  case (1 n)
  then show ?case by (cases "n < 10") (auto simp: nat_repr.simps [of n])
qed

lemma is_ascii_int_repr: "is_ascii (int_repr i)"
  by (simp add: int_repr_def is_ascii_nat_repr)

lemma is_ascii_hex4: "is_ascii (hex4 n)"
proof -
  have "0 \<le> hex_digit (k mod 16) \<and> hex_digit (k mod 16) < 128" for k
    using hex_digit_props(3) [of "k mod 16"] by (auto simp: is_lower_hex_iff)
  then show ?thesis by (simp add: hex4_def ascii_def)
qed

lemma is_ascii_json_string: "is_ascii (json_string s)"
  by (auto simp: json_string_def json_char_def is_ascii_hex4 intro!: is_ascii_concat)

primrec floats_ascii :: "json \<Rightarrow> bool" where
  "floats_ascii JNull = True"
| "floats_ascii (JBool b) = True"
| "floats_ascii (JInt i) = True"
| "floats_ascii (JFloat t) = is_ascii t"
| "floats_ascii (JStr s) = True"
| "floats_ascii (JList vs) = list_all id (map floats_ascii vs)"
| "floats_ascii (JObj kvs) = list_all snd (map (map_prod id floats_ascii) kvs)"

lemma is_ascii_dumps: "floats_ascii v \<Longrightarrow> is_ascii (dumps v)"
proof (induction v)
  case (JObj kvs)
  have "is_ascii (dumps t)" if "(k, t) \<in> set kvs" for k t
    using that JObj by (fastforce simp: snds.simps list_all_iff)
  then show ?case
    by (auto simp: is_ascii_json_string intro!: is_ascii_join_comma)
qed (auto simp: is_ascii_int_repr is_ascii_json_string ascii_def list_all_iff intro!: is_ascii_join_comma)

lemma utf8_encode_ascii: "is_ascii s \<Longrightarrow> utf8_encode s = Inr (map word_of_int s)"
proof (induction s)
  case Nil
  then show ?case by (simp add: utf8_encode_def)
next
  case (Cons c s)
  then show ?case by (auto simp: utf8_encode_def utf8_char_def is_scalar_def split: if_splits)
qed

end
