(* ===== verification/Crypto.thy ===== *)
theory Crypto
  imports Json
begin

text \<open>
  \<^verbatim>\<open>crypto.py\<close>: hashing helpers, unpadded URL-safe base64, addresses, public keys, signing and
  signature verification.

  The primitives come from outside the package and are the fields of \<open>crypto\<close>, an argument of every
  definition that hashes or verifies: the SHA-256 digest of \<^verbatim>\<open>hashlib\<close> and the Ed25519 operations
  of the \<^verbatim>\<open>cryptography\<close> library. What the development relies on is stated as the two predicates
  \<open>digest_ok\<close> (a digest is 32 bytes) and \<open>ed25519_ok\<close> (a private key has a usable public key, a
  signature is 64 bytes, and one made with a private key verifies under its public key).
\<close>

record crypto =
  sha256_digest :: "bytes \<Rightarrow> bytes"
  ed25519_key_ok :: "bytes \<Rightarrow> bool" \<comment> \<open>\<^verbatim>\<open>from_public_bytes\<close> does not raise \<^verbatim>\<open>ValueError\<close>\<close>
  ed25519_verify :: "bytes \<Rightarrow> bytes \<Rightarrow> bytes \<Rightarrow> bool" \<comment> \<open>key, signature, message\<close>
  ed25519_secret_ok :: "bytes \<Rightarrow> bool" \<comment> \<open>\<^verbatim>\<open>from_private_bytes\<close> does not raise \<^verbatim>\<open>ValueError\<close>\<close>
  ed25519_public :: "bytes \<Rightarrow> bytes"
  ed25519_sign :: "bytes \<Rightarrow> bytes \<Rightarrow> bytes" \<comment> \<open>private key, message\<close>

definition digest_ok :: "crypto \<Rightarrow> bool" where
  "digest_ok C \<longleftrightarrow> (\<forall>x. length (sha256_digest C x) = 32)"

definition ed25519_ok :: "crypto \<Rightarrow> bool" where
  "ed25519_ok C \<longleftrightarrow>
     (\<forall>sk m. ed25519_secret_ok C sk \<longrightarrow>
        ed25519_key_ok C (ed25519_public C sk) \<and> length (ed25519_sign C sk m) = 64 \<and>
        ed25519_verify C (ed25519_public C sk) (ed25519_sign C sk m) m)"

section \<open>Constants and hashing\<close>

definition MAX_MONEY :: int where
  "MAX_MONEY = 21000000000000000"

definition ADDRESS_PREFIX :: pystr where
  "ADDRESS_PREFIX = ascii ''bcc_''"

definition KEY_ALGORITHM :: pystr where
  "KEY_ALGORITHM = ascii ''ed25519''"

text \<open>\<^verbatim>\<open>sha256_hex\<close> on bytes, and on text, which is encoded first and may fail to.\<close>

definition sha256_hex :: "crypto \<Rightarrow> bytes \<Rightarrow> pystr" where
  "sha256_hex C bs = hexlify (sha256_digest C bs)"

definition sha256_hex_text :: "crypto \<Rightarrow> pystr \<Rightarrow> pystr result" where
  "sha256_hex_text C s = rbind (utf8_encode s) (\<lambda>bs. Inr (sha256_hex C bs))"

definition canonical_json :: "json \<Rightarrow> pystr" where
  "canonical_json v = dumps v"

lemma is_hash_sha256_hex: "digest_ok C \<Longrightarrow> is_hash (sha256_hex C bs)"
  by (simp add: sha256_hex_def digest_ok_def is_hash_hexlify)

section \<open>Base64\<close>

definition b64_char :: "int \<Rightarrow> int" where
  "b64_char i =
     (if i < 26 then 65 + i else if i < 52 then 71 + i else if i < 62 then i - 4
      else if i = 62 then 45 else 95)"

text \<open>After \<^verbatim>\<open>urlsafe_b64decode\<close>'s translation both \<^verbatim>\<open>-\<close> and \<^verbatim>\<open>+\<close> are 62, \<^verbatim>\<open>_\<close> and \<^verbatim>\<open>/\<close> are 63.\<close>

definition b64_value :: "int \<Rightarrow> int option" where
  "b64_value c =
     (if 65 \<le> c \<and> c \<le> 90 then Some (c - 65)
      else if 97 \<le> c \<and> c \<le> 122 then Some (c - 71)
      else if 48 \<le> c \<and> c \<le> 57 then Some (c + 4)
      else if c = 45 \<or> c = 43 then Some 62
      else if c = 95 \<or> c = 47 then Some 63
      else None)"

fun urlsafe_b64encode :: "bytes \<Rightarrow> pystr" where
  "urlsafe_b64encode [] = []"
| "urlsafe_b64encode [a] =
     [b64_char (uint a div 4), b64_char (uint a mod 4 * 16), 61, 61]"
| "urlsafe_b64encode [a, b] =
     [b64_char (uint a div 4), b64_char (uint a mod 4 * 16 + uint b div 16),
      b64_char (uint b mod 16 * 4), 61]"
| "urlsafe_b64encode (a # b # c # bs) =
     b64_char (uint a div 4) # b64_char (uint a mod 4 * 16 + uint b div 16) #
     b64_char (uint b mod 16 * 4 + uint c div 64) # b64_char (uint c mod 64) #
     urlsafe_b64encode bs"

definition b64encode :: "bytes \<Rightarrow> pystr" where
  "b64encode bs = rev (dropWhile (\<lambda>c. c = 61) (rev (urlsafe_b64encode bs)))"

text \<open>
  The lenient scanner of \<^verbatim>\<open>binascii.a2b_base64\<close>: the position in the quad, the bits carried over and
  the pad characters seen; characters outside the alphabet are skipped, a complete pad ends the
  input.
\<close>

fun a2b_base64 :: "nat \<Rightarrow> int \<Rightarrow> nat \<Rightarrow> int list \<Rightarrow> bytes result" where
  "a2b_base64 quad left pads [] =
     (if quad = 0 then Inr [] else Inl (ValueError (ascii ''Incorrect padding'')))"
| "a2b_base64 quad left pads (c # cs) =
     (if c = 61 then
        (if 2 \<le> quad
         then if 4 \<le> quad + (pads + 1) then Inr [] else a2b_base64 quad left (pads + 1) cs
         else a2b_base64 quad left pads cs)
      else case b64_value c of
        None \<Rightarrow> a2b_base64 quad left pads cs
      | Some v \<Rightarrow>
          (if quad = 0 then a2b_base64 1 v 0 cs
           else if quad = 1 then
             rbind (a2b_base64 2 (v mod 16) 0 cs)
                   (\<lambda>bs. Inr (word_of_int (left * 4 + v div 16) # bs))
           else if quad = 2 then
             rbind (a2b_base64 3 (v mod 4) 0 cs)
                   (\<lambda>bs. Inr (word_of_int (left * 16 + v div 4) # bs))
           else
             rbind (a2b_base64 0 0 0 cs) (\<lambda>bs. Inr (word_of_int (left * 64 + v) # bs))))"

definition b64decode :: "pystr \<Rightarrow> bytes result" where
  "b64decode s =
     (let padded = s @ replicate (nat (- int (length s) mod 4)) 61
      in if list_all (\<lambda>c. 0 \<le> c \<and> c < 128) padded then a2b_base64 0 0 0 padded
         else Inl UnicodeEncodeError)"

section \<open>Addresses and keys\<close>

definition is_valid_address :: "pystr \<Rightarrow> bool" where
  "is_valid_address a \<longleftrightarrow>
     take (length ADDRESS_PREFIX) a = ADDRESS_PREFIX \<and>
     (let suffix = drop (length ADDRESS_PREFIX) a
      in length suffix = 40 \<and> list_all is_lower_hex suffix)"

record public_key =
  pk_algorithm :: pystr
  pk_key :: pystr

definition pk_create :: "bytes \<Rightarrow> public_key" where
  "pk_create raw = \<lparr>pk_algorithm = KEY_ALGORITHM, pk_key = b64encode raw\<rparr>"

definition pk_address :: "crypto \<Rightarrow> public_key \<Rightarrow> pystr result" where
  "pk_address C pk = rbind (sha256_hex_text C (pk_key pk)) (\<lambda>h. Inr (ADDRESS_PREFIX @ take 40 h))"

definition pk_material :: "crypto \<Rightarrow> public_key \<Rightarrow> bytes result" where
  "pk_material C pk =
     (if pk_algorithm pk \<noteq> KEY_ALGORITHM
      then Inl (ValueError (ascii ''unsupported public key algorithm: '' @ pk_algorithm pk))
      else rbind (b64decode (pk_key pk)) (\<lambda>raw.
        if ed25519_key_ok C raw then Inr raw
        else Inl (ValueError (ascii ''An Ed25519 public key is 32 bytes long''))))"

definition pk_to_dict :: "public_key \<Rightarrow> (pystr, pystr) dict" where
  "pk_to_dict pk = [(ascii ''algorithm'', pk_algorithm pk), (ascii ''key'', pk_key pk)]"

definition pk_from_dict :: "(pystr, pystr) dict \<Rightarrow> public_key result" where
  "pk_from_dict d =
     (case map_of d (ascii ''algorithm'') of
        None \<Rightarrow> Inl KeyError
      | Some a \<Rightarrow>
          (case map_of d (ascii ''key'') of
             None \<Rightarrow> Inl KeyError
           | Some k \<Rightarrow> Inr \<lparr>pk_algorithm = a, pk_key = k\<rparr>))"

record wallet =
  w_public_key :: public_key
  w_private_key :: pystr

definition wallet_address :: "crypto \<Rightarrow> wallet \<Rightarrow> pystr result" where
  "wallet_address C w = pk_address C (w_public_key w)"

text \<open>\<^verbatim>\<open>Wallet.create\<close>, with the 32 bytes \<^verbatim>\<open>Ed25519PrivateKey.generate\<close> draws as an argument.\<close>

definition wallet_create :: "crypto \<Rightarrow> int option \<Rightarrow> bytes \<Rightarrow> wallet result" where
  "wallet_create C bits raw =
     (if bits \<noteq> None \<and> bits \<noteq> Some 256
      then Inl (ValueError (ascii ''Ed25519 wallets use fixed 256-bit private keys''))
      else Inr \<lparr>w_public_key = pk_create (ed25519_public C raw), w_private_key = b64encode raw\<rparr>)"

definition wallet_sign :: "crypto \<Rightarrow> wallet \<Rightarrow> pystr \<Rightarrow> pystr result" where
  "wallet_sign C w message =
     rbind (b64decode (w_private_key w)) (\<lambda>raw.
       if \<not> ed25519_secret_ok C raw
       then Inl (ValueError (ascii ''An Ed25519 private key is 32 bytes long''))
       else rbind (utf8_encode message) (\<lambda>m. Inr (b64encode (ed25519_sign C raw m))))"

text \<open>
  \<^verbatim>\<open>verify_signature\<close>: every \<^verbatim>\<open>ValueError\<close> of the \<^verbatim>\<open>try\<close> block, the encoding errors among them, is
  a negative answer.
\<close>

definition verify_signature :: "crypto \<Rightarrow> public_key \<Rightarrow> pystr \<Rightarrow> pystr \<Rightarrow> bool" where
  "verify_signature C pk message signature =
     (case rbind (pk_material C pk) (\<lambda>key.
             rbind (b64decode signature) (\<lambda>sig.
             rbind (utf8_encode message) (\<lambda>m. Inr (ed25519_verify C key sig m)))) of
        Inl e \<Rightarrow> False
      | Inr ok \<Rightarrow> ok)"

section \<open>Base64 round trip\<close>

lemma b64_char_props:
  assumes "0 \<le> i" and "i < 64"
  shows "b64_value (b64_char i) = Some i" "b64_char i \<noteq> 61" "0 \<le> b64_char i" "b64_char i < 128"
  using assms by (auto simp: b64_value_def b64_char_def)

lemma sextet_bounds:
  "0 \<le> uint (a :: byte) div 4" "uint a div 4 < 64" "0 \<le> uint a mod 4 * 16"
  "uint a mod 4 * 16 < 64" "0 \<le> uint a mod 4 * 16 + uint (b :: byte) div 16"
  "uint a mod 4 * 16 + uint b div 16 < 64" "0 \<le> uint b mod 16 * 4" "uint b mod 16 * 4 < 64"
  "0 \<le> uint b mod 16 * 4 + uint (c :: byte) div 64" "uint b mod 16 * 4 + uint c div 64 < 64"
  "0 \<le> uint c mod 64" "uint c mod 64 < 64"
proof -
  have x: "0 \<le> uint (x :: byte) div 4" "uint x div 4 < 64" "0 \<le> uint x div 16" "uint x div 16 < 16"
    "0 \<le> uint x div 64" "uint x div 64 < 4" for x
    using uint_byte_bounds [of x] by (auto simp: pos_imp_zdiv_nonneg_iff)
  have m: "uint a mod 4 < 4" "0 \<le> uint a mod 4" "uint b mod 16 < 16" "0 \<le> uint b mod 16"
    "uint c mod 64 < 64" "0 \<le> uint c mod 64" by simp_all
  show "0 \<le> uint a div 4" "uint a div 4 < 64" "0 \<le> uint a mod 4 * 16" "uint a mod 4 * 16 < 64"
    "0 \<le> uint a mod 4 * 16 + uint b div 16" "uint a mod 4 * 16 + uint b div 16 < 64"
    "0 \<le> uint b mod 16 * 4" "uint b mod 16 * 4 < 64"
    "0 \<le> uint b mod 16 * 4 + uint c div 64" "uint b mod 16 * 4 + uint c div 64 < 64"
    "0 \<le> uint c mod 64" "uint c mod 64 < 64"
    using x(1,2) [of a] x(3,4) [of b] x(5,6) [of c] m by linarith+
qed

lemmas b64_step = b64_char_props [OF sextet_bounds(1,2)] b64_char_props [OF sextet_bounds(3,4)]
  b64_char_props [OF sextet_bounds(5,6)] b64_char_props [OF sextet_bounds(7,8)]
  b64_char_props [OF sextet_bounds(9,10)] b64_char_props [OF sextet_bounds(11,12)]

text \<open>The characters before the padding, and how many the padding has.\<close>

fun b64_body :: "bytes \<Rightarrow> pystr" where
  "b64_body [] = []"
| "b64_body [a] = [b64_char (uint a div 4), b64_char (uint a mod 4 * 16)]"
| "b64_body [a, b] =
     [b64_char (uint a div 4), b64_char (uint a mod 4 * 16 + uint b div 16),
      b64_char (uint b mod 16 * 4)]"
| "b64_body (a # b # c # bs) =
     b64_char (uint a div 4) # b64_char (uint a mod 4 * 16 + uint b div 16) #
     b64_char (uint b mod 16 * 4 + uint c div 64) # b64_char (uint c mod 64) # b64_body bs"

lemma b64_body_chars: "list_all (\<lambda>c. c \<noteq> 61 \<and> 0 \<le> c \<and> c < 128) (b64_body bs)"
  by (induction bs rule: b64_body.induct) (simp_all add: b64_step)

lemma urlsafe_b64encode_body:
  "urlsafe_b64encode bs =
     b64_body bs @ replicate (nat (- int (length (b64_body bs)) mod 4)) 61"
proof (induction bs rule: b64_body.induct)
  case (4 a b c bs)
  have "(- int (length (b64_body (a # b # c # bs)))) mod 4 = - int (length (b64_body bs)) mod 4"
    by simp presburger
  with 4 show ?case by simp
qed (simp_all add: numeral_2_eq_2)

lemma b64encode_body: "b64encode bs = b64_body bs"
proof -
  let ?n = "nat (- int (length (b64_body bs)) mod 4)"
  have "dropWhile (\<lambda>c. c = 61) (rev (b64_body bs)) = rev (b64_body bs)"
    using b64_body_chars [of bs]
    by (cases "rev (b64_body bs)") (auto simp: list_all_iff rev_eq_Cons_iff)
  moreover have "dropWhile (\<lambda>c. c = (61 :: int)) (replicate n 61 @ xs) = dropWhile (\<lambda>c. c = 61) xs"
    for n xs by (induction n) auto
  ultimately show ?thesis by (simp add: b64encode_def urlsafe_b64encode_body)
qed

lemma byte_join:
  "word_of_int (uint (a :: byte) div 4 * 4 + (uint a mod 4 * 16 + x) div 16) = a"
  if "0 \<le> x" "x < 16" for x
proof -
  have "(uint a mod 4 * 16 + x) div 16 = uint a mod 4" using that by simp
  then show ?thesis by (simp del: of_int_add)
qed

lemma byte_join2:
  "word_of_int ((uint (a :: byte) mod 4 * 16 + uint (b :: byte) div 16) mod 16 * 16 +
     (uint b mod 16 * 4 + x) div 4) = b"
  if "0 \<le> x" "x < 4" for x
proof -
  have "uint b div 16 < 16" "0 \<le> uint b div 16" using nibble_bounds [of b] by auto
  then have "(uint a mod 4 * 16 + uint b div 16) mod 16 = uint b div 16" by simp
  moreover have "(uint b mod 16 * 4 + x) div 4 = uint b mod 16" using that by simp
  ultimately show ?thesis by (simp del: of_int_add)
qed

lemma byte_join3:
  "word_of_int ((uint (b :: byte) mod 16 * 4 + uint (c :: byte) div 64) mod 4 * 64 + uint c mod 64) = c"
proof -
  have "0 \<le> uint c div 64" "uint c div 64 < 4"
    using uint_byte_bounds [of c] by (auto simp: pos_imp_zdiv_nonneg_iff)
  then have "(uint b mod 16 * 4 + uint c div 64) mod 4 = uint c div 64" by simp
  then show ?thesis by (simp del: of_int_add)
qed

lemma a2b_urlsafe_b64encode: "a2b_base64 0 0 0 (urlsafe_b64encode bs) = Inr bs"
proof (induction bs rule: urlsafe_b64encode.induct)
  case 1
  then show ?case by simp
next
  case (2 a)
  show ?case using byte_join [of 0 a]
    by (simp add: b64_step numeral_2_eq_2 del: of_int_add)
next
  case (3 a b)
  show ?case using byte_join [of "uint b div 16" a] byte_join2 [of 0 a b] nibble_bounds [of b]
    by (simp add: b64_step numeral_3_eq_3 numeral_2_eq_2 del: of_int_add)
next
  case (4 a b c bs)
  have "0 \<le> uint c div 64" "uint c div 64 < 4"
    using uint_byte_bounds [of c] by (auto simp: pos_imp_zdiv_nonneg_iff)
  then show ?case
    using 4 byte_join [of "uint b div 16" a] byte_join2 [of "uint c div 64" a b]
      byte_join3 [of b c] nibble_bounds [of b]
    by (simp add: b64_step numeral_3_eq_3 numeral_2_eq_2 del: of_int_add)
qed

lemma b64decode_b64encode: "b64decode (b64encode bs) = Inr bs"
proof -
  have "list_all (\<lambda>c. 0 \<le> c \<and> c < 128) (urlsafe_b64encode bs)"
    using b64_body_chars [of bs]
    by (auto simp: urlsafe_b64encode_body list_all_iff)
  then show ?thesis
    using a2b_urlsafe_b64encode [of bs]
    by (simp add: b64decode_def b64encode_body Let_def urlsafe_b64encode_body)
qed

lemma b64encode_ascii: "is_ascii (b64encode bs)"
  using b64_body_chars [of bs] by (auto simp: b64encode_body is_ascii_def list_all_iff)

section \<open>Addresses and signatures\<close>

lemma pk_from_to_dict [simp]: "pk_from_dict (pk_to_dict pk) = Inr pk"
  by (simp add: pk_from_dict_def pk_to_dict_def ascii_def)

lemma pk_address_valid:
  assumes "digest_ok C" and "pk_address C pk = Inr a"
  shows "is_valid_address a"
proof -
  from assms(2) obtain h where h: "is_hash h" "a = ADDRESS_PREFIX @ take 40 h"
    using is_hash_sha256_hex [OF assms(1)] by (auto simp: pk_address_def sha256_hex_text_def)
  have "list_all is_lower_hex (take 40 h)"
    using h(1) by (auto simp: is_hash_def list_all_iff dest: in_set_takeD)
  with h show ?thesis by (simp add: is_valid_address_def Let_def is_hash_def)
qed

lemma verify_wallet_signature:
  assumes "ed25519_ok C" and "ed25519_secret_ok C raw"
    and "wallet_create C bits raw = Inr w" and "wallet_sign C w message = Inr sig"
  shows "verify_signature C (w_public_key w) message sig"
  using assms
  by (auto simp: wallet_create_def wallet_sign_def verify_signature_def pk_material_def pk_create_def
      b64decode_b64encode ed25519_ok_def split: if_splits)

lemma wallet_sign_total:
  assumes "ed25519_secret_ok C raw" and "wallet_create C bits raw = Inr w" and "is_ascii message"
  shows "\<exists>sig. wallet_sign C w message = Inr sig"
proof -
  have "wallet_sign C w message = Inr (b64encode (ed25519_sign C raw (map word_of_int message)))"
    using assms
    by (auto simp: wallet_create_def wallet_sign_def b64decode_b64encode utf8_encode_ascii
        split: if_splits)
  then show ?thesis by blast
qed

end
