(* ===== verification/Field_Codec.thy ===== *)
theory Field_Codec
  imports Crypto
begin

text \<open>
  The field encoders and decoders of \<^verbatim>\<open>consensus.py\<close> (\<^verbatim>\<open>_encode_int\<close> to \<^verbatim>\<open>_encode_hash\<close>), each shown
  to be a \<open>reader_codec\<close> on the values it can represent.
\<close>

definition encode_int :: "int \<Rightarrow> bytes result" where
  "encode_int v = pack_q v"

definition encode_uint :: "int \<Rightarrow> bytes result" where
  "encode_uint v =
     (if v < 0 then consensus_error ''unsigned integer cannot be negative'' else pack_Q v)"

definition encode_float :: "64 word \<Rightarrow> bytes result" where
  "encode_float w = Inr (pack_d w)"

definition encode_bytes :: "bytes \<Rightarrow> bytes result" where
  "encode_bytes v =
     (if int (length v) > 2 ^ 32 - 1 then consensus_error ''binary field is too large''
      else rbind (pack_I (int (length v))) (\<lambda>n. Inr (n @ v)))"

definition decode_int :: "byte_reader \<Rightarrow> (int \<times> byte_reader) result" where
  "decode_int r = rbind (reader_read 8 r) (\<lambda>(b, r1). Inr (unpack_q b, r1))"

definition decode_uint :: "byte_reader \<Rightarrow> (int \<times> byte_reader) result" where
  "decode_uint r = rbind (reader_read 8 r) (\<lambda>(b, r1). Inr (be_decode b, r1))"

definition decode_float :: "byte_reader \<Rightarrow> (64 word \<times> byte_reader) result" where
  "decode_float r = rbind (reader_read 8 r) (\<lambda>(b, r1). Inr (unpack_d b, r1))"

definition decode_bytes :: "byte_reader \<Rightarrow> (bytes \<times> byte_reader) result" where
  "decode_bytes r = rbind (reader_read 4 r) (\<lambda>(b, r1). reader_read (be_decode b) r1)"

definition decode_text :: "byte_reader \<Rightarrow> (pystr \<times> byte_reader) result" where
  "decode_text r =
     rbind (decode_bytes r) (\<lambda>(b, r1).
       case utf8_decode b of
         None \<Rightarrow> consensus_error ''text field is not valid utf-8''
       | Some s \<Rightarrow> Inr (s, r1))"

definition encode_text :: "pystr \<Rightarrow> bytes result" where
  "encode_text s = rbind (utf8_encode s) encode_bytes"

definition encode_hash :: "pystr \<Rightarrow> bytes result" where
  "encode_hash s =
     (case fromhex s of
        Inl e \<Rightarrow> consensus_error ''hash field is not hexadecimal''
      | Inr raw \<Rightarrow>
          if length raw \<noteq> 32 then consensus_error ''hash field must be 32 bytes'' else Inr raw)"

text \<open>Reading a hash field back: \<^verbatim>\<open>reader.read(32).hex()\<close>.\<close>

definition decode_hash :: "byte_reader \<Rightarrow> (pystr \<times> byte_reader) result" where
  "decode_hash r = rbind (reader_read 32 r) (\<lambda>(b, r1). Inr (hexlify b, r1))"

section \<open>What a field can hold\<close>

definition int64_ok :: "int \<Rightarrow> bool" where
  "int64_ok v \<longleftrightarrow> - (2 ^ 63) \<le> v \<and> v < 2 ^ 63"

definition uint64_ok :: "int \<Rightarrow> bool" where
  "uint64_ok v \<longleftrightarrow> 0 \<le> v \<and> v < 2 ^ 64"

definition blob_ok :: "bytes \<Rightarrow> bool" where
  "blob_ok v \<longleftrightarrow> int (length v) < 2 ^ 32"

definition text_ok :: "pystr \<Rightarrow> bool" where
  "text_ok s \<longleftrightarrow> (case utf8_encode s of Inl e \<Rightarrow> False | Inr b \<Rightarrow> blob_ok b)"

section \<open>Each field is a codec\<close>

lemma unpack_pack_q:
  assumes "int64_ok v"
  shows "unpack_q (be_encode 8 v) = v"
proof (cases "0 \<le> v")
  case True
  with assms have "be_decode (be_encode 8 v) = v" by (simp add: be_decode_encode int64_ok_def)
  with True assms show ?thesis by (simp add: unpack_q_def Let_def int64_ok_def)
next
  case False
  have "v mod 2 ^ 64 = v + 2 ^ 64"
    using False assms by (intro int_mod_pos_eq [where q = "- 1"]) (auto simp: int64_ok_def)
  then have "be_decode (be_encode 8 v) = v + 2 ^ 64" by (simp add: be_decode_encode)
  with False assms show ?thesis by (simp add: unpack_q_def Let_def int64_ok_def)
qed

lemma pack_unpack_q:
  assumes "length bs = 8"
  shows "int64_ok (unpack_q bs) \<and> be_encode 8 (unpack_q bs) = bs"
proof -
  have bnd: "0 \<le> be_decode bs" "be_decode bs < 2 ^ 64"
    using be_decode_bounds [of bs] assms by auto
  then have "unpack_q bs mod 256 ^ 8 = be_decode bs"
    by (simp add: unpack_q_def Let_def)
  then have "be_encode 8 (unpack_q bs) = be_encode 8 (be_decode bs)"
    by (metis be_encode_mod)
  with bnd assms show ?thesis
    by (auto simp: unpack_q_def Let_def int64_ok_def be_encode_decode)
qed

interpretation int_field: reader_codec encode_int decode_int int64_ok
proof
  fix v bs r r'
  assume "int64_ok v" "encode_int v = Inr bs" "consumes r bs r'"
  moreover from this have "bs = be_encode 8 v" by (auto simp: encode_int_def pack_q_def split: if_splits)
  ultimately show "decode_int r = Inr (v, r')"
    by (auto simp: decode_int_def reader_read_consumes unpack_pack_q)
next
  fix r v r'
  assume "decode_int r = Inr (v, r')"
  then obtain b where "consumes r b r'" "length b = 8" "v = unpack_q b"
    by (auto simp: decode_int_def reader_read_consumes)
  with pack_unpack_q [of b] show "int64_ok v \<and> (\<exists>bs. encode_int v = Inr bs \<and> consumes r bs r')"
    by (auto simp: encode_int_def pack_q_def int64_ok_def)
qed (auto simp: encode_int_def pack_q_def int64_ok_def)

interpretation uint_field: reader_codec encode_uint decode_uint uint64_ok
proof
  fix v bs r r'
  assume "uint64_ok v" "encode_uint v = Inr bs" "consumes r bs r'"
  moreover from this have "bs = be_encode 8 v"
    by (auto simp: encode_uint_def pack_Q_def split: if_splits)
  ultimately show "decode_uint r = Inr (v, r')"
    by (auto simp: decode_uint_def reader_read_consumes be_decode_encode uint64_ok_def)
next
  fix r v r'
  assume "decode_uint r = Inr (v, r')"
  then obtain b where "consumes r b r'" "length b = 8" "v = be_decode b"
    by (auto simp: decode_uint_def reader_read_consumes)
  with be_decode_bounds [of b]
  show "uint64_ok v \<and> (\<exists>bs. encode_uint v = Inr bs \<and> consumes r bs r')"
    by (auto simp: encode_uint_def pack_Q_def uint64_ok_def be_encode_decode)
qed (auto simp: encode_uint_def pack_Q_def uint64_ok_def)

interpretation float_field: reader_codec encode_float decode_float "\<lambda>_. True"
proof
  fix w :: "64 word" and bs r r'
  assume "encode_float w = Inr bs" "consumes r bs r'"
  moreover have "be_decode (be_encode 8 (uint w)) = uint w"
    using uint_lt2p [of w] by (simp add: be_decode_encode)
  ultimately show "decode_float r = Inr (w, r')"
    by (auto simp: decode_float_def reader_read_consumes encode_float_def pack_d_def unpack_d_def)
next
  fix r and w :: "64 word" and r'
  assume "decode_float r = Inr (w, r')"
  then obtain b where b: "consumes r b r'" "length b = 8" "w = word_of_int (be_decode b)"
    by (auto simp: decode_float_def reader_read_consumes unpack_d_def)
  with be_decode_bounds [of b] have "uint w = be_decode b" by (simp add: uint_word_of_int)
  with b show "True \<and> (\<exists>bs. encode_float w = Inr bs \<and> consumes r bs r')"
    by (auto simp: encode_float_def pack_d_def be_encode_decode)
qed (auto simp: encode_float_def)

interpretation bytes_field: reader_codec encode_bytes decode_bytes blob_ok
proof
  fix v bs r r'
  assume "blob_ok v" "encode_bytes v = Inr bs" "consumes r bs r'"
  then obtain r1 where "consumes r (be_encode 4 (int (length v))) r1" "consumes r1 v r'"
    by (auto simp: encode_bytes_def pack_I_def consumes_append split: if_splits)
  then have "reader_read 4 r = Inr (be_encode 4 (int (length v)), r1)"
    "reader_read (int (length v)) r1 = Inr (v, r')"
    by (simp_all add: reader_read_consumes)
  moreover have "be_decode (be_encode 4 (int (length v))) = int (length v)"
    using \<open>blob_ok v\<close> by (simp add: be_decode_encode blob_ok_def)
  ultimately show "decode_bytes r = Inr (v, r')"
    by (simp add: decode_bytes_def)
next
  fix r v r'
  assume "decode_bytes r = Inr (v, r')"
  then obtain b r1 where b: "consumes r b r1" "length b = 4" "consumes r1 v r'"
      "be_decode b = int (length v)"
    by (auto simp: decode_bytes_def reader_read_consumes)
  moreover from b be_decode_bounds [of b] have "int (length v) < 2 ^ 32" by simp
  moreover from b have "be_encode 4 (int (length v)) = b" using be_encode_decode by metis
  ultimately show "blob_ok v \<and> (\<exists>bs. encode_bytes v = Inr bs \<and> consumes r bs r')"
    by (auto simp: encode_bytes_def pack_I_def blob_ok_def consumes_append)
qed (auto simp: encode_bytes_def pack_I_def blob_ok_def)

interpretation text_field: reader_codec encode_text decode_text text_ok
proof
  fix s bs r r'
  assume "text_ok s" "encode_text s = Inr bs" "consumes r bs r'"
  then obtain b where "utf8_encode s = Inr b" "blob_ok b" "encode_bytes b = Inr bs"
    by (auto simp: text_ok_def encode_text_def)
  with \<open>consumes r bs r'\<close> bytes_field.dec_enc [of b bs r r'] show "decode_text r = Inr (s, r')"
    by (auto simp: decode_text_def utf8_decode_encode)
next
  fix r s r'
  assume "decode_text r = Inr (s, r')"
  then obtain b where b: "decode_bytes r = Inr (b, r')" "utf8_decode b = Some s"
    by (auto simp: decode_text_def split: option.splits)
  with bytes_field.enc_dec [OF b(1)] utf8_encode_decode [OF b(2)]
  show "text_ok s \<and> (\<exists>bs. encode_text s = Inr bs \<and> consumes r bs r')"
    by (auto simp: text_ok_def encode_text_def)
next
  fix s
  assume "text_ok s"
  then show "\<exists>bs. encode_text s = Inr bs"
    using bytes_field.enc_total by (fastforce simp: text_ok_def encode_text_def split: sum.splits)
qed

interpretation hash_field: reader_codec encode_hash decode_hash is_hash
proof
  fix s bs r r'
  assume s: "is_hash s" "encode_hash s = Inr bs" "consumes r bs r'"
  from s(1) obtain b where "fromhex s = Inr b" "hexlify b = s" "length b = 32"
    by (rule is_hash_fromhex)
  with s show "decode_hash r = Inr (s, r')"
    by (auto simp: decode_hash_def encode_hash_def reader_read_consumes)
next
  fix r s r'
  assume "decode_hash r = Inr (s, r')"
  then obtain b where "consumes r b r'" "length b = 32" "s = hexlify b"
    by (auto simp: decode_hash_def reader_read_consumes)
  then show "is_hash s \<and> (\<exists>bs. encode_hash s = Inr bs \<and> consumes r bs r')"
    by (auto simp: is_hash_hexlify encode_hash_def)
next
  fix s
  assume "is_hash s"
  then show "\<exists>bs. encode_hash s = Inr bs"
    by (auto simp: encode_hash_def elim: is_hash_fromhex)
qed

end
