(* ===== verification/Codec_Combinators.thy ===== *)
theory Codec_Combinators
  imports Field_Codec
begin

text \<open>
  The record formats of \<^verbatim>\<open>consensus.py\<close> are sequences of fields, optional fields behind a presence
  flag, counted repetitions and fixed magic prefixes. Each shape is a combinator here, with one lemma
  that it turns codecs into a codec; \<open>codec_iso\<close> transfers a combinator to a format as the source
  spells it out.
\<close>

section \<open>Sequence, option, repetition, prefix\<close>

definition pair_enc where
  "pair_enc e1 e2 p = rbind (e1 (fst p)) (\<lambda>x. rbind (e2 (snd p)) (\<lambda>y. Inr (x @ y)))"

definition pair_dec where
  "pair_dec d1 d2 r = rbind (d1 r) (\<lambda>(a, r1). rbind (d2 r1) (\<lambda>(b, r2). Inr ((a, b), r2)))"

definition flag_enc :: "('a \<Rightarrow> bytes result) \<Rightarrow> 'a option \<Rightarrow> bytes result" where
  "flag_enc e v = (case v of None \<Rightarrow> Inr [0] | Some x \<Rightarrow> rbind (e x) (\<lambda>t. Inr (1 # t)))"

definition flag_dec ::
  "exn \<Rightarrow> (byte_reader \<Rightarrow> ('a \<times> byte_reader) result) \<Rightarrow> byte_reader \<Rightarrow> ('a option \<times> byte_reader) result"
where
  "flag_dec err d r =
     rbind (reader_read 1 r) (\<lambda>(f, r1).
       if f \<noteq> [0] \<and> f \<noteq> [1] then Inl err
       else if f = [1] then rbind (d r1) (\<lambda>(x, r2). Inr (Some x, r2)) else Inr (None, r1))"

definition counted_enc :: "('a \<Rightarrow> bytes result) \<Rightarrow> 'a list \<Rightarrow> bytes result" where
  "counted_enc e xs =
     rbind (encode_uint (int (length xs))) (\<lambda>n. rbind (encode_list e xs) (\<lambda>b. Inr (n @ b)))"

definition counted_dec ::
  "(byte_reader \<Rightarrow> ('a \<times> byte_reader) result) \<Rightarrow> byte_reader \<Rightarrow> ('a list \<times> byte_reader) result" where
  "counted_dec d r = rbind (decode_uint r) (\<lambda>(n, r1). decode_n d (nat n) r1)"

definition magic_enc :: "bytes \<Rightarrow> ('a \<Rightarrow> bytes result) \<Rightarrow> 'a \<Rightarrow> bytes result" where
  "magic_enc m e x = rbind (e x) (\<lambda>b. Inr (m @ b))"

definition magic_dec ::
  "bytes \<Rightarrow> exn \<Rightarrow> (byte_reader \<Rightarrow> ('a \<times> byte_reader) result) \<Rightarrow> byte_reader \<Rightarrow> ('a \<times> byte_reader) result"
where
  "magic_dec m err d r =
     rbind (reader_read (int (length m)) r) (\<lambda>(b, r1). if b \<noteq> m then Inl err else d r1)"

section \<open>Each preserves the codec laws\<close>

lemma reader_readI: "consumes r bs r' \<Longrightarrow> n = int (length bs) \<Longrightarrow> reader_read n r = Inr (bs, r')"
  by (simp add: reader_read_consumes)

lemma pair_codec:
  assumes "reader_codec e1 d1 w1" and "reader_codec e2 d2 w2"
  shows "reader_codec (pair_enc e1 e2) (pair_dec d1 d2) (\<lambda>p. w1 (fst p) \<and> w2 (snd p))"
proof
  fix p :: "'a \<times> 'b"
  assume "w1 (fst p) \<and> w2 (snd p)"
  then show "\<exists>bs. pair_enc e1 e2 p = Inr bs"
    using reader_codec.enc_total [OF assms(1)] reader_codec.enc_total [OF assms(2)]
    by (fastforce simp: pair_enc_def)
next
  fix p :: "'a \<times> 'b" and bs r r'
  assume w: "w1 (fst p) \<and> w2 (snd p)" and e: "pair_enc e1 e2 p = Inr bs" "consumes r bs r'"
  from e obtain x y r1 where xy: "e1 (fst p) = Inr x" "e2 (snd p) = Inr y"
      "consumes r x r1" "consumes r1 y r'"
    by (auto simp: pair_enc_def consumes_append)
  with w have "d1 r = Inr (fst p, r1)" "d2 r1 = Inr (snd p, r')"
    using reader_codec.dec_enc [OF assms(1)] reader_codec.dec_enc [OF assms(2)] by blast+
  then show "pair_dec d1 d2 r = Inr (p, r')" by (simp add: pair_dec_def)
next
  fix r and p :: "'a \<times> 'b" and r'
  assume "pair_dec d1 d2 r = Inr (p, r')"
  then obtain r1 where "d1 r = Inr (fst p, r1)" "d2 r1 = Inr (snd p, r')"
    by (auto simp: pair_dec_def)
  with reader_codec.enc_dec [OF assms(1)] reader_codec.enc_dec [OF assms(2)]
  show "(w1 (fst p) \<and> w2 (snd p)) \<and> (\<exists>bs. pair_enc e1 e2 p = Inr bs \<and> consumes r bs r')"
    by (fastforce simp: pair_enc_def consumes_append)
qed

lemma flag_codec:
  assumes "reader_codec e d w"
  shows "reader_codec (flag_enc e) (flag_dec err d) (pred_option w)"
proof
  fix v :: "'a option"
  assume "pred_option w v"
  then show "\<exists>bs. flag_enc e v = Inr bs"
    using reader_codec.enc_total [OF assms] by (cases v) (fastforce simp: flag_enc_def)+
next
  fix v :: "'a option" and bs r r'
  assume w: "pred_option w v" and e: "flag_enc e v = Inr bs" "consumes r bs r'"
  show "flag_dec err d r = Inr (v, r')"
  proof (cases v)
    case None
    with e have "reader_read 1 r = Inr ([0], r')" by (auto simp: flag_enc_def intro: reader_readI)
    with None show ?thesis by (simp add: flag_dec_def)
  next
    case (Some x)
    with e obtain t where "e x = Inr t" "consumes r ([1] @ t) r'" by (auto simp: flag_enc_def)
    then obtain r1 where r1: "consumes r [1] r1" "consumes r1 t r'" by (auto simp only: consumes_append)
    with Some w \<open>e x = Inr t\<close> have "d r1 = Inr (x, r')"
      using reader_codec.dec_enc [OF assms] by auto
    moreover from r1 have "reader_read 1 r = Inr ([1], r1)" by (auto intro: reader_readI)
    ultimately show ?thesis using Some by (simp add: flag_dec_def)
  qed
next
  fix r and v :: "'a option" and r'
  assume "flag_dec err d r = Inr (v, r')"
  then consider "consumes r [0] r'" "v = None"
    | x r1 where "consumes r [1] r1" "d r1 = Inr (x, r')" "v = Some x"
    by (auto simp: flag_dec_def reader_read_consumes split: if_splits)
  then show "pred_option w v \<and> (\<exists>bs. flag_enc e v = Inr bs \<and> consumes r bs r')"
  proof cases
    case 1
    then show ?thesis by (simp add: flag_enc_def)
  next
    case 2
    from reader_codec.enc_dec [OF assms 2(2)] obtain t where
      "w x" "e x = Inr t" "consumes r1 t r'" by blast
    with 2 have "consumes r ([1] @ t) r'" by (auto simp only: consumes_append)
    with 2 \<open>w x\<close> \<open>e x = Inr t\<close> show ?thesis by (simp add: flag_enc_def)
  qed
qed

lemma counted_codec:
  assumes "reader_codec e d w"
  shows "reader_codec (counted_enc e) (counted_dec d)
           (\<lambda>xs. uint64_ok (int (length xs)) \<and> list_all w xs)"
proof
  fix xs
  assume "uint64_ok (int (length xs)) \<and> list_all w xs"
  then show "\<exists>bs. counted_enc e xs = Inr bs"
    using uint_field.enc_total reader_codec.list_total [OF assms]
    by (fastforce simp: counted_enc_def)
next
  fix xs bs r r'
  assume w: "uint64_ok (int (length xs)) \<and> list_all w xs"
    and e: "counted_enc e xs = Inr bs" "consumes r bs r'"
  then obtain n b r1 where n: "encode_uint (int (length xs)) = Inr n" "encode_list e xs = Inr b"
      "consumes r n r1" "consumes r1 b r'"
    by (auto simp: counted_enc_def consumes_append)
  from w n have "decode_uint r = Inr (int (length xs), r1)" by (blast intro: uint_field.dec_enc)
  moreover from w n have "decode_n d (length xs) r1 = Inr (xs, r')"
    by (blast intro: reader_codec.list_dec_enc [OF assms])
  ultimately show "counted_dec d r = Inr (xs, r')" by (simp add: counted_dec_def)
next
  fix r xs r'
  assume "counted_dec d r = Inr (xs, r')"
  then obtain n r1 where n: "decode_uint r = Inr (n, r1)" "decode_n d (nat n) r1 = Inr (xs, r')"
    by (auto simp: counted_dec_def)
  from uint_field.enc_dec [OF n(1)] obtain b where b: "uint64_ok n" "encode_uint n = Inr b"
      "consumes r b r1" by blast
  then have "rd_offset r1 \<le> length (rd_payload r1)" by (auto simp: consumes_def)
  from reader_codec.list_enc_dec [OF assms this n(2)] b
  show "(uint64_ok (int (length xs)) \<and> list_all w xs) \<and>
        (\<exists>bs. counted_enc e xs = Inr bs \<and> consumes r bs r')"
    by (auto simp: counted_enc_def consumes_append uint64_ok_def)
qed

lemma magic_codec:
  assumes "reader_codec e d w"
  shows "reader_codec (magic_enc m e) (magic_dec m err d) w"
proof
  fix x
  assume "w x"
  then show "\<exists>bs. magic_enc m e x = Inr bs"
    using reader_codec.enc_total [OF assms] by (fastforce simp: magic_enc_def)
next
  fix x bs r r'
  assume w: "w x" and e: "magic_enc m e x = Inr bs" "consumes r bs r'"
  then obtain b r1 where "e x = Inr b" "consumes r m r1" "consumes r1 b r'"
    by (auto simp: magic_enc_def consumes_append)
  moreover from this w have "d r1 = Inr (x, r')" using reader_codec.dec_enc [OF assms] by blast
  ultimately show "magic_dec m err d r = Inr (x, r')"
    by (simp add: magic_dec_def reader_readI)
next
  fix r x r'
  assume "magic_dec m err d r = Inr (x, r')"
  then obtain r1 where "consumes r m r1" "d r1 = Inr (x, r')"
    by (auto simp: magic_dec_def reader_read_consumes split: if_splits)
  with reader_codec.enc_dec [OF assms this(2)]
  show "w x \<and> (\<exists>bs. magic_enc m e x = Inr bs \<and> consumes r bs r')"
    by (fastforce simp: magic_enc_def consumes_append)
qed

text \<open>The same format under another data representation.\<close>

lemma codec_iso:
  assumes "reader_codec e d w"
    and enc: "\<And>y. ok y \<Longrightarrow> w (g y) \<and> f (g y) = y \<and> enc y = e (g y)"
    and dec: "\<And>r. dec r = rbind (d r) (\<lambda>(x, r1). Inr (f x, r1))"
    and inv: "\<And>x. w x \<Longrightarrow> ok (f x) \<and> g (f x) = x"
  shows "reader_codec enc dec ok"
proof
  fix y
  assume "ok y"
  with enc show "\<exists>bs. enc y = Inr bs" using reader_codec.enc_total [OF assms(1)] by metis
next
  fix y bs r r'
  assume "ok y" "enc y = Inr bs" "consumes r bs r'"
  with enc [of y] have "d r = Inr (g y, r')" using reader_codec.dec_enc [OF assms(1)] by metis
  with enc [OF \<open>ok y\<close>] show "dec r = Inr (y, r')" by (simp add: dec)
next
  fix r y r'
  assume "dec r = Inr (y, r')"
  then obtain x where x: "d r = Inr (x, r')" "y = f x" by (auto simp: dec)
  from reader_codec.enc_dec [OF assms(1) x(1)] inv enc [of y] x(2)
  show "ok y \<and> (\<exists>bs. enc y = Inr bs \<and> consumes r bs r')" by auto
qed

end
