(* ===== verification/Transaction.thy ===== *)
theory Transaction
  imports Codec_Combinators
begin

text \<open>
  \<^verbatim>\<open>OutPoint\<close>, \<^verbatim>\<open>TxInput\<close>, \<^verbatim>\<open>TxOutput\<close> and \<^verbatim>\<open>ConsensusTransaction\<close> of \<^verbatim>\<open>consensus.py\<close>: their data, the
  canonical binary encoding with and without witness data, transaction identifiers, signing
  messages and signing. The encoders and decoders are interpretations of \<open>reader_codec\<close>.
\<close>

definition COINBASE_PREV_TXID :: pystr where
  "COINBASE_PREV_TXID = replicate 64 48"

definition BINARY_CODEC_VERSION :: int where
  "BINARY_CODEC_VERSION = 1"

definition SUPPORTED_TRANSACTION_VERSIONS :: "int list" where
  "SUPPORTED_TRANSACTION_VERSIONS = [1]"

section \<open>Outpoints\<close>

datatype outpoint = OutPoint (op_txid: pystr) (op_index: int)

text \<open>The order of \<^verbatim>\<open>UTXOSet.entries\<close>: by transaction identifier, then by index.\<close>

instantiation outpoint :: linorder
begin

definition less_eq_outpoint :: "outpoint \<Rightarrow> outpoint \<Rightarrow> bool" where
  "less_eq_outpoint a b \<longleftrightarrow> (op_txid a, op_index a) \<le> (op_txid b, op_index b)"

definition less_outpoint :: "outpoint \<Rightarrow> outpoint \<Rightarrow> bool" where
  "less_outpoint a b \<longleftrightarrow> (op_txid a, op_index a) < (op_txid b, op_index b)"

instance
  by standard
    (auto simp: less_eq_outpoint_def less_outpoint_def outpoint.expand intro: outpoint.expand)

end

definition outpoint_to_dict :: "outpoint \<Rightarrow> json" where
  "outpoint_to_dict o1 =
     JObj [(ascii ''txid'', JStr (op_txid o1)), (ascii ''index'', JInt (op_index o1))]"

definition outpoint_to_bytes :: "outpoint \<Rightarrow> bytes result" where
  "outpoint_to_bytes o1 =
     rbind (encode_hash (op_txid o1)) (\<lambda>h. rbind (encode_int (op_index o1)) (\<lambda>i. Inr (h @ i)))"

definition outpoint_from_reader :: "byte_reader \<Rightarrow> (outpoint \<times> byte_reader) result" where
  "outpoint_from_reader r =
     rbind (reader_read 32 r) (\<lambda>(h, r1). rbind (decode_int r1) (\<lambda>(i, r2).
       Inr (OutPoint (hexlify h) i, r2)))"

section \<open>Inputs and outputs\<close>

record tx_input =
  in_previous_output :: outpoint
  in_signature :: "pystr option"
  in_public_key :: "(pystr, pystr) dict option"

definition unsigned_input :: "outpoint \<Rightarrow> tx_input" where
  "unsigned_input o1 = \<lparr>in_previous_output = o1, in_signature = None, in_public_key = None\<rparr>"

definition input_unsigned_payload :: "tx_input \<Rightarrow> json" where
  "input_unsigned_payload i = JObj [(ascii ''previous_output'', outpoint_to_dict (in_previous_output i))]"

text \<open>\<^verbatim>\<open>dict.get(key, "")\<close>\<close>

definition dict_text :: "(pystr, pystr) dict \<Rightarrow> string \<Rightarrow> pystr" where
  "dict_text d k = (case map_of d (ascii k) of None \<Rightarrow> [] | Some v \<Rightarrow> v)"

definition input_to_bytes :: "bool \<Rightarrow> tx_input \<Rightarrow> bytes result" where
  "input_to_bytes include_witness i =
     rbind (outpoint_to_bytes (in_previous_output i)) (\<lambda>p.
     if \<not> include_witness then Inr p
     else
       rbind (case in_signature i of
                None \<Rightarrow> Inr [0]
              | Some s \<Rightarrow> rbind (encode_text s) (\<lambda>t. Inr (1 # t))) (\<lambda>sg.
       case in_public_key i of
         None \<Rightarrow> Inr (p @ sg @ [0])
       | Some d \<Rightarrow>
           rbind (encode_text (dict_text d ''algorithm'')) (\<lambda>a.
           rbind (encode_text (dict_text d ''key'')) (\<lambda>k.
             Inr (p @ sg @ [1] @ a @ k)))))"

definition input_from_reader :: "bool \<Rightarrow> byte_reader \<Rightarrow> (tx_input \<times> byte_reader) result" where
  "input_from_reader include_witness r =
     rbind (outpoint_from_reader r) (\<lambda>(o1, r1).
     if \<not> include_witness then Inr (unsigned_input o1, r1)
     else
       rbind (reader_read 1 r1) (\<lambda>(sf, r2).
       if sf \<noteq> [0] \<and> sf \<noteq> [1] then consensus_error ''signature presence flag is invalid''
       else
         rbind (if sf = [1] then rbind (decode_text r2) (\<lambda>(s, r3). Inr (Some s, r3))
                else Inr (None, r2)) (\<lambda>(sg, r3).
         rbind (reader_read 1 r3) (\<lambda>(pf, r4).
         if pf \<noteq> [0] \<and> pf \<noteq> [1] then consensus_error ''public key presence flag is invalid''
         else
           rbind (if pf = [1]
                  then rbind (decode_text r4) (\<lambda>(a, r5). rbind (decode_text r5) (\<lambda>(k, r6).
                         Inr (Some [(ascii ''algorithm'', a), (ascii ''key'', k)], r6)))
                  else Inr (None, r4)) (\<lambda>(pk, r7).
           Inr (\<lparr>in_previous_output = o1, in_signature = sg, in_public_key = pk\<rparr>, r7))))))"

record tx_output =
  out_amount :: int
  out_address :: pystr

definition output_to_dict :: "tx_output \<Rightarrow> json" where
  "output_to_dict out =
     JObj [(ascii ''amount'', JInt (out_amount out)), (ascii ''address'', JStr (out_address out))]"

definition output_to_bytes :: "tx_output \<Rightarrow> bytes result" where
  "output_to_bytes out =
     rbind (encode_uint (out_amount out)) (\<lambda>a. rbind (encode_text (out_address out)) (\<lambda>t.
       Inr (a @ t)))"

definition output_from_reader :: "byte_reader \<Rightarrow> (tx_output \<times> byte_reader) result" where
  "output_from_reader r =
     rbind (decode_uint r) (\<lambda>(a, r1). rbind (decode_text r1) (\<lambda>(t, r2).
       Inr (\<lparr>out_amount = a, out_address = t\<rparr>, r2)))"

section \<open>Transactions\<close>

record consensus_transaction =
  tx_inputs :: "tx_input list"
  tx_outputs :: "tx_output list"
  tx_version :: int

definition is_coinbase :: "consensus_transaction \<Rightarrow> bool" where
  "is_coinbase tx \<longleftrightarrow>
     (case tx_inputs tx of
        [i] \<Rightarrow> op_txid (in_previous_output i) = COINBASE_PREV_TXID \<and> op_index (in_previous_output i) < 0
      | _ \<Rightarrow> False)"

definition TX_MAGIC :: bytes where
  "TX_MAGIC = map word_of_int (ascii ''bcctx'')"

definition tx_to_bytes :: "bool \<Rightarrow> consensus_transaction \<Rightarrow> bytes result" where
  "tx_to_bytes include_witness tx =
     rbind (pack_H BINARY_CODEC_VERSION) (\<lambda>cv.
     rbind (encode_int (tx_version tx)) (\<lambda>v.
     rbind (encode_uint (int (length (tx_inputs tx)))) (\<lambda>ni.
     rbind (encode_list (input_to_bytes include_witness) (tx_inputs tx)) (\<lambda>ins.
     rbind (encode_uint (int (length (tx_outputs tx)))) (\<lambda>no.
     rbind (encode_list output_to_bytes (tx_outputs tx)) (\<lambda>outs.
       Inr (TX_MAGIC @ cv @ v @ ni @ ins @ no @ outs)))))))"

definition tx_from_reader :: "bool \<Rightarrow> byte_reader \<Rightarrow> (consensus_transaction \<times> byte_reader) result" where
  "tx_from_reader include_witness r =
     rbind (reader_read 5 r) (\<lambda>(m, r0).
     if m \<noteq> TX_MAGIC then consensus_error ''transaction binary magic is invalid''
     else rbind (reader_read 2 r0) (\<lambda>(cv, r1).
     if be_decode cv \<noteq> BINARY_CODEC_VERSION
     then consensus_error ''transaction binary codec version is unsupported''
     else
       rbind (decode_int r1) (\<lambda>(v, r2).
       rbind (decode_uint r2) (\<lambda>(ni, r3).
       rbind (decode_n (input_from_reader include_witness) (nat ni) r3) (\<lambda>(ins, r4).
       rbind (decode_uint r4) (\<lambda>(no, r5).
       rbind (decode_n output_from_reader (nat no) r5) (\<lambda>(outs, r6).
         Inr (\<lparr>tx_inputs = ins, tx_outputs = outs, tx_version = v\<rparr>, r6))))))))"

definition tx_from_bytes :: "bool \<Rightarrow> bytes \<Rightarrow> consensus_transaction result" where
  "tx_from_bytes include_witness p = decode_all (tx_from_reader include_witness) p"

definition txid :: "crypto \<Rightarrow> consensus_transaction \<Rightarrow> pystr result" where
  "txid C tx = rbind (tx_to_bytes True tx) (\<lambda>b. Inr (sha256_hex C b))"

definition signing_message :: "consensus_transaction \<Rightarrow> int \<Rightarrow> pystr" where
  "signing_message tx input_index =
     canonical_json (JObj
       [(ascii ''input_index'', JInt input_index),
        (ascii ''inputs'', JList (map input_unsigned_payload (tx_inputs tx))),
        (ascii ''outputs'', JList (map output_to_dict (tx_outputs tx))),
        (ascii ''version'', JInt (tx_version tx))])"

definition sign_input ::
  "crypto \<Rightarrow> consensus_transaction \<Rightarrow> int \<Rightarrow> wallet \<Rightarrow> consensus_transaction result" where
  "sign_input C tx input_index w =
     (if input_index < 0 \<or> input_index \<ge> int (length (tx_inputs tx))
      then consensus_error ''input index out of range''
      else
        rbind (wallet_sign C w (signing_message tx input_index)) (\<lambda>s.
          Inr (tx\<lparr>tx_inputs := (tx_inputs tx)[nat input_index :=
             \<lparr>in_previous_output = in_previous_output (tx_inputs tx ! nat input_index),
              in_signature = Some s,
              in_public_key = Some (pk_to_dict (w_public_key w))\<rparr>]\<rparr>)))"

section \<open>Signing\<close>

definition authorizes :: "crypto \<Rightarrow> consensus_transaction \<Rightarrow> int \<Rightarrow> tx_input \<Rightarrow> tx_output \<Rightarrow> bool" where
  "authorizes C tx i inp prev \<longleftrightarrow>
     (\<exists>d s pk. in_public_key inp = Some d \<and> in_signature inp = Some s \<and> d \<noteq> [] \<and> s \<noteq> [] \<and>
        pk_from_dict d = Inr pk \<and> pk_address C pk = Inr (out_address prev) \<and>
        verify_signature C pk (signing_message tx i) s)"

text \<open>The signing message leaves the witnesses out, so signing one input never disturbs another.\<close>

lemma signing_message_cong:
  assumes "map in_previous_output (tx_inputs tx') = map in_previous_output (tx_inputs tx)"
    and "tx_outputs tx' = tx_outputs tx" and "tx_version tx' = tx_version tx"
  shows "signing_message tx' i = signing_message tx i"
proof -
  have "map input_unsigned_payload (tx_inputs tx') = map input_unsigned_payload (tx_inputs tx)"
    using assms(1)
    by (simp add: input_unsigned_payload_def list_eq_iff_nth_eq)
  with assms(2,3) show ?thesis by (simp add: signing_message_def)
qed

lemma sign_input_Inr:
  assumes "sign_input C tx i w = Inr tx'"
  obtains s where "0 \<le> i" and "nat i < length (tx_inputs tx)" and "wallet_sign C w (signing_message tx i) = Inr s"
    and "tx' = tx\<lparr>tx_inputs := (tx_inputs tx)[nat i :=
      \<lparr>in_previous_output = in_previous_output (tx_inputs tx ! nat i), in_signature = Some s,
       in_public_key = Some (pk_to_dict (w_public_key w))\<rparr>]\<rparr>"
  using assms by (auto simp: sign_input_def split: if_splits)

lemma sign_input_previous_outputs:
  assumes "sign_input C tx i w = Inr tx'"
  shows "map in_previous_output (tx_inputs tx') = map in_previous_output (tx_inputs tx)"
    and "tx_outputs tx' = tx_outputs tx" and "tx_version tx' = tx_version tx"
proof -
  from sign_input_Inr [OF assms] obtain s where i: "nat i < length (tx_inputs tx)"
    and tx': "tx' = tx\<lparr>tx_inputs := (tx_inputs tx)[nat i :=
      \<lparr>in_previous_output = in_previous_output (tx_inputs tx ! nat i), in_signature = Some s,
       in_public_key = Some (pk_to_dict (w_public_key w))\<rparr>]\<rparr>" by blast
  have "(map in_previous_output (tx_inputs tx))[nat i := in_previous_output (tx_inputs tx ! nat i)] =
    map in_previous_output (tx_inputs tx)"
    using list_update_id [of "map in_previous_output (tx_inputs tx)" "nat i"] i by simp
  then show "map in_previous_output (tx_inputs tx') = map in_previous_output (tx_inputs tx)"
    by (simp add: tx' map_update)
  show "tx_outputs tx' = tx_outputs tx" "tx_version tx' = tx_version tx" by (simp_all add: tx')
qed

lemma wallet_sign_nonempty:
  assumes "ed25519_ok C" and "wallet_sign C w m = Inr s"
  shows "s \<noteq> []"
proof -
  from assms obtain raw b where "ed25519_secret_ok C raw" "s = b64encode (ed25519_sign C raw b)"
    by (auto simp: wallet_sign_def split: if_splits)
  moreover from this(1) assms(1) have "length (ed25519_sign C raw b) = 64" by (simp add: ed25519_ok_def)
  moreover have "b64decode [] = Inr []" by (simp add: b64decode_def)
  ultimately show ?thesis using b64decode_b64encode [of "ed25519_sign C raw b"] by auto
qed

lemma sign_input_effect:
  assumes "ed25519_ok C" and "ed25519_secret_ok C raw" and "wallet_create C bits raw = Inr w"
    and "wallet_address C w = Inr (out_address prev)" and "sign_input C tx i w = Inr tx'"
  shows "authorizes C tx' i (tx_inputs tx' ! nat i) prev"
    and "\<forall>j. signing_message tx' j = signing_message tx j"
    and "\<forall>k < length (tx_inputs tx). k \<noteq> nat i \<longrightarrow> tx_inputs tx' ! k = tx_inputs tx ! k"
proof -
  show m: "\<forall>j. signing_message tx' j = signing_message tx j"
    using signing_message_cong [OF sign_input_previous_outputs [OF assms(5)]] by blast
  from sign_input_Inr [OF assms(5)] obtain s where
    i: "0 \<le> i" "nat i < length (tx_inputs tx)" and s: "wallet_sign C w (signing_message tx i) = Inr s"
    and tx': "tx' = tx\<lparr>tx_inputs := (tx_inputs tx)[nat i :=
      \<lparr>in_previous_output = in_previous_output (tx_inputs tx ! nat i), in_signature = Some s,
       in_public_key = Some (pk_to_dict (w_public_key w))\<rparr>]\<rparr>" by blast
  have "pk_to_dict (w_public_key w) \<noteq> []" by (simp add: pk_to_dict_def)
  moreover have "verify_signature C (w_public_key w) (signing_message tx' i) s"
    using verify_wallet_signature [OF assms(1-3) s] m by simp
  ultimately show "authorizes C tx' i (tx_inputs tx' ! nat i) prev"
    using wallet_sign_nonempty [OF assms(1) s] assms(4) i
    by (auto simp: authorizes_def tx' wallet_address_def)
  show "\<forall>k < length (tx_inputs tx). k \<noteq> nat i \<longrightarrow> tx_inputs tx' ! k = tx_inputs tx ! k"
    by (simp add: tx')
qed

section \<open>What the encoding can represent\<close>

definition outpoint_ok :: "outpoint \<Rightarrow> bool" where
  "outpoint_ok o1 \<longleftrightarrow> is_hash (op_txid o1) \<and> int64_ok (op_index o1)"

definition pubkey_dict_ok :: "(pystr, pystr) dict \<Rightarrow> bool" where
  "pubkey_dict_ok d \<longleftrightarrow>
     d = [(ascii ''algorithm'', dict_text d ''algorithm''), (ascii ''key'', dict_text d ''key'')] \<and>
     text_ok (dict_text d ''algorithm'') \<and> text_ok (dict_text d ''key'')"

definition input_ok :: "bool \<Rightarrow> tx_input \<Rightarrow> bool" where
  "input_ok include_witness i \<longleftrightarrow>
     outpoint_ok (in_previous_output i) \<and>
     (if include_witness
      then pred_option text_ok (in_signature i) \<and> pred_option pubkey_dict_ok (in_public_key i)
      else in_signature i = None \<and> in_public_key i = None)"

definition output_ok :: "tx_output \<Rightarrow> bool" where
  "output_ok out \<longleftrightarrow> uint64_ok (out_amount out) \<and> text_ok (out_address out)"

definition tx_ok :: "bool \<Rightarrow> consensus_transaction \<Rightarrow> bool" where
  "tx_ok include_witness tx \<longleftrightarrow>
     int64_ok (tx_version tx) \<and>
     uint64_ok (int (length (tx_inputs tx))) \<and> list_all (input_ok include_witness) (tx_inputs tx) \<and>
     uint64_ok (int (length (tx_outputs tx))) \<and> list_all output_ok (tx_outputs tx)"

section \<open>Codecs\<close>

lemma dict_text_pair [simp]:
  "dict_text [(ascii ''algorithm'', a), (ascii ''key'', k)] ''algorithm'' = a"
  "dict_text [(ascii ''algorithm'', a), (ascii ''key'', k)] ''key'' = k"
  by (simp_all add: dict_text_def ascii_def)

interpretation outpoint_codec: reader_codec outpoint_to_bytes outpoint_from_reader outpoint_ok
  by (rule codec_iso [OF pair_codec [OF hash_field.reader_codec_axioms int_field.reader_codec_axioms],
        where f = "\<lambda>p. OutPoint (fst p) (snd p)" and g = "\<lambda>o1. (op_txid o1, op_index o1)"])
     (auto simp: outpoint_ok_def outpoint_to_bytes_def pair_enc_def outpoint_from_reader_def
        pair_dec_def decode_hash_def rbind_assoc case_prod_unfold)

interpretation output_codec: reader_codec output_to_bytes output_from_reader output_ok
  by (rule codec_iso [OF pair_codec [OF uint_field.reader_codec_axioms text_field.reader_codec_axioms],
        where f = "\<lambda>p. \<lparr>out_amount = fst p, out_address = snd p\<rparr>"
          and g = "\<lambda>out. (out_amount out, out_address out)"])
     (auto simp: output_ok_def output_to_bytes_def pair_enc_def output_from_reader_def
        pair_dec_def rbind_assoc case_prod_unfold)

text \<open>The witness fields: an optional signature and an optional algorithm and key.\<close>

definition pubkey_enc :: "(pystr, pystr) dict \<Rightarrow> bytes result" where
  "pubkey_enc d =
     rbind (encode_text (dict_text d ''algorithm'')) (\<lambda>a.
     rbind (encode_text (dict_text d ''key'')) (\<lambda>k. Inr (a @ k)))"

definition pubkey_dec :: "byte_reader \<Rightarrow> ((pystr, pystr) dict \<times> byte_reader) result" where
  "pubkey_dec r =
     rbind (decode_text r) (\<lambda>(a, r1). rbind (decode_text r1) (\<lambda>(k, r2).
       Inr ([(ascii ''algorithm'', a), (ascii ''key'', k)], r2)))"

interpretation pubkey_codec: reader_codec pubkey_enc pubkey_dec pubkey_dict_ok
proof (rule codec_iso [OF pair_codec [OF text_field.reader_codec_axioms text_field.reader_codec_axioms],
        where f = "\<lambda>p. [(ascii ''algorithm'', fst p), (ascii ''key'', snd p)]"
          and g = "\<lambda>d. (dict_text d ''algorithm'', dict_text d ''key'')"])
  fix d
  assume "pubkey_dict_ok d"
  then show "(text_ok (fst (dict_text d ''algorithm'', dict_text d ''key'')) \<and>
      text_ok (snd (dict_text d ''algorithm'', dict_text d ''key''))) \<and>
      [(ascii ''algorithm'', fst (dict_text d ''algorithm'', dict_text d ''key'')),
       (ascii ''key'', snd (dict_text d ''algorithm'', dict_text d ''key''))] = d \<and>
      pubkey_enc d = pair_enc encode_text encode_text (dict_text d ''algorithm'', dict_text d ''key'')"
    unfolding pubkey_dict_ok_def by (simp add: pubkey_enc_def pair_enc_def)
qed (auto simp: pubkey_dict_ok_def pubkey_dec_def pair_dec_def rbind_assoc case_prod_unfold)

abbreviation "sig_flag_error \<equiv> ConsensusError (ascii ''signature presence flag is invalid'')"
abbreviation "key_flag_error \<equiv> ConsensusError (ascii ''public key presence flag is invalid'')"

lemmas witness_codec =
  pair_codec [OF flag_codec [OF text_field.reader_codec_axioms, of sig_flag_error]
                 flag_codec [OF pubkey_codec.reader_codec_axioms, of key_flag_error]]

lemma input_to_bytes_pair:
  "input_to_bytes True i =
     pair_enc outpoint_to_bytes (pair_enc (flag_enc encode_text) (flag_enc pubkey_enc))
       (in_previous_output i, in_signature i, in_public_key i)"
  by (auto simp: input_to_bytes_def pair_enc_def flag_enc_def pubkey_enc_def rbind_assoc
      split: option.splits intro!: arg_cong2 [where f = rbind])

lemma input_from_reader_pair:
  "input_from_reader True r =
     rbind (pair_dec outpoint_from_reader
              (pair_dec (flag_dec sig_flag_error decode_text) (flag_dec key_flag_error pubkey_dec)) r)
       (\<lambda>(p, r1). Inr (\<lparr>in_previous_output = fst p, in_signature = fst (snd p),
                       in_public_key = snd (snd p)\<rparr>, r1))"
  unfolding input_from_reader_def pair_dec_def flag_dec_def pubkey_dec_def
  by (auto simp: rbind_assoc case_prod_unfold intro!: rbind_cong)

interpretation signed_input_codec:
  reader_codec "input_to_bytes True" "input_from_reader True" "input_ok True"
  by (rule codec_iso [OF pair_codec [OF outpoint_codec.reader_codec_axioms witness_codec],
        where f = "\<lambda>p. \<lparr>in_previous_output = fst p, in_signature = fst (snd p),
                        in_public_key = snd (snd p)\<rparr>"
          and g = "\<lambda>i. (in_previous_output i, in_signature i, in_public_key i)"])
     (auto simp: input_ok_def input_to_bytes_pair input_from_reader_pair case_prod_unfold)

interpretation unsigned_input_codec:
  reader_codec "input_to_bytes False" "input_from_reader False" "input_ok False"
  by (rule codec_iso [OF outpoint_codec.reader_codec_axioms,
        where f = unsigned_input and g = in_previous_output])
     (auto simp: input_ok_def input_to_bytes_def input_from_reader_def unsigned_input_def
        case_prod_unfold)

lemma input_codec:
  "reader_codec (input_to_bytes include_witness) (input_from_reader include_witness)
     (input_ok include_witness)"
  by (cases include_witness)
     (simp_all add: signed_input_codec.reader_codec_axioms unsigned_input_codec.reader_codec_axioms)

text \<open>A transaction: magic, codec version, then version and the two counted lists.\<close>

definition CODEC_TAG :: bytes where
  "CODEC_TAG = be_encode 2 BINARY_CODEC_VERSION"

abbreviation "tx_magic_error \<equiv> ConsensusError (ascii ''transaction binary magic is invalid'')"
abbreviation "tx_codec_error \<equiv>
  ConsensusError (ascii ''transaction binary codec version is unsupported'')"

lemma CODEC_TAG_props: "length CODEC_TAG = 2" "pack_H BINARY_CODEC_VERSION = Inr CODEC_TAG"
  "length b = 2 \<Longrightarrow> be_decode b = BINARY_CODEC_VERSION \<longleftrightarrow> b = CODEC_TAG"
proof -
  show "length CODEC_TAG = 2" "pack_H BINARY_CODEC_VERSION = Inr CODEC_TAG"
    by (simp_all add: CODEC_TAG_def BINARY_CODEC_VERSION_def pack_H_def)
  show "be_decode b = BINARY_CODEC_VERSION \<longleftrightarrow> b = CODEC_TAG" if "length b = 2"
    using be_encode_decode [OF that]
    by (auto simp: CODEC_TAG_def be_decode_encode BINARY_CODEC_VERSION_def)
qed

lemma length_TX_MAGIC [simp]: "length TX_MAGIC = 5"
  by (simp add: TX_MAGIC_def)

lemma reader_read_length: "reader_read n r = Inr (b, r1) \<Longrightarrow> int (length b) = n"
  by (simp add: reader_read_consumes)

lemma tag_dec:
  "rbind (reader_read 2 r) (\<lambda>(cv, r1). if be_decode cv \<noteq> BINARY_CODEC_VERSION then Inl err else d r1) =
   magic_dec CODEC_TAG err d r"
  unfolding magic_dec_def CODEC_TAG_props(1)
  by (rule rbind_cong) (auto dest!: reader_read_length simp: CODEC_TAG_props(3))

definition tx_fields_enc where
  "tx_fields_enc w = pair_enc encode_int (pair_enc (counted_enc (input_to_bytes w)) (counted_enc output_to_bytes))"

definition tx_fields_dec where
  "tx_fields_dec w =
     pair_dec decode_int (pair_dec (counted_dec (input_from_reader w)) (counted_dec output_from_reader))"

lemma tx_to_bytes_fields:
  "tx_to_bytes w tx =
     magic_enc TX_MAGIC (magic_enc CODEC_TAG (tx_fields_enc w))
       (tx_version tx, tx_inputs tx, tx_outputs tx)"
  by (simp add: tx_to_bytes_def magic_enc_def tx_fields_enc_def pair_enc_def counted_enc_def
      CODEC_TAG_props(2) rbind_assoc)

lemma tx_from_reader_fields:
  "tx_from_reader w r =
     rbind (magic_dec TX_MAGIC tx_magic_error (magic_dec CODEC_TAG tx_codec_error (tx_fields_dec w)) r)
       (\<lambda>(p, r1). Inr (\<lparr>tx_inputs = fst (snd p), tx_outputs = snd (snd p), tx_version = fst p\<rparr>, r1))"
  unfolding tx_from_reader_def tag_dec [unfolded case_prod_unfold, symmetric] tx_fields_dec_def
    magic_dec_def [of TX_MAGIC] pair_dec_def counted_dec_def length_TX_MAGIC
  by (auto simp: rbind_assoc case_prod_unfold intro!: rbind_cong)

lemmas tx_fields_codec =
  magic_codec [OF magic_codec [OF pair_codec [OF int_field.reader_codec_axioms
    pair_codec [OF counted_codec [OF input_codec] counted_codec [OF output_codec.reader_codec_axioms]],
    folded tx_fields_enc_def tx_fields_dec_def], where m = CODEC_TAG and err = tx_codec_error], where m = TX_MAGIC and err = tx_magic_error]

lemma tx_codec: "reader_codec (tx_to_bytes w) (tx_from_reader w) (tx_ok w)"
  by (rule codec_iso [OF tx_fields_codec,
        where f = "\<lambda>p. \<lparr>tx_inputs = fst (snd p), tx_outputs = snd (snd p), tx_version = fst p\<rparr>"
          and g = "\<lambda>tx. (tx_version tx, tx_inputs tx, tx_outputs tx)"])
     (auto simp: tx_ok_def tx_to_bytes_fields tx_from_reader_fields case_prod_unfold)

interpretation full_tx: reader_codec "tx_to_bytes w" "tx_from_reader w" "tx_ok w" for w
  by (rule tx_codec)

end
