(* ===== verification/Block.thy ===== *)
theory Block
  imports Transaction
begin

text \<open>
  \<^verbatim>\<open>calculate_transaction_root\<close> and \<^verbatim>\<open>ConsensusBlock\<close> of \<^verbatim>\<open>consensus.py\<close>: the Merkle tree over
  transaction identifiers, block headers, block hashes and the canonical block encoding.
\<close>

definition SUPPORTED_BLOCK_VERSIONS :: "int list" where
  "SUPPORTED_BLOCK_VERSIONS = [1]"

definition ZERO_HASH :: pystr where
  "ZERO_HASH = replicate 64 48"

section \<open>Merkle root\<close>

text \<open>
  One pass of the loop body: an odd layer repeats its last node, then neighbours are hashed in
  pairs (\<^verbatim>\<open>bytes.fromhex(sha256_hex(left + right))\<close> is the digest itself).
\<close>

definition pad_layer :: "bytes list \<Rightarrow> bytes list" where
  "pad_layer layer = (if length layer mod 2 = 1 then layer @ [last layer] else layer)"

fun hash_pairs :: "crypto \<Rightarrow> bytes list \<Rightarrow> bytes list" where
  "hash_pairs C (a # b # rest) = sha256_digest C (a @ b) # hash_pairs C rest"
| "hash_pairs C _ = []"

lemma length_hash_pairs [simp]: "length (hash_pairs C xs) = length xs div 2"
  by (induction C xs rule: hash_pairs.induct) auto

lemma length_pad_layer: "length (pad_layer xs) = (if odd (length xs) then length xs + 1 else length xs)"
  by (simp add: pad_layer_def odd_iff_mod_2_eq_one)

function merkle_root :: "crypto \<Rightarrow> bytes list \<Rightarrow> bytes" where
  "merkle_root C layer =
     (if length layer > 1 then merkle_root C (hash_pairs C (pad_layer layer)) else hd layer)"
  by pat_completeness auto
termination
proof (relation "measure (\<lambda>(C, layer). length layer)")
  fix C and layer :: "bytes list"
  assume "1 < length layer"
  then have "length (pad_layer layer) div 2 < length layer"
    unfolding length_pad_layer by (simp split: if_split) presburger
  then show "((C, hash_pairs C (pad_layer layer)), (C, layer)) \<in> measure (\<lambda>(C, layer). length layer)"
    by simp
qed simp

declare merkle_root.simps [simp del]

definition calculate_transaction_root :: "crypto \<Rightarrow> consensus_transaction list \<Rightarrow> pystr result" where
  "calculate_transaction_root C txs =
     (if txs = [] then Inr (sha256_hex C [])
      else rbind (rmap (\<lambda>tx. rbind (txid C tx) fromhex) txs) (\<lambda>layer.
        Inr (hexlify (merkle_root C layer))))"

section \<open>Blocks\<close>

text \<open>The timestamp is an IEEE double; it is modelled by its bits, which is what \<^verbatim>\<open>struct\<close> packs.\<close>

record consensus_block =
  blk_height :: int
  blk_previous_hash :: pystr
  blk_transactions :: "consensus_transaction list"
  blk_difficulty :: int
  blk_timestamp :: "64 word"
  blk_nonce :: int
  blk_transaction_root :: pystr
  blk_version :: int

text \<open>The constructor: \<^verbatim>\<open>__post_init__\<close> fills in an omitted transaction root.\<close>

definition new_block :: "crypto \<Rightarrow> consensus_block \<Rightarrow> consensus_block result" where
  "new_block C b =
     (if blk_transaction_root b = []
      then rbind (calculate_transaction_root C (blk_transactions b)) (\<lambda>root.
        Inr (b\<lparr>blk_transaction_root := root\<rparr>))
      else Inr b)"

definition BLOCK_MAGIC :: bytes where
  "BLOCK_MAGIC = map word_of_int (ascii ''bccblk'')"

definition header_bytes :: "consensus_block \<Rightarrow> bytes result" where
  "header_bytes b =
     rbind (pack_H BINARY_CODEC_VERSION) (\<lambda>cv.
     rbind (encode_int (blk_version b)) (\<lambda>v.
     rbind (encode_int (blk_height b)) (\<lambda>h.
     rbind (encode_hash (blk_previous_hash b)) (\<lambda>p.
     rbind (encode_hash (blk_transaction_root b)) (\<lambda>t.
     rbind (encode_int (blk_difficulty b)) (\<lambda>d.
     rbind (encode_float (blk_timestamp b)) (\<lambda>ts.
     rbind (encode_int (blk_nonce b)) (\<lambda>n.
       Inr (BLOCK_MAGIC @ cv @ v @ h @ p @ t @ d @ ts @ n)))))))))"

definition block_hash :: "crypto \<Rightarrow> consensus_block \<Rightarrow> pystr result" where
  "block_hash C b = rbind (header_bytes b) (\<lambda>bs. Inr (sha256_hex C bs))"

definition block_to_bytes :: "consensus_block \<Rightarrow> bytes result" where
  "block_to_bytes b =
     rbind (header_bytes b) (\<lambda>hd.
     rbind (encode_uint (int (length (blk_transactions b)))) (\<lambda>n.
     rbind (encode_list (\<lambda>tx. rbind (tx_to_bytes True tx) encode_bytes) (blk_transactions b)) (\<lambda>txs.
       Inr (hd @ n @ txs))))"

definition tx_item_from_reader :: "byte_reader \<Rightarrow> (consensus_transaction \<times> byte_reader) result" where
  "tx_item_from_reader r =
     rbind (decode_bytes r) (\<lambda>(b, r1). rbind (tx_from_bytes True b) (\<lambda>tx. Inr (tx, r1)))"

definition block_from_reader :: "byte_reader \<Rightarrow> (consensus_block \<times> byte_reader) result" where
  "block_from_reader r =
     rbind (reader_read 6 r) (\<lambda>(m, r0).
     if m \<noteq> BLOCK_MAGIC then consensus_error ''block binary magic is invalid''
     else rbind (reader_read 2 r0) (\<lambda>(cv, r1).
     if be_decode cv \<noteq> BINARY_CODEC_VERSION
     then consensus_error ''block binary codec version is unsupported''
     else
       rbind (decode_int r1) (\<lambda>(v, r2).
       rbind (decode_int r2) (\<lambda>(h, r3).
       rbind (reader_read 32 r3) (\<lambda>(p, r4).
       rbind (reader_read 32 r4) (\<lambda>(t, r5).
       rbind (decode_int r5) (\<lambda>(d, r6).
       rbind (decode_float r6) (\<lambda>(ts, r7).
       rbind (decode_int r7) (\<lambda>(n, r8).
       rbind (decode_uint r8) (\<lambda>(k, r9).
       rbind (decode_n tx_item_from_reader (nat k) r9) (\<lambda>(txs, r10).
         Inr (\<lparr>blk_height = h, blk_previous_hash = hexlify p, blk_transactions = txs,
               blk_difficulty = d, blk_timestamp = ts, blk_nonce = n,
               blk_transaction_root = hexlify t, blk_version = v\<rparr>, r10))))))))))))"

definition block_from_bytes :: "crypto \<Rightarrow> bytes \<Rightarrow> consensus_block result" where
  "block_from_bytes C p = rbind (decode_all block_from_reader p) (new_block C)"

section \<open>What the block encoding can represent\<close>

definition tx_item_ok :: "consensus_transaction \<Rightarrow> bool" where
  "tx_item_ok tx \<longleftrightarrow>
     tx_ok True tx \<and> (case tx_to_bytes True tx of Inl e \<Rightarrow> False | Inr b \<Rightarrow> blob_ok b)"

definition header_ok :: "consensus_block \<Rightarrow> bool" where
  "header_ok b \<longleftrightarrow>
     int64_ok (blk_version b) \<and> int64_ok (blk_height b) \<and> is_hash (blk_previous_hash b) \<and>
     is_hash (blk_transaction_root b) \<and> int64_ok (blk_difficulty b) \<and> int64_ok (blk_nonce b)"

definition block_ok :: "consensus_block \<Rightarrow> bool" where
  "block_ok b \<longleftrightarrow>
     header_ok b \<and> uint64_ok (int (length (blk_transactions b))) \<and>
     list_all tx_item_ok (blk_transactions b)"

section \<open>The block codec\<close>

text \<open>A length-prefixed item holding a complete encoding.\<close>

lemma boxed_codec:
  assumes "reader_codec e d w"
  shows "reader_codec (\<lambda>x. rbind (e x) encode_bytes)
    (\<lambda>r. rbind (decode_bytes r) (\<lambda>(b, r1). rbind (decode_all d b) (\<lambda>x. Inr (x, r1))))
    (\<lambda>x. w x \<and> (case e x of Inl _ \<Rightarrow> False | Inr b \<Rightarrow> blob_ok b))"
proof
  fix x
  assume "w x \<and> (case e x of Inl _ \<Rightarrow> False | Inr b \<Rightarrow> blob_ok b)"
  then show "\<exists>bs. rbind (e x) encode_bytes = Inr bs"
    using bytes_field.enc_total by (fastforce split: sum.splits)
next
  fix x bs r r'
  assume x: "w x \<and> (case e x of Inl _ \<Rightarrow> False | Inr b \<Rightarrow> blob_ok b)"
    and e: "rbind (e x) encode_bytes = Inr bs" and c: "consumes r bs r'"
  then obtain b where b: "e x = Inr b" "blob_ok b" "encode_bytes b = Inr bs" by auto
  have "decode_bytes r = Inr (b, r')" by (rule bytes_field.dec_enc [OF b(2,3) c])
  moreover have "decode_all d b = Inr x" using x b(1) reader_codec.all_dec_enc [OF assms] by blast
  ultimately show
    "rbind (decode_bytes r) (\<lambda>(b, r1). rbind (decode_all d b) (\<lambda>x. Inr (x, r1))) = Inr (x, r')"
    by simp
next
  fix r x r'
  assume "rbind (decode_bytes r) (\<lambda>(b, r1). rbind (decode_all d b) (\<lambda>x. Inr (x, r1))) = Inr (x, r')"
  then obtain b where b: "decode_bytes r = Inr (b, r')" "decode_all d b = Inr x" by auto
  from bytes_field.enc_dec [OF b(1)] reader_codec.all_enc_dec [OF assms b(2)]
  show "(w x \<and> (case e x of Inl _ \<Rightarrow> False | Inr b \<Rightarrow> blob_ok b)) \<and>
        (\<exists>bs. rbind (e x) encode_bytes = Inr bs \<and> consumes r bs r')"
    by auto
qed

interpretation tx_item: reader_codec "\<lambda>tx. rbind (tx_to_bytes True tx) encode_bytes"
    tx_item_from_reader tx_item_ok
  using boxed_codec [OF tx_codec [of True]]
  unfolding tx_item_from_reader_def [abs_def] tx_item_ok_def [abs_def] tx_from_bytes_def .

abbreviation "blk_magic_error \<equiv> ConsensusError (ascii ''block binary magic is invalid'')"
abbreviation "blk_codec_error \<equiv> ConsensusError (ascii ''block binary codec version is unsupported'')"

lemma length_BLOCK_MAGIC [simp]: "length BLOCK_MAGIC = 6"
  by (simp add: BLOCK_MAGIC_def)

definition header_fields_enc where
  "header_fields_enc = pair_enc encode_int (pair_enc encode_int (pair_enc encode_hash
     (pair_enc encode_hash (pair_enc encode_int (pair_enc encode_float encode_int)))))"

definition header_fields_dec where
  "header_fields_dec = pair_dec decode_int (pair_dec decode_int (pair_dec decode_hash
     (pair_dec decode_hash (pair_dec decode_int (pair_dec decode_float decode_int)))))"

definition header_tuple where
  "header_tuple b = (blk_version b, blk_height b, blk_previous_hash b, blk_transaction_root b,
     blk_difficulty b, blk_timestamp b, blk_nonce b)"

lemmas header_fields_codec =
  pair_codec [OF int_field.reader_codec_axioms pair_codec [OF int_field.reader_codec_axioms
  pair_codec [OF hash_field.reader_codec_axioms pair_codec [OF hash_field.reader_codec_axioms
  pair_codec [OF int_field.reader_codec_axioms pair_codec [OF float_field.reader_codec_axioms
  int_field.reader_codec_axioms]]]]], folded header_fields_enc_def header_fields_dec_def]

lemma header_bytes_fields:
  "header_bytes b = magic_enc BLOCK_MAGIC (magic_enc CODEC_TAG header_fields_enc) (header_tuple b)"
  by (simp add: header_bytes_def magic_enc_def header_fields_enc_def pair_enc_def header_tuple_def
      CODEC_TAG_props(2) rbind_assoc)

lemma header_bytes_total: "header_ok b \<Longrightarrow> \<exists>bs. header_bytes b = Inr bs"
  using reader_codec.enc_total [OF magic_codec [OF magic_codec [OF header_fields_codec]],
      where x = "header_tuple b"]
  by (simp add: header_bytes_fields header_ok_def header_tuple_def)

lemma header_bytes_inject:
  "header_ok b \<Longrightarrow> header_ok b' \<Longrightarrow> header_bytes b = header_bytes b' \<Longrightarrow> header_tuple b = header_tuple b'"
  using reader_codec.enc_inject [OF magic_codec [OF magic_codec [OF header_fields_codec]],
      where x = "header_tuple b" and y = "header_tuple b'"]
  by (simp add: header_bytes_fields header_ok_def header_tuple_def)

definition block_fields_enc where
  "block_fields_enc = magic_enc BLOCK_MAGIC (magic_enc CODEC_TAG
     (pair_enc header_fields_enc (counted_enc (\<lambda>tx. rbind (tx_to_bytes True tx) encode_bytes))))"

definition block_fields_dec where
  "block_fields_dec = magic_dec BLOCK_MAGIC blk_magic_error (magic_dec CODEC_TAG blk_codec_error
     (pair_dec header_fields_dec (counted_dec tx_item_from_reader)))"

lemmas block_fields_codec =
  magic_codec [OF magic_codec [OF pair_codec [OF header_fields_codec
    counted_codec [OF tx_item.reader_codec_axioms]], where m = CODEC_TAG and err = blk_codec_error],
    where m = BLOCK_MAGIC and err = blk_magic_error, folded block_fields_enc_def block_fields_dec_def]

definition block_of_tuple where
  "block_of_tuple p =
     \<lparr>blk_height = fst (snd (fst p)), blk_previous_hash = fst (snd (snd (fst p))),
      blk_transactions = snd p, blk_difficulty = fst (snd (snd (snd (snd (fst p))))),
      blk_timestamp = fst (snd (snd (snd (snd (snd (fst p)))))),
      blk_nonce = snd (snd (snd (snd (snd (snd (fst p)))))),
      blk_transaction_root = fst (snd (snd (snd (fst p)))), blk_version = fst (fst p)\<rparr>"

lemma block_to_bytes_fields:
  "block_to_bytes b = block_fields_enc (header_tuple b, blk_transactions b)"
  by (simp add: block_to_bytes_def header_bytes_fields block_fields_enc_def magic_enc_def
      pair_enc_def counted_enc_def rbind_assoc)

lemma block_from_reader_fields:
  "block_from_reader r = rbind (block_fields_dec r) (\<lambda>(p, r1). Inr (block_of_tuple p, r1))"
  unfolding block_from_reader_def block_fields_dec_def header_fields_dec_def
    tag_dec [unfolded case_prod_unfold, symmetric]
    magic_dec_def [of BLOCK_MAGIC] pair_dec_def counted_dec_def length_BLOCK_MAGIC decode_hash_def
    block_of_tuple_def
  by (auto simp: rbind_assoc case_prod_unfold intro!: rbind_cong)

lemma block_codec: "reader_codec block_to_bytes block_from_reader block_ok"
  by (rule codec_iso [OF block_fields_codec, where f = block_of_tuple
          and g = "\<lambda>b. (header_tuple b, blk_transactions b)"])
     (auto simp: block_ok_def header_ok_def block_to_bytes_fields block_from_reader_fields
        block_of_tuple_def header_tuple_def case_prod_unfold)

interpretation full_block: reader_codec block_to_bytes block_from_reader block_ok
  by (rule block_codec)

section \<open>What the Merkle root commits to\<close>

text \<open>The byte strings hashed while the root of a layer is computed.\<close>

fun pair_inputs :: "bytes list \<Rightarrow> bytes list" where
  "pair_inputs (a # b # rest) = (a @ b) # pair_inputs rest"
| "pair_inputs _ = []"

function merkle_inputs :: "crypto \<Rightarrow> bytes list \<Rightarrow> bytes list" where
  "merkle_inputs C layer =
     (if length layer > 1
      then pair_inputs (pad_layer layer) @ merkle_inputs C (hash_pairs C (pad_layer layer)) else [])"
  by pat_completeness auto
termination
proof (relation "measure (\<lambda>(C, layer). length layer)")
  fix C and layer :: "bytes list"
  assume "1 < length layer"
  then have "length (pad_layer layer) div 2 < length layer"
    unfolding length_pad_layer by (simp split: if_split) presburger
  then show "((C, hash_pairs C (pad_layer layer)), (C, layer)) \<in> measure (\<lambda>(C, layer). length layer)"
    by simp
qed simp

declare merkle_inputs.simps [simp del]

lemma hash_pairs_inputs: "hash_pairs C xs = map (sha256_digest C) (pair_inputs xs)"
  by (induction C xs rule: hash_pairs.induct) auto

lemma pair_inputs_inject:
  "pair_inputs xs = pair_inputs ys \<Longrightarrow> length xs = length ys \<Longrightarrow> even (length xs) \<Longrightarrow>
   \<forall>x \<in> set xs \<union> set ys. length x = 32 \<Longrightarrow> xs = ys"
proof (induction xs arbitrary: ys rule: pair_inputs.induct)
  case (1 a b rest)
  then obtain c d rest' where ys: "ys = c # d # rest'"
    by (metis length_0_conv list.exhaust length_Cons nat.inject list.distinct(1) list.size(3))
  with 1 have "a = c" "b = d" by auto
  moreover have "rest = rest'" using 1(1) [of rest'] 1(2-) ys by simp
  ultimately show ?case using ys by simp
next
  case "2_1"
  then show ?case by simp
next
  case "2_2"
  from "2_2"(3) show ?case by simp
qed

lemma even_pad_layer: "even (length (pad_layer xs))"
  by (simp add: length_pad_layer)

lemma set_pad_layer: "xs \<noteq> [] \<Longrightarrow> set (pad_layer xs) = set xs"
  by (auto simp: pad_layer_def)

lemma pad_layer_inject:
  assumes "length xs = length ys" and "pad_layer xs = pad_layer ys"
  shows "xs = ys"
  using assms by (auto simp: pad_layer_def split: if_splits)

text \<open>
  Equal roots over equally long layers mean equal layers, unless two of the strings hashed on the
  way collide.
\<close>

lemma merkle_root_binding:
  assumes "digest_ok C" and "length xs = length ys" and "xs \<noteq> []"
    and "\<forall>x \<in> set xs \<union> set ys. length x = 32"
    and "inj_on (sha256_digest C) (set (merkle_inputs C xs) \<union> set (merkle_inputs C ys))"
    and "merkle_root C xs = merkle_root C ys"
  shows "xs = ys"
  using assms
proof (induction C xs arbitrary: ys rule: merkle_root.induct)
  case (1 C xs)
  show ?case
  proof (cases "length xs > 1")
    case False
    with 1 obtain x y where "xs = [x]" "ys = [y]"
      by (metis Suc_lessI length_0_conv length_Suc_conv length_greater_0_conv One_nat_def)
    with 1 show ?thesis by (simp add: merkle_root.simps)
  next
    case True
    let ?P = "pad_layer xs" and ?Q = "pad_layer ys"
    have len: "length ?P = length ?Q" using 1(3) by (simp add: length_pad_layer)
    have nonempty: "hash_pairs C ?P \<noteq> []"
      using True by (simp add: length_pad_layer flip: length_greater_0_conv)
    have inp: "merkle_inputs C xs = pair_inputs ?P @ merkle_inputs C (hash_pairs C ?P)"
      "merkle_inputs C ys = pair_inputs ?Q @ merkle_inputs C (hash_pairs C ?Q)"
      using True 1(3) merkle_inputs.simps [of C xs] merkle_inputs.simps [of C ys] by simp_all
    have "hash_pairs C ?P = hash_pairs C ?Q"
    proof (rule 1(1) [OF True])
      show "length (hash_pairs C ?P) = length (hash_pairs C ?Q)" using len by simp
      show "\<forall>x \<in> set (hash_pairs C ?P) \<union> set (hash_pairs C ?Q). length x = 32"
        using 1(2) by (auto simp: hash_pairs_inputs digest_ok_def)
      show "inj_on (sha256_digest C)
          (set (merkle_inputs C (hash_pairs C ?P)) \<union> set (merkle_inputs C (hash_pairs C ?Q)))"
        by (rule inj_on_subset [OF 1(6)]) (auto simp: inp)
      show "merkle_root C (hash_pairs C ?P) = merkle_root C (hash_pairs C ?Q)"
        using 1(7) True 1(3) merkle_root.simps [of C xs] merkle_root.simps [of C ys] by simp
    qed (fact 1(2), fact nonempty)
    then have "map (sha256_digest C) (pair_inputs ?P) = map (sha256_digest C) (pair_inputs ?Q)"
      by (simp add: hash_pairs_inputs)
    moreover have "inj_on (sha256_digest C) (set (pair_inputs ?P) \<union> set (pair_inputs ?Q))"
      by (rule inj_on_subset [OF 1(6)]) (auto simp: inp)
    ultimately have "pair_inputs ?P = pair_inputs ?Q" by (rule map_inj_on)
    moreover have "xs \<noteq> []" "ys \<noteq> []" using True 1(3) by auto
    then have "set ?P \<union> set ?Q = set xs \<union> set ys" by (simp add: set_pad_layer)
    with 1(5) have "\<forall>x \<in> set ?P \<union> set ?Q. length x = 32" by simp
    ultimately have "?P = ?Q" using len even_pad_layer by (blast intro: pair_inputs_inject)
    with 1(3) show ?thesis by (rule pad_layer_inject)
  qed
qed

text \<open>A layer of odd length has the root of the same layer with its last node repeated.\<close>

lemma merkle_root_repeat_last:
  assumes "odd (length xs)" and "1 < length xs"
  shows "merkle_root C (xs @ [last xs]) = merkle_root C xs"
proof -
  have "pad_layer (xs @ [last xs]) = pad_layer xs"
    using assms(1) by (simp add: pad_layer_def odd_iff_mod_2_eq_one mod_Suc)
  then show ?thesis
    using assms(2) merkle_root.simps [of C xs] merkle_root.simps [of C "xs @ [last xs]"]
    by (cases "xs = []") simp_all
qed

lemma rmap_append:
  "rmap f (xs @ ys) = rbind (rmap f xs) (\<lambda>as. rbind (rmap f ys) (\<lambda>bs. Inr (as @ bs)))"
  by (induction xs) (auto simp: rbind_assoc)

lemma rmap_last:
  assumes "rmap f xs = Inr ys" and "xs \<noteq> []"
  shows "f (last xs) = Inr (last ys)"
  using assms
proof (induction xs arbitrary: ys)
  case (Cons x xs)
  then obtain y ys' where "f x = Inr y" "rmap f xs = Inr ys'" "ys = y # ys'" by auto
  with Cons.IH [of ys'] rmap_length [of f xs ys'] show ?case by (cases "xs = []") auto
qed simp

text \<open>The bottom layer: the transaction identifiers, as 32-byte digests.\<close>

lemma txid_layer_props:
  assumes "digest_ok C" and "rmap (\<lambda>tx. rbind (txid C tx) fromhex) txs = Inr layer"
  shows "\<forall>x \<in> set layer. length x = 32" and "map (txid C) txs = map (\<lambda>x. Inr (hexlify x)) layer"
  using assms(2)
proof (induction txs arbitrary: layer)
  case (Cons tx txs)
  {
    case 1
    with Cons.IH(1) show ?case using assms(1) by (auto simp: txid_def sha256_hex_def digest_ok_def)
  next
    case 2
    with Cons.IH(2) show ?case by (auto simp: txid_def sha256_hex_def)
  }
qed simp_all

lemma transaction_root_repeat_last:
  assumes "odd (length txs)" and "1 < length txs"
  shows "calculate_transaction_root C (txs @ [last txs]) = calculate_transaction_root C txs"
proof -
  let ?f = "\<lambda>tx. rbind (txid C tx) fromhex"
  have ne: "txs \<noteq> []" using assms(2) by auto
  show ?thesis
  proof (cases "rmap ?f txs")
    case (Inl e)
    with ne show ?thesis by (simp add: calculate_transaction_root_def rmap_append)
  next
    case (Inr layer)
    from rmap_length [OF Inr] assms have "odd (length layer)" "1 < length layer" by simp_all
    from merkle_root_repeat_last [OF this] have r: "merkle_root C (layer @ [last layer]) = merkle_root C layer" .
    have "rmap ?f (txs @ [last txs]) = Inr (layer @ [last layer])"
      by (simp only: rmap_append rmap.simps Inr rmap_last [OF Inr ne] rbind_simps)
    with r Inr ne show ?thesis by (simp add: calculate_transaction_root_def del: rbind_eq_Inr)
  qed
qed

end
