(* ===== verification/Utxo_Set.thy ===== *)
theory Utxo_Set
  imports Transaction "HOL-Library.Multiset"
begin

text \<open>
  \<^verbatim>\<open>UTXO\<close> and \<^verbatim>\<open>UTXOSet\<close> of \<^verbatim>\<open>consensus.py\<close>: the dictionary of spendable outputs. What the consensus
  code relies on is the interface \<open>coin_store\<close>; what it does with the set, consuming a list of
  outpoints and then creating a list of outputs, is analysed once inside that interface.
\<close>

type_synonym utxo_set = "(outpoint, tx_output) dict"

record utxo =
  utxo_outpoint :: outpoint
  utxo_output :: tx_output

section \<open>Operations\<close>

definition utxo_add :: "outpoint \<Rightarrow> tx_output \<Rightarrow> utxo_set \<Rightarrow> utxo_set result" where
  "utxo_add o1 out s =
     (if o1 \<in> set (dict_keys s) then consensus_error ''duplicate utxo''
      else Inr (AList.update o1 out s))"

definition utxo_spend :: "outpoint \<Rightarrow> utxo_set \<Rightarrow> (tx_output \<times> utxo_set) result" where
  "utxo_spend o1 s =
     (case map_of s o1 of
        None \<Rightarrow> consensus_error ''missing or already spent output''
      | Some out \<Rightarrow> Inr (out, AList.delete o1 s))"

definition utxo_get :: "outpoint \<Rightarrow> utxo_set \<Rightarrow> tx_output result" where
  "utxo_get o1 s =
     (case map_of s o1 of None \<Rightarrow> consensus_error ''missing output'' | Some out \<Rightarrow> Inr out)"

definition utxo_contains :: "outpoint \<Rightarrow> utxo_set \<Rightarrow> bool" where
  "utxo_contains o1 s \<longleftrightarrow> o1 \<in> set (dict_keys s)"

definition utxo_total :: "utxo_set \<Rightarrow> int" where
  "utxo_total s = sum_list (map (\<lambda>p. out_amount (snd p)) s)"

definition utxo_new :: "utxo list \<Rightarrow> utxo_set result" where
  "utxo_new es = rfold (\<lambda>e. utxo_add (utxo_outpoint e) (utxo_output e)) es []"

definition utxo_copy :: "utxo_set \<Rightarrow> utxo_set result" where
  "utxo_copy s = utxo_new (map (\<lambda>(o1, out). \<lparr>utxo_outpoint = o1, utxo_output = out\<rparr>) s)"

definition utxo_entries :: "utxo_set \<Rightarrow> utxo list" where
  "utxo_entries s =
     map (\<lambda>(o1, out). \<lparr>utxo_outpoint = o1, utxo_output = out\<rparr>)
       (sort_key (\<lambda>p. (op_txid (fst p), op_index (fst p))) s)"

definition utxo_entries_for_address :: "pystr \<Rightarrow> utxo_set \<Rightarrow> utxo list" where
  "utxo_entries_for_address a s =
     filter (\<lambda>e. out_address (utxo_output e) = a) (utxo_entries s)"

definition utxo_len :: "utxo_set \<Rightarrow> int" where
  "utxo_len s = int (length s)"

section \<open>The interface\<close>

locale coin_store =
  fixes ok :: "'s \<Rightarrow> bool"
    and lookup :: "'s \<Rightarrow> outpoint \<Rightarrow> tx_output option"
    and amount :: "'s \<Rightarrow> int"
    and add :: "outpoint \<Rightarrow> tx_output \<Rightarrow> 's \<Rightarrow> 's result"
    and spend :: "outpoint \<Rightarrow> 's \<Rightarrow> (tx_output \<times> 's) result"
  assumes add_new: "ok s \<Longrightarrow> lookup s o1 = None \<Longrightarrow>
      \<exists>s'. add o1 out s = Inr s' \<and> ok s' \<and> lookup s' = (lookup s)(o1 \<mapsto> out) \<and>
           amount s' = amount s + out_amount out"
    and add_present: "ok s \<Longrightarrow> lookup s o1 = Some x \<Longrightarrow> raises (add o1 out s)"
    and spend_present: "ok s \<Longrightarrow> lookup s o1 = Some out \<Longrightarrow>
      \<exists>s'. spend o1 s = Inr (out, s') \<and> ok s' \<and> lookup s' = (lookup s)(o1 := None) \<and>
           amount s' = amount s - out_amount out"
    and spend_absent: "ok s \<Longrightarrow> lookup s o1 = None \<Longrightarrow> raises (spend o1 s)"
begin

lemma add_Inr_iff:
  assumes "ok s"
  shows "add o1 out s = Inr s' \<Longrightarrow>
    lookup s o1 = None \<and> ok s' \<and> lookup s' = (lookup s)(o1 \<mapsto> out) \<and>
    amount s' = amount s + out_amount out"
  using add_new [OF assms, of o1 out] add_present [OF assms, of o1 _ out]
  by (cases "lookup s o1") auto

lemma spend_Inr_iff:
  assumes "ok s"
  shows "spend o1 s = Inr (out, s') \<Longrightarrow>
    lookup s o1 = Some out \<and> ok s' \<and> lookup s' = (lookup s)(o1 := None) \<and>
    amount s' = amount s - out_amount out"
  using spend_present [OF assms, of o1] spend_absent [OF assms, of o1]
  by (cases "lookup s o1") auto

text \<open>Consuming outpoints one after the other succeeds exactly on distinct, present ones.\<close>

lemma spend_list_total:
  assumes "ok s" and "distinct os" and "\<And>o1. o1 \<in> set os \<Longrightarrow> lookup s o1 \<noteq> None"
  shows "\<exists>s'. rfold (\<lambda>o1 s. rbind (spend o1 s) (\<lambda>(_, s'). Inr s')) os s = Inr s' \<and> ok s' \<and>
    lookup s' = (\<lambda>o1. if o1 \<in> set os then None else lookup s o1) \<and>
    amount s' = amount s - sum_list (map (\<lambda>o1. out_amount (the (lookup s o1))) os)"
  using assms
proof (induction os arbitrary: s)
  case Nil
  then show ?case by simp
next
  case (Cons o1 os)
  from Cons.prems obtain out where out: "lookup s o1 = Some out" by fastforce
  from spend_present [OF Cons.prems(1) this] obtain s1 where
    s1: "spend o1 s = Inr (out, s1)" "ok s1" "lookup s1 = (lookup s)(o1 := None)"
      "amount s1 = amount s - out_amount out" by blast
  from Cons.prems have ne: "o2 \<noteq> o1" if "o2 \<in> set os" for o2 using that by auto
  from Cons.IH [OF s1(2)] Cons.prems s1(3) ne obtain s2 where
    s2: "rfold (\<lambda>o1 s. rbind (spend o1 s) (\<lambda>(_, s'). Inr s')) os s1 = Inr s2" "ok s2"
      "lookup s2 = (\<lambda>o1. if o1 \<in> set os then None else lookup s1 o1)"
      "amount s2 = amount s1 - sum_list (map (\<lambda>o1. out_amount (the (lookup s1 o1))) os)"
    by fastforce
  have eq: "map (\<lambda>o1. out_amount (the (lookup s1 o1))) os = map (\<lambda>o1. out_amount (the (lookup s o1))) os"
    using s1(3) ne by auto
  have "lookup s2 = (\<lambda>o2. if o2 \<in> set (o1 # os) then None else lookup s o2)"
    using s2(3) s1(3) by (auto simp: fun_eq_iff)
  moreover have "amount s2 = amount s - sum_list (map (\<lambda>o1. out_amount (the (lookup s o1))) (o1 # os))"
    using s2(4) [unfolded eq] s1(4) out by simp
  ultimately show ?case using s1(1) s2(1,2) by auto
qed

lemma add_list_Inr:
  assumes "rfold (\<lambda>(o1, out) s. add o1 out s) new s = Inr s'" and "ok s"
  shows "ok s' \<and> distinct (map fst new) \<and> (\<forall>o1 \<in> set (map fst new). lookup s o1 = None) \<and>
    lookup s' = (\<lambda>o1. case map_of new o1 of None \<Rightarrow> lookup s o1 | Some out \<Rightarrow> Some out) \<and>
    amount s' = amount s + sum_list (map (\<lambda>p. out_amount (snd p)) new)"
  using assms
proof (induction new arbitrary: s)
  case Nil
  then show ?case by simp
next
  case (Cons p new)
  obtain o1 out where p: "p = (o1, out)" by (cases p)
  with Cons.prems obtain s1 where s1: "add o1 out s = Inr s1"
    "rfold (\<lambda>(o1, out) s. add o1 out s) new s1 = Inr s'" by auto
  note a = add_Inr_iff [OF Cons.prems(2) s1(1)]
  from Cons.IH [OF s1(2)] a have ih: "ok s'" "distinct (map fst new)"
    "\<forall>o1 \<in> set (map fst new). lookup s1 o1 = None"
    "lookup s' = (\<lambda>o1. case map_of new o1 of None \<Rightarrow> lookup s1 o1 | Some out \<Rightarrow> Some out)"
    "amount s' = amount s1 + sum_list (map (\<lambda>p. out_amount (snd p)) new)" by auto
  from ih(3) a have o1: "o1 \<notin> set (map fst new)" by auto
  then have "map_of new o1 = None" by (simp add: map_of_eq_None_iff)
  with a ih o1 p show ?case by (auto simp: fun_eq_iff split: option.splits if_splits)
qed

lemma add_list_total:
  assumes "ok s" and "distinct (map fst new)" and "\<And>o1. o1 \<in> set (map fst new) \<Longrightarrow> lookup s o1 = None"
  shows "\<exists>s'. rfold (\<lambda>(o1, out) s. add o1 out s) new s = Inr s'"
  using assms
proof (induction new arbitrary: s)
  case Nil
  then show ?case by simp
next
  case (Cons p new)
  obtain o1 out where p: "p = (o1, out)" by (cases p)
  from Cons.prems p have "lookup s o1 = None" by simp
  from add_new [OF Cons.prems(1) this] obtain s1 where
    s1: "add o1 out s = Inr s1" "ok s1" "lookup s1 = (lookup s)(o1 \<mapsto> out)" by blast
  have "\<exists>s'. rfold (\<lambda>(o1, out) s. add o1 out s) new s1 = Inr s'"
    by (rule Cons.IH [OF s1(2)]) (use Cons.prems p s1(3) in auto)
  with p s1(1) show ?case by simp
qed

end

section \<open>The dictionary provides it\<close>

interpretation utxo_store: coin_store dict_ok map_of utxo_total utxo_add utxo_spend
proof
  fix s :: utxo_set and o1 out
  assume "dict_ok s" "map_of s o1 = None"
  then show "\<exists>s'. utxo_add o1 out s = Inr s' \<and> dict_ok s' \<and> map_of s' = (map_of s)(o1 \<mapsto> out) \<and>
      utxo_total s' = utxo_total s + out_amount out"
    using update_fresh [of o1 s out] map_of_update_dict [of o1 out s]
    by (auto simp: utxo_add_def map_of_eq_None_iff utxo_total_def)
next
  fix s :: utxo_set and o1 out
  assume "dict_ok s" "map_of s o1 = Some out"
  then show "\<exists>s'. utxo_spend o1 s = Inr (out, s') \<and> dict_ok s' \<and> map_of s' = (map_of s)(o1 := None) \<and>
      utxo_total s' = utxo_total s - out_amount out"
    by (auto simp: utxo_spend_def map_of_delete_dict AList.distinct_delete sum_list_delete utxo_total_def)
next
  fix s :: utxo_set and o1 x out
  assume "map_of s o1 = Some x"
  then have "o1 \<in> set (map fst s)" by (metis map_of_SomeD image_eqI fst_conv set_map)
  then show "raises (utxo_add o1 out s)" by (simp add: utxo_add_def)
next
  fix s :: utxo_set and o1
  assume "map_of s o1 = None"
  then show "raises (utxo_spend o1 s)" by (simp add: utxo_spend_def)
qed

section \<open>Copies and listings\<close>

lemma utxo_new_append:
  "dict_ok (d @ s) \<Longrightarrow>
   rfold (\<lambda>e. utxo_add (utxo_outpoint e) (utxo_output e))
     (map (\<lambda>(o1, out). \<lparr>utxo_outpoint = o1, utxo_output = out\<rparr>) s) d = Inr (d @ s)"
proof (induction s arbitrary: d)
  case Nil
  then show ?case by simp
next
  case (Cons p s)
  then have "fst p \<notin> fst ` set d" by auto
  then have "utxo_add (fst p) (snd p) d = Inr (d @ [p])"
    by (simp add: utxo_add_def update_fresh)
  moreover have "dict_ok ((d @ [p]) @ s)" using Cons.prems by simp
  ultimately show ?case using Cons.IH [of "d @ [p]"] by (simp add: case_prod_unfold)
qed

text \<open>The copy constructor re-adds every entry; on a dictionary it cannot raise and is the identity.\<close>

lemma utxo_copy_id [simp]: "dict_ok s \<Longrightarrow> utxo_copy s = Inr s"
  using utxo_new_append [of "[]" s] by (simp add: utxo_copy_def utxo_new_def)

lemma utxo_copy_Inr: "utxo_copy s = Inr s' \<Longrightarrow> dict_ok s' \<and> map_of s' = map_of s \<and> dict_ok s"
proof -
  assume "utxo_copy s = Inr s'"
  moreover have "rfold (\<lambda>e. utxo_add (utxo_outpoint e) (utxo_output e))
      (map (\<lambda>(o1, out). \<lparr>utxo_outpoint = o1, utxo_output = out\<rparr>) s) [] =
      rfold (\<lambda>(o1, out) s. utxo_add o1 out s) s []"
    for s :: utxo_set
  proof -
    have "rfold (\<lambda>e. utxo_add (utxo_outpoint e) (utxo_output e))
      (map (\<lambda>(o1, out). \<lparr>utxo_outpoint = o1, utxo_output = out\<rparr>) s) d =
      rfold (\<lambda>(o1, out) s. utxo_add o1 out s) s d" for d
      by (induction s arbitrary: d) (auto intro!: rbind_cong)
    then show ?thesis .
  qed
  ultimately have "rfold (\<lambda>(o1, out) s. utxo_add o1 out s) s [] = Inr s'"
    by (simp add: utxo_copy_def utxo_new_def)
  from utxo_store.add_list_Inr [OF this] show ?thesis
    by (auto simp: fun_eq_iff split: option.splits)
qed

lemma set_utxo_entries:
  "set (utxo_entries s) = (\<lambda>p. \<lparr>utxo_outpoint = fst p, utxo_output = snd p\<rparr>) ` set s"
  by (simp add: utxo_entries_def case_prod_unfold)

lemma sum_utxo_entries: "sum_list (map (\<lambda>e. out_amount (utxo_output e)) (utxo_entries s)) = utxo_total s"
proof -
  have "mset (map (\<lambda>p. out_amount (snd p)) (sort_key (\<lambda>p. (op_txid (fst p), op_index (fst p))) s)) =
        mset (map (\<lambda>p. out_amount (snd p)) s)" by simp
  from arg_cong [OF this, of sum_mset] show ?thesis
    by (simp only: sum_mset_sum_list)
       (simp add: utxo_entries_def utxo_total_def comp_def case_prod_unfold)
qed

lemma distinct_utxo_entries: "dict_ok s \<Longrightarrow> distinct (map utxo_outpoint (utxo_entries s))"
proof -
  assume "dict_ok s"
  then have "distinct (map fst (sort_key (\<lambda>p. (op_txid (fst p), op_index (fst p))) s))"
    by (metis distinct_map distinct_sort set_sort)
  then show ?thesis by (simp add: utxo_entries_def comp_def case_prod_unfold)
qed

lemma sorted_utxo_entries: "sorted (map utxo_outpoint (utxo_entries s))"
proof -
  have "sorted (map (\<lambda>p. (op_txid (fst p), op_index (fst p)))
     (sort_key (\<lambda>p. (op_txid (fst p), op_index (fst p))) s))" by (rule sorted_sort_key)
  then show ?thesis
    by (simp add: utxo_entries_def sorted_map comp_def case_prod_unfold less_eq_outpoint_def)
qed

lemma mem_entries_for_address:
  assumes "dict_ok s"
  shows "e \<in> set (utxo_entries_for_address a s) \<longleftrightarrow>
    map_of s (utxo_outpoint e) = Some (utxo_output e) \<and> out_address (utxo_output e) = a"
  using assms
  by (auto simp: utxo_entries_for_address_def set_utxo_entries image_iff
      intro: utxo.equality dest: map_of_SomeD) force

end
