(* ===== verification/Consensus_State.thy ===== *)
theory Consensus_State
  imports Utxo_Set
begin

text \<open>
  \<^verbatim>\<open>ConsensusState\<close> of \<^verbatim>\<open>consensus.py\<close>: transaction validation, application of ordinary, block-reward
  and genesis transactions, and the construction of coinbase transactions. Mutating methods are
  \<open>op\<close>s, so that what a failed call leaves behind is part of the model.
\<close>

record consensus_state =
  cs_utxos :: utxo_set
  cs_block_subsidy :: int
  cs_max_money :: int

section \<open>Operations\<close>

definition new_state :: "utxo_set option \<Rightarrow> int \<Rightarrow> int \<Rightarrow> consensus_state result" where
  "new_state utxos block_subsidy max_money =
     (if block_subsidy < 0 then consensus_error ''block subsidy cannot be negative''
      else if max_money \<le> 0 then consensus_error ''max money must be positive''
      else Inr \<lparr>cs_utxos = (case utxos of None \<Rightarrow> [] | Some u \<Rightarrow> u),
                cs_block_subsidy = block_subsidy, cs_max_money = max_money\<rparr>)"

definition validate_transaction_version :: "consensus_transaction \<Rightarrow> unit result" where
  "validate_transaction_version tx =
     (if tx_version tx \<notin> set SUPPORTED_TRANSACTION_VERSIONS
      then consensus_error ''transaction version is unsupported'' else Inr ())"

definition validate_output :: "consensus_state \<Rightarrow> tx_output \<Rightarrow> unit \<Rightarrow> unit result" where
  "validate_output st out u =
     (if out_amount out \<le> 0 then consensus_error ''output amount must be positive''
      else if out_amount out > cs_max_money st then consensus_error ''output exceeds maximum supply''
      else if \<not> is_valid_address (out_address out) then consensus_error ''invalid output address''
      else Inr ())"

definition validate_outputs :: "consensus_state \<Rightarrow> tx_output list \<Rightarrow> unit result" where
  "validate_outputs st outs =
     (if outs = [] then consensus_error ''transaction has no outputs''
      else rfold (validate_output st) outs ())"

definition output_total :: "consensus_transaction \<Rightarrow> int" where
  "output_total tx = sum_list (map out_amount (tx_outputs tx))"

definition input_is_signed :: "tx_input \<Rightarrow> bool" where
  "input_is_signed i \<longleftrightarrow> in_signature i \<noteq> None \<or> in_public_key i \<noteq> None"

definition validate_coinbase :: "consensus_state \<Rightarrow> consensus_transaction \<Rightarrow> int result" where
  "validate_coinbase st tx =
     (if length (tx_inputs tx) \<noteq> 1 then consensus_error ''coinbase must have exactly one input''
      else if input_is_signed (tx_inputs tx ! 0)
      then consensus_error ''coinbase input must not be signed''
      else if output_total tx > cs_block_subsidy st
      then consensus_error ''coinbase pays more than subsidy''
      else Inr 0)"

definition validate_input_signature ::
  "crypto \<Rightarrow> consensus_transaction \<Rightarrow> int \<Rightarrow> tx_input \<Rightarrow> tx_output \<Rightarrow> unit result" where
  "validate_input_signature C tx input_index inp prev =
     (case (in_public_key inp, in_signature inp) of
        (Some d, Some s) \<Rightarrow>
          if d = [] \<or> s = [] then consensus_error ''input is missing witness''
          else (case pk_from_dict d of
            Inl e \<Rightarrow> consensus_error ''invalid input public key''
          | Inr pk \<Rightarrow>
              rbind (pk_address C pk) (\<lambda>a.
                if a \<noteq> out_address prev then consensus_error ''input public key does not own output''
                else if \<not> verify_signature C pk (signing_message tx input_index) s
                then consensus_error ''invalid input signature''
                else Inr ()))
      | _ \<Rightarrow> consensus_error ''input is missing witness'')"

text \<open>The loop over \<^verbatim>\<open>enumerate(transaction.inputs)\<close> with its two locals.\<close>

primrec validate_inputs ::
  "crypto \<Rightarrow> consensus_state \<Rightarrow> consensus_transaction \<Rightarrow> int \<Rightarrow> outpoint list \<Rightarrow> int \<Rightarrow> tx_input list \<Rightarrow>
   int result" where
  "validate_inputs C st tx i seen acc [] = Inr acc"
| "validate_inputs C st tx i seen acc (inp # inps) =
     (if in_previous_output inp \<in> set seen
      then consensus_error ''transaction double-spends an input''
      else
        rbind (utxo_get (in_previous_output inp) (cs_utxos st)) (\<lambda>prev.
        rbind (validate_input_signature C tx i inp prev) (\<lambda>_.
          validate_inputs C st tx (i + 1) (in_previous_output inp # seen)
            (acc + out_amount prev) inps)))"

definition validate_transaction :: "crypto \<Rightarrow> consensus_state \<Rightarrow> consensus_transaction \<Rightarrow> int result" where
  "validate_transaction C st tx =
     rbind (validate_transaction_version tx) (\<lambda>_.
     rbind (validate_outputs st (tx_outputs tx)) (\<lambda>_.
     if is_coinbase tx then validate_coinbase st tx
     else if tx_inputs tx = [] then consensus_error ''transaction has no inputs''
     else
       rbind (validate_inputs C st tx 0 [] 0 (tx_inputs tx)) (\<lambda>input_total.
       if output_total tx > input_total
       then consensus_error ''transaction spends more than its inputs''
       else Inr (input_total - output_total tx))))"

definition spend_inputs :: "tx_input list \<Rightarrow> utxo_set \<Rightarrow> utxo_set result" where
  "spend_inputs inps u =
     rfold (\<lambda>inp u. rbind (utxo_spend (in_previous_output inp) u) (\<lambda>(_, u'). Inr u')) inps u"

definition add_outputs :: "crypto \<Rightarrow> consensus_transaction \<Rightarrow> utxo_set \<Rightarrow> utxo_set result" where
  "add_outputs C tx u =
     rfold (\<lambda>(i, out) u. rbind (txid C tx) (\<lambda>t. utxo_add (OutPoint t (int i)) out u))
       (List.enumerate 0 (tx_outputs tx)) u"

definition require_supply :: "consensus_state \<Rightarrow> utxo_set \<Rightarrow> unit result" where
  "require_supply st u =
     (if utxo_total u > cs_max_money st then consensus_error ''utxo set exceeds maximum supply''
      else Inr ())"

text \<open>The assignment \<^verbatim>\<open>self.utxos = updated\<close> is the last step of every mutating method.\<close>

definition commit :: "consensus_state \<Rightarrow> ('a \<times> utxo_set) result \<Rightarrow> 'a result \<times> consensus_state" where
  "commit st r =
     (case r of Inl e \<Rightarrow> (Inl e, st) | Inr (x, u) \<Rightarrow> (Inr x, st\<lparr>cs_utxos := u\<rparr>))"

definition apply_transaction :: "crypto \<Rightarrow> consensus_transaction \<Rightarrow> (consensus_state, int) op" where
  "apply_transaction C tx st =
     commit st (
       rbind (validate_transaction C st tx) (\<lambda>fee.
       rbind (utxo_copy (cs_utxos st)) (\<lambda>u.
       rbind (if is_coinbase tx then Inr u else spend_inputs (tx_inputs tx) u) (\<lambda>u1.
       rbind (add_outputs C tx u1) (\<lambda>u2.
       rbind (require_supply st u2) (\<lambda>_. Inr (fee, u2)))))))"

definition create_coinbase :: "consensus_state \<Rightarrow> pystr \<Rightarrow> int \<Rightarrow> int \<Rightarrow> consensus_transaction result" where
  "create_coinbase st miner_address fees height =
     (if \<not> is_valid_address miner_address then consensus_error ''invalid miner address''
      else if fees < 0 then consensus_error ''fees cannot be negative''
      else if height < 0 then consensus_error ''height cannot be negative''
      else if utxo_total (cs_utxos st) + cs_block_subsidy st > cs_max_money st
      then consensus_error ''coinbase would exceed maximum supply''
      else Inr \<lparr>tx_inputs = [unsigned_input (OutPoint COINBASE_PREV_TXID (- (height + 1)))],
                tx_outputs = [\<lparr>out_amount = cs_block_subsidy st + fees, out_address = miner_address\<rparr>],
                tx_version = 1\<rparr>)"

definition apply_block_coinbase :: "crypto \<Rightarrow> consensus_transaction \<Rightarrow> int \<Rightarrow> (consensus_state, unit) op" where
  "apply_block_coinbase C tx fees st =
     commit st (
       rbind (validate_transaction_version tx) (\<lambda>_.
       rbind (validate_outputs st (tx_outputs tx)) (\<lambda>_.
       if \<not> is_coinbase tx then consensus_error ''block reward transaction must be coinbase''
       else if fees < 0 then consensus_error ''fees cannot be negative''
       else if input_is_signed (tx_inputs tx ! 0)
       then consensus_error ''coinbase input must not be signed''
       else if output_total tx > cs_block_subsidy st + fees
       then consensus_error ''coinbase pays more than subsidy plus fees''
       else
         rbind (utxo_copy (cs_utxos st)) (\<lambda>u.
         rbind (add_outputs C tx u) (\<lambda>u1.
         rbind (require_supply st u1) (\<lambda>_. Inr ((), u1)))))))"

definition apply_genesis_coinbase :: "crypto \<Rightarrow> consensus_transaction \<Rightarrow> (consensus_state, unit) op" where
  "apply_genesis_coinbase C tx st =
     commit st (
       rbind (validate_transaction_version tx) (\<lambda>_.
       rbind (validate_outputs st (tx_outputs tx)) (\<lambda>_.
       if \<not> is_coinbase tx then consensus_error ''genesis transaction must be coinbase''
       else if input_is_signed (tx_inputs tx ! 0)
       then consensus_error ''coinbase input must not be signed''
       else
         rbind (utxo_copy (cs_utxos st)) (\<lambda>u.
         rbind (add_outputs C tx u) (\<lambda>u1.
         rbind (require_supply st u1) (\<lambda>_. Inr ((), u1)))))))"

section \<open>The invariant\<close>

definition coin_ok :: "int \<Rightarrow> outpoint \<times> tx_output \<Rightarrow> bool" where
  "coin_ok max_money p \<longleftrightarrow>
     0 \<le> op_index (fst p) \<and> 0 < out_amount (snd p) \<and> out_amount (snd p) \<le> max_money \<and>
     is_valid_address (out_address (snd p))"

definition state_ok :: "consensus_state \<Rightarrow> bool" where
  "state_ok st \<longleftrightarrow>
     dict_ok (cs_utxos st) \<and> list_all (coin_ok (cs_max_money st)) (cs_utxos st) \<and>
     utxo_total (cs_utxos st) \<le> cs_max_money st \<and> 0 \<le> cs_block_subsidy st \<and> 0 < cs_max_money st"

text \<open>The entries a transaction creates.\<close>

definition created :: "crypto \<Rightarrow> consensus_transaction \<Rightarrow> (outpoint, tx_output) dict" where
  "created C tx =
     (case txid C tx of
        Inl e \<Rightarrow> []
      | Inr t \<Rightarrow> map (\<lambda>(i, out). (OutPoint t (int i), out)) (List.enumerate 0 (tx_outputs tx)))"

lemma commit_simps [simp]:
  "commit st (Inl e) = (Inl e, st)" "commit st (Inr (x, u)) = (Inr x, st\<lparr>cs_utxos := u\<rparr>)"
  by (simp_all add: commit_def)

lemma commit_Inr_iff: "commit st r = (Inr x, st') \<longleftrightarrow> (\<exists>u. r = Inr (x, u) \<and> st' = st\<lparr>cs_utxos := u\<rparr>)"
  by (auto simp: commit_def split: sum.splits)

lemma commit_Inl_iff: "commit st r = (Inl e, st') \<longleftrightarrow> r = Inl e \<and> st' = st"
  by (auto simp: commit_def split: sum.splits)

section \<open>Creating and consuming entries\<close>

lemma map_fst_created:
  assumes "txid C tx = Inr t"
  shows "map fst (created C tx) = map (\<lambda>i. OutPoint t (int i)) [0..<length (tx_outputs tx)]"
proof -
  have "map fst (created C tx) = map (\<lambda>i. OutPoint t (int i)) (map fst (List.enumerate 0 (tx_outputs tx)))"
    by (simp only: created_def assms sum.case map_map comp_def case_prod_unfold fst_conv)
  then show ?thesis by simp
qed

lemma snd_created: "txid C tx = Inr t \<Longrightarrow> map snd (created C tx) = tx_outputs tx"
  by (simp add: created_def comp_def case_prod_unfold)

lemma distinct_created: "dict_ok (created C tx)"
proof (cases "txid C tx")
  case (Inl e)
  then show ?thesis by (simp add: created_def)
next
  case (Inr t)
  have "inj (\<lambda>i. OutPoint t (int i))" by (auto simp: inj_def)
  then show ?thesis unfolding map_fst_created [OF Inr] by (simp add: distinct_map inj_on_subset [OF _ subset_UNIV])
qed

lemma sum_created:
  assumes "txid C tx = Inr t"
  shows "sum_list (map (\<lambda>p. out_amount (snd p)) (created C tx)) = output_total tx"
proof -
  have "map (\<lambda>p. out_amount (snd p)) (created C tx) = map out_amount (map snd (created C tx))"
    by simp
  then show ?thesis by (simp only: snd_created [OF assms] output_total_def)
qed

lemma add_outputs_created:
  "txid C tx = Inr t \<Longrightarrow>
   add_outputs C tx u = rfold (\<lambda>(o1, out) u. utxo_add o1 out u) (created C tx) u"
proof -
  assume t: "txid C tx = Inr t"
  have "rfold (\<lambda>(i, out) u. rbind (txid C tx) (\<lambda>t. utxo_add (OutPoint t (int i)) out u)) xs u =
    rfold (\<lambda>(o1, out) u. utxo_add o1 out u) (map (\<lambda>(i, out). (OutPoint t (int i), out)) xs) u" for xs
    by (induction xs arbitrary: u) (auto simp: t intro!: rbind_cong)
  then show ?thesis by (simp add: add_outputs_def created_def t)
qed

lemma add_outputs_raises:
  "txid C tx = Inl e \<Longrightarrow> tx_outputs tx \<noteq> [] \<Longrightarrow> add_outputs C tx u = Inl e"
  by (cases "tx_outputs tx") (auto simp: add_outputs_def)

text \<open>What \<^verbatim>\<open>add\<close>ing the outputs of a transaction does when it succeeds.\<close>

lemma add_outputs_Inr:
  assumes "add_outputs C tx u = Inr u'" and "dict_ok u" and "tx_outputs tx \<noteq> []"
  shows "\<exists>t. txid C tx = Inr t" and "dict_ok u'"
    and "\<forall>o1 \<in> fst ` set (created C tx). map_of u o1 = None"
    and "map_of u' = (\<lambda>o1. case map_of (created C tx) o1 of None \<Rightarrow> map_of u o1 | Some out \<Rightarrow> Some out)"
    and "utxo_total u' = utxo_total u + output_total tx"
proof -
  show t: "\<exists>t. txid C tx = Inr t"
    using assms add_outputs_raises by (cases "txid C tx") auto
  then obtain t where t: "txid C tx = Inr t" by blast
  from assms(1) have "rfold (\<lambda>(o1, out) u. utxo_add o1 out u) (created C tx) u = Inr u'"
    by (simp add: add_outputs_created [OF t])
  from utxo_store.add_list_Inr [OF this assms(2)] show "dict_ok u'"
    "\<forall>o1 \<in> fst ` set (created C tx). map_of u o1 = None"
    "map_of u' = (\<lambda>o1. case map_of (created C tx) o1 of None \<Rightarrow> map_of u o1 | Some out \<Rightarrow> Some out)"
    "utxo_total u' = utxo_total u + output_total tx"
    by (simp_all add: sum_created [OF t])
qed

lemma spend_inputs_rfold:
  "spend_inputs inps u =
   rfold (\<lambda>o1 u. rbind (utxo_spend o1 u) (\<lambda>(_, u'). Inr u')) (map in_previous_output inps) u"
  unfolding spend_inputs_def by (induction inps arbitrary: u) (auto intro!: rbind_cong)

lemma spend_inputs_total:
  assumes "dict_ok u" and "distinct (map in_previous_output inps)"
    and "\<And>inp. inp \<in> set inps \<Longrightarrow> map_of u (in_previous_output inp) \<noteq> None"
  shows "\<exists>u'. spend_inputs inps u = Inr u' \<and> dict_ok u' \<and>
    map_of u' = (\<lambda>o1. if o1 \<in> in_previous_output ` set inps then None else map_of u o1) \<and>
    utxo_total u' = utxo_total u -
      sum_list (map (\<lambda>inp. out_amount (the (map_of u (in_previous_output inp)))) inps)"
  using utxo_store.spend_list_total [OF assms(1,2)] assms(3)
  by (fastforce simp: spend_inputs_rfold comp_def)

section \<open>What validation accepts\<close>

lemma validate_outputs_iff:
  "validate_outputs st outs = Inr u \<longleftrightarrow>
     outs \<noteq> [] \<and> (\<forall>out \<in> set outs. 0 < out_amount out \<and> out_amount out \<le> cs_max_money st \<and>
       is_valid_address (out_address out))"
proof -
  have "rfold (validate_output st) outs () = Inr u \<longleftrightarrow>
    (\<forall>out \<in> set outs. 0 < out_amount out \<and> out_amount out \<le> cs_max_money st \<and>
       is_valid_address (out_address out))"
    by (induction outs) (auto simp: validate_output_def)
  then show ?thesis by (simp add: validate_outputs_def)
qed

lemma validate_input_signature_iff:
  "validate_input_signature C tx i inp prev = Inr u \<longleftrightarrow> authorizes C tx i inp prev"
  by (auto simp: validate_input_signature_def authorizes_def split: option.splits sum.splits)

lemma utxo_get_Inr [simp]: "utxo_get o1 u = Inr out \<longleftrightarrow> map_of u o1 = Some out"
  by (auto simp: utxo_get_def split: option.splits)

lemma validate_inputs_iff:
  "validate_inputs C st tx i seen acc inps = Inr t \<longleftrightarrow>
     distinct (map in_previous_output inps) \<and> set seen \<inter> in_previous_output ` set inps = {} \<and>
     (\<forall>k < length inps. \<exists>prev. map_of (cs_utxos st) (in_previous_output (inps ! k)) = Some prev \<and>
        authorizes C tx (i + int k) (inps ! k) prev) \<and>
     t = acc + sum_list (map (\<lambda>inp. out_amount (the (map_of (cs_utxos st) (in_previous_output inp)))) inps)"
proof (induction inps arbitrary: i seen acc)
  case Nil
  then show ?case by auto
next
  case (Cons inp inps)
  have idx: "(\<forall>k < length (inp # inps). P k) \<longleftrightarrow> P 0 \<and> (\<forall>k < length inps. P (Suc k))" for P
    by (auto simp: less_Suc_eq_0_disj)
  show ?case
    unfolding validate_inputs.simps idx
    by (auto simp: Cons.IH validate_input_signature_iff algebra_simps)
qed

text \<open>
  The declarative reading of \<^verbatim>\<open>validate_transaction\<close>: which transactions are accepted and with which
  fee.
\<close>

definition outputs_valid :: "consensus_state \<Rightarrow> consensus_transaction \<Rightarrow> bool" where
  "outputs_valid st tx \<longleftrightarrow>
     tx_version tx = 1 \<and> tx_outputs tx \<noteq> [] \<and>
     (\<forall>out \<in> set (tx_outputs tx). 0 < out_amount out \<and> out_amount out \<le> cs_max_money st \<and>
        is_valid_address (out_address out))"

definition input_value :: "consensus_state \<Rightarrow> consensus_transaction \<Rightarrow> int" where
  "input_value st tx =
     sum_list (map (\<lambda>inp. out_amount (the (map_of (cs_utxos st) (in_previous_output inp)))) (tx_inputs tx))"

definition transfer_valid :: "crypto \<Rightarrow> consensus_state \<Rightarrow> consensus_transaction \<Rightarrow> bool" where
  "transfer_valid C st tx \<longleftrightarrow>
     outputs_valid st tx \<and> \<not> is_coinbase tx \<and> tx_inputs tx \<noteq> [] \<and>
     distinct (map in_previous_output (tx_inputs tx)) \<and>
     (\<forall>k < length (tx_inputs tx). \<exists>prev.
        map_of (cs_utxos st) (in_previous_output (tx_inputs tx ! k)) = Some prev \<and>
        authorizes C tx (int k) (tx_inputs tx ! k) prev) \<and>
     output_total tx \<le> input_value st tx"

definition reward_valid :: "consensus_state \<Rightarrow> int \<Rightarrow> consensus_transaction \<Rightarrow> bool" where
  "reward_valid st limit tx \<longleftrightarrow>
     outputs_valid st tx \<and> is_coinbase tx \<and> \<not> input_is_signed (hd (tx_inputs tx)) \<and>
     output_total tx \<le> limit"

lemma is_coinbase_inputs: "is_coinbase tx \<Longrightarrow> \<exists>i. tx_inputs tx = [i]"
  by (auto simp: is_coinbase_def split: list.splits)

lemma validate_version_iff [simp]: "validate_transaction_version tx = Inr u \<longleftrightarrow> tx_version tx = 1"
  by (simp add: validate_transaction_version_def SUPPORTED_TRANSACTION_VERSIONS_def)

lemma validate_transfer_iff:
  "\<not> is_coinbase tx \<Longrightarrow>
   validate_transaction C st tx = Inr fee \<longleftrightarrow>
     transfer_valid C st tx \<and> fee = input_value st tx - output_total tx"
  by (auto simp: validate_transaction_def transfer_valid_def outputs_valid_def validate_outputs_iff
      validate_inputs_iff input_value_def)

lemma validate_coinbase_iff:
  "is_coinbase tx \<Longrightarrow>
   validate_transaction C st tx = Inr fee \<longleftrightarrow> reward_valid st (cs_block_subsidy st) tx \<and> fee = 0"
  using is_coinbase_inputs [of tx]
  by (auto simp: validate_transaction_def reward_valid_def outputs_valid_def validate_outputs_iff
      validate_coinbase_def)

section \<open>Effect of the mutating methods\<close>

text \<open>The ledger a transaction leaves: its outputs are created, the outpoints it consumes are gone.\<close>

definition ledger_after ::
  "crypto \<Rightarrow> consensus_transaction \<Rightarrow> outpoint set \<Rightarrow> (outpoint \<rightharpoonup> tx_output) \<Rightarrow> (outpoint \<rightharpoonup> tx_output)" where
  "ledger_after C tx gone m =
     (\<lambda>o1. case map_of (created C tx) o1 of
             Some out \<Rightarrow> Some out
           | None \<Rightarrow> if o1 \<in> gone then None else m o1)"

lemma state_ok_dict [simp]: "state_ok st \<Longrightarrow> dict_ok (cs_utxos st)"
  by (simp add: state_ok_def)

lemma state_ok_coin: "state_ok st \<Longrightarrow> map_of (cs_utxos st) o1 = Some out \<Longrightarrow> coin_ok (cs_max_money st) (o1, out)"
  by (auto simp: state_ok_def list_all_iff dest: map_of_SomeD)

lemma state_ok_iff_coins:
  assumes "dict_ok u"
  shows "list_all (coin_ok m) u \<longleftrightarrow> (\<forall>o1 out. map_of u o1 = Some out \<longrightarrow> coin_ok m (o1, out))"
  using assms by (auto simp: list_all_iff dest: map_of_SomeD)

lemma created_coin_ok:
  assumes "outputs_valid st tx" and "map_of (created C tx) o1 = Some out"
  shows "coin_ok (cs_max_money st) (o1, out)"
proof -
  from assms(2) have "(o1, out) \<in> set (created C tx)" by (rule map_of_SomeD)
  then have "out \<in> set (tx_outputs tx)" "0 \<le> op_index o1"
    by (auto simp: created_def in_set_enumerate_eq split: sum.splits)
  with assms(1) show ?thesis by (simp add: outputs_valid_def coin_ok_def)
qed

lemma created_nonempty:
  "txid C tx = Inr t \<Longrightarrow> tx_outputs tx \<noteq> [] \<Longrightarrow> map_of (created C tx) (OutPoint t 0) \<noteq> None"
  by (cases "tx_outputs tx") (auto simp: created_def)

text \<open>
  The common tail of the three mutating methods, from a set \<open>u\<close> that is a sub-ledger of the
  state's: outputs added and the supply checked.
\<close>

lemma mint:
  assumes st: "state_ok st" and u: "dict_ok u" "map_of u \<subseteq>\<^sub>m map_of (cs_utxos st)"
    and out: "outputs_valid st tx"
    and run: "add_outputs C tx u = Inr u'" "require_supply st u' = Inr y"
  shows "state_ok (st\<lparr>cs_utxos := u'\<rparr>)" and "utxo_total u' = utxo_total u + output_total tx"
    and "map_of u' = (\<lambda>o1. case map_of (created C tx) o1 of None \<Rightarrow> map_of u o1 | Some out \<Rightarrow> Some out)"
    and "\<forall>o1 \<in> fst ` set (created C tx). map_of u o1 = None"
proof -
  have ne: "tx_outputs tx \<noteq> []" using out by (simp add: outputs_valid_def)
  note a = add_outputs_Inr [OF run(1) u(1) ne]
  show "utxo_total u' = utxo_total u + output_total tx"
    and m: "map_of u' = (\<lambda>o1. case map_of (created C tx) o1 of None \<Rightarrow> map_of u o1 | Some out \<Rightarrow> Some out)"
    and "\<forall>o1 \<in> fst ` set (created C tx). map_of u o1 = None"
    using a by blast+
  have "coin_ok (cs_max_money st) (o1, out1)" if "map_of u' o1 = Some out1" for o1 out1
    using that created_coin_ok [OF out, of C o1] state_ok_coin [OF st, of o1] u(2)
    by (auto simp: m map_le_def dom_def split: option.splits)
  with a(2) have "list_all (coin_ok (cs_max_money st)) u'" by (simp add: state_ok_iff_coins)
  moreover have "utxo_total u' \<le> cs_max_money st"
    using run(2) by (simp add: require_supply_def split: if_splits)
  ultimately show "state_ok (st\<lparr>cs_utxos := u'\<rparr>)" using st a(2) by (simp add: state_ok_def)
qed

lemma transfer_valid_inputs:
  "transfer_valid C st tx \<Longrightarrow> inp \<in> set (tx_inputs tx) \<Longrightarrow>
   map_of (cs_utxos st) (in_previous_output inp) \<noteq> None"
  unfolding transfer_valid_def in_set_conv_nth by (metis option.distinct(1))

abbreviation spent_by :: "consensus_transaction \<Rightarrow> outpoint set" where
  "spent_by tx \<equiv> in_previous_output ` set (tx_inputs tx)"

lemma apply_transfer:
  assumes "state_ok st" and "\<not> is_coinbase tx" and "apply_transaction C tx st = (Inr fee, st')"
  shows "transfer_valid C st tx" and "fee = input_value st tx - output_total tx"
    and "state_ok st'" and "utxo_total (cs_utxos st') = utxo_total (cs_utxos st) - fee"
    and "map_of (cs_utxos st') = ledger_after C tx (spent_by tx) (map_of (cs_utxos st))"
    and "cs_block_subsidy st' = cs_block_subsidy st" and "cs_max_money st' = cs_max_money st"
    and "\<exists>t. txid C tx = Inr t"
    and "\<forall>o1 \<in> fst ` set (created C tx). o1 \<in> spent_by tx \<or> map_of (cs_utxos st) o1 = None"
proof -
  from assms obtain u1 u2 where
    v: "validate_transaction C st tx = Inr fee" and
    u1: "spend_inputs (tx_inputs tx) (cs_utxos st) = Inr u1" and
    u2: "add_outputs C tx u1 = Inr u2" and s: "require_supply st u2 = Inr ()" and
    st': "st' = st\<lparr>cs_utxos := u2\<rparr>"
    by (auto simp: apply_transaction_def commit_Inr_iff)
  from v assms(2) show tv: "transfer_valid C st tx" and fee: "fee = input_value st tx - output_total tx"
    by (simp_all add: validate_transfer_iff)
  have "distinct (map in_previous_output (tx_inputs tx))" using tv by (simp add: transfer_valid_def)
  from spend_inputs_total [OF state_ok_dict [OF assms(1)] this transfer_valid_inputs [OF tv]] u1
  have u1: "dict_ok u1"
    "map_of u1 = (\<lambda>o1. if o1 \<in> spent_by tx then None else map_of (cs_utxos st) o1)"
    "utxo_total u1 = utxo_total (cs_utxos st) - input_value st tx"
    by (auto simp: input_value_def)
  then have le: "map_of u1 \<subseteq>\<^sub>m map_of (cs_utxos st)" by (auto simp: map_le_def dom_def)
  have ov: "outputs_valid st tx" using tv by (simp add: transfer_valid_def)
  note m = mint [OF assms(1) u1(1) le ov u2 s]
  show "state_ok st'" using m(1) st' by simp
  show "utxo_total (cs_utxos st') = utxo_total (cs_utxos st) - fee" using m(2) u1(3) st' fee by simp
  show "map_of (cs_utxos st') = ledger_after C tx (spent_by tx) (map_of (cs_utxos st))"
    using m(3) u1(2) st' by (simp add: ledger_after_def fun_eq_iff split: option.split)
  show "cs_block_subsidy st' = cs_block_subsidy st" "cs_max_money st' = cs_max_money st"
    using st' by simp_all
  show "\<exists>t. txid C tx = Inr t"
    using add_outputs_Inr(1) [OF u2 u1(1)] ov by (simp add: outputs_valid_def)
  show "\<forall>o1 \<in> fst ` set (created C tx). o1 \<in> spent_by tx \<or> map_of (cs_utxos st) o1 = None"
  proof
    fix o1
    assume "o1 \<in> fst ` set (created C tx)"
    with m(4) have "map_of u1 o1 = None" by (rule bspec)
    then show "o1 \<in> spent_by tx \<or> map_of (cs_utxos st) o1 = None"
      unfolding u1(2) by (simp split: if_splits)
  qed
qed

lemma apply_transfer_total:
  assumes st: "state_ok st" and tv: "transfer_valid C st tx" and t: "txid C tx = Inr t"
    and fresh: "\<And>o1. o1 \<in> fst ` set (created C tx) \<Longrightarrow> o1 \<notin> spent_by tx \<Longrightarrow> map_of (cs_utxos st) o1 = None"
  shows "\<exists>st'. apply_transaction C tx st = (Inr (input_value st tx - output_total tx), st')"
proof -
  have nc: "\<not> is_coinbase tx" and d: "distinct (map in_previous_output (tx_inputs tx))"
    and le: "output_total tx \<le> input_value st tx" and ne: "tx_outputs tx \<noteq> []"
    using tv by (auto simp: transfer_valid_def outputs_valid_def)
  from spend_inputs_total [OF state_ok_dict [OF st] d transfer_valid_inputs [OF tv]]
  obtain u1 where u1: "spend_inputs (tx_inputs tx) (cs_utxos st) = Inr u1" "dict_ok u1"
    "map_of u1 = (\<lambda>o1. if o1 \<in> spent_by tx then None else map_of (cs_utxos st) o1)"
    "utxo_total u1 = utxo_total (cs_utxos st) - input_value st tx"
    by (auto simp: input_value_def)
  have "map_of u1 o1 = None" if "o1 \<in> set (map fst (created C tx))" for o1
    using fresh [of o1] that by (auto simp: u1(3))
  from utxo_store.add_list_total [OF u1(2) distinct_created this] obtain u2 where
    u2: "add_outputs C tx u1 = Inr u2" by (auto simp: add_outputs_created [OF t])
  have "utxo_total u2 \<le> cs_max_money st"
    using add_outputs_Inr(5) [OF u2 u1(2) ne] u1(4) le st by (simp add: state_ok_def)
  then have "require_supply st u2 = Inr ()" by (simp add: require_supply_def)
  moreover have "validate_transaction C st tx = Inr (input_value st tx - output_total tx)"
    using validate_transfer_iff [OF nc] tv by blast
  ultimately show ?thesis using st nc u1(1) u2 by (simp add: apply_transaction_def)
qed

text \<open>The two coinbase methods and \<^verbatim>\<open>apply_transaction\<close> on a coinbase only create.\<close>

definition mints :: "crypto \<Rightarrow> consensus_transaction \<Rightarrow> consensus_state \<Rightarrow> consensus_state \<Rightarrow> bool" where
  "mints C tx st st' \<longleftrightarrow>
     state_ok st' \<and> utxo_total (cs_utxos st') = utxo_total (cs_utxos st) + output_total tx \<and>
     map_of (cs_utxos st') = ledger_after C tx {} (map_of (cs_utxos st)) \<and>
     (\<forall>o1 \<in> fst ` set (created C tx). map_of (cs_utxos st) o1 = None) \<and>
     (\<exists>t. txid C tx = Inr t) \<and>
     cs_block_subsidy st' = cs_block_subsidy st \<and> cs_max_money st' = cs_max_money st"

lemma mint_mints:
  assumes "state_ok st" and "outputs_valid st tx" and "add_outputs C tx (cs_utxos st) = Inr u"
    and "require_supply st u = Inr ()"
  shows "mints C tx st (st\<lparr>cs_utxos := u\<rparr>)"
  using mint [OF assms(1) state_ok_dict [OF assms(1)] map_le_refl assms(2-4)]
    add_outputs_Inr(1) [OF assms(3) state_ok_dict [OF assms(1)]] assms(2)
  by (auto simp: mints_def ledger_after_def outputs_valid_def fun_eq_iff split: option.split)

lemma apply_reward:
  assumes "state_ok st" and "apply_block_coinbase C tx fees st = (Inr y, st')"
  shows "reward_valid st (cs_block_subsidy st + fees) tx" and "0 \<le> fees" and "mints C tx st st'"
proof -
  from assms obtain u where
    c: "outputs_valid st tx" "is_coinbase tx" "0 \<le> fees" "\<not> input_is_signed (tx_inputs tx ! 0)"
      "output_total tx \<le> cs_block_subsidy st + fees" and
    u: "add_outputs C tx (cs_utxos st) = Inr u" "require_supply st u = Inr ()" "st' = st\<lparr>cs_utxos := u\<rparr>"
    by (auto simp: apply_block_coinbase_def commit_Inr_iff validate_outputs_iff outputs_valid_def
        split: if_splits)
  show "0 \<le> fees" by (rule c(3))
  show "reward_valid st (cs_block_subsidy st + fees) tx"
    using c is_coinbase_inputs [OF c(2)] by (auto simp: reward_valid_def)
  show "mints C tx st st'" using mint_mints [OF assms(1) c(1) u(1,2)] u(3) by simp
qed

lemma apply_genesis:
  assumes "state_ok st" and "apply_genesis_coinbase C tx st = (Inr y, st')"
  shows "outputs_valid st tx" and "is_coinbase tx" and "mints C tx st st'"
proof -
  from assms obtain u where
    c: "outputs_valid st tx" "is_coinbase tx" and
    u: "add_outputs C tx (cs_utxos st) = Inr u" "require_supply st u = Inr ()" "st' = st\<lparr>cs_utxos := u\<rparr>"
    by (auto simp: apply_genesis_coinbase_def commit_Inr_iff validate_outputs_iff outputs_valid_def
        split: if_splits)
  show "outputs_valid st tx" "is_coinbase tx" by fact+
  show "mints C tx st st'" using mint_mints [OF assms(1) c(1) u(1,2)] u(3) by simp
qed

lemma apply_coinbase_transaction:
  assumes "state_ok st" and "is_coinbase tx" and "apply_transaction C tx st = (Inr fee, st')"
  shows "fee = 0" and "output_total tx \<le> cs_block_subsidy st" and "mints C tx st st'"
proof -
  from assms obtain u where
    v: "validate_transaction C st tx = Inr fee" and
    u: "add_outputs C tx (cs_utxos st) = Inr u" "require_supply st u = Inr ()" "st' = st\<lparr>cs_utxos := u\<rparr>"
    by (auto simp: apply_transaction_def commit_Inr_iff)
  from v assms(2) have r: "reward_valid st (cs_block_subsidy st) tx" "fee = 0"
    by (simp_all add: validate_coinbase_iff)
  then show "fee = 0" "output_total tx \<le> cs_block_subsidy st" by (simp_all add: reward_valid_def)
  show "mints C tx st st'" using mint_mints [OF assms(1) _ u(1,2)] u(3) r(1) by (simp add: reward_valid_def)
qed

section \<open>The contract of a state-changing method\<close>

text \<open>
  Every mutating method of the state is all-or-nothing and keeps the invariant and the monetary
  parameters. A client that calls several of them relies on nothing else.
\<close>

locale state_method =
  fixes run :: "consensus_state \<Rightarrow> 'a result \<times> consensus_state"
  assumes atomic: "state_ok st \<Longrightarrow> run st = (Inl e, st') \<Longrightarrow> st' = st"
    and keeps_ok: "state_ok st \<Longrightarrow> run st = (Inr x, st') \<Longrightarrow> state_ok st'"
    and keeps_params: "state_ok st \<Longrightarrow> run st = (Inr x, st') \<Longrightarrow>
      cs_block_subsidy st' = cs_block_subsidy st \<and> cs_max_money st' = cs_max_money st"
begin

lemma invariant: "state_ok st \<Longrightarrow> state_ok (snd (run st))"
proof (cases "run st")
  case (Pair r st')
  assume "state_ok st"
  with Pair show ?thesis using atomic [of st] keeps_ok [of st] by (cases r) auto
qed

lemma params:
  "state_ok st \<Longrightarrow> cs_block_subsidy (snd (run st)) = cs_block_subsidy st \<and>
     cs_max_money (snd (run st)) = cs_max_money st"
proof (cases "run st")
  case (Pair r st')
  assume "state_ok st"
  with Pair show ?thesis using atomic [of st] keeps_params [of st] by (cases r) auto
qed

end

interpretation tx_method: state_method "apply_transaction C tx" for C tx
proof
  show "state_ok st \<Longrightarrow> apply_transaction C tx st = (Inl e, st') \<Longrightarrow> st' = st" for st e st'
    by (simp add: apply_transaction_def commit_Inl_iff)
  fix st fee st'
  assume "state_ok st" "apply_transaction C tx st = (Inr fee, st')"
  then show "state_ok st'"
    "cs_block_subsidy st' = cs_block_subsidy st \<and> cs_max_money st' = cs_max_money st"
    using apply_transfer [of st tx C fee st'] apply_coinbase_transaction [of st tx C fee st']
    by (cases "is_coinbase tx"; auto simp: mints_def)+
qed

interpretation reward_method: state_method "apply_block_coinbase C tx fees" for C tx fees
proof
  show "state_ok st \<Longrightarrow> apply_block_coinbase C tx fees st = (Inl e, st') \<Longrightarrow> st' = st" for st e st'
    by (simp add: apply_block_coinbase_def commit_Inl_iff)
qed (auto dest!: apply_reward(3) simp: mints_def)

interpretation genesis_method: state_method "apply_genesis_coinbase C tx" for C tx
proof
  show "state_ok st \<Longrightarrow> apply_genesis_coinbase C tx st = (Inl e, st') \<Longrightarrow> st' = st" for st e st'
    by (simp add: apply_genesis_coinbase_def commit_Inl_iff)
qed (auto dest!: apply_genesis(3) simp: mints_def)

lemma new_state_ok: "new_state None s m = Inr st \<Longrightarrow> state_ok st \<and> cs_block_subsidy st = s \<and> cs_max_money st = m \<and> cs_utxos st = []"
  by (auto simp: new_state_def state_ok_def utxo_total_def split: if_splits)

end
