(* ===== verification/Block_Processor.thy ===== *)
theory Block_Processor
  imports Block Consensus_State
begin

text \<open>
  \<^verbatim>\<open>BlockProcessor\<close> and \<^verbatim>\<open>rebuild_state_from_blocks\<close> of \<^verbatim>\<open>consensus.py\<close>: block validation on a scratch
  copy of the state, block application, and the replay of a chain.
\<close>

section \<open>Operations\<close>

text \<open>The loop over \<^verbatim>\<open>block.transactions[1:]\<close> with its fee accumulator.\<close>

primrec apply_transactions ::
  "crypto \<Rightarrow> consensus_transaction list \<Rightarrow> int \<Rightarrow> (consensus_state, int) op" where
  "apply_transactions C [] fees st = (Inr fees, st)"
| "apply_transactions C (tx # txs) fees st =
     (case apply_transaction C tx st of
        (Inl e, st') \<Rightarrow> (Inl e, st')
      | (Inr fee, st') \<Rightarrow> apply_transactions C txs (fees + fee) st')"

definition apply_first_transaction :: "crypto \<Rightarrow> consensus_block \<Rightarrow> int \<Rightarrow> (consensus_state, unit) op" where
  "apply_first_transaction C b fees =
     (if blk_height b = 0 \<and> blk_previous_hash b = ZERO_HASH
      then apply_genesis_coinbase C (hd (blk_transactions b))
      else apply_block_coinbase C (hd (blk_transactions b)) fees)"

definition starts_with :: "pystr \<Rightarrow> pystr \<Rightarrow> bool" where
  "starts_with p s \<longleftrightarrow> take (length p) s = p"

text \<open>The checks of \<^verbatim>\<open>validate_block\<close> that do not look at the state.\<close>

definition check_header :: "crypto \<Rightarrow> consensus_block \<Rightarrow> int \<Rightarrow> pystr \<Rightarrow> unit result" where
  "check_header C b expected_height expected_previous_hash =
     (if blk_version b \<notin> set SUPPORTED_BLOCK_VERSIONS
      then consensus_error ''block version is unsupported''
      else if blk_height b \<noteq> expected_height then consensus_error ''block height is invalid''
      else if blk_previous_hash b \<noteq> expected_previous_hash
      then consensus_error ''block previous hash is invalid''
      else if blk_difficulty b < 0 then consensus_error ''block difficulty cannot be negative''
      else rbind (block_hash C b) (\<lambda>h.
        if \<not> starts_with (replicate (nat (blk_difficulty b)) 48) h
        then consensus_error ''block proof of work is invalid'' else Inr ()))"

definition check_body :: "crypto \<Rightarrow> consensus_block \<Rightarrow> unit result" where
  "check_body C b =
     rbind (calculate_transaction_root C (blk_transactions b)) (\<lambda>root.
     if blk_transaction_root b \<noteq> root then consensus_error ''block transaction root is invalid''
     else (case blk_transactions b of
        [] \<Rightarrow> consensus_error ''block has no transactions''
      | tx # txs \<Rightarrow>
          if \<not> is_coinbase tx then consensus_error ''first transaction must be coinbase''
          else if list_ex is_coinbase txs
          then consensus_error ''block has multiple coinbase transactions''
          else Inr ()))"

definition validate_block ::
  "crypto \<Rightarrow> consensus_state \<Rightarrow> consensus_block \<Rightarrow> int \<Rightarrow> pystr \<Rightarrow> int result" where
  "validate_block C st b expected_height expected_previous_hash =
     rbind (check_header C b expected_height expected_previous_hash) (\<lambda>_.
     rbind (check_body C b) (\<lambda>_.
     rbind (utxo_copy (cs_utxos st)) (\<lambda>u.
     rbind (new_state (Some u) (cs_block_subsidy st) (cs_max_money st)) (\<lambda>candidate.
     case apply_transactions C (tl (blk_transactions b)) 0 candidate of
       (Inl e, _) \<Rightarrow> Inl e
     | (Inr fees, candidate') \<Rightarrow>
         rbind (fst (apply_first_transaction C b fees candidate')) (\<lambda>_. Inr fees)))))"

definition apply_block ::
  "crypto \<Rightarrow> consensus_block \<Rightarrow> int \<Rightarrow> pystr \<Rightarrow> (consensus_state, int) op" where
  "apply_block C b expected_height expected_previous_hash st =
     (case validate_block C st b expected_height expected_previous_hash of
        Inl e \<Rightarrow> (Inl e, st)
      | Inr fees \<Rightarrow>
          (case apply_transactions C (tl (blk_transactions b)) 0 st of
             (Inl e, st') \<Rightarrow> (Inl e, st')
           | (Inr _, st') \<Rightarrow>
               (case apply_first_transaction C b fees st' of
                  (Inl e, st'') \<Rightarrow> (Inl e, st'')
                | (Inr _, st'') \<Rightarrow> (Inr fees, st''))))"

text \<open>The loop of \<^verbatim>\<open>rebuild_state_from_blocks\<close>.\<close>

primrec replay :: "crypto \<Rightarrow> int \<Rightarrow> pystr \<Rightarrow> consensus_block list \<Rightarrow> (consensus_state, unit) op" where
  "replay C height prev [] st = (Inr (), st)"
| "replay C height prev (b # bs) st =
     (case apply_block C b height prev st of
        (Inl e, st') \<Rightarrow> (Inl e, st')
      | (Inr _, st') \<Rightarrow>
          (case block_hash C b of
             Inl e \<Rightarrow> (Inl e, st')
           | Inr h \<Rightarrow> replay C (height + 1) h bs st'))"

definition rebuild_state_from_blocks ::
  "crypto \<Rightarrow> consensus_block list \<Rightarrow> int \<Rightarrow> int \<Rightarrow> consensus_state result" where
  "rebuild_state_from_blocks C blocks block_subsidy max_money =
     rbind (new_state None block_subsidy max_money) (\<lambda>st.
       case replay C 0 ZERO_HASH blocks st of (Inl e, _) \<Rightarrow> Inl e | (Inr _, st') \<Rightarrow> Inr st')"

section \<open>A run of transactions\<close>

lemma apply_transactions_fees:
  "apply_transactions C txs fees st =
     (case apply_transactions C txs 0 st of
        (Inl e, st') \<Rightarrow> (Inl e, st') | (Inr f, st') \<Rightarrow> (Inr (fees + f), st'))"
proof (induction txs arbitrary: fees st)
  case Nil
  then show ?case by simp
next
  case (Cons tx txs)
  show ?case
  proof (cases "apply_transaction C tx st")
    case (Pair r st')
    then show ?thesis
      using Cons.IH [of "fees + projr r" st'] Cons.IH [of "projr r" st']
      by (cases r) (auto split: sum.splits prod.splits)
  qed
qed

lemma apply_transactions_Inr:
  assumes "state_ok st" and "list_all (\<lambda>tx. \<not> is_coinbase tx) txs"
    and "apply_transactions C txs 0 st = (Inr fees, st')"
  shows "state_ok st' \<and> utxo_total (cs_utxos st') = utxo_total (cs_utxos st) - fees \<and> 0 \<le> fees \<and>
    cs_block_subsidy st' = cs_block_subsidy st \<and> cs_max_money st' = cs_max_money st \<and>
    map_of (cs_utxos st') =
      fold (\<lambda>tx. ledger_after C tx (spent_by tx)) txs (map_of (cs_utxos st))"
  using assms
proof (induction txs arbitrary: st fees)
  case Nil
  then show ?case by simp
next
  case (Cons tx txs)
  then obtain fee st1 where f: "apply_transaction C tx st = (Inr fee, st1)"
    by (auto split: sum.splits prod.splits)
  with Cons.prems obtain fees1 where f1: "apply_transactions C txs 0 st1 = (Inr fees1, st')"
      "fees = fee + fees1"
    by (auto simp: apply_transactions_fees [of C txs fee] split: sum.splits prod.splits)
  have nc: "\<not> is_coinbase tx" using Cons.prems by simp
  note a = apply_transfer [OF Cons.prems(1) nc f]
  have "0 \<le> fee" using a(1,2) by (simp add: transfer_valid_def)
  with Cons.IH [OF a(3) _ f1(1)] Cons.prems a f1 show ?case by simp
qed

section \<open>Validation decides application\<close>

lemma candidate_state:
  "state_ok st \<Longrightarrow>
   rbind (utxo_copy (cs_utxos st)) (\<lambda>u. new_state (Some u) (cs_block_subsidy st) (cs_max_money st)) = Inr st"
  by (simp add: new_state_def state_ok_def)

text \<open>The declarative content of an accepted block.\<close>

definition block_applies ::
  "crypto \<Rightarrow> consensus_block \<Rightarrow> int \<Rightarrow> pystr \<Rightarrow> consensus_state \<Rightarrow> int \<Rightarrow> consensus_state \<Rightarrow> bool" where
  "block_applies C b height prev st fees st' \<longleftrightarrow>
     check_header C b height prev = Inr () \<and> check_body C b = Inr () \<and>
     (\<exists>st1. apply_transactions C (tl (blk_transactions b)) 0 st = (Inr fees, st1) \<and>
            apply_first_transaction C b fees st1 = (Inr (), st'))"

lemma validate_block_iff:
  assumes "state_ok st"
  shows "validate_block C st b height prev = Inr fees \<longleftrightarrow>
    (\<exists>st'. block_applies C b height prev st fees st')"
proof -
  obtain u where u: "utxo_copy (cs_utxos st) = Inr u"
      "new_state (Some u) (cs_block_subsidy st) (cs_max_money st) = Inr st"
    using candidate_state [OF assms] by auto
  have "validate_block C st b height prev =
    rbind (check_header C b height prev) (\<lambda>_. rbind (check_body C b) (\<lambda>_.
      case apply_transactions C (tl (blk_transactions b)) 0 st of
       (Inl e, _) \<Rightarrow> Inl e
     | (Inr fees, st1) \<Rightarrow> rbind (fst (apply_first_transaction C b fees st1)) (\<lambda>_. Inr fees)))"
    by (simp add: validate_block_def u)
  then show ?thesis
    by (auto simp: block_applies_def split: prod.splits sum.splits) (metis prod.collapse)+
qed

lemma apply_block_Inr_iff:
  assumes "state_ok st"
  shows "apply_block C b height prev st = (Inr fees, st') \<longleftrightarrow> block_applies C b height prev st fees st'"
proof
  assume r: "apply_block C b height prev st = (Inr fees, st')"
  then have "validate_block C st b height prev = Inr fees"
    by (auto simp: apply_block_def split: sum.splits prod.splits)
  with r show "block_applies C b height prev st fees st'"
    by (auto simp: apply_block_def validate_block_iff [OF assms] block_applies_def
        split: sum.splits prod.splits)
next
  assume "block_applies C b height prev st fees st'"
  moreover from this have "validate_block C st b height prev = Inr fees"
    using validate_block_iff [OF assms] by blast
  ultimately show "apply_block C b height prev st = (Inr fees, st')"
    by (auto simp: apply_block_def block_applies_def)
qed

lemma apply_block_validate:
  assumes "state_ok st"
  shows "fst (apply_block C b height prev st) = validate_block C st b height prev"
proof (cases "validate_block C st b height prev")
  case (Inl e)
  then show ?thesis by (simp add: apply_block_def)
next
  case (Inr fees)
  then obtain st' where "block_applies C b height prev st fees st'"
    using validate_block_iff [OF assms] by blast
  with Inr show ?thesis using apply_block_Inr_iff [OF assms] by (metis fst_conv)
qed

lemma apply_block_atomic:
  assumes "state_ok st" and "apply_block C b height prev st = (Inl e, st')"
  shows "st' = st"
proof -
  have "validate_block C st b height prev = Inl e"
    using apply_block_validate [OF assms(1), of C b height prev] assms(2) by simp
  with assms(2) show ?thesis by (simp add: apply_block_def)
qed

section \<open>Effect of a block\<close>

text \<open>The order in which a block's transactions take effect: the coinbase comes last.\<close>

definition effect_order :: "consensus_block \<Rightarrow> consensus_transaction list" where
  "effect_order b = tl (blk_transactions b) @ [hd (blk_transactions b)]"

definition consumed :: "consensus_transaction \<Rightarrow> outpoint set" where
  "consumed tx = (if is_coinbase tx then {} else spent_by tx)"

abbreviation is_genesis :: "consensus_block \<Rightarrow> bool" where
  "is_genesis b \<equiv> blk_height b = 0 \<and> blk_previous_hash b = ZERO_HASH"

lemma check_body_iff:
  "check_body C b = Inr u \<longleftrightarrow>
     calculate_transaction_root C (blk_transactions b) = Inr (blk_transaction_root b) \<and>
     (\<exists>tx txs. blk_transactions b = tx # txs \<and> is_coinbase tx \<and> list_all (\<lambda>tx. \<not> is_coinbase tx) txs)"
  by (auto simp: check_body_def list_all_iff list_ex_iff split: list.splits)

lemma check_header_iff:
  "check_header C b height prev = Inr u \<longleftrightarrow>
     blk_version b = 1 \<and> blk_height b = height \<and> blk_previous_hash b = prev \<and> 0 \<le> blk_difficulty b \<and>
     (\<exists>h. block_hash C b = Inr h \<and> starts_with (replicate (nat (blk_difficulty b)) 48) h)"
  by (auto simp: check_header_def SUPPORTED_BLOCK_VERSIONS_def)

lemma first_transaction_mints:
  assumes "state_ok st" and "apply_first_transaction C b fees st = (Inr y, st')"
  shows "mints C (hd (blk_transactions b)) st st'"
    and "\<not> is_genesis b \<Longrightarrow> output_total (hd (blk_transactions b)) \<le> cs_block_subsidy st + fees"
  using assms apply_genesis [OF assms(1)] apply_reward [OF assms(1)]
  by (auto simp: apply_first_transaction_def reward_valid_def split: if_splits)

lemma ledger_after_fold_cong:
  "list_all (\<lambda>tx. \<not> is_coinbase tx) txs \<Longrightarrow>
   fold (\<lambda>tx. ledger_after C tx (spent_by tx)) txs m = fold (\<lambda>tx. ledger_after C tx (consumed tx)) txs m"
  by (induction txs arbitrary: m) (auto simp: consumed_def)

lemma block_effect:
  assumes "state_ok st" and "block_applies C b height prev st fees st'"
  shows "state_ok st'" and "0 \<le> fees"
    and "utxo_total (cs_utxos st') =
           utxo_total (cs_utxos st) + output_total (hd (blk_transactions b)) - fees"
    and "\<not> is_genesis b \<Longrightarrow> utxo_total (cs_utxos st') \<le> utxo_total (cs_utxos st) + cs_block_subsidy st"
    and "cs_block_subsidy st' = cs_block_subsidy st" and "cs_max_money st' = cs_max_money st"
    and "map_of (cs_utxos st') =
           fold (\<lambda>tx. ledger_after C tx (consumed tx)) (effect_order b) (map_of (cs_utxos st))"
proof -
  from assms(2) obtain st1 where
    a: "apply_transactions C (tl (blk_transactions b)) 0 st = (Inr fees, st1)"
      "apply_first_transaction C b fees st1 = (Inr (), st')" and body: "check_body C b = Inr ()"
    by (auto simp: block_applies_def)
  from body have nc: "list_all (\<lambda>tx. \<not> is_coinbase tx) (tl (blk_transactions b))"
    and cb: "is_coinbase (hd (blk_transactions b))" by (auto simp: check_body_iff)
  note t = apply_transactions_Inr [OF assms(1) nc a(1)]
  then have ok1: "state_ok st1" by blast
  note m = first_transaction_mints [OF ok1 a(2)]
  show "state_ok st'" "0 \<le> fees" "cs_block_subsidy st' = cs_block_subsidy st"
    "cs_max_money st' = cs_max_money st" using m(1) t by (auto simp: mints_def)
  show "utxo_total (cs_utxos st') =
      utxo_total (cs_utxos st) + output_total (hd (blk_transactions b)) - fees"
    using m(1) t by (auto simp: mints_def)
  show "utxo_total (cs_utxos st') \<le> utxo_total (cs_utxos st) + cs_block_subsidy st" if "\<not> is_genesis b"
    using m(1) m(2) [OF that] t by (auto simp: mints_def)
  show "map_of (cs_utxos st') =
      fold (\<lambda>tx. ledger_after C tx (consumed tx)) (effect_order b) (map_of (cs_utxos st))"
  proof -
    have "consumed (hd (blk_transactions b)) = {}" using cb by (simp add: consumed_def)
    with m(1) t show ?thesis by (simp add: mints_def effect_order_def ledger_after_fold_cong [OF nc])
  qed
qed

interpretation block_method: state_method "apply_block C b height prev" for C b height prev
proof
  show "state_ok st \<Longrightarrow> apply_block C b height prev st = (Inl e, st') \<Longrightarrow> st' = st" for st e st'
    by (rule apply_block_atomic)
  fix st fees st'
  assume st: "state_ok st" and "apply_block C b height prev st = (Inr fees, st')"
  then have "block_applies C b height prev st fees st'" by (simp add: apply_block_Inr_iff)
  from block_effect [OF st this] show "state_ok st'"
    "cs_block_subsidy st' = cs_block_subsidy st \<and> cs_max_money st' = cs_max_money st" by blast+
qed

section \<open>Chains\<close>

text \<open>A chain of blocks that apply one after the other, as a step relation on states.\<close>

inductive chain_run ::
  "crypto \<Rightarrow> int \<Rightarrow> pystr \<Rightarrow> consensus_state \<Rightarrow> consensus_block list \<Rightarrow> consensus_state \<Rightarrow> bool"
  for C where
  chain_nil: "chain_run C height prev st [] st"
| chain_cons: "block_applies C b height prev st fees st1 \<Longrightarrow> block_hash C b = Inr h \<Longrightarrow>
    chain_run C (height + 1) h st1 bs st' \<Longrightarrow> chain_run C height prev st (b # bs) st'"

inductive_simps chain_run_Nil [simp]: "chain_run C height prev st [] st'"
inductive_simps chain_run_Cons: "chain_run C height prev st (b # bs) st'"

lemma replay_iff:
  "state_ok st \<Longrightarrow> replay C height prev bs st = (Inr (), st') \<longleftrightarrow> chain_run C height prev st bs st'"
proof (induction bs arbitrary: height prev st)
  case Nil
  then show ?case by auto
next
  case (Cons b bs)
  have ok: "state_ok st1" if "block_applies C b height prev st fees st1" for fees st1
    using block_effect(1) [OF Cons.prems that] .
  have "replay C height prev (b # bs) st = (Inr (), st') \<longleftrightarrow>
    (\<exists>fees st1 h. apply_block C b height prev st = (Inr fees, st1) \<and> block_hash C b = Inr h \<and>
       replay C (height + 1) h bs st1 = (Inr (), st'))"
    by (auto split: prod.splits sum.splits)
  then show ?case
    using Cons.IH ok by (auto simp: chain_run_Cons apply_block_Inr_iff [OF Cons.prems]) blast+
qed

lemma rebuild_iff:
  "rebuild_state_from_blocks C bs s m = Inr st \<longleftrightarrow>
     (\<exists>st0. new_state None s m = Inr st0 \<and> chain_run C 0 ZERO_HASH st0 bs st)"
proof (cases "new_state None s m")
  case (Inl e)
  then show ?thesis by (simp add: rebuild_state_from_blocks_def)
next
  case (Inr st0)
  then have "state_ok st0" by (blast dest: new_state_ok)
  then show ?thesis
    using replay_iff [of st0 C 0 ZERO_HASH bs st] Inr
    by (cases "replay C 0 ZERO_HASH bs st0") (auto simp: rebuild_state_from_blocks_def split: sum.splits)
qed

lemma chain_run_append:
  "chain_run C height prev st (as @ bs) st' \<longleftrightarrow>
     (\<exists>st1 h. chain_run C height prev st as st1 \<and>
        (if as = [] then h = prev else block_hash C (last as) = Inr h) \<and>
        chain_run C (height + int (length as)) h st1 bs st')"
proof (induction as arbitrary: height prev st)
  case Nil
  then show ?case by simp
next
  case (Cons a as)
  show ?case
    by (cases "as = []") (auto simp: chain_run_Cons Cons.IH algebra_simps, blast)
qed

lemma chain_run_ok:
  assumes "chain_run C height prev st bs st'" and "state_ok st"
  shows "state_ok st' \<and> cs_block_subsidy st' = cs_block_subsidy st \<and> cs_max_money st' = cs_max_money st"
  using assms by (induction rule: chain_run.induct) (auto simp: block_effect)

lemma chain_run_ledger:
  assumes "chain_run C height prev st bs st'" and "state_ok st"
  shows "map_of (cs_utxos st') =
    fold (\<lambda>tx. ledger_after C tx (consumed tx)) (concat (map effect_order bs)) (map_of (cs_utxos st))"
  using assms
proof (induction rule: chain_run.induct)
  case (chain_cons b height prev st fees st1 h bs st')
  from block_effect [OF chain_cons.prems chain_cons.hyps(1)] chain_cons.IH show ?case by simp
qed simp

lemma chain_run_supply:
  assumes "chain_run C height prev st bs st'" and "state_ok st" and "0 < height"
  shows "utxo_total (cs_utxos st') \<le> utxo_total (cs_utxos st) + cs_block_subsidy st * int (length bs)"
  using assms
proof (induction rule: chain_run.induct)
  case (chain_cons b height prev st fees st1 h bs st')
  then have "\<not> is_genesis b" by (auto simp: block_applies_def check_header_iff)
  from block_effect [OF chain_cons.prems(1) chain_cons.hyps(1)] this chain_cons.IH chain_cons.prems
  show ?case by (auto simp: algebra_simps)
qed simp

text \<open>What the headers of an accepted chain satisfy.\<close>

definition header_links :: "crypto \<Rightarrow> int \<Rightarrow> pystr \<Rightarrow> consensus_block list \<Rightarrow> bool" where
  "header_links C height prev bs \<longleftrightarrow>
     (\<forall>k < length bs.
        check_header C (bs ! k) (height + int k)
          (if k = 0 then prev else projr (block_hash C (bs ! (k - 1)))) = Inr () \<and>
        check_body C (bs ! k) = Inr ())"

lemma chain_run_links: "chain_run C height prev st bs st' \<Longrightarrow> header_links C height prev bs"
proof (induction rule: chain_run.induct)
  case (chain_nil height prev st)
  then show ?case by (simp add: header_links_def)
next
  case (chain_cons b height prev st fees st1 h bs st')
  show ?case unfolding header_links_def
  proof (intro allI impI)
    fix k
    assume k: "k < length (b # bs)"
    show "check_header C ((b # bs) ! k) (height + int k)
        (if k = 0 then prev else projr (block_hash C ((b # bs) ! (k - 1)))) = Inr () \<and>
      check_body C ((b # bs) ! k) = Inr ()"
    proof (cases k)
      case 0
      with chain_cons show ?thesis by (simp add: block_applies_def)
    next
      case (Suc j)
      with chain_cons.IH k have "check_header C (bs ! j) (height + 1 + int j)
          (if j = 0 then h else projr (block_hash C (bs ! (j - 1)))) = Inr ()" "check_body C (bs ! j) = Inr ()"
        by (auto simp: header_links_def)
      with Suc chain_cons.hyps(2) show ?thesis
        by (cases j) (auto simp: algebra_simps)
    qed
  qed
qed

section \<open>No output is spent twice\<close>

definition consumed_list :: "consensus_transaction \<Rightarrow> outpoint list" where
  "consumed_list tx = (if is_coinbase tx then [] else map in_previous_output (tx_inputs tx))"

lemma set_consumed_list [simp]: "set (consumed_list tx) = consumed tx"
  by (simp add: consumed_list_def consumed_def)

text \<open>Every transaction of a run consumes distinct outpoints that are unspent at its turn.\<close>

primrec spends_exist :: "crypto \<Rightarrow> consensus_transaction list \<Rightarrow> (outpoint \<rightharpoonup> tx_output) \<Rightarrow> bool" where
  "spends_exist C [] m \<longleftrightarrow> True"
| "spends_exist C (tx # txs) m \<longleftrightarrow>
     distinct (consumed_list tx) \<and> consumed tx \<subseteq> dom m \<and> (\<exists>t. txid C tx = Inr t) \<and>
     spends_exist C txs (ledger_after C tx (consumed tx) m)"

lemma spends_exist_append:
  "spends_exist C (xs @ ys) m \<longleftrightarrow>
     spends_exist C xs m \<and> spends_exist C ys (fold (\<lambda>tx. ledger_after C tx (consumed tx)) xs m)"
  by (induction xs arbitrary: m) auto

lemma apply_transactions_spends:
  assumes "state_ok st" and "list_all (\<lambda>tx. \<not> is_coinbase tx) txs"
    and "apply_transactions C txs 0 st = (Inr fees, st')"
  shows "spends_exist C txs (map_of (cs_utxos st))"
  using assms
proof (induction txs arbitrary: st fees)
  case Nil
  then show ?case by simp
next
  case (Cons tx txs)
  then obtain fee st1 where f: "apply_transaction C tx st = (Inr fee, st1)"
    by (auto split: sum.splits prod.splits)
  with Cons.prems obtain fees1 where f1: "apply_transactions C txs 0 st1 = (Inr fees1, st')"
    by (auto simp: apply_transactions_fees [of C txs fee] split: sum.splits prod.splits)
  have nc: "\<not> is_coinbase tx" using Cons.prems by simp
  note a = apply_transfer [OF Cons.prems(1) nc f]
  have "consumed tx \<subseteq> dom (map_of (cs_utxos st))"
    using transfer_valid_inputs [OF a(1)] by (auto simp: consumed_def nc)
  moreover have "distinct (consumed_list tx)"
    using a(1) by (simp add: consumed_list_def nc transfer_valid_def)
  moreover have "ledger_after C tx (consumed tx) (map_of (cs_utxos st)) = map_of (cs_utxos st1)"
    using a(5) by (simp add: consumed_def nc)
  ultimately show ?case using Cons.IH [OF a(3) _ f1] Cons.prems a(8) by simp
qed

lemma block_spends:
  assumes "state_ok st" and "block_applies C b height prev st fees st'"
  shows "spends_exist C (effect_order b) (map_of (cs_utxos st))"
proof -
  from assms(2) obtain st1 where
    a: "apply_transactions C (tl (blk_transactions b)) 0 st = (Inr fees, st1)"
      "apply_first_transaction C b fees st1 = (Inr (), st')" and body: "check_body C b = Inr ()"
    by (auto simp: block_applies_def)
  from body have nc: "list_all (\<lambda>tx. \<not> is_coinbase tx) (tl (blk_transactions b))"
    and cb: "is_coinbase (hd (blk_transactions b))" by (auto simp: check_body_iff)
  have "state_ok st1" using apply_transactions_Inr [OF assms(1) nc a(1)] by blast
  from first_transaction_mints(1) [OF this a(2)]
  have "\<exists>t. txid C (hd (blk_transactions b)) = Inr t" by (simp add: mints_def)
  with apply_transactions_spends [OF assms(1) nc a(1)] cb show ?thesis
    by (simp add: effect_order_def spends_exist_append consumed_list_def consumed_def)
qed

lemma chain_run_spends:
  assumes "chain_run C height prev st bs st'" and "state_ok st"
  shows "spends_exist C (concat (map effect_order bs)) (map_of (cs_utxos st))"
  using assms
proof (induction rule: chain_run.induct)
  case (chain_cons b height prev st fees st1 h bs st')
  from block_effect [OF chain_cons.prems chain_cons.hyps(1)] chain_cons.IH
    block_spends [OF chain_cons.prems chain_cons.hyps(1)]
  show ?case by (simp add: spends_exist_append)
qed simp

lemma dom_ledger_after:
  assumes "txid C tx = Inr t"
  shows "dom (ledger_after C tx gone m) \<subseteq> {o1. op_txid o1 = t} \<union> (dom m - gone)"
proof
  fix o1
  assume d: "o1 \<in> dom (ledger_after C tx gone m)"
  show "o1 \<in> {o1. op_txid o1 = t} \<union> (dom m - gone)"
  proof (cases "map_of (created C tx) o1")
    case None
    with d show ?thesis by (auto simp: ledger_after_def dom_def split: if_splits)
  next
    case (Some out)
    then have "o1 \<in> fst ` set (created C tx)" by (metis map_of_SomeD fst_conv image_eqI)
    then show ?thesis by (auto simp: created_def assms)
  qed
qed

text \<open>
  With pairwise distinct identifiers nothing is ever recreated, so an outpoint that has been
  consumed stays consumed.
\<close>

lemma no_double_spend_aux:
  assumes "spends_exist C txs m" and "distinct (map (txid C) txs)"
    and "\<And>o1. o1 \<in> dom m \<union> K \<Longrightarrow> Inr (op_txid o1) \<notin> txid C ` set txs" and "K \<inter> dom m = {}"
  shows "distinct (concat (map consumed_list txs)) \<and> K \<inter> \<Union> (consumed ` set txs) = {}"
  using assms
proof (induction txs arbitrary: m K)
  case Nil
  then show ?case by simp
next
  case (Cons tx txs)
  from Cons.prems obtain t where t: "txid C tx = Inr t" by auto
  let ?m = "ledger_after C tx (consumed tx) m" and ?K = "K \<union> consumed tx"
  have sub: "consumed tx \<subseteq> dom m" using Cons.prems(1) by simp
  note d = dom_ledger_after [OF t, of "consumed tx" m]
  have "Inr (op_txid o1) \<notin> txid C ` set txs" if "o1 \<in> dom ?m \<union> ?K" for o1
    using that d sub Cons.prems(2) Cons.prems(3) [of o1] t by (auto simp: image_iff)
  moreover have "op_txid o1 \<noteq> t" if "o1 \<in> dom m \<union> K" for o1
    using Cons.prems(3) [OF that] t by auto
  then have "?K \<inter> dom ?m = {}" using d sub Cons.prems(4) by blast
  ultimately have "distinct (concat (map consumed_list txs)) \<and> ?K \<inter> \<Union> (consumed ` set txs) = {}"
    using Cons.IH [of ?m ?K] Cons.prems by auto
  moreover have "K \<inter> consumed tx = {}" using sub Cons.prems(4) by blast
  ultimately show ?case using Cons.prems(1) by auto
qed

section \<open>Extending a replayed chain\<close>

definition chain_tip_hash :: "crypto \<Rightarrow> consensus_block list \<Rightarrow> pystr" where
  "chain_tip_hash C bs = (if bs = [] then ZERO_HASH else projr (block_hash C (last bs)))"

lemma block_applies_hash: "block_applies C b height prev st fees st' \<Longrightarrow> \<exists>h. block_hash C b = Inr h"
  by (auto simp: block_applies_def check_header_iff)

lemma replay_append:
  "replay C height prev (as @ bs) st =
     (case replay C height prev as st of
        (Inl e, st') \<Rightarrow> (Inl e, st')
      | (Inr _, st') \<Rightarrow>
          replay C (height + int (length as))
            (if as = [] then prev else projr (block_hash C (last as))) bs st')"
proof (induction as arbitrary: height prev st)
  case Nil
  then show ?case by simp
next
  case (Cons a as)
  obtain r st1 where a: "apply_block C a height prev st = (r, st1)" by (cases "apply_block C a height prev st")
  show ?case
    by (cases r; cases "block_hash C a"; cases "as = []")
       (auto simp: a Cons.IH algebra_simps split: prod.splits sum.splits)
qed

lemma rebuild_snoc:
  assumes "rebuild_state_from_blocks C bs s m = Inr st"
  shows "rebuild_state_from_blocks C (bs @ [b]) s m =
    (case apply_block C b (int (length bs)) (chain_tip_hash C bs) st of
       (Inl e, _) \<Rightarrow> Inl e | (Inr _, st') \<Rightarrow> Inr st')"
proof -
  from assms obtain st0 where st0: "new_state None s m = Inr st0" and run: "chain_run C 0 ZERO_HASH st0 bs st"
    by (auto simp: rebuild_iff)
  have ok0: "state_ok st0" using new_state_ok [OF st0] by blast
  have ok: "state_ok st" using chain_run_ok [OF run ok0] by blast
  have r: "replay C 0 ZERO_HASH bs st0 = (Inr (), st)" using replay_iff [OF ok0] run by blast
  let ?run = "apply_block C b (int (length bs)) (chain_tip_hash C bs) st"
  have "rebuild_state_from_blocks C (bs @ [b]) s m =
    (case replay C (int (length bs)) (chain_tip_hash C bs) [b] st of
       (Inl e, _) \<Rightarrow> Inl e | (Inr _, st') \<Rightarrow> Inr st')"
    by (simp add: rebuild_state_from_blocks_def st0 replay_append r chain_tip_hash_def)
  also have "\<dots> = (case ?run of (Inl e, _) \<Rightarrow> Inl e | (Inr _, st') \<Rightarrow> Inr st')"
  proof (cases ?run)
    case (Pair x st')
    show ?thesis
    proof (cases x)
      case (Inl e)
      with Pair show ?thesis by simp
    next
      case (Inr f)
      with Pair have "block_applies C b (int (length bs)) (chain_tip_hash C bs) st f st'"
        by (simp add: apply_block_Inr_iff [OF ok])
      from block_applies_hash [OF this] obtain h where "block_hash C b = Inr h" by blast
      with Inr Pair show ?thesis by simp
    qed
  qed
  finally show ?thesis .
qed

end
