(* ===== verification/Sql_Table.thy ===== *)
theory Sql_Table
  imports Crypto "HOL-Library.Multiset"
begin

text \<open>
  What the stores of \<^verbatim>\<open>storage.py\<close> use of SQLite: tables with a primary key (the association list of
  rows), \<^verbatim>\<open>INSERT\<close>, \<^verbatim>\<open>INSERT OR IGNORE\<close>, \<^verbatim>\<open>INSERT .. ON CONFLICT DO UPDATE\<close>, \<^verbatim>\<open>DELETE\<close>, ordered
  \<^verbatim>\<open>SELECT\<close>, the range of an INTEGER column, and the roll-back of \<^verbatim>\<open>with self.connection\<close>. The file
  system underneath is not modelled: a table is the content a committed connection reads back.
\<close>

type_synonym ('k, 'v) table = "('k \<times> 'v) list"

definition sql_int :: "int \<Rightarrow> int result" where
  "sql_int v = (if - (2 ^ 63) \<le> v \<and> v < 2 ^ 63 then Inr v else Inl OverflowError)"

definition sql_text :: "pystr \<Rightarrow> pystr result" where
  "sql_text s = rbind (utf8_encode s) (\<lambda>_. Inr s)"

definition tbl_insert :: "'k \<Rightarrow> 'v \<Rightarrow> ('k, 'v) table \<Rightarrow> ('k, 'v) table result" where
  "tbl_insert k v t = (if k \<in> set (map fst t) then Inl IntegrityError else Inr (t @ [(k, v)]))"

definition tbl_insert_many :: "('k \<times> 'v) list \<Rightarrow> ('k, 'v) table \<Rightarrow> ('k, 'v) table result" where
  "tbl_insert_many rows t = rfold (\<lambda>(k, v). tbl_insert k v) rows t"

definition tbl_insert_or_ignore :: "'k \<Rightarrow> 'v \<Rightarrow> ('k, 'v) table \<Rightarrow> ('k, 'v) table" where
  "tbl_insert_or_ignore k v t = (if k \<in> set (map fst t) then t else t @ [(k, v)])"

definition tbl_upsert :: "'k \<Rightarrow> 'v \<Rightarrow> ('k, 'v) table \<Rightarrow> ('k, 'v) table" where
  "tbl_upsert k v t = AList.update k v t"

definition tbl_delete_where :: "('k \<Rightarrow> bool) \<Rightarrow> ('k, 'v) table \<Rightarrow> ('k, 'v) table" where
  "tbl_delete_where P t = filter (\<lambda>p. \<not> P (fst p)) t"

definition tbl_ordered :: "('k :: linorder, 'v) table \<Rightarrow> ('k \<times> 'v) list" where
  "tbl_ordered t = sort_key fst t"

text \<open>\<^verbatim>\<open>with self.connection:\<close> commits the block's changes or none of them.\<close>

definition sql_transaction :: "('s \<Rightarrow> 's result) \<Rightarrow> ('s, unit) op" where
  "sql_transaction body s = (case body s of Inl e \<Rightarrow> (Inl e, s) | Inr s' \<Rightarrow> (Inr (), s'))"

section \<open>Laws\<close>

lemma tbl_insert_Inr:
  "tbl_insert k v t = Inr t' \<longleftrightarrow> k \<notin> fst ` set t \<and> t' = t @ [(k, v)]"
  by (auto simp: tbl_insert_def)

lemma tbl_insert_many_Inr:
  "dict_ok t \<Longrightarrow> tbl_insert_many rows t = Inr t' \<longleftrightarrow> dict_ok (t @ rows) \<and> t' = t @ rows"
proof (induction rows arbitrary: t)
  case Nil
  then show ?case by (auto simp: tbl_insert_many_def)
next
  case (Cons p rows)
  have "tbl_insert_many (p # rows) t = rbind (tbl_insert (fst p) (snd p) t) (tbl_insert_many rows)"
    by (auto simp: tbl_insert_many_def case_prod_unfold intro!: rbind_cong)
  then show ?case
    using Cons.IH [of "t @ [p]"] Cons.prems
    by (cases "fst p \<in> fst ` set t") (auto simp: tbl_insert_def)
qed

lemma map_of_upsert: "map_of (tbl_upsert k v t) = (map_of t)(k \<mapsto> v)"
  by (simp add: tbl_upsert_def map_of_update_dict)

lemma dict_ok_upsert: "dict_ok t \<Longrightarrow> dict_ok (tbl_upsert k v t)"
  by (simp add: tbl_upsert_def AList.distinct_update)

lemma dict_ok_delete_where: "dict_ok t \<Longrightarrow> dict_ok (tbl_delete_where P t)"
  by (auto simp: tbl_delete_where_def intro: distinct_map_filter)

lemma map_of_delete_where: "map_of (tbl_delete_where P t) k = (if P k then None else map_of t k)"
  using map_of_filter_fst [of "\<lambda>k. \<not> P k" t k] by (auto simp: tbl_delete_where_def)

lemma set_tbl_ordered [simp]: "set (tbl_ordered t) = set t"
  by (simp add: tbl_ordered_def)

lemma sorted_tbl_ordered: "sorted (map fst (tbl_ordered t))"
  by (simp add: tbl_ordered_def)

lemma dict_ok_ordered: "dict_ok t \<Longrightarrow> dict_ok (tbl_ordered t)"
  by (metis distinct_map distinct_sort set_sort tbl_ordered_def)

text \<open>Two tables with the same rows are read in the same order.\<close>

lemma tbl_ordered_unique:
  assumes "dict_ok t" and "dict_ok t'" and "set t = set t'"
  shows "tbl_ordered t = tbl_ordered t'"
proof -
  have "inj_on fst (set (tbl_ordered t) \<union> set (tbl_ordered t'))"
    using assms by (simp add: distinct_map)
  then show ?thesis
    using assms sorted_tbl_ordered [of t] sorted_tbl_ordered [of t'] dict_ok_ordered [of t]
      dict_ok_ordered [of t']
    by (intro map_sorted_distinct_set_unique [where f = fst]) simp_all
qed

section \<open>The interface of a keyed upsert store\<close>

text \<open>Several caches only ever save a value under a key and read it back.\<close>

locale upsert_store =
  fixes save :: "'k \<Rightarrow> 'v \<Rightarrow> 's \<Rightarrow> unit result \<times> 's"
    and load :: "'s \<Rightarrow> 'k \<Rightarrow> 'v option"
    and size :: "'s \<Rightarrow> int"
    and ok :: "'s \<Rightarrow> bool"
  assumes save_ok: "ok s \<Longrightarrow> save k v s = (Inr u, s') \<Longrightarrow>
      ok s' \<and> load s' = (load s)(k \<mapsto> v) \<and>
      size s' = size s + (if load s k = None then 1 else 0)"
    and save_fail: "save k v s = (Inl e, s') \<Longrightarrow> s' = s"
begin

lemma save_twice:
  assumes "ok s" and "save k v s = (Inr u, s1)" and "save k v' s1 = (Inr u', s2)"
  shows "load s2 = (load s)(k \<mapsto> v') \<and> size s2 = size s1"
  using save_ok [OF assms(1,2)] save_ok [OF _ assms(3)] by auto

lemma save_monotone:
  assumes "ok s" and "load s k' \<noteq> None"
  shows "load (snd (save k v s)) k' \<noteq> None"
proof (cases "save k v s")
  case (Pair r s')
  then show ?thesis
    using assms save_ok [OF assms(1), of k v] save_fail [of k v s]
    by (cases r) auto
qed

end

end
