(* ===== verification/Fork_Store.thy ===== *)
theory Fork_Store
  imports Block_Processor Sql_Table
begin

text \<open>
  \<^verbatim>\<open>ChainParameters\<close> and \<^verbatim>\<open>SQLiteForkStore\<close> of \<^verbatim>\<open>storage.py\<close>: the block database. The chain
  parameters are kept as the record the JSON text in the \<^verbatim>\<open>metadata\<close> table is read back into.
\<close>

section \<open>Data\<close>

record chain_parameters =
  cp_difficulty :: int
  cp_block_subsidy :: int
  cp_max_money :: int

definition parameters_to_dict :: "chain_parameters \<Rightarrow> json" where
  "parameters_to_dict p =
     JObj [(ascii ''block_subsidy'', JInt (cp_block_subsidy p)),
           (ascii ''difficulty'', JInt (cp_difficulty p)),
           (ascii ''max_money'', JInt (cp_max_money p))]"

definition chain_id :: "crypto \<Rightarrow> chain_parameters \<Rightarrow> pystr result" where
  "chain_id C p = sha256_hex_text C (canonical_json (parameters_to_dict p))"

record stored_block =
  sb_block :: consensus_block
  sb_cumulative_work :: int

record fork_row =
  fr_height :: int
  fr_previous_hash :: pystr
  fr_difficulty :: int
  fr_cumulative_work :: int
  fr_data :: pystr

record fork_store =
  fs_schema_version :: "int option"
  fs_parameters :: "chain_parameters option"
  fs_chain_id :: "pystr option"
  fs_blocks :: "(pystr, fork_row) table"

abbreviation storage_error :: "string \<Rightarrow> 'a result" where
  "storage_error s \<equiv> Inl (StorageError (ascii s))"

section \<open>Operations\<close>

definition STORE_SCHEMA_VERSION :: int where
  "STORE_SCHEMA_VERSION = 1"

text \<open>The version check at the end of every \<^verbatim>\<open>_migrate\<close>.\<close>

definition migrate_version :: "int option \<Rightarrow> int option result" where
  "migrate_version v =
     (case v of
        None \<Rightarrow> Inr (Some STORE_SCHEMA_VERSION)
      | Some n \<Rightarrow>
          if n \<noteq> STORE_SCHEMA_VERSION
          then Inl (StorageError (ascii ''unsupported store schema version: '' @ int_repr n))
          else Inr v)"

definition open_fork_store :: "fork_store \<Rightarrow> fork_store result" where
  "open_fork_store s =
     rbind (migrate_version (fs_schema_version s)) (\<lambda>v. Inr (s\<lparr>fs_schema_version := v\<rparr>))"

definition encode_consensus_block :: "consensus_block \<Rightarrow> pystr result" where
  "encode_consensus_block b = rbind (block_to_bytes b) (\<lambda>bs. Inr (hexlify bs))"

definition decode_consensus_block :: "crypto \<Rightarrow> pystr \<Rightarrow> consensus_block result" where
  "decode_consensus_block C payload = rbind (fromhex payload) (block_from_bytes C)"

text \<open>
  \<^verbatim>\<open>2**block.difficulty\<close>. Python gives a fraction below one on a negative difficulty, which reads
  back from the INTEGER column as 0; no validated block has one.
\<close>

definition work_for :: "consensus_block \<Rightarrow> int" where
  "work_for b = (if blk_difficulty b < 0 then 0 else 2 ^ nat (blk_difficulty b))"

definition has_block :: "fork_store \<Rightarrow> pystr \<Rightarrow> bool" where
  "has_block s h \<longleftrightarrow> map_of (fs_blocks s) h \<noteq> None"

definition get_block :: "crypto \<Rightarrow> fork_store \<Rightarrow> pystr \<Rightarrow> stored_block result" where
  "get_block C s h =
     (case map_of (fs_blocks s) h of
        None \<Rightarrow> Inl (StorageError (ascii ''unknown block: '' @ h))
      | Some row \<Rightarrow>
          rbind (decode_consensus_block C (fr_data row)) (\<lambda>b.
            Inr \<lparr>sb_block = b, sb_cumulative_work = fr_cumulative_work row\<rparr>))"

definition block_work :: "crypto \<Rightarrow> fork_store \<Rightarrow> consensus_block \<Rightarrow> int result" where
  "block_work C s b =
     (if blk_height b = 0 then
        (if blk_previous_hash b \<noteq> ZERO_HASH
         then storage_error ''genesis block previous hash is invalid'' else Inr (work_for b))
      else rbind (get_block C s (blk_previous_hash b)) (\<lambda>parent.
        if blk_height b \<noteq> blk_height (sb_block parent) + 1
        then storage_error ''block height does not extend parent''
        else Inr (sb_cumulative_work parent + work_for b)))"

definition put_block :: "crypto \<Rightarrow> consensus_block \<Rightarrow> (fork_store, stored_block) op" where
  "put_block C b s =
     (case block_hash C b of
        Inl e \<Rightarrow> (Inl e, s)
      | Inr h \<Rightarrow>
          if has_block s h then (get_block C s h, s)
          else
            (case rbind (block_work C s b) (\<lambda>cw.
                  rbind (encode_consensus_block b) (\<lambda>payload.
                  rbind (sql_int (blk_height b)) (\<lambda>height.
                  rbind (sql_int (blk_difficulty b)) (\<lambda>difficulty.
                  rbind (sql_int cw) (\<lambda>work.
                  rbind (tbl_insert h \<lparr>fr_height = height, fr_previous_hash = blk_previous_hash b,
                           fr_difficulty = difficulty, fr_cumulative_work = work, fr_data = payload\<rparr>
                           (fs_blocks s)) (\<lambda>rows. Inr (cw, rows))))))) of
               Inl e \<Rightarrow> (Inl e, s)
             | Inr (cw, rows) \<Rightarrow>
                 (Inr \<lparr>sb_block = b, sb_cumulative_work = cw\<rparr>, s\<lparr>fs_blocks := rows\<rparr>)))"

definition save_chain_parameters :: "crypto \<Rightarrow> chain_parameters \<Rightarrow> (fork_store, unit) op" where
  "save_chain_parameters C p =
     sql_transaction (\<lambda>s. rbind (chain_id C p) (\<lambda>i.
       Inr (s\<lparr>fs_parameters := Some p, fs_chain_id := Some i\<rparr>)))"

definition load_chain_parameters :: "fork_store \<Rightarrow> chain_parameters option" where
  "load_chain_parameters s = fs_parameters s"

text \<open>\<^verbatim>\<open>ORDER BY cumulative_work DESC, height DESC, hash ASC LIMIT 1\<close>\<close>

definition tip_order :: "pystr \<times> fork_row \<Rightarrow> int \<times> int \<times> pystr" where
  "tip_order p = (- fr_cumulative_work (snd p), - fr_height (snd p), fst p)"

definition best_tip :: "crypto \<Rightarrow> fork_store \<Rightarrow> stored_block option result" where
  "best_tip C s =
     (case sort_key tip_order (fs_blocks s) of
        [] \<Rightarrow> Inr None
      | p # _ \<Rightarrow> rbind (get_block C s (fst p)) (\<lambda>sb. Inr (Some sb)))"

definition require_chain_parameters :: "crypto \<Rightarrow> chain_parameters \<Rightarrow> (fork_store, unit) op" where
  "require_chain_parameters C expected s =
     (case load_chain_parameters s of
        None \<Rightarrow>
          (case best_tip C s of
             Inl e \<Rightarrow> (Inl e, s)
           | Inr None \<Rightarrow> save_chain_parameters C expected s
           | Inr (Some _) \<Rightarrow> (storage_error ''chain parameters are missing'', s))
      | Some stored \<Rightarrow>
          (if stored \<noteq> expected
           then storage_error ''chain parameters do not match stored chain'' else Inr (), s))"

definition children_of :: "crypto \<Rightarrow> fork_store \<Rightarrow> pystr \<Rightarrow> stored_block list result" where
  "children_of C s h =
     rmap (\<lambda>p. get_block C s (fst p))
       (sort_key fst (filter (\<lambda>p. fr_previous_hash (snd p) = h) (fs_blocks s)))"

text \<open>
  The loop of \<^verbatim>\<open>chain_to_tip\<close>. A walk that reads more blocks than there are rows has come back to a
  block it has seen and never ends: that is \<open>Diverges\<close>.
\<close>

primrec chain_walk ::
  "crypto \<Rightarrow> fork_store \<Rightarrow> nat \<Rightarrow> stored_block \<Rightarrow> stored_block list \<Rightarrow> stored_block list result" where
  "chain_walk C s 0 current chain = Inl Diverges"
| "chain_walk C s (Suc n) current chain =
     (let chain' = chain @ [current] in
      if blk_height (sb_block current) = 0 then Inr (rev chain')
      else rbind (get_block C s (blk_previous_hash (sb_block current))) (\<lambda>next.
             chain_walk C s n next chain'))"

definition chain_to_tip :: "crypto \<Rightarrow> fork_store \<Rightarrow> pystr \<Rightarrow> stored_block list result" where
  "chain_to_tip C s tip_hash =
     rbind (get_block C s tip_hash) (\<lambda>current. chain_walk C s (length (fs_blocks s)) current [])"

definition stored_active_chain :: "crypto \<Rightarrow> fork_store \<Rightarrow> stored_block list result" where
  "stored_active_chain C s =
     rbind (best_tip C s) (\<lambda>tip.
       case tip of
         None \<Rightarrow> Inr []
       | Some sb \<Rightarrow> rbind (block_hash C (sb_block sb)) (\<lambda>h. chain_to_tip C s h))"

definition iter_blocks :: "crypto \<Rightarrow> fork_store \<Rightarrow> stored_block list result" where
  "iter_blocks C s =
     rmap (\<lambda>p. get_block C s (fst p)) (sort_key (\<lambda>p. (fr_height (snd p), fst p)) (fs_blocks s))"

section \<open>The invariant\<close>

text \<open>
  Every row holds the encoding of a block with the row's hash, its columns are the block's, and
  the block is a genesis block or extends the block of another row.
\<close>

definition row_holds :: "crypto \<Rightarrow> pystr \<times> fork_row \<Rightarrow> consensus_block \<Rightarrow> bool" where
  "row_holds C p b \<longleftrightarrow>
     block_ok b \<and> decode_consensus_block C (fr_data (snd p)) = Inr b \<and> block_hash C b = Inr (fst p) \<and>
     fr_height (snd p) = blk_height b \<and> fr_previous_hash (snd p) = blk_previous_hash b \<and>
     fr_difficulty (snd p) = blk_difficulty b"

definition row_linked :: "fork_store \<Rightarrow> fork_row \<Rightarrow> int \<Rightarrow> bool" where
  "row_linked s row work \<longleftrightarrow>
     (if fr_height row = 0
      then fr_previous_hash row = ZERO_HASH \<and> fr_cumulative_work row = work
      else 0 < fr_height row \<and>
        (\<exists>parent. map_of (fs_blocks s) (fr_previous_hash row) = Some parent \<and>
           fr_height row = fr_height parent + 1 \<and>
           fr_cumulative_work row = fr_cumulative_work parent + work))"

definition store_ok :: "crypto \<Rightarrow> fork_store \<Rightarrow> bool" where
  "store_ok C s \<longleftrightarrow>
     dict_ok (fs_blocks s) \<and>
     (\<forall>p \<in> set (fs_blocks s). \<exists>b. row_holds C p b \<and> row_linked s (snd p) (work_for b))"

section \<open>Reading and writing rows\<close>

lemma new_block_rooted: "blk_transaction_root b \<noteq> [] \<Longrightarrow> new_block C b = Inr b"
  by (simp add: new_block_def)

lemma block_ok_root: "block_ok b \<Longrightarrow> blk_transaction_root b \<noteq> []"
  by (auto simp: block_ok_def header_ok_def is_hash_def)

lemma block_from_to_bytes:
  assumes "block_ok b" and "block_to_bytes b = Inr bs"
  shows "block_from_bytes C bs = Inr b"
  using full_block.all_dec_enc [OF assms] new_block_rooted [OF block_ok_root [OF assms(1)]]
  by (simp add: block_from_bytes_def)

lemma block_to_from_bytes:
  assumes "block_from_bytes C bs = Inr b"
  shows "block_ok b" and "block_to_bytes b = Inr bs"
proof -
  from assms obtain b0 where b0: "decode_all block_from_reader bs = Inr b0" "new_block C b0 = Inr b"
    by (auto simp: block_from_bytes_def)
  from full_block.all_enc_dec [OF b0(1)] have ok: "block_ok b0" "block_to_bytes b0 = Inr bs" by auto
  with b0(2) new_block_rooted [OF block_ok_root [OF ok(1)]] show "block_ok b" "block_to_bytes b = Inr bs"
    by auto
qed

lemma decode_encode_consensus_block:
  "block_ok b \<Longrightarrow> encode_consensus_block b = Inr p \<Longrightarrow> decode_consensus_block C p = Inr b"
  by (auto simp: encode_consensus_block_def decode_consensus_block_def block_from_to_bytes)

lemma encode_consensus_block_total: "block_ok b \<Longrightarrow> \<exists>p. encode_consensus_block b = Inr p"
  using full_block.enc_total [of b] by (auto simp: encode_consensus_block_def)

lemma store_ok_row:
  assumes "store_ok C s" and "map_of (fs_blocks s) h = Some row"
  obtains b where "row_holds C (h, row) b" and "row_linked s row (work_for b)"
    and "get_block C s h = Inr \<lparr>sb_block = b, sb_cumulative_work = fr_cumulative_work row\<rparr>"
proof -
  from assms have "(h, row) \<in> set (fs_blocks s)" by (simp add: map_of_SomeD)
  with assms(1) obtain b where b: "row_holds C (h, row) b" "row_linked s row (work_for b)"
    by (fastforce simp: store_ok_def)
  then have "get_block C s h = Inr \<lparr>sb_block = b, sb_cumulative_work = fr_cumulative_work row\<rparr>"
    using assms(2) by (simp add: get_block_def row_holds_def)
  with b that show ?thesis by blast
qed

lemma get_block_Inr:
  assumes "store_ok C s" and "get_block C s h = Inr sb"
  obtains row where "map_of (fs_blocks s) h = Some row" and "row_holds C (h, row) (sb_block sb)"
    and "row_linked s row (work_for (sb_block sb))" and "sb_cumulative_work sb = fr_cumulative_work row"
proof -
  from assms(2) obtain row where row: "map_of (fs_blocks s) h = Some row"
    by (auto simp: get_block_def split: option.splits)
  from store_ok_row [OF assms(1) this] assms(2) row that show ?thesis by (metis stored_block.select_convs sum.inject(2))
qed

lemma row_height_nonneg: "row_linked s row w \<Longrightarrow> 0 \<le> fr_height row"
  by (auto simp: row_linked_def split: if_splits)

lemma row_linked_mono:
  "row_linked s row w \<Longrightarrow> map_of (fs_blocks s) \<subseteq>\<^sub>m map_of (fs_blocks s') \<Longrightarrow> row_linked s' row w"
  by (auto simp: row_linked_def map_le_def dom_def split: if_splits)

section \<open>Storing a block\<close>

lemma put_block_fail: "put_block C b s = (Inl e, s') \<Longrightarrow> s' = s"
  by (auto simp: put_block_def split: sum.splits if_splits prod.splits)

lemma put_block_known:
  "block_hash C b = Inr h \<Longrightarrow> has_block s h \<Longrightarrow> put_block C b s = (get_block C s h, s)"
  by (simp add: put_block_def)

lemma put_block_new:
  assumes "block_hash C b = Inr h" and "\<not> has_block s h" and "put_block C b s = (Inr sb, s')"
  obtains cw payload where "block_work C s b = Inr cw" and "encode_consensus_block b = Inr payload"
    and "sb = \<lparr>sb_block = b, sb_cumulative_work = cw\<rparr>"
    and "s' = s\<lparr>fs_blocks := fs_blocks s @ [(h, \<lparr>fr_height = blk_height b,
           fr_previous_hash = blk_previous_hash b, fr_difficulty = blk_difficulty b,
           fr_cumulative_work = cw, fr_data = payload\<rparr>)]\<rparr>"
  using assms by (auto simp: put_block_def tbl_insert_Inr sql_int_def split: sum.splits if_splits prod.splits)

lemma block_work_linked:
  assumes "store_ok C s" and "block_work C s b = Inr cw"
  shows "row_linked s \<lparr>fr_height = blk_height b, fr_previous_hash = blk_previous_hash b,
    fr_difficulty = d, fr_cumulative_work = cw, fr_data = p\<rparr> (work_for b)"
proof (cases "blk_height b = 0")
  case True
  with assms(2) show ?thesis by (auto simp: block_work_def row_linked_def split: if_splits)
next
  case False
  with assms(2) obtain parent where parent: "get_block C s (blk_previous_hash b) = Inr parent"
      "blk_height b = blk_height (sb_block parent) + 1" "cw = sb_cumulative_work parent + work_for b"
    by (auto simp: block_work_def split: if_splits)
  from get_block_Inr [OF assms(1) parent(1)] obtain row where
    row: "map_of (fs_blocks s) (blk_previous_hash b) = Some row"
      "row_holds C (blk_previous_hash b, row) (sb_block parent)"
      "row_linked s row (work_for (sb_block parent))" "sb_cumulative_work parent = fr_cumulative_work row"
    by blast
  with row_height_nonneg [OF row(3)] parent False show ?thesis
    by (auto simp: row_linked_def row_holds_def)
qed

lemma put_block_ok:
  assumes "store_ok C s" and "block_ok b" and "put_block C b s = (Inr sb, s')"
  shows "store_ok C s'" and "map_of (fs_blocks s) \<subseteq>\<^sub>m map_of (fs_blocks s')"
    and "\<exists>h. block_hash C b = Inr h \<and> get_block C s' h = Inr sb \<and>
          (\<forall>h'. h' \<noteq> h \<longrightarrow> map_of (fs_blocks s') h' = map_of (fs_blocks s) h')"
proof -
  obtain h where h: "block_hash C b = Inr h"
    using assms(3) by (auto simp: put_block_def split: sum.splits)
  have "store_ok C s' \<and> map_of (fs_blocks s) \<subseteq>\<^sub>m map_of (fs_blocks s') \<and> get_block C s' h = Inr sb \<and>
    (\<forall>h'. h' \<noteq> h \<longrightarrow> map_of (fs_blocks s') h' = map_of (fs_blocks s) h')"
  proof (cases "has_block s h")
    case True
    with assms h show ?thesis by (auto simp: put_block_def)
  next
    case False
    from put_block_new [OF h False assms(3)] obtain cw payload where
      cw: "block_work C s b = Inr cw" "encode_consensus_block b = Inr payload"
        "sb = \<lparr>sb_block = b, sb_cumulative_work = cw\<rparr>"
        "s' = s\<lparr>fs_blocks := fs_blocks s @ [(h, \<lparr>fr_height = blk_height b,
           fr_previous_hash = blk_previous_hash b, fr_difficulty = blk_difficulty b,
           fr_cumulative_work = cw, fr_data = payload\<rparr>)]\<rparr>" by blast
    let ?row = "\<lparr>fr_height = blk_height b, fr_previous_hash = blk_previous_hash b,
      fr_difficulty = blk_difficulty b, fr_cumulative_work = cw, fr_data = payload\<rparr>"
    from False have fresh: "map_of (fs_blocks s) h = None" by (simp add: has_block_def)
    then have m: "map_of (fs_blocks s') = (map_of (fs_blocks s))(h \<mapsto> ?row)"
      using cw(4) by (auto simp: fun_eq_iff map_add_def split: option.splits)
    then have le: "map_of (fs_blocks s) \<subseteq>\<^sub>m map_of (fs_blocks s')"
      using fresh by (auto simp: map_le_def)
    have new: "row_holds C (h, ?row) b"
      using assms(2) h decode_encode_consensus_block [OF assms(2) cw(2)] by (simp add: row_holds_def)
    have "store_ok C s'"
      using assms(1) fresh new row_linked_mono [OF block_work_linked [OF assms(1) cw(1)] le]
        row_linked_mono [OF _ le] cw(4)
      by (auto simp: store_ok_def map_of_eq_None_iff) (metis snd_conv)
    moreover have "get_block C s' h = Inr sb"
      using new cw(3) by (simp add: get_block_def m row_holds_def)
    ultimately show ?thesis using le m by auto
  qed
  with h show "store_ok C s'" "map_of (fs_blocks s) \<subseteq>\<^sub>m map_of (fs_blocks s')"
    "\<exists>h. block_hash C b = Inr h \<and> get_block C s' h = Inr sb \<and>
      (\<forall>h'. h' \<noteq> h \<longrightarrow> map_of (fs_blocks s') h' = map_of (fs_blocks s) h')" by blast+
qed

section \<open>Branches\<close>

text \<open>The blocks from genesis to a stored block, as the parent links define them.\<close>

inductive branch :: "crypto \<Rightarrow> fork_store \<Rightarrow> pystr \<Rightarrow> stored_block list \<Rightarrow> bool" for C s where
  branch_genesis: "get_block C s h = Inr sb \<Longrightarrow> blk_height (sb_block sb) = 0 \<Longrightarrow> branch C s h [sb]"
| branch_step: "get_block C s h = Inr sb \<Longrightarrow> blk_height (sb_block sb) \<noteq> 0 \<Longrightarrow>
    branch C s (blk_previous_hash (sb_block sb)) bs \<Longrightarrow> branch C s h (bs @ [sb])"

inductive_cases branchE: "branch C s h bs"

lemma chain_walk_branch:
  "branch C s h bs \<Longrightarrow> get_block C s h = Inr current \<Longrightarrow> length bs \<le> n \<Longrightarrow>
   chain_walk C s n current chain = Inr (bs @ rev chain)"
proof (induction arbitrary: current n chain rule: branch.induct)
  case (branch_genesis h sb)
  then show ?case by (cases n) (auto simp: Let_def)
next
  case (branch_step h sb bs)
  then obtain m where n: "n = Suc m" "length bs \<le> m" by (cases n) auto
  obtain parent where parent: "get_block C s (blk_previous_hash (sb_block sb)) = Inr parent"
    using branch_step.hyps(3) by (auto elim: branchE)
  with branch_step n branch_step.IH [OF parent n(2)] show ?case by (auto simp: Let_def)
qed

lemma branch_exists:
  assumes "store_ok C s" and "map_of (fs_blocks s) h = Some row" and "n = nat (fr_height row)"
  shows "\<exists>bs. branch C s h bs \<and> length bs = Suc n"
  using assms
proof (induction n arbitrary: h row)
  case 0
  from store_ok_row [OF 0(1,2)] obtain b where b: "row_holds C (h, row) b" "row_linked s row (work_for b)"
    "get_block C s h = Inr \<lparr>sb_block = b, sb_cumulative_work = fr_cumulative_work row\<rparr>" by blast
  with 0 row_height_nonneg [OF b(2)] have "blk_height b = 0" by (simp add: row_holds_def)
  with branch_genesis [OF b(3)] show ?case by fastforce
next
  case (Suc n)
  from store_ok_row [OF Suc.prems(1,2)] obtain b where b: "row_holds C (h, row) b" "row_linked s row (work_for b)"
    "get_block C s h = Inr \<lparr>sb_block = b, sb_cumulative_work = fr_cumulative_work row\<rparr>" by blast
  with Suc.prems obtain parent where parent: "map_of (fs_blocks s) (blk_previous_hash b) = Some parent"
      "fr_height row = fr_height parent + 1"
    by (auto simp: row_linked_def row_holds_def split: if_splits)
  with Suc.prems have "n = nat (fr_height parent)" by simp
  from Suc.IH [OF Suc.prems(1) parent(1) this] obtain bs where
    bs: "branch C s (blk_previous_hash b) bs" "length bs = Suc n" by blast
  have "blk_height b \<noteq> 0" using b(1) Suc.prems(3) by (auto simp: row_holds_def)
  with branch_step [OF b(3)] bs show ?case by fastforce
qed

lemma branch_stored:
  "branch C s h bs \<Longrightarrow> sb \<in> set bs \<Longrightarrow> \<exists>h. get_block C s h = Inr sb"
  by (induction rule: branch.induct) auto

lemma branch_last: "branch C s h bs \<Longrightarrow> bs \<noteq> [] \<and> get_block C s h = Inr (last bs)"
  by (induction rule: branch.induct) auto

lemma branch_heights:
  assumes "branch C s h bs" and "store_ok C s"
  shows "map (\<lambda>sb. blk_height (sb_block sb)) bs = map int [0..<length bs]"
  using assms
proof (induction rule: branch.induct)
  case (branch_genesis h sb)
  then show ?case by simp
next
  case (branch_step h sb bs)
  from get_block_Inr [OF branch_step.prems branch_step.hyps(1)] obtain row where
    row: "row_holds C (h, row) (sb_block sb)" "row_linked s row (work_for (sb_block sb))" by blast
  with branch_step.hyps(2) obtain prow where
    prow: "map_of (fs_blocks s) (blk_previous_hash (sb_block sb)) = Some prow"
      "blk_height (sb_block sb) = fr_height prow + 1"
    by (auto simp: row_linked_def row_holds_def split: if_splits)
  from branch_last [OF branch_step.hyps(3)] have
    "get_block C s (blk_previous_hash (sb_block sb)) = Inr (last bs)" and ne: "bs \<noteq> []" by auto
  from get_block_Inr [OF branch_step.prems this(1)] obtain prow' where
    "map_of (fs_blocks s) (blk_previous_hash (sb_block sb)) = Some prow'"
    "row_holds C (blk_previous_hash (sb_block sb), prow') (sb_block (last bs))" by blast
  with prow(1) have "blk_height (sb_block (last bs)) = fr_height prow" by (simp add: row_holds_def)
  moreover have "blk_height (sb_block (last bs)) = int (length bs - 1)"
    using arg_cong [OF branch_step.IH [OF branch_step.prems], of last] ne by (simp add: last_map)
  ultimately show ?case using branch_step.IH [OF branch_step.prems] prow(2) ne by (cases bs) auto
qed

lemma branch_short:
  assumes "branch C s h bs" and "store_ok C s"
  shows "length bs \<le> length (fs_blocks s)"
proof -
  have "int ` {0..<length bs} \<subseteq> (\<lambda>p. fr_height (snd p)) ` set (fs_blocks s)"
  proof
    fix i
    assume "i \<in> int ` {0..<length bs}"
    then have "i \<in> set (map (\<lambda>sb. blk_height (sb_block sb)) bs)"
      unfolding branch_heights [OF assms] by simp
    then obtain sb where sb: "sb \<in> set bs" "i = blk_height (sb_block sb)" by auto
    from branch_stored [OF assms(1) sb(1)] obtain h1 where "get_block C s h1 = Inr sb" by blast
    from get_block_Inr [OF assms(2) this] obtain row where
      "map_of (fs_blocks s) h1 = Some row" "row_holds C (h1, row) (sb_block sb)" by blast
    with sb(2) show "i \<in> (\<lambda>p. fr_height (snd p)) ` set (fs_blocks s)"
      by (force simp: row_holds_def dest: map_of_SomeD)
  qed
  from card_mono [OF _ this] have "length bs \<le> card ((\<lambda>p. fr_height (snd p)) ` set (fs_blocks s))"
    by (simp add: card_image)
  also have "\<dots> \<le> length (fs_blocks s)"
    by (meson card_image_le card_length finite_set le_trans)
  finally show ?thesis .
qed

lemma chain_to_tip_known:
  assumes "store_ok C s" and "has_block s h"
  shows "\<exists>bs. chain_to_tip C s h = Inr bs \<and> branch C s h bs"
proof -
  from assms(2) obtain row where "map_of (fs_blocks s) h = Some row" by (auto simp: has_block_def)
  from branch_exists [OF assms(1) this refl] obtain bs where bs: "branch C s h bs" by blast
  from branch_last [OF bs] chain_walk_branch [OF bs _ branch_short [OF bs assms(1)], of _ "[]"]
  show ?thesis using bs by (auto simp: chain_to_tip_def)
qed

lemma chain_to_tip_unknown: "\<not> has_block s h \<Longrightarrow> chain_to_tip C s h = Inl (StorageError (ascii ''unknown block: '' @ h))"
  by (simp add: chain_to_tip_def get_block_def has_block_def)

lemma chain_to_tip_Inr:
  assumes "store_ok C s" and "chain_to_tip C s h = Inr bs"
  shows "branch C s h bs"
  using chain_to_tip_known [OF assms(1), of h] chain_to_tip_unknown [of s h C] assms(2) by force

lemma branch_links:
  assumes "branch C s h bs" and "store_ok C s" and "Suc k < length bs"
  shows "block_hash C (sb_block (bs ! k)) = Inr (blk_previous_hash (sb_block (bs ! Suc k)))"
  using assms
proof (induction rule: branch.induct)
  case (branch_step h sb bs)
  show ?case
  proof (cases "Suc k = length bs")
    case True
    from branch_last [OF branch_step.hyps(3)] have
      "get_block C s (blk_previous_hash (sb_block sb)) = Inr (last bs)" "bs \<noteq> []" by auto
    from get_block_Inr [OF branch_step.prems(1) this(1)] obtain row where
      "row_holds C (blk_previous_hash (sb_block sb), row) (sb_block (last bs))" by blast
    moreover have "last bs = bs ! k" using True \<open>bs \<noteq> []\<close> by (metis diff_Suc_1 last_conv_nth)
    ultimately show ?thesis using True by (simp add: row_holds_def nth_append)
  next
    case False
    with branch_step show ?thesis by (simp add: nth_append)
  qed
qed simp

lemma branch_work:
  assumes "branch C s h bs" and "store_ok C s"
  shows "sb_cumulative_work (last bs) = sum_list (map (\<lambda>sb. work_for (sb_block sb)) bs)"
  using assms
proof (induction rule: branch.induct)
  case (branch_genesis h sb)
  from get_block_Inr [OF branch_genesis.prems branch_genesis.hyps(1)] obtain row where
    "row_holds C (h, row) (sb_block sb)" "row_linked s row (work_for (sb_block sb))"
    "sb_cumulative_work sb = fr_cumulative_work row" by blast
  with branch_genesis.hyps(2) show ?case by (simp add: row_linked_def row_holds_def)
next
  case (branch_step h sb bs)
  from get_block_Inr [OF branch_step.prems branch_step.hyps(1)] obtain row where
    row: "row_holds C (h, row) (sb_block sb)" "row_linked s row (work_for (sb_block sb))"
      "sb_cumulative_work sb = fr_cumulative_work row" by blast
  with branch_step.hyps(2) obtain prow where
    prow: "map_of (fs_blocks s) (blk_previous_hash (sb_block sb)) = Some prow"
      "fr_cumulative_work row = fr_cumulative_work prow + work_for (sb_block sb)"
    by (auto simp: row_linked_def row_holds_def split: if_splits)
  from branch_last [OF branch_step.hyps(3)] have
    "get_block C s (blk_previous_hash (sb_block sb)) = Inr (last bs)" by auto
  from get_block_Inr [OF branch_step.prems this] obtain prow' where
    "map_of (fs_blocks s) (blk_previous_hash (sb_block sb)) = Some prow'"
    "sb_cumulative_work (last bs) = fr_cumulative_work prow'" by blast
  with prow(1) have "sb_cumulative_work (last bs) = fr_cumulative_work prow" by simp
  with row(3) prow(2) branch_step.IH [OF branch_step.prems] show ?case by simp
qed

section \<open>The best tip\<close>

lemma best_tip_empty: "fs_blocks s = [] \<Longrightarrow> best_tip C s = Inr None"
  by (simp add: best_tip_def)

lemma sort_key_hd_least:
  fixes f :: "'a \<Rightarrow> 'b :: linorder"
  assumes "sort_key f xs = y # ys" and "x \<in> set xs"
  shows "f y \<le> f x"
proof -
  have "sorted (map f (y # ys))" using sorted_sort_key [of f xs] assms(1) by simp
  moreover have "x \<in> set (y # ys)" using assms set_sort [of f xs] by simp
  ultimately show ?thesis by auto
qed

lemma best_tip_least:
  assumes "store_ok C s" and "fs_blocks s \<noteq> []"
  shows "\<exists>p b. p \<in> set (fs_blocks s) \<and> row_holds C p b \<and>
    best_tip C s = Inr (Some \<lparr>sb_block = b, sb_cumulative_work = fr_cumulative_work (snd p)\<rparr>) \<and>
    (\<forall>q \<in> set (fs_blocks s). tip_order p \<le> tip_order q)"
proof -
  from assms(2) obtain p ps where ps: "sort_key tip_order (fs_blocks s) = p # ps"
    by (metis list.exhaust length_sort list.size(3) length_0_conv)
  then have p: "p \<in> set (fs_blocks s)" by (metis list.set_intros(1) set_sort)
  then have "map_of (fs_blocks s) (fst p) = Some (snd p)"
    using assms(1) by (simp add: store_ok_def)
  from store_ok_row [OF assms(1) this] obtain b where "row_holds C p b"
    "get_block C s (fst p) = Inr \<lparr>sb_block = b, sb_cumulative_work = fr_cumulative_work (snd p)\<rparr>"
    by (metis prod.collapse)
  moreover from this(2) ps have "best_tip C s =
      Inr (Some \<lparr>sb_block = b, sb_cumulative_work = fr_cumulative_work (snd p)\<rparr>)"
    by (simp add: best_tip_def)
  ultimately show ?thesis using p sort_key_hd_least [OF ps] by blast
qed

end
