(* ===== verification/Python_Runtime.thy ===== *)
theory Python_Runtime
  imports Json
begin

text \<open>
  Conversions of the Python runtime that the network layer applies to decoded JSON values:
  \<^verbatim>\<open>str()\<close>, \<^verbatim>\<open>int()\<close>, \<^verbatim>\<open>float()\<close>, \<^verbatim>\<open>dict()\<close> and \<^verbatim>\<open>str.isspace\<close>.

  Two tables of the interpreter are arguments, the fields of \<open>py_runtime\<close>: the conversions between
  binary floating point and decimal text, and the character classes of the Unicode database. A
  \<^verbatim>\<open>float\<close> is its 64 bits; in a JSON value it is its \<^verbatim>\<open>repr\<close>.
\<close>

record py_runtime =
  float_repr :: "64 word \<Rightarrow> pystr" \<comment> \<open>\<^verbatim>\<open>repr(x)\<close>\<close>
  float_of_text :: "pystr \<Rightarrow> 64 word option" \<comment> \<open>\<^verbatim>\<open>float(text)\<close>, None for \<^verbatim>\<open>ValueError\<close>\<close>
  float_of_int :: "int \<Rightarrow> 64 word option" \<comment> \<open>\<^verbatim>\<open>float(n)\<close>, None for \<^verbatim>\<open>OverflowError\<close>\<close>
  char_printable :: "int \<Rightarrow> bool" \<comment> \<open>\<^verbatim>\<open>str.isprintable\<close> of one character\<close>
  char_space :: "int \<Rightarrow> bool" \<comment> \<open>\<^verbatim>\<open>str.isspace\<close> of one character\<close>
  char_decimal :: "int \<Rightarrow> int option" \<comment> \<open>the value of a decimal digit\<close>

definition py_isspace :: "py_runtime \<Rightarrow> pystr \<Rightarrow> bool" where
  "py_isspace R s \<longleftrightarrow> s \<noteq> [] \<and> list_all (char_space R) s"

definition value_error :: "string \<Rightarrow> 'a result" where
  "value_error s = Inl (ValueError (ascii s))"

section \<open>Text of a value\<close>

text \<open>
  \<^verbatim>\<open>repr\<close> of a string: double quotes only when the text has a single quote and no double quote;
  backslash, the quote and the usual control characters are escaped, everything else that is not
  printable is written as \<^verbatim>\<open>\x\<close>, \<^verbatim>\<open>\u\<close> or \<^verbatim>\<open>\U\<close>.
\<close>

definition hex_text :: "nat \<Rightarrow> int \<Rightarrow> pystr" where
  "hex_text n c = map (\<lambda>i. hex_digit (c div 16 ^ i mod 16)) (rev [0..<n])"

definition repr_char :: "py_runtime \<Rightarrow> int \<Rightarrow> int \<Rightarrow> pystr" where
  "repr_char R q c =
     (if c = q \<or> c = 92 then [92, c]
      else if c = 9 then [92, 116]
      else if c = 10 then [92, 110]
      else if c = 13 then [92, 114]
      else if 32 \<le> c \<and> c < 127 then [c]
      else if c < 127 then [92, 120] @ hex_text 2 c
      else if char_printable R c then [c]
      else if c < 0x100 then [92, 120] @ hex_text 2 c
      else if c < 0x10000 then [92, 117] @ hex_text 4 c
      else [92, 85] @ hex_text 8 c)"

definition repr_text :: "py_runtime \<Rightarrow> pystr \<Rightarrow> pystr" where
  "repr_text R s =
     (let q = (if 39 \<in> set s \<and> 34 \<notin> set s then 34 else 39)
      in [q] @ concat (map (repr_char R q) s) @ [q])"

fun join_comma_space :: "pystr list \<Rightarrow> pystr" where
  "join_comma_space [] = []"
| "join_comma_space [x] = x"
| "join_comma_space (x # y # ys) = x @ [44, 32] @ join_comma_space (y # ys)"

primrec py_repr :: "py_runtime \<Rightarrow> json \<Rightarrow> pystr" where
  "py_repr R JNull = ascii ''None''"
| "py_repr R (JBool b) = (if b then ascii ''True'' else ascii ''False'')"
| "py_repr R (JInt i) = int_repr i"
| "py_repr R (JFloat t) = (if t = ascii ''NaN'' then ascii ''nan''
     else if t = ascii ''Infinity'' then ascii ''inf''
     else if t = ascii ''-Infinity'' then ascii ''-inf'' else t)"
| "py_repr R (JStr s) = repr_text R s"
| "py_repr R (JList vs) = [91] @ join_comma_space (map (py_repr R) vs) @ [93]"
| "py_repr R (JObj kvs) =
     [123] @ join_comma_space (map (\<lambda>(k, t). repr_text R k @ [58, 32] @ t)
                                   (map (map_prod id (py_repr R)) kvs)) @ [125]"

definition py_str :: "py_runtime \<Rightarrow> json \<Rightarrow> pystr" where
  "py_str R v = (case v of JStr s \<Rightarrow> s | _ \<Rightarrow> py_repr R v)"

section \<open>Integers\<close>

text \<open>
  \<^verbatim>\<open>int(text)\<close>: surrounding blanks are dropped, a sign may follow, then decimal digits of any script
  with single underscores between them; more than 4300 digits are refused.
\<close>

definition INT_MAX_STR_DIGITS :: nat where
  "INT_MAX_STR_DIGITS = 4300"

definition strip :: "py_runtime \<Rightarrow> pystr \<Rightarrow> pystr" where
  "strip R s = rev (dropWhile (char_space R) (rev (dropWhile (char_space R) s)))"

fun int_digits :: "py_runtime \<Rightarrow> pystr \<Rightarrow> int list option" where
  "int_digits R [] = None"
| "int_digits R [c] = map_option (\<lambda>d. [d]) (char_decimal R c)"
| "int_digits R (c # c' # cs) =
     (case char_decimal R c of
        None \<Rightarrow> None
      | Some d \<Rightarrow> map_option ((#) d) (int_digits R (if c' = 95 then cs else c' # cs)))"

definition digits_value :: "int list \<Rightarrow> int" where
  "digits_value ds = foldl (\<lambda>acc d. acc * 10 + d) 0 ds"

definition int_of_text :: "py_runtime \<Rightarrow> pystr \<Rightarrow> int result" where
  "int_of_text R s =
     (let t = strip R s;
          negative = (t \<noteq> [] \<and> hd t = 45);
          body = (if t \<noteq> [] \<and> (hd t = 45 \<or> hd t = 43) then tl t else t)
      in case int_digits R body of
           None \<Rightarrow> value_error ''invalid literal for int() with base 10''
         | Some ds \<Rightarrow>
             if length ds > INT_MAX_STR_DIGITS
             then value_error ''Exceeds the limit (4300 digits) for integer string conversion''
             else Inr (if negative then - digits_value ds else digits_value ds))"

text \<open>\<^verbatim>\<open>int(x)\<close> of a \<^verbatim>\<open>float\<close>: truncation toward zero; \<^verbatim>\<open>nan\<close> and the infinities raise.\<close>

definition int_of_float :: "64 word \<Rightarrow> int result" where
  "int_of_float w =
     (let e = uint w div 2 ^ 52 mod 2048;
          f = uint w mod 2 ^ 52;
          m = (if e = 0 then f else f + 2 ^ 52);
          k = (if e = 0 then 1 else e) - 1075;
          a = (if 0 \<le> k then m * 2 ^ nat k else m div 2 ^ nat (- k))
      in if e = 2047 then (if f = 0 then Inl OverflowError else value_error ''cannot convert float NaN to integer'')
         else Inr (if uint w < 2 ^ 63 then a else - a))"

definition float_value :: "py_runtime \<Rightarrow> pystr \<Rightarrow> 64 word result" where
  "float_value R t =
     (case float_of_text R t of None \<Rightarrow> value_error ''could not convert string to float'' | Some w \<Rightarrow> Inr w)"

definition py_int :: "py_runtime \<Rightarrow> json \<Rightarrow> int result" where
  "py_int R v =
     (case v of
        JInt i \<Rightarrow> Inr i
      | JBool b \<Rightarrow> Inr (if b then 1 else 0)
      | JStr s \<Rightarrow> int_of_text R s
      | JFloat t \<Rightarrow> rbind (float_value R t) int_of_float
      | _ \<Rightarrow> Inl TypeError)"

definition py_float :: "py_runtime \<Rightarrow> json \<Rightarrow> 64 word result" where
  "py_float R v =
     (case v of
        JFloat t \<Rightarrow> float_value R t
      | JInt i \<Rightarrow> (case float_of_int R i of None \<Rightarrow> Inl OverflowError | Some w \<Rightarrow> Inr w)
      | JBool b \<Rightarrow> (case float_of_int R (if b then 1 else 0) of None \<Rightarrow> Inl OverflowError | Some w \<Rightarrow> Inr w)
      | JStr s \<Rightarrow> float_value R s
      | _ \<Rightarrow> Inl TypeError)"

text \<open>\<^verbatim>\<open>isinstance(v, int)\<close>: the booleans are integers.\<close>

definition as_int :: "json \<Rightarrow> int option" where
  "as_int v = (case v of JInt i \<Rightarrow> Some i | JBool b \<Rightarrow> Some (if b then 1 else 0) | _ \<Rightarrow> None)"

section \<open>Dictionaries\<close>

text \<open>
  \<^verbatim>\<open>dict(item)\<close>: a mapping is copied; any other iterable has to consist of pairs. Only entries under
  text keys are kept, since the program looks up nothing else; a list or object as a key raises.
\<close>

definition py_items :: "json \<Rightarrow> json list result" where
  "py_items v =
     (case v of
        JList vs \<Rightarrow> Inr vs
      | JStr s \<Rightarrow> Inr (map (\<lambda>c. JStr [c]) s)
      | JObj kvs \<Rightarrow> Inr (map (JStr \<circ> fst) kvs)
      | _ \<Rightarrow> Inl TypeError)"

definition add_pair :: "json \<Rightarrow> (pystr, json) dict \<Rightarrow> (pystr, json) dict result" where
  "add_pair v d =
     rbind (py_items v) (\<lambda>xs.
     case xs of
       [k, x] \<Rightarrow>
         (case k of
            JStr s \<Rightarrow> Inr (AList.update s x d)
          | JList _ \<Rightarrow> Inl TypeError
          | JObj _ \<Rightarrow> Inl TypeError
          | _ \<Rightarrow> Inr d)
     | _ \<Rightarrow> value_error ''dictionary update sequence element has wrong length'')"

definition py_dict :: "json \<Rightarrow> (pystr, json) dict result" where
  "py_dict v =
     (case v of
        JObj kvs \<Rightarrow> Inr kvs
      | _ \<Rightarrow> rbind (py_items v) (\<lambda>vs. rfold add_pair vs []))"

definition py_getitem :: "(pystr, json) dict \<Rightarrow> string \<Rightarrow> json result" where
  "py_getitem d k = (case map_of d (ascii k) of None \<Rightarrow> Inl KeyError | Some v \<Rightarrow> Inr v)"

text \<open>\<^verbatim>\<open>d.get(k)\<close>, where an absent key and \<^verbatim>\<open>None\<close> are the same.\<close>

definition py_get :: "(pystr, json) dict \<Rightarrow> string \<Rightarrow> json" where
  "py_get d k = (case map_of d (ascii k) of None \<Rightarrow> JNull | Some v \<Rightarrow> v)"

text \<open>
  What the development relies on of the runtime: reading back \<^verbatim>\<open>repr\<close> of a \<^verbatim>\<open>float\<close> that is a number gives
  it again. The codes of \<^verbatim>\<open>nan\<close> are excluded.
\<close>

definition is_nan :: "64 word \<Rightarrow> bool" where
  "is_nan w \<longleftrightarrow> uint w div 2 ^ 52 mod 2048 = 2047 \<and> uint w mod 2 ^ 52 \<noteq> 0"

end
