(* ===== verification/Samples.thy ===== *)
theory Samples
  imports Fork_Store Python_Runtime
begin

text \<open>
  Concrete inputs for the witnesses: an executable stand-in for the external primitives that satisfies
  \<open>digest_ok\<close> and \<open>ed25519_ok\<close>, two wallets, and a short chain with a spend, all evaluated by the
  simplifier. Nothing here models code of the package.
\<close>

definition toy_digest :: "bytes \<Rightarrow> bytes" where
  "toy_digest bs = take 32 (foldl (\<lambda>a b. a * 5 + b) 7 bs # foldl (+) 1 bs # rev bs @ replicate 32 0)"

definition toy :: crypto where
  "toy = \<lparr>sha256_digest = toy_digest, ed25519_key_ok = (\<lambda>k. length k = 32),
          ed25519_verify = (\<lambda>k s m. s = k @ k), ed25519_secret_ok = (\<lambda>k. length k = 32),
          ed25519_public = (\<lambda>k. k), ed25519_sign = (\<lambda>k m. k @ k)\<rparr>"

text \<open>A runtime in which the blank is the only white space.\<close>

definition sample_runtime :: py_runtime where
  "sample_runtime = \<lparr>float_repr = (\<lambda>w. ascii ''0.0''), float_of_text = (\<lambda>t. Some 0), float_of_int = (\<lambda>n. Some 0),
     char_printable = (\<lambda>c. 160 < c), char_space = (\<lambda>c. c = 32),
     char_decimal = (\<lambda>c. if 48 \<le> c \<and> c \<le> 57 then Some (c - 48) else None)\<rparr>"

definition alice_address :: pystr where
  "alice_address = ascii ''bcc_96e04d7741444d7741444d7741444d7741444d77''"

definition bob_address :: pystr where
  "bob_address = ascii ''bcc_abb5555142465551424655514246555142465551''"

definition genesis_txid :: pystr where
  "genesis_txid = ascii ''2c7e373764343434313437376434343431343737643434343134373764343434''"

definition genesis_hash :: pystr where
  "genesis_hash = ascii ''53f5000000000000000000000000000000000000000000000000343434643737''"

definition spend_txid :: pystr where
  "spend_txid = ascii ''1361373764343434313437376434343431343737643434343134373764343434''"

definition alice_key :: pystr where
  "alice_key = ascii ''AwMDAwMDAwMDAwMDAwMDAwMDAwMDAwMDAwMDAwMDAwM''"

definition alice_sig :: pystr where
  "alice_sig = ascii ''AwMDAwMDAwMDAwMDAwMDAwMDAwMDAwMDAwMDAwMDAwMDAwMDAwMDAwMDAwMDAwMDAwMDAwMDAwMDAwMDAwMDAw''"

definition alice :: wallet where
  "alice = \<lparr>w_public_key = \<lparr>pk_algorithm = KEY_ALGORITHM, pk_key = alice_key\<rparr>, w_private_key = alice_key\<rparr>"

definition genesis_tx :: consensus_transaction where
  "genesis_tx = \<lparr>tx_inputs = [unsigned_input (OutPoint COINBASE_PREV_TXID (- 1))],
     tx_outputs = [\<lparr>out_amount = 100, out_address = alice_address\<rparr>], tx_version = 1\<rparr>"

definition genesis_block :: consensus_block where
  "genesis_block = \<lparr>blk_height = 0, blk_previous_hash = ZERO_HASH,
     blk_transactions = [genesis_tx], blk_difficulty = 0, blk_timestamp = 0, blk_nonce = 0,
     blk_transaction_root = genesis_txid, blk_version = 1\<rparr>"

definition genesis_state :: consensus_state where
  "genesis_state = \<lparr>cs_utxos = [(OutPoint genesis_txid 0, \<lparr>out_amount = 100, out_address = alice_address\<rparr>)],
     cs_block_subsidy = 50, cs_max_money = 1000\<rparr>"

definition spend_tx :: consensus_transaction where
  "spend_tx = \<lparr>tx_inputs = [\<lparr>in_previous_output = OutPoint genesis_txid 0, in_signature = Some alice_sig,
       in_public_key = Some [(ascii ''algorithm'', KEY_ALGORITHM), (ascii ''key'', alice_key)]\<rparr>],
     tx_outputs = [\<lparr>out_amount = 60, out_address = bob_address\<rparr>, \<lparr>out_amount = 39, out_address = alice_address\<rparr>],
     tx_version = 1\<rparr>"

definition spent_state :: consensus_state where
  "spent_state = \<lparr>cs_utxos = [(OutPoint spend_txid 0, \<lparr>out_amount = 60, out_address = bob_address\<rparr>),
       (OutPoint spend_txid 1, \<lparr>out_amount = 39, out_address = alice_address\<rparr>)],
     cs_block_subsidy = 50, cs_max_money = 1000\<rparr>"

definition coinbase1 :: consensus_transaction where
  "coinbase1 = \<lparr>tx_inputs = [unsigned_input (OutPoint COINBASE_PREV_TXID (- 2))],
     tx_outputs = [\<lparr>out_amount = 51, out_address = bob_address\<rparr>], tx_version = 1\<rparr>"

definition coinbase1_txid :: pystr where
  "coinbase1_txid = ascii ''e6a0313535353634323431353535363432343135353536343234313535353634''"

definition block1_root :: pystr where
  "block1_root = ascii ''b2fc343434643737343134343464373734313434346437373431343434643737''"

definition block1_hash :: pystr where
  "block1_hash = ascii ''52b0000000000000000000000000000000000000000000000000373764343434''"

definition block1 :: consensus_block where
  "block1 = \<lparr>blk_height = 1, blk_previous_hash = genesis_hash,
     blk_transactions = [coinbase1, spend_tx], blk_difficulty = 0, blk_timestamp = 0, blk_nonce = 0,
     blk_transaction_root = block1_root, blk_version = 1\<rparr>"

definition block1_state :: consensus_state where
  "block1_state = \<lparr>cs_utxos = cs_utxos spent_state @
       [(OutPoint coinbase1_txid 0, \<lparr>out_amount = 51, out_address = bob_address\<rparr>)],
     cs_block_subsidy = 50, cs_max_money = 1000\<rparr>"

definition empty_state :: consensus_state where
  "empty_state = \<lparr>cs_utxos = [], cs_block_subsidy = 50, cs_max_money = 1000\<rparr>"

section \<open>The stand-in satisfies the assumptions\<close>

lemma toy_digest_ok: "digest_ok toy"
proof -
  have "length (toy_digest bs) = 32" for bs
    by (auto simp: toy_digest_def min_def)
  then show ?thesis by (simp add: digest_ok_def toy_def)
qed

lemma toy_ed25519_ok: "ed25519_ok toy"
  by (simp add: ed25519_ok_def toy_def)

section \<open>Evaluated facts\<close>

lemma pred_option_case [code]: "pred_option P x = (case x of None \<Rightarrow> True | Some y \<Rightarrow> P y)"
  by (cases x) simp_all

lemma sample_addresses:
  "wallet_address toy alice = Inr alice_address" "is_valid_address alice_address"
  "is_valid_address bob_address"
  by code_simp+

lemma sample_txids:
  "txid toy genesis_tx = Inr genesis_txid" "txid toy spend_tx = Inr spend_txid"
  "txid toy coinbase1 = Inr coinbase1_txid"
  by code_simp+

lemma sample_hashes:
  "block_hash toy genesis_block = Inr genesis_hash" "block_hash toy block1 = Inr block1_hash"
  by code_simp+

lemma sample_root0: "calculate_transaction_root toy [genesis_tx] = Inr genesis_txid"
  by code_simp

lemma sample_root1: "calculate_transaction_root toy [coinbase1, spend_tx] = Inr block1_root"
  by code_simp

lemma sample_apply: "apply_transaction toy spend_tx genesis_state = (Inr 1, spent_state)"
  by code_simp

lemma sample_coinbase: "is_coinbase genesis_tx" "is_coinbase coinbase1" "\<not> is_coinbase spend_tx"
  by code_simp+

lemma sample_states: "state_ok empty_state" "state_ok genesis_state" "state_ok spent_state" "state_ok block1_state"
  by code_simp+

lemma sample_genesis_coinbase: "apply_genesis_coinbase toy genesis_tx empty_state = (Inr (), genesis_state)"
  by code_simp

lemma sample_block_coinbase: "apply_block_coinbase toy coinbase1 1 spent_state = (Inr (), block1_state)"
  by code_simp

lemma sample_block_applies:
  "block_applies toy genesis_block 0 ZERO_HASH empty_state 0 genesis_state"
  "block_applies toy block1 1 genesis_hash genesis_state 1 block1_state"
proof -
  show "block_applies toy genesis_block 0 ZERO_HASH empty_state 0 genesis_state"
    using sample_hashes sample_root0 sample_coinbase sample_genesis_coinbase
    by (simp add: block_applies_def check_header_iff check_body_iff genesis_block_def starts_with_def
        apply_first_transaction_def)
  show "block_applies toy block1 1 genesis_hash genesis_state 1 block1_state"
    using sample_hashes sample_root1 sample_coinbase sample_apply sample_block_coinbase
    by (simp add: block_applies_def check_header_iff check_body_iff block1_def starts_with_def
        apply_first_transaction_def)
qed

lemma sample_new_state: "new_state None 50 1000 = Inr empty_state"
  by (simp add: new_state_def empty_state_def)

lemma sample_chain: "chain_run toy 0 ZERO_HASH empty_state [genesis_block, block1] block1_state"
  using chain_cons [OF sample_block_applies(1) sample_hashes(1)]
    chain_cons [OF sample_block_applies(2) sample_hashes(2) chain_nil] by simp

lemma sample_rebuild: "rebuild_state_from_blocks toy [genesis_block, block1] 50 1000 = Inr block1_state"
  using sample_chain sample_new_state by (auto simp: rebuild_iff)

lemma sample_inputs_ok:
  "list_all (input_ok True) (tx_inputs genesis_tx)" "list_all (input_ok True) (tx_inputs spend_tx)"
  "list_all (input_ok True) (tx_inputs coinbase1)"
  by code_simp+

lemma sample_outputs_ok:
  "list_all output_ok (tx_outputs genesis_tx)" "list_all output_ok (tx_outputs spend_tx)"
  "list_all output_ok (tx_outputs coinbase1)"
  by code_simp+

lemma sample_tx_ok: "tx_ok True genesis_tx" "tx_ok True spend_tx" "tx_ok True coinbase1"
  using sample_inputs_ok sample_outputs_ok
  by (simp_all add: tx_ok_def genesis_tx_def spend_tx_def coinbase1_def int64_ok_def uint64_ok_def)

lemma sample_blob_ok:
  "case tx_to_bytes True genesis_tx of Inl e \<Rightarrow> False | Inr b \<Rightarrow> blob_ok b"
  "case tx_to_bytes True spend_tx of Inl e \<Rightarrow> False | Inr b \<Rightarrow> blob_ok b"
  "case tx_to_bytes True coinbase1 of Inl e \<Rightarrow> False | Inr b \<Rightarrow> blob_ok b"
  by code_simp+

lemma sample_tx_item_ok: "tx_item_ok genesis_tx" "tx_item_ok spend_tx" "tx_item_ok coinbase1"
  using sample_tx_ok sample_blob_ok by (simp_all add: tx_item_ok_def)

lemma sample_block_ok: "block_ok genesis_block" "block_ok block1"
proof -
  have "header_ok genesis_block" "header_ok block1" by code_simp+
  then show "block_ok genesis_block" "block_ok block1"
    using sample_tx_item_ok by (auto simp: block_ok_def genesis_block_def block1_def uint64_ok_def)
qed

end
