(* ===== verification/Consensus_Properties.thy ===== *)
theory Consensus_Properties
  imports Samples
begin

text \<open>
  The properties of the consensus engine (\<^verbatim>\<open>consensus.py\<close>): conservation of value, authorization,
  the supply bound, atomicity of blocks, replay of chains, canonical encodings and the Merkle
  commitment. Each statement is over the model's own definitions; the lemmas that carry the proofs
  are in the component theories.
\<close>

section \<open>Transactions\<close>

text \<open>
  C1: a transfer that is applied takes exactly its fee out of the spendable total and never
  creates value; the outpoints it consumes disappear, its outputs appear, and every other entry is
  untouched.
\<close>

theorem transfer_conserves_value:
  assumes "state_ok st" and "\<not> is_coinbase tx" and "apply_transaction C tx st = (Inr fee, st')"
  shows "0 \<le> fee \<and> utxo_total (cs_utxos st') = utxo_total (cs_utxos st) - fee \<and>
    map_of (cs_utxos st') = ledger_after C tx (spent_by tx) (map_of (cs_utxos st))"
  using apply_transfer [OF assms] by (simp add: transfer_valid_def)

theorem transfer_conserves_value_witness:
  "0 \<le> (1 :: int) \<and> utxo_total (cs_utxos spent_state) = utxo_total (cs_utxos genesis_state) - 1 \<and>
   map_of (cs_utxos spent_state) = ledger_after toy spend_tx (spent_by spend_tx) (map_of (cs_utxos genesis_state))"
  using transfer_conserves_value [OF sample_states(2) sample_coinbase(3) sample_apply] .

text \<open>
  C6: the executable validation accepts exactly the transactions of the declarative
  specification, and with exactly the specified fee: for a transfer, supported version, well-formed
  outputs, pairwise distinct unspent inputs, each authorized by the key that owns it, and outputs
  not exceeding inputs; for a coinbase, an unsigned input and outputs within the subsidy.
\<close>

theorem validate_transaction_spec:
  "validate_transaction C st tx = Inr fee \<longleftrightarrow>
     (if is_coinbase tx then reward_valid st (cs_block_subsidy st) tx \<and> fee = 0
      else transfer_valid C st tx \<and> fee = input_value st tx - output_total tx)"
  by (simp add: validate_coinbase_iff validate_transfer_iff)

text \<open>
  C2: an output leaves the spendable set only with the consent of its owner: some input of the
  applied transaction names it, carries a public key whose address is the output's, and carries a
  signature that verifies over that input's signing message.
\<close>

theorem only_owner_spends:
  assumes "state_ok st" and "apply_transaction C tx st = (Inr fee, st')"
    and "map_of (cs_utxos st) o1 = Some out" and "map_of (cs_utxos st') o1 \<noteq> Some out"
  shows "\<exists>k < length (tx_inputs tx). in_previous_output (tx_inputs tx ! k) = o1 \<and>
    authorizes C tx (int k) (tx_inputs tx ! k) out"
proof -
  have made: "o1 \<in> fst ` set (created C tx)" if "map_of (created C tx) o1 = Some x" for x
    using map_of_SomeD [OF that] by force
  have nc: "\<not> is_coinbase tx"
  proof
    assume "is_coinbase tx"
    then have m: "map_of (cs_utxos st') = ledger_after C tx {} (map_of (cs_utxos st))"
        "\<forall>o1 \<in> fst ` set (created C tx). map_of (cs_utxos st) o1 = None"
      using apply_coinbase_transaction(3) [OF assms(1) _ assms(2)] by (auto simp: mints_def)
    show False
    proof (cases "map_of (created C tx) o1")
      case None
      with m(1) assms(3,4) show False by (simp add: ledger_after_def)
    next
      case (Some x)
      from bspec [OF m(2) made [OF this]] assms(3) show False by simp
    qed
  qed
  note a = apply_transfer [OF assms(1) nc assms(2)]
  have "o1 \<in> spent_by tx"
  proof (cases "map_of (created C tx) o1")
    case None
    with a(5) assms(3,4) show ?thesis by (auto simp: ledger_after_def split: if_splits)
  next
    case (Some x)
    from bspec [OF a(9) made [OF this]] assms(3) show ?thesis by simp
  qed
  then obtain k where "k < length (tx_inputs tx)" "in_previous_output (tx_inputs tx ! k) = o1"
    by (auto simp: in_set_conv_nth)
  with a(1) assms(3) show ?thesis by (fastforce simp: transfer_valid_def)
qed

lemma sample_spent:
  "map_of (cs_utxos genesis_state) (OutPoint genesis_txid 0) = Some \<lparr>out_amount = 100, out_address = alice_address\<rparr>"
  "map_of (cs_utxos spent_state) (OutPoint genesis_txid 0) \<noteq> Some \<lparr>out_amount = 100, out_address = alice_address\<rparr>"
  "OutPoint genesis_txid 0 \<notin> fst ` set (created toy spend_tx)"
proof -
  have ne: "genesis_txid \<noteq> spend_txid" by code_simp
  show "map_of (cs_utxos genesis_state) (OutPoint genesis_txid 0) = Some \<lparr>out_amount = 100, out_address = alice_address\<rparr>"
    by (simp add: genesis_state_def)
  show "map_of (cs_utxos spent_state) (OutPoint genesis_txid 0) \<noteq> Some \<lparr>out_amount = 100, out_address = alice_address\<rparr>"
    using ne by (simp add: spent_state_def)
  show "OutPoint genesis_txid 0 \<notin> fst ` set (created toy spend_tx)"
    using ne by (auto simp: created_def sample_txids)
qed

theorem only_owner_spends_witness:
  "\<exists>k < length (tx_inputs spend_tx). in_previous_output (tx_inputs spend_tx ! k) = OutPoint genesis_txid 0 \<and>
    authorizes toy spend_tx (int k) (tx_inputs spend_tx ! k) \<lparr>out_amount = 100, out_address = alice_address\<rparr>"
  using only_owner_spends [OF sample_states(2) sample_apply sample_spent(1,2)] .

text \<open>
  A transfer that meets the specification, whose identifier is computable and whose outputs
  are not already unspent, is applied: nothing else can stop it, the supply check included.
\<close>

lemma valid_transfer_applies:
  assumes "state_ok st" and "transfer_valid C st tx" and "txid C tx = Inr t"
    and "\<forall>o1 \<in> fst ` set (created C tx). o1 \<notin> spent_by tx \<longrightarrow> map_of (cs_utxos st) o1 = None"
  shows "\<exists>st'. apply_transaction C tx st = (Inr (input_value st tx - output_total tx), st')"
  by (rule apply_transfer_total [OF assms(1-3)]) (rule bspec [OF assms(4), THEN mp])

lemma valid_transfer_applies_witness:
  "\<exists>st'. apply_transaction toy spend_tx genesis_state =
     (Inr (input_value genesis_state spend_tx - output_total spend_tx), st')"
proof -
  have "\<forall>o1 \<in> fst ` set (created toy spend_tx). o1 \<notin> spent_by spend_tx \<longrightarrow>
      map_of (cs_utxos genesis_state) o1 = None"
    by (simp add: genesis_state_def spend_tx_def)
  from valid_transfer_applies [OF sample_states(2)
      apply_transfer(1) [OF sample_states(2) sample_coinbase(3) sample_apply] sample_txids(2) this]
  show ?thesis .
qed

text \<open>
  Once applied, a transfer cannot be applied again, unless it spends an output of its own
  (which would need a transaction that contains its own hash).
\<close>

lemma replay_rejected:
  assumes "state_ok st" and "\<not> is_coinbase tx" and "apply_transaction C tx st = (Inr fee, st')"
    and "spent_by tx \<inter> fst ` set (created C tx) = {}"
  shows "raises (fst (apply_transaction C tx st')) \<and> snd (apply_transaction C tx st') = st'"
proof -
  note a = apply_transfer [OF assms(1-3)]
  obtain inp where inp: "inp \<in> set (tx_inputs tx)"
    using a(1) by (cases "tx_inputs tx") (auto simp: transfer_valid_def)
  then have "map_of (cs_utxos st') (in_previous_output inp) = None"
    using a(5) assms(4) by (auto simp: ledger_after_def map_of_eq_None_iff split: option.splits dest: map_of_SomeD)
  then have "\<not> transfer_valid C st' tx" using transfer_valid_inputs inp by blast
  then have "\<nexists>fee st''. apply_transaction C tx st' = (Inr fee, st'')"
    using apply_transfer(1) [OF a(3) assms(2)] by blast
  then obtain e st'' where "apply_transaction C tx st' = (Inl e, st'')"
    by (metis old.sum.exhaust prod.exhaust)
  with tx_method.atomic [OF a(3) this] show ?thesis by simp
qed

lemma replay_rejected_witness:
  "raises (fst (apply_transaction toy spend_tx spent_state)) \<and> snd (apply_transaction toy spend_tx spent_state) = spent_state"
proof -
  have "spent_by spend_tx \<inter> fst ` set (created toy spend_tx) = {}"
    using sample_spent(3) by (simp add: spend_tx_def)
  from replay_rejected [OF sample_states(2) sample_coinbase(3) sample_apply this] show ?thesis .
qed

text \<open>
  C13: the three mutating methods keep the state invariant, on success and on failure: no
  duplicate outpoints, amounts positive and within the maximum, valid addresses, a total within the
  maximum supply, and unchanged monetary parameters.
\<close>

theorem state_methods_keep_invariant:
  assumes "state_ok st"
  shows "state_ok (snd (apply_transaction C tx st)) \<and> state_ok (snd (apply_block_coinbase C tx fees st)) \<and>
    state_ok (snd (apply_genesis_coinbase C tx st)) \<and> state_ok (snd (apply_block C b height prev st))"
  using tx_method.invariant reward_method.invariant genesis_method.invariant block_method.invariant assms
  by blast

theorem state_methods_keep_invariant_witness:
  "state_ok (snd (apply_transaction toy spend_tx genesis_state)) \<and>
   state_ok (snd (apply_block_coinbase toy coinbase1 1 genesis_state)) \<and>
   state_ok (snd (apply_genesis_coinbase toy genesis_tx genesis_state)) \<and>
   state_ok (snd (apply_block toy block1 1 genesis_hash genesis_state))"
  by (rule conjI conjI state_methods_keep_invariant [OF sample_states(2), THEN conjunct1]
      state_methods_keep_invariant [OF sample_states(2), THEN conjunct2, THEN conjunct1]
      state_methods_keep_invariant [OF sample_states(2), THEN conjunct2, THEN conjunct2, THEN conjunct1]
      state_methods_keep_invariant [OF sample_states(2), THEN conjunct2, THEN conjunct2, THEN conjunct2])+

section \<open>Blocks and chains\<close>

text \<open>
  C3: applying a block is atomic although it replays the transactions on the live state after
  validating them on a copy: it reports exactly what validation reports, and when it raises the
  state is the one before the call.
\<close>

theorem apply_block_is_atomic:
  assumes "state_ok st"
  shows "fst (apply_block C b height prev st) = validate_block C st b height prev \<and>
    (raises (fst (apply_block C b height prev st)) \<longrightarrow> snd (apply_block C b height prev st) = st)"
  using apply_block_validate [OF assms] block_method.atomic [OF assms] by (metis prod.collapse)

theorem apply_block_is_atomic_witness:
  "fst (apply_block toy block1 7 genesis_hash genesis_state) = validate_block toy genesis_state block1 7 genesis_hash \<and>
   snd (apply_block toy block1 7 genesis_hash genesis_state) = genesis_state"
proof -
  have "validate_block toy genesis_state block1 7 genesis_hash = consensus_error ''block height is invalid''"
    by (simp add: validate_block_def check_header_def block1_def SUPPORTED_BLOCK_VERSIONS_def)
  with apply_block_is_atomic [OF sample_states(2), of toy block1 7 genesis_hash] show ?thesis by simp
qed

text \<open>
  A block that is not genesis raises the spendable total by at most the block subsidy; the
  coinbase can collect no more than subsidy plus the fees its own block pays.
\<close>

lemma block_mints_at_most_subsidy:
  assumes "state_ok st" and "apply_block C b height prev st = (Inr fees, st')"
    and "blk_height b \<noteq> 0 \<or> blk_previous_hash b \<noteq> ZERO_HASH"
  shows "0 \<le> fees \<and> utxo_total (cs_utxos st') \<le> utxo_total (cs_utxos st) + cs_block_subsidy st \<and>
    utxo_total (cs_utxos st') = utxo_total (cs_utxos st) + output_total (hd (blk_transactions b)) - fees"
  using block_effect [OF assms(1), of C b height prev fees st'] assms(2,3)
  by (auto simp: apply_block_Inr_iff [OF assms(1)])

lemma block_mints_at_most_subsidy_witness:
  "0 \<le> (1 :: int) \<and> utxo_total (cs_utxos block1_state) \<le> utxo_total (cs_utxos genesis_state) + 50 \<and>
   utxo_total (cs_utxos block1_state) = utxo_total (cs_utxos genesis_state) + output_total (hd (blk_transactions block1)) - 1"
proof -
  have "apply_block toy block1 1 genesis_hash genesis_state = (Inr 1, block1_state)"
    using apply_block_Inr_iff [OF sample_states(2)] sample_block_applies(2) by blast
  from block_mints_at_most_subsidy [OF sample_states(2) this] show ?thesis
    by (simp add: block1_def genesis_state_def)
qed

text \<open>
  C5: replaying a chain of blocks yields a state within the maximum supply, whose total is at most
  what genesis allocated plus one subsidy per further block.
\<close>

theorem rebuild_supply_bound:
  assumes "rebuild_state_from_blocks C (g # bs) subsidy max_money = Inr st"
  shows "state_ok st \<and> utxo_total (cs_utxos st) \<le> max_money \<and>
    utxo_total (cs_utxos st) \<le> output_total (hd (blk_transactions g)) + subsidy * int (length bs)"
proof -
  from assms obtain st0 where st0: "new_state None subsidy max_money = Inr st0"
      "chain_run C 0 ZERO_HASH st0 (g # bs) st"
    by (auto simp: rebuild_iff)
  note n = new_state_ok [OF st0(1)]
  from st0(2) obtain fees st1 h where s1: "block_applies C g 0 ZERO_HASH st0 fees st1"
      "chain_run C 1 h st1 bs st"
    by (auto simp: chain_run_Cons)
  have e: "state_ok st1" "0 \<le> fees" "cs_block_subsidy st1 = subsidy" "cs_max_money st1 = max_money"
    "utxo_total (cs_utxos st1) = output_total (hd (blk_transactions g)) - fees"
    using block_effect [OF _ s1(1)] n by (auto simp: utxo_total_def)
  from chain_run_ok [OF s1(2) e(1)] chain_run_supply [OF s1(2) e(1)] e show ?thesis
    by (auto simp: state_ok_def)
qed

theorem rebuild_supply_bound_witness:
  "state_ok block1_state \<and> utxo_total (cs_utxos block1_state) \<le> 1000 \<and>
   utxo_total (cs_utxos block1_state) \<le> output_total (hd (blk_transactions genesis_block)) + 50 * int (length [block1])"
  using rebuild_supply_bound [OF sample_rebuild] .

text \<open>
  C21: every chain that replays is linked: block \<open>k\<close> has height \<open>k\<close>, names the hash of block \<open>k - 1\<close>
  (zeros for genesis), meets its own proof-of-work target, commits to its transactions, and has
  exactly one coinbase, in first place.
\<close>

theorem rebuilt_chain_is_linked:
  assumes "rebuild_state_from_blocks C bs subsidy max_money = Inr st" and "k < length bs"
  shows "blk_height (bs ! k) = int k \<and>
    blk_previous_hash (bs ! k) = (if k = 0 then ZERO_HASH else projr (block_hash C (bs ! (k - 1)))) \<and>
    (\<exists>h. block_hash C (bs ! k) = Inr h \<and>
       starts_with (replicate (nat (blk_difficulty (bs ! k))) 48) h) \<and>
    calculate_transaction_root C (blk_transactions (bs ! k)) = Inr (blk_transaction_root (bs ! k)) \<and>
    (\<exists>tx txs. blk_transactions (bs ! k) = tx # txs \<and> is_coinbase tx \<and> list_all (\<lambda>tx. \<not> is_coinbase tx) txs)"
proof -
  from assms(1) obtain st0 where "chain_run C 0 ZERO_HASH st0 bs st" by (auto simp: rebuild_iff)
  from chain_run_links [OF this] assms(2) have
    "check_header C (bs ! k) (int k) (if k = 0 then ZERO_HASH else projr (block_hash C (bs ! (k - 1)))) = Inr ()"
    "check_body C (bs ! k) = Inr ()" by (auto simp: header_links_def)
  then show ?thesis by (simp add: check_header_iff check_body_iff)
qed

theorem rebuilt_chain_is_linked_witness:
  "blk_height block1 = 1 \<and> blk_previous_hash block1 = projr (block_hash toy genesis_block)"
  using rebuilt_chain_is_linked [OF sample_rebuild, of 1] by simp

text \<open>
  C20: the spendable set after a replay is what the transactions of the chain, in their order of
  effect, make of the empty ledger: created entries minus consumed ones.
\<close>

theorem rebuild_refines_ledger:
  assumes "rebuild_state_from_blocks C bs subsidy max_money = Inr st"
  shows "map_of (cs_utxos st) =
    fold (\<lambda>tx. ledger_after C tx (consumed tx)) (concat (map effect_order bs)) Map.empty"
proof -
  from assms obtain st0 where st0: "new_state None subsidy max_money = Inr st0"
      "chain_run C 0 ZERO_HASH st0 bs st" by (auto simp: rebuild_iff)
  from chain_run_ledger [OF st0(2)] new_state_ok [OF st0(1)] show ?thesis by simp
qed

theorem rebuild_refines_ledger_witness:
  "map_of (cs_utxos block1_state) =
    fold (\<lambda>tx. ledger_after toy tx (consumed tx)) [genesis_tx, spend_tx, coinbase1] Map.empty"
  using rebuild_refines_ledger [OF sample_rebuild]
  by (simp add: effect_order_def genesis_block_def block1_def)

text \<open>
  Replay is incremental: replaying one more block gives what applying that block to the
  replayed state gives, error for error.
\<close>

lemma rebuild_is_incremental:
  assumes "rebuild_state_from_blocks C bs subsidy max_money = Inr st"
  shows "rebuild_state_from_blocks C (bs @ [b]) subsidy max_money =
    (case apply_block C b (int (length bs)) (chain_tip_hash C bs) st of
       (Inl e, _) \<Rightarrow> Inl e | (Inr _, st') \<Rightarrow> Inr st')"
  by (rule rebuild_snoc [OF assms])

lemma rebuild_is_incremental_witness:
  "rebuild_state_from_blocks toy ([genesis_block, block1] @ [block1]) 50 1000 =
    (case apply_block toy block1 (int (length [genesis_block, block1])) (chain_tip_hash toy [genesis_block, block1])
            block1_state of
       (Inl e, _) \<Rightarrow> Inl e | (Inr _, st') \<Rightarrow> Inr st')"
  by (rule rebuild_is_incremental [OF sample_rebuild])

text \<open>
  C4: no output is spent twice anywhere in a chain that replays, provided no two of its
  transactions share an identifier: the outpoints consumed by all transfers of all blocks are
  pairwise distinct.
\<close>

theorem chain_has_no_double_spend:
  assumes "rebuild_state_from_blocks C bs subsidy max_money = Inr st"
    and "distinct (map (txid C) (concat (map effect_order bs)))"
  shows "distinct (concat (map consumed_list (concat (map effect_order bs))))"
proof -
  from assms(1) obtain st0 where st0: "new_state None subsidy max_money = Inr st0"
      "chain_run C 0 ZERO_HASH st0 bs st" by (auto simp: rebuild_iff)
  from chain_run_spends [OF st0(2)] new_state_ok [OF st0(1)]
  have "spends_exist C (concat (map effect_order bs)) Map.empty" by simp
  from no_double_spend_aux [OF this assms(2), of "{}"] show ?thesis by simp
qed

theorem chain_has_no_double_spend_witness:
  "distinct (concat (map consumed_list (concat (map effect_order [genesis_block, block1]))))"
proof -
  have "genesis_txid \<noteq> spend_txid" "genesis_txid \<noteq> coinbase1_txid" "spend_txid \<noteq> coinbase1_txid"
    by code_simp+
  then have "distinct (map (txid toy) (concat (map effect_order [genesis_block, block1])))"
    by (simp add: effect_order_def genesis_block_def block1_def sample_txids)
  from chain_has_no_double_spend [OF sample_rebuild this] show ?thesis .
qed

end
