(* ===== verification/Encoding_Properties.thy ===== *)
theory Encoding_Properties
  imports Samples
begin

text \<open>
  The properties of identifiers, encodings, commitments and signatures: canonical binary formats,
  injective headers, what the Merkle root commits to and what it does not, and that a transaction
  signed by the owner's wallet is authorized.
\<close>

section \<open>Canonical encodings\<close>

text \<open>
  A byte string decodes to a transaction exactly when it is the encoding of that transaction:
  decoding inverts encoding, nothing else decodes, and what decodes is representable.
\<close>

lemma transaction_encoding_canonical:
  "tx_from_bytes include_witness bs = Inr tx \<longleftrightarrow>
     tx_ok include_witness tx \<and> tx_to_bytes include_witness tx = Inr bs"
  using full_tx.all_enc_dec [of include_witness bs tx] full_tx.all_dec_enc [of include_witness tx bs]
  by (auto simp: tx_from_bytes_def)

text \<open>
  C26: the same for blocks: a byte string decodes to a block exactly when it is the encoding of
  that representable block.
\<close>

theorem block_encoding_canonical:
  "block_from_bytes C bs = Inr b \<longleftrightarrow> block_ok b \<and> block_to_bytes b = Inr bs"
  using block_to_from_bytes block_from_to_bytes by blast

text \<open>
  Every representable block has an encoding, and the hex text the fork store writes reads
  back as the same block.
\<close>

lemma stored_block_round_trip:
  assumes "block_ok b"
  shows "\<exists>payload. encode_consensus_block b = Inr payload \<and> decode_consensus_block C payload = Inr b"
  using encode_consensus_block_total [OF assms] decode_encode_consensus_block [OF assms] by blast

lemma stored_block_round_trip_witness:
  "\<exists>payload. encode_consensus_block block1 = Inr payload \<and> decode_consensus_block toy payload = Inr block1"
  by (rule stored_block_round_trip [OF sample_block_ok(2)])

text \<open>
  The header bytes determine every header field, so two representable headers with the same
  block hash are equal or exhibit a collision of the digest.
\<close>

lemma block_hash_commits_to_header:
  assumes "header_ok b" and "header_ok b'" and "block_hash C b = block_hash C b'"
    and "header_bytes b = Inr bs" and "header_bytes b' = Inr bs'"
    and "sha256_digest C bs = sha256_digest C bs' \<longrightarrow> bs = bs'"
  shows "blk_height b = blk_height b' \<and> blk_previous_hash b = blk_previous_hash b' \<and>
    blk_transaction_root b = blk_transaction_root b' \<and> blk_difficulty b = blk_difficulty b' \<and>
    blk_timestamp b = blk_timestamp b' \<and> blk_nonce b = blk_nonce b' \<and> blk_version b = blk_version b'"
proof -
  have "header_bytes b = header_bytes b'"
    using assms(3-6) by (simp add: block_hash_def sha256_hex_def)
  then have "header_tuple b = header_tuple b'" using assms(1,2) header_bytes_inject by blast
  then show ?thesis by (simp add: header_tuple_def)
qed

lemma block_hash_commits_to_header_witness:
  "blk_timestamp block1 = blk_timestamp (block1\<lparr>blk_transactions := []\<rparr>)"
proof -
  have ok: "header_ok block1" using sample_block_ok(2) by (simp add: block_ok_def)
  then have ok': "header_ok (block1\<lparr>blk_transactions := []\<rparr>)" by (simp add: header_ok_def)
  have eq: "header_bytes (block1\<lparr>blk_transactions := []\<rparr>) = header_bytes block1"
    by (simp add: header_bytes_def)
  obtain bs where bs: "header_bytes block1 = Inr bs" using header_bytes_total [OF ok] by blast
  have h: "block_hash toy block1 = block_hash toy (block1\<lparr>blk_transactions := []\<rparr>)"
    by (simp add: block_hash_def eq)
  show ?thesis
    using block_hash_commits_to_header [OF ok ok' h bs eq [unfolded bs]] by simp
qed

section \<open>The Merkle commitment\<close>

text \<open>
  C29: between transaction lists of the same length, equal transaction roots mean equal
  transaction identifiers in the same order, unless two of the strings hashed on the way collide.
\<close>

theorem transaction_root_binding:
  assumes "digest_ok C" and "length txs = length txs'" and "txs \<noteq> []"
    and "calculate_transaction_root C txs = Inr root" and "calculate_transaction_root C txs' = Inr root"
    and "rmap (\<lambda>tx. rbind (txid C tx) fromhex) txs = Inr layer"
    and "rmap (\<lambda>tx. rbind (txid C tx) fromhex) txs' = Inr layer'"
    and "inj_on (sha256_digest C) (set (merkle_inputs C layer) \<union> set (merkle_inputs C layer'))"
  shows "map (txid C) txs = map (txid C) txs'"
proof -
  have "merkle_root C layer = merkle_root C layer'" "length layer = length layer'" "layer \<noteq> []"
    using assms(2-7) rmap_length [OF assms(6)] rmap_length [OF assms(7)]
    by (auto simp: calculate_transaction_root_def split: if_splits)
  with merkle_root_binding [OF assms(1), of layer layer'] assms(8) txid_layer_props [OF assms(1,6)]
    txid_layer_props [OF assms(1,7)]
  have "layer = layer'" by auto
  then show ?thesis using txid_layer_props(2) [OF assms(1,6)] txid_layer_props(2) [OF assms(1,7)] by simp
qed

theorem transaction_root_binding_witness:
  "\<exists>root layer. calculate_transaction_root toy [coinbase1, spend_tx] = Inr root \<and>
     rmap (\<lambda>tx. rbind (txid toy tx) fromhex) [coinbase1, spend_tx] = Inr layer \<and>
     inj_on (sha256_digest toy) (set (merkle_inputs toy layer)) \<and> merkle_inputs toy layer \<noteq> [] \<and>
     map (txid toy) [coinbase1, spend_tx] = map (txid toy) [coinbase1, spend_tx]"
proof -
  let ?txs = "[coinbase1, spend_tx]"
  obtain root layer where r: "calculate_transaction_root toy ?txs = Inr root"
      and l: "rmap (\<lambda>tx. rbind (txid toy tx) fromhex) ?txs = Inr layer"
    using sample_root1 by (auto simp: calculate_transaction_root_def)
  obtain x y where xy: "layer = [x, y]"
    using rmap_length [OF l] by (auto simp: length_Suc_conv numeral_2_eq_2)
  have "merkle_inputs toy [z] = []" for z by (subst merkle_inputs.simps) simp
  then have m: "merkle_inputs toy layer = [x @ y]"
    unfolding xy by (subst merkle_inputs.simps) (simp add: pad_layer_def)
  then have inj: "inj_on (sha256_digest toy) (set (merkle_inputs toy layer))" by simp
  then have both: "inj_on (sha256_digest toy) (set (merkle_inputs toy layer) \<union> set (merkle_inputs toy layer))" by simp
  have "map (txid toy) ?txs = map (txid toy) ?txs"
    by (rule transaction_root_binding [OF toy_digest_ok refl _ r r l l both]) simp
  then show ?thesis using r l inj by (intro exI [of _ root] exI [of _ layer] conjI) (assumption | simp add: m)+
qed

text \<open>
  C30: without the equal-length condition the commitment fails: repeating the last transaction of an
  odd list of at least three gives the same root, so one header has two transaction lists, and the
  checks of a block's body treat the two alike.
\<close>

theorem transaction_root_duplicate_tail:
  assumes "odd (length txs)" and "1 < length txs"
  shows "calculate_transaction_root C (txs @ [last txs]) = calculate_transaction_root C txs \<and>
    check_body C (b\<lparr>blk_transactions := txs @ [last txs]\<rparr>) = check_body C (b\<lparr>blk_transactions := txs\<rparr>)"
proof -
  obtain tx rest where txs: "txs = tx # rest" "rest \<noteq> []" using assms(2) by (cases txs) auto
  then have "list_ex is_coinbase (rest @ [last rest]) = list_ex is_coinbase rest"
    by (auto simp: list_ex_iff intro: last_in_set)
  with txs transaction_root_repeat_last [OF assms, of C] show ?thesis
    by (cases "calculate_transaction_root C txs") (simp_all add: check_body_def)
qed

theorem transaction_root_duplicate_tail_witness:
  "calculate_transaction_root toy [coinbase1, spend_tx, spend_tx, spend_tx] =
     calculate_transaction_root toy [coinbase1, spend_tx, spend_tx] \<and>
   check_body toy (block1\<lparr>blk_transactions := [coinbase1, spend_tx, spend_tx, spend_tx]\<rparr>) =
     check_body toy (block1\<lparr>blk_transactions := [coinbase1, spend_tx, spend_tx]\<rparr>)"
  using transaction_root_duplicate_tail [of "[coinbase1, spend_tx, spend_tx]" toy block1] by simp

section \<open>Signatures\<close>

text \<open>
  Base64 text produced by the wallet code decodes to the bytes it was made from, for every
  byte string.
\<close>

lemma base64_round_trip: "b64decode (b64encode bs) = Inr bs"
  by (rule b64decode_b64encode)

text \<open>
  Signing input \<open>i\<close> with the wallet that owns the output it consumes makes that input pass
  the signature check, leaves the signing messages of all inputs unchanged, and keeps every
  other input as it was.
\<close>

lemma sign_input_authorizes:
  assumes "ed25519_ok C" and "ed25519_secret_ok C raw" and "wallet_create C bits raw = Inr w"
    and "wallet_address C w = Inr (out_address prev)" and "sign_input C tx i w = Inr tx'"
  shows "authorizes C tx' i (tx_inputs tx' ! nat i) prev \<and>
    (\<forall>j. signing_message tx' j = signing_message tx j) \<and>
    (\<forall>k < length (tx_inputs tx). k \<noteq> nat i \<longrightarrow> tx_inputs tx' ! k = tx_inputs tx ! k)"
  using sign_input_effect [OF assms] by blast

lemma sign_input_authorizes_witness:
  "authorizes toy spend_tx 0 (tx_inputs spend_tx ! nat 0) \<lparr>out_amount = 100, out_address = alice_address\<rparr>"
proof -
  have raw: "ed25519_secret_ok toy (replicate 32 3)" by (simp add: toy_def)
  have w: "wallet_create toy None (replicate 32 3) = Inr alice" by code_simp
  have s: "sign_input toy (spend_tx\<lparr>tx_inputs := [unsigned_input (OutPoint genesis_txid 0)]\<rparr>) 0 alice =
      Inr spend_tx" by code_simp
  have a: "wallet_address toy alice =
      Inr (out_address \<lparr>out_amount = 100, out_address = alice_address\<rparr>)"
    using sample_addresses(1) by simp
  show ?thesis using sign_input_authorizes [OF toy_ed25519_ok raw w a s] by blast
qed

end
