(* ===== verification/Fork_Choice.thy ===== *)
theory Fork_Choice
  imports Fork_Store
begin

text \<open>
  \<^verbatim>\<open>fork_choice.py\<close>: selection of the best stored branch and its replay through the consensus engine.
  The store is shared with the node, so it is an argument of every operation.
\<close>

record active_chain =
  ac_blocks :: "consensus_block list"
  ac_state :: consensus_state
  ac_cumulative_work :: int

definition ac_tip :: "active_chain \<Rightarrow> consensus_block option" where
  "ac_tip a = (if ac_blocks a = [] then None else Some (last (ac_blocks a)))"

record fork_choice =
  fc_block_subsidy :: int
  fc_max_money :: int

definition validate_stored_chain :: "crypto \<Rightarrow> fork_choice \<Rightarrow> stored_block list \<Rightarrow> active_chain result" where
  "validate_stored_chain C fc chain =
     (case rebuild_state_from_blocks C (map sb_block chain) (fc_block_subsidy fc) (fc_max_money fc) of
        Inl (ConsensusError m) \<Rightarrow> Inl (ForkChoiceError (ascii ''stored branch failed consensus validation''))
      | Inl e \<Rightarrow> Inl e
      | Inr st \<Rightarrow>
          if chain = [] then Inl IndexError
          else Inr \<lparr>ac_blocks = map sb_block chain, ac_state = st,
                    ac_cumulative_work = sb_cumulative_work (last chain)\<rparr>)"

definition fc_active_chain :: "crypto \<Rightarrow> fork_choice \<Rightarrow> fork_store \<Rightarrow> active_chain result" where
  "fc_active_chain C fc s =
     (case stored_active_chain C s of
        Inl (StorageError m) \<Rightarrow> Inl (ForkChoiceError (ascii ''active branch is disconnected''))
      | Inl e \<Rightarrow> Inl e
      | Inr chain \<Rightarrow>
          if chain = [] then
            rbind (new_state None (fc_block_subsidy fc) (fc_max_money fc)) (\<lambda>st.
              Inr \<lparr>ac_blocks = [], ac_state = st, ac_cumulative_work = 0\<rparr>)
          else validate_stored_chain C fc chain)"

definition fc_chain_to_tip :: "crypto \<Rightarrow> fork_choice \<Rightarrow> fork_store \<Rightarrow> pystr \<Rightarrow> active_chain result" where
  "fc_chain_to_tip C fc s tip_hash = rbind (chain_to_tip C s tip_hash) (validate_stored_chain C fc)"

definition fc_best_tip :: "crypto \<Rightarrow> fork_store \<Rightarrow> stored_block option result" where
  "fc_best_tip C s = best_tip C s"

definition fc_add_block :: "crypto \<Rightarrow> fork_choice \<Rightarrow> consensus_block \<Rightarrow> (fork_store, active_chain) op" where
  "fc_add_block C fc b s =
     (case put_block C b s of
        (Inl e, s') \<Rightarrow> (Inl e, s')
      | (Inr _, s') \<Rightarrow> (fc_active_chain C fc s', s'))"

text \<open>The generator reads a block, the loop body replays its branch, then the next block is read.\<close>

definition validate_all_known_branches :: "crypto \<Rightarrow> fork_choice \<Rightarrow> fork_store \<Rightarrow> unit result" where
  "validate_all_known_branches C fc s =
     rfold (\<lambda>p _.
        rbind (get_block C s (fst p)) (\<lambda>sb.
        rbind (block_hash C (sb_block sb)) (\<lambda>h.
        case fc_chain_to_tip C fc s h of
          Inl (StorageError m) \<Rightarrow> Inl (ForkChoiceError (ascii ''stored branch is disconnected''))
        | Inl e \<Rightarrow> Inl e
        | Inr _ \<Rightarrow> Inr ())))
       (sort_key (\<lambda>p. (fr_height (snd p), fst p)) (fs_blocks s)) ()"

section \<open>Valid stores\<close>

definition branch_valid :: "crypto \<Rightarrow> fork_choice \<Rightarrow> fork_store \<Rightarrow> pystr \<Rightarrow> bool" where
  "branch_valid C fc s h \<longleftrightarrow> (\<exists>a. fc_chain_to_tip C fc s h = Inr a)"

text \<open>The invariant of the node's block database: every stored block ends a valid branch.\<close>

definition branches_ok :: "crypto \<Rightarrow> fork_choice \<Rightarrow> fork_store \<Rightarrow> bool" where
  "branches_ok C fc s \<longleftrightarrow>
     store_ok C s \<and> (\<forall>h \<in> set (map fst (fs_blocks s)). branch_valid C fc s h) \<and>
     0 \<le> fc_block_subsidy fc \<and> 0 < fc_max_money fc"

lemma validate_stored_chain_Inr:
  "validate_stored_chain C fc chain = Inr a \<longleftrightarrow>
     chain \<noteq> [] \<and> ac_blocks a = map sb_block chain \<and> ac_cumulative_work a = sb_cumulative_work (last chain) \<and>
     rebuild_state_from_blocks C (map sb_block chain) (fc_block_subsidy fc) (fc_max_money fc) = Inr (ac_state a)"
  by (auto simp: validate_stored_chain_def split: sum.splits exn.splits)

lemma fc_chain_to_tip_Inr:
  assumes "store_ok C s" and "fc_chain_to_tip C fc s h = Inr a"
  obtains bs where "branch C s h bs" and "chain_to_tip C s h = Inr bs" and "ac_blocks a = map sb_block bs"
    and "ac_cumulative_work a = sb_cumulative_work (last bs)"
    and "rebuild_state_from_blocks C (map sb_block bs) (fc_block_subsidy fc) (fc_max_money fc) = Inr (ac_state a)"
  using assms chain_to_tip_Inr [OF assms(1)]
  by (auto simp: fc_chain_to_tip_def validate_stored_chain_Inr)

lemma best_tip_hash:
  assumes "store_ok C s" and "best_tip C s = Inr (Some sb)"
  obtains p where "p \<in> set (fs_blocks s)" and "block_hash C (sb_block sb) = Inr (fst p)"
    and "sb_cumulative_work sb = fr_cumulative_work (snd p)" and "row_holds C p (sb_block sb)"
    and "\<forall>q \<in> set (fs_blocks s). tip_order p \<le> tip_order q"
proof -
  have "fs_blocks s \<noteq> []" using assms(2) by (auto simp: best_tip_def)
  from best_tip_least [OF assms(1) this] obtain p b where p: "p \<in> set (fs_blocks s)" "row_holds C p b"
    "best_tip C s = Inr (Some \<lparr>sb_block = b, sb_cumulative_work = fr_cumulative_work (snd p)\<rparr>)"
    "\<forall>q \<in> set (fs_blocks s). tip_order p \<le> tip_order q" by blast
  from p(3) assms(2) have sb: "sb = \<lparr>sb_block = b, sb_cumulative_work = fr_cumulative_work (snd p)\<rparr>" by simp
  show ?thesis by (rule that [OF p(1) _ _ _ p(4)]) (use p(2) sb in \<open>simp_all add: row_holds_def\<close>)
qed

text \<open>On a valid store the active chain exists and ends at the best tip.\<close>

lemma active_chain_best:
  assumes ok: "branches_ok C fc s" and ne: "fs_blocks s \<noteq> []"
  obtains a p where "fc_active_chain C fc s = Inr a" and "p \<in> set (fs_blocks s)"
    and "fc_chain_to_tip C fc s (fst p) = Inr a"
    and "\<forall>q \<in> set (fs_blocks s). tip_order p \<le> tip_order q"
    and "best_tip C s = Inr (Some \<lparr>sb_block = last (ac_blocks a), sb_cumulative_work = ac_cumulative_work a\<rparr>)"
proof -
  have st: "store_ok C s" using ok by (simp add: branches_ok_def)
  from best_tip_least [OF st ne] obtain p b where
    p: "p \<in> set (fs_blocks s)" "row_holds C p b"
      "best_tip C s = Inr (Some \<lparr>sb_block = b, sb_cumulative_work = fr_cumulative_work (snd p)\<rparr>)"
      "\<forall>q \<in> set (fs_blocks s). tip_order p \<le> tip_order q" by blast
  from p(1) ok have "branch_valid C fc s (fst p)" by (simp add: branches_ok_def)
  then obtain a where a: "fc_chain_to_tip C fc s (fst p) = Inr a" by (auto simp: branch_valid_def)
  from fc_chain_to_tip_Inr [OF st a] obtain bs where
    bs: "branch C s (fst p) bs" "chain_to_tip C s (fst p) = Inr bs" "ac_blocks a = map sb_block bs"
      "ac_cumulative_work a = sb_cumulative_work (last bs)" by blast
  have "stored_active_chain C s = Inr bs"
    using p(2,3) bs(2) by (simp add: stored_active_chain_def row_holds_def)
  moreover have ne': "bs \<noteq> []" using branch_last [OF bs(1)] by simp
  ultimately have act: "fc_active_chain C fc s = Inr a"
    using a bs(2) by (simp add: fc_active_chain_def fc_chain_to_tip_def)
  have "get_block C s (fst p) = Inr (last bs)" using branch_last [OF bs(1)] by simp
  moreover have "best_tip C s = rbind (get_block C s (fst p)) (\<lambda>sb. Inr (Some sb))"
  proof -
    have "map_of (fs_blocks s) (fst p) = Some (snd p)" using p(1) st by (simp add: store_ok_def)
    then have "get_block C s (fst p) = Inr \<lparr>sb_block = b, sb_cumulative_work = fr_cumulative_work (snd p)\<rparr>"
      using p(2) by (simp add: get_block_def row_holds_def)
    with p(3) show ?thesis by simp
  qed
  ultimately have "best_tip C s = Inr (Some (last bs))" by simp
  moreover have "last bs = \<lparr>sb_block = last (ac_blocks a), sb_cumulative_work = ac_cumulative_work a\<rparr>"
    using bs(3,4) ne' by (simp add: last_map)
  ultimately show ?thesis using that act p(1,4) a by metis
qed

lemma active_chain_empty:
  assumes "branches_ok C fc s" and "fs_blocks s = []"
  shows "\<exists>st. new_state None (fc_block_subsidy fc) (fc_max_money fc) = Inr st \<and>
    fc_active_chain C fc s = Inr \<lparr>ac_blocks = [], ac_state = st, ac_cumulative_work = 0\<rparr>"
  using assms
  by (auto simp: fc_active_chain_def stored_active_chain_def best_tip_def branches_ok_def new_state_def)

lemma active_chain_total: "branches_ok C fc s \<Longrightarrow> \<exists>a. fc_active_chain C fc s = Inr a"
  using active_chain_best active_chain_empty by (metis (no_types))

section \<open>Adding a validated block\<close>

lemma chain_to_tip_branch:
  assumes "store_ok C s" and "branch C s h bs"
  shows "chain_to_tip C s h = Inr bs"
  using branch_last [OF assms(2)] chain_walk_branch [OF assms(2) _ branch_short [OF assms(2,1)], of _ "[]"]
  by (simp add: chain_to_tip_def)

lemma get_block_mono:
  assumes "get_block C s h = Inr sb" and "map_of (fs_blocks s) \<subseteq>\<^sub>m map_of (fs_blocks s')"
  shows "get_block C s' h = Inr sb"
proof -
  from assms(1) obtain row where row: "map_of (fs_blocks s) h = Some row"
    by (auto simp: get_block_def split: option.splits)
  with assms(2) have "map_of (fs_blocks s') h = Some row" by (metis domI map_le_def)
  with row assms(1) show ?thesis by (simp add: get_block_def)
qed

lemma branch_mono:
  assumes "branch C s h bs" and "map_of (fs_blocks s) \<subseteq>\<^sub>m map_of (fs_blocks s')"
  shows "branch C s' h bs"
  using assms(1)
  by (induction rule: branch.induct) (auto intro: branch.intros get_block_mono [OF _ assms(2)])

lemma fc_chain_to_tip_mono:
  assumes "store_ok C s" and "store_ok C s'" and "map_of (fs_blocks s) \<subseteq>\<^sub>m map_of (fs_blocks s')"
    and "fc_chain_to_tip C fc s h = Inr a"
  shows "fc_chain_to_tip C fc s' h = Inr a"
proof -
  from fc_chain_to_tip_Inr [OF assms(1,4)] obtain bs where bs: "branch C s h bs" "chain_to_tip C s h = Inr bs"
    by blast
  from chain_to_tip_branch [OF assms(2) branch_mono [OF bs(1) assms(3)]] bs(2) assms(4)
  show ?thesis by (simp add: fc_chain_to_tip_def)
qed

text \<open>What the node checks of a block before it stores it.\<close>

definition extends_valid_branch :: "crypto \<Rightarrow> fork_choice \<Rightarrow> fork_store \<Rightarrow> consensus_block \<Rightarrow> bool" where
  "extends_valid_branch C fc s b \<longleftrightarrow>
     (if blk_height b = 0
      then \<exists>st0 fees st'. new_state None (fc_block_subsidy fc) (fc_max_money fc) = Inr st0 \<and>
             apply_block C b 0 ZERO_HASH st0 = (Inr fees, st')
      else \<exists>a fees st'. fc_chain_to_tip C fc s (blk_previous_hash b) = Inr a \<and>
             apply_block C b (blk_height b) (blk_previous_hash b) (ac_state a) = (Inr fees, st'))"

lemma new_branch:
  assumes ok: "branches_ok C fc s" and bok: "block_ok b" and h: "block_hash C b = Inr h"
    and new: "\<not> has_block s h" and put: "put_block C b s = (Inr sb, s')"
    and valid: "extends_valid_branch C fc s b"
  shows "branch_valid C fc s' h"
proof -
  have st: "store_ok C s" using ok by (simp add: branches_ok_def)
  note p = put_block_ok [OF st bok put]
  from put_block_new [OF h new put] obtain cw where cw: "block_work C s b = Inr cw"
    "sb = \<lparr>sb_block = b, sb_cumulative_work = cw\<rparr>" by metis
  have get: "get_block C s' h = Inr sb" using p(3) h by auto
  have "\<exists>bs. branch C s' h bs \<and> (\<exists>st'. rebuild_state_from_blocks C (map sb_block bs)
      (fc_block_subsidy fc) (fc_max_money fc) = Inr st')"
  proof (cases "blk_height b = 0")
    case True
    with valid obtain st0 fees st' where v: "new_state None (fc_block_subsidy fc) (fc_max_money fc) = Inr st0"
        "apply_block C b 0 ZERO_HASH st0 = (Inr fees, st')" by (auto simp: extends_valid_branch_def)
    have "rebuild_state_from_blocks C [] (fc_block_subsidy fc) (fc_max_money fc) = Inr st0"
      by (simp add: rebuild_state_from_blocks_def v(1))
    from rebuild_snoc [OF this, of b] v(2)
    have "rebuild_state_from_blocks C [b] (fc_block_subsidy fc) (fc_max_money fc) = Inr st'"
      by (simp add: chain_tip_hash_def)
    moreover have "branch C s' h [sb]" using branch_genesis [OF get] True cw(2) by simp
    ultimately show ?thesis using cw(2) by fastforce
  next
    case False
    with valid obtain a fees st' where v: "fc_chain_to_tip C fc s (blk_previous_hash b) = Inr a"
        "apply_block C b (blk_height b) (blk_previous_hash b) (ac_state a) = (Inr fees, st')"
      by (auto simp: extends_valid_branch_def)
    from fc_chain_to_tip_Inr [OF st v(1)] obtain bs where bs: "branch C s (blk_previous_hash b) bs"
      "rebuild_state_from_blocks C (map sb_block bs) (fc_block_subsidy fc) (fc_max_money fc) = Inr (ac_state a)"
      by blast
    have last: "bs \<noteq> []" "get_block C s (blk_previous_hash b) = Inr (last bs)" using branch_last [OF bs(1)] by auto
    from get_block_Inr [OF st last(2)] have "block_hash C (sb_block (last bs)) = Inr (blk_previous_hash b)"
      by (metis row_holds_def fst_conv)
    then have tip: "chain_tip_hash C (map sb_block bs) = blk_previous_hash b"
      using last(1) by (simp add: chain_tip_hash_def last_map)
    have "blk_height (sb_block (last bs)) = int (length bs - 1)"
      using arg_cong [OF branch_heights [OF bs(1) st], of last] last(1) by (simp add: last_map)
    moreover have "blk_height b = blk_height (sb_block (last bs)) + 1"
      using cw(1) False last(2) by (auto simp: block_work_def split: if_splits)
    ultimately have "blk_height b = int (length (map sb_block bs))" using last(1) by (cases bs) auto
    with rebuild_snoc [OF bs(2), of b] v(2) tip
    have "rebuild_state_from_blocks C (map sb_block (bs @ [sb])) (fc_block_subsidy fc) (fc_max_money fc) = Inr st'"
      using cw(2) by simp
    moreover have "branch C s' h (bs @ [sb])"
      using branch_step [OF get _ branch_mono [OF _ p(2)]] False cw(2) bs(1) by simp
    ultimately show ?thesis by blast
  qed
  then obtain bs st' where "branch C s' h bs"
    "rebuild_state_from_blocks C (map sb_block bs) (fc_block_subsidy fc) (fc_max_money fc) = Inr st'" by blast
  then show ?thesis
    using chain_to_tip_branch [OF p(1)] branch_last
    by (fastforce simp: branch_valid_def fc_chain_to_tip_def validate_stored_chain_def)
qed

lemma put_keeps_branches_ok:
  assumes ok: "branches_ok C fc s" and bok: "block_ok b" and put: "put_block C b s = (Inr sb, s')"
    and valid: "extends_valid_branch C fc s b"
  shows "branches_ok C fc s'"
proof -
  have st: "store_ok C s" using ok by (simp add: branches_ok_def)
  note p = put_block_ok [OF st bok put]
  from p(3) obtain h where h: "block_hash C b = Inr h" "\<And>h'. h' \<noteq> h \<Longrightarrow> map_of (fs_blocks s') h' = map_of (fs_blocks s) h'"
    by auto
  show ?thesis
  proof (cases "has_block s h")
    case True
    with put put_block_known [OF h(1) True] ok show ?thesis by auto
  next
    case False
    have "branch_valid C fc s' h'" if "h' \<in> set (map fst (fs_blocks s'))" for h'
    proof (cases "h' = h")
      case True
      with new_branch [OF ok bok h(1) False put valid] show ?thesis by simp
    next
      case f: False
      have "map_of (fs_blocks s) h' \<noteq> None" using that h(2) [OF f] by (metis map_of_eq_None_iff set_map)
      then have "branch_valid C fc s h'" using ok by (simp add: branches_ok_def map_of_eq_None_iff) blast
      with fc_chain_to_tip_mono [OF st p(1,2)] show ?thesis by (auto simp: branch_valid_def)
    qed
    with p(1) ok show ?thesis by (simp add: branches_ok_def)
  qed
qed

end
