(* ===== verification/Index_Stores.thy ===== *)
theory Index_Stores
  imports Fork_Store
begin

text \<open>
  The other stores of \<^verbatim>\<open>storage.py\<close>: \<^verbatim>\<open>SQLiteUTXOIndex\<close>, \<^verbatim>\<open>SQLiteMempoolStore\<close>,
  \<^verbatim>\<open>SQLiteInvalidBlockCache\<close> and \<^verbatim>\<open>SQLitePeerSyncStore\<close>. Rows are inserted one at a time inside one
  transaction, so an INTEGER out of range or a repeated key rolls the whole call back.
\<close>

section \<open>UTXO index\<close>

record indexed_spend =
  is_outpoint :: outpoint
  is_spending_txid :: pystr
  is_input_index :: int

record utxo_index =
  ui_schema_version :: "int option"
  ui_active_tip :: "pystr option"
  ui_utxos :: "(outpoint, tx_output) table"
  ui_snapshots :: "(pystr \<times> outpoint, tx_output) table"
  ui_spent :: "(pystr \<times> outpoint, pystr \<times> int) table"

definition insert_utxo :: "(outpoint \<Rightarrow> 'k) \<Rightarrow> utxo \<Rightarrow> ('k, tx_output) table \<Rightarrow> ('k, tx_output) table result" where
  "insert_utxo key e t =
     rbind (sql_int (op_index (utxo_outpoint e))) (\<lambda>i.
     rbind (sql_int (out_amount (utxo_output e))) (\<lambda>a.
       tbl_insert (key (OutPoint (op_txid (utxo_outpoint e)) i))
         \<lparr>out_amount = a, out_address = out_address (utxo_output e)\<rparr> t))"

definition write_tip_snapshot ::
  "pystr \<Rightarrow> utxo_set \<Rightarrow> (pystr \<times> outpoint, tx_output) table \<Rightarrow> (pystr \<times> outpoint, tx_output) table result" where
  "write_tip_snapshot tip utxos t =
     rfold (insert_utxo (Pair tip)) (utxo_entries utxos) (tbl_delete_where (\<lambda>k. fst k = tip) t)"

definition save_snapshot :: "pystr \<Rightarrow> utxo_set \<Rightarrow> (utxo_index, unit) op" where
  "save_snapshot tip utxos =
     sql_transaction (\<lambda>x.
       rbind (write_tip_snapshot tip utxos (ui_snapshots x)) (\<lambda>snaps.
       rbind (rfold (insert_utxo id) (utxo_entries utxos) []) (\<lambda>rows.
         Inr (x\<lparr>ui_active_tip := Some tip, ui_utxos := rows, ui_snapshots := snaps\<rparr>))))"

definition save_tip_snapshot :: "pystr \<Rightarrow> utxo_set \<Rightarrow> (utxo_index, unit) op" where
  "save_tip_snapshot tip utxos =
     sql_transaction (\<lambda>x. rbind (write_tip_snapshot tip utxos (ui_snapshots x)) (\<lambda>snaps.
       Inr (x\<lparr>ui_snapshots := snaps\<rparr>)))"

definition transaction_spends :: "crypto \<Rightarrow> consensus_transaction \<Rightarrow> indexed_spend list result" where
  "transaction_spends C tx =
     (if is_coinbase tx then Inr []
      else rmap (\<lambda>(i, inp). rbind (txid C tx) (\<lambda>t.
             Inr \<lparr>is_outpoint = in_previous_output inp, is_spending_txid = t, is_input_index = int i\<rparr>))
           (List.enumerate 0 (tx_inputs tx)))"

definition chain_spends :: "crypto \<Rightarrow> consensus_block list \<Rightarrow> indexed_spend list result" where
  "chain_spends C blocks =
     rbind (rmap (\<lambda>b. rbind (rmap (transaction_spends C) (blk_transactions b)) (\<lambda>xs. Inr (concat xs))) blocks)
       (\<lambda>xs. Inr (concat xs))"

definition insert_spend ::
  "pystr \<Rightarrow> indexed_spend \<Rightarrow> (pystr \<times> outpoint, pystr \<times> int) table \<Rightarrow> (pystr \<times> outpoint, pystr \<times> int) table result" where
  "insert_spend tip sp t =
     rbind (sql_int (op_index (is_outpoint sp))) (\<lambda>i.
       tbl_insert (tip, OutPoint (op_txid (is_outpoint sp)) i) (is_spending_txid sp, is_input_index sp) t)"

definition save_tip_spends :: "crypto \<Rightarrow> pystr \<Rightarrow> consensus_block list \<Rightarrow> (utxo_index, unit) op" where
  "save_tip_spends C tip blocks x =
     (case chain_spends C blocks of
        Inl e \<Rightarrow> (Inl e, x)
      | Inr spends \<Rightarrow>
          sql_transaction (\<lambda>x.
            rbind (rfold (insert_spend tip) spends (tbl_delete_where (\<lambda>k. fst k = tip) (ui_spent x))) (\<lambda>rows.
              Inr (x\<lparr>ui_spent := rows\<rparr>))) x)"

definition tip_rows :: "pystr \<Rightarrow> (pystr \<times> outpoint, 'v) table \<Rightarrow> (outpoint \<times> 'v) list" where
  "tip_rows tip t =
     map (\<lambda>((_, o1), v). (o1, v)) (sort_key (\<lambda>p. snd (fst p)) (filter (\<lambda>p. fst (fst p) = tip) t))"

definition as_utxo :: "outpoint \<times> tx_output \<Rightarrow> utxo" where
  "as_utxo p = \<lparr>utxo_outpoint = fst p, utxo_output = snd p\<rparr>"

definition load_tip_snapshot :: "utxo_index \<Rightarrow> pystr \<Rightarrow> utxo_set option result" where
  "load_tip_snapshot x tip =
     (let rows = tip_rows tip (ui_snapshots x)
      in if rows = [] then Inr None else rbind (utxo_new (map as_utxo rows)) (\<lambda>u. Inr (Some u)))"

definition load_snapshot :: "utxo_index \<Rightarrow> pystr \<Rightarrow> utxo_set option result" where
  "load_snapshot x expected_tip_hash =
     rbind (load_tip_snapshot x expected_tip_hash) (\<lambda>indexed.
       case indexed of
         Some u \<Rightarrow> Inr (Some u)
       | None \<Rightarrow>
           if ui_active_tip x \<noteq> Some expected_tip_hash then Inr None
           else rbind (utxo_new (map as_utxo (tbl_ordered (ui_utxos x)))) (\<lambda>u. Inr (Some u)))"

definition index_active_tip :: "utxo_index \<Rightarrow> pystr option" where
  "index_active_tip x = ui_active_tip x"

definition index_count :: "utxo_index \<Rightarrow> int" where
  "index_count x = int (length (ui_utxos x))"

definition tip_count :: "utxo_index \<Rightarrow> pystr \<Rightarrow> int" where
  "tip_count x tip = int (length (filter (\<lambda>p. fst (fst p) = tip) (ui_snapshots x)))"

definition spent_count :: "utxo_index \<Rightarrow> pystr \<Rightarrow> int" where
  "spent_count x tip = int (length (filter (\<lambda>p. fst (fst p) = tip) (ui_spent x)))"

definition load_tip_spends :: "utxo_index \<Rightarrow> pystr \<Rightarrow> indexed_spend list" where
  "load_tip_spends x tip =
     map (\<lambda>(o1, t, i). \<lparr>is_outpoint = o1, is_spending_txid = t, is_input_index = i\<rparr>) (tip_rows tip (ui_spent x))"

definition spent_by_tip :: "utxo_index \<Rightarrow> pystr \<Rightarrow> outpoint \<Rightarrow> indexed_spend option" where
  "spent_by_tip x tip o1 =
     map_option (\<lambda>(t, i). \<lparr>is_outpoint = o1, is_spending_txid = t, is_input_index = i\<rparr>)
       (map_of (ui_spent x) (tip, o1))"

definition is_spent_at_tip :: "utxo_index \<Rightarrow> pystr \<Rightarrow> outpoint \<Rightarrow> bool" where
  "is_spent_at_tip x tip o1 \<longleftrightarrow> spent_by_tip x tip o1 \<noteq> None"

definition utxos_for_address_at_tip :: "utxo_index \<Rightarrow> pystr \<Rightarrow> pystr \<Rightarrow> utxo list" where
  "utxos_for_address_at_tip x tip address =
     map as_utxo (filter (\<lambda>p. out_address (snd p) = address) (tip_rows tip (ui_snapshots x)))"

definition indexed_tips :: "utxo_index \<Rightarrow> pystr list" where
  "indexed_tips x = sort (remdups (map (\<lambda>p. fst (fst p)) (ui_snapshots x)))"

section \<open>Mempool store\<close>

record mempool_store =
  ms_schema_version :: "int option"
  ms_rows :: "(pystr, pystr) table"

definition encode_transaction :: "consensus_transaction \<Rightarrow> pystr result" where
  "encode_transaction tx = rbind (tx_to_bytes True tx) (\<lambda>b. Inr (hexlify b))"

definition decode_transaction :: "pystr \<Rightarrow> consensus_transaction result" where
  "decode_transaction p = rbind (fromhex p) (tx_from_bytes True)"

definition mempool_row :: "crypto \<Rightarrow> consensus_transaction \<Rightarrow> (pystr \<times> pystr) result" where
  "mempool_row C tx = rbind (txid C tx) (\<lambda>t. rbind (encode_transaction tx) (\<lambda>d. Inr (t, d)))"

definition ms_add_transaction :: "crypto \<Rightarrow> consensus_transaction \<Rightarrow> (mempool_store, unit) op" where
  "ms_add_transaction C tx =
     sql_transaction (\<lambda>x. rbind (mempool_row C tx) (\<lambda>(t, d).
       Inr (x\<lparr>ms_rows := tbl_insert_or_ignore t d (ms_rows x)\<rparr>)))"

definition ms_replace_all :: "crypto \<Rightarrow> consensus_transaction list \<Rightarrow> (mempool_store, unit) op" where
  "ms_replace_all C txs =
     sql_transaction (\<lambda>x. rbind (rmap (mempool_row C) txs) (\<lambda>rows.
       rbind (tbl_insert_many rows []) (\<lambda>t. Inr (x\<lparr>ms_rows := t\<rparr>))))"

definition ms_transactions :: "mempool_store \<Rightarrow> consensus_transaction list result" where
  "ms_transactions x = rmap (\<lambda>p. decode_transaction (snd p)) (tbl_ordered (ms_rows x))"

definition ms_count :: "mempool_store \<Rightarrow> int" where
  "ms_count x = int (length (ms_rows x))"

section \<open>Invalid-block cache\<close>

record invalid_cache =
  ic_schema_version :: "int option"
  ic_rows :: "(pystr, pystr) table"

definition mark_invalid :: "pystr \<Rightarrow> pystr \<Rightarrow> (invalid_cache, unit) op" where
  "mark_invalid h reason =
     sql_transaction (\<lambda>x. rbind (sql_text reason) (\<lambda>r. Inr (x\<lparr>ic_rows := tbl_upsert h r (ic_rows x)\<rparr>)))"

definition is_invalid :: "invalid_cache \<Rightarrow> pystr \<Rightarrow> bool" where
  "is_invalid x h \<longleftrightarrow> map_of (ic_rows x) h \<noteq> None"

definition invalid_reason :: "invalid_cache \<Rightarrow> pystr \<Rightarrow> pystr option" where
  "invalid_reason x h = map_of (ic_rows x) h"

definition invalid_count :: "invalid_cache \<Rightarrow> int" where
  "invalid_count x = int (length (ic_rows x))"

section \<open>Peer sync store\<close>

record sync_counters =
  requested_blocks :: int
  completed_blocks :: int
  timed_out_blocks :: int
  failed_blocks :: int

record peer_sync_store =
  ps_schema_version :: "int option"
  ps_rows :: "(pystr, sync_counters) table"

definition save_progress :: "pystr \<Rightarrow> sync_counters \<Rightarrow> (peer_sync_store, unit) op" where
  "save_progress address p =
     sql_transaction (\<lambda>x.
       rbind (sql_text address) (\<lambda>a.
       rbind (sql_int (requested_blocks p)) (\<lambda>_.
       rbind (sql_int (completed_blocks p)) (\<lambda>_.
       rbind (sql_int (timed_out_blocks p)) (\<lambda>_.
       rbind (sql_int (failed_blocks p)) (\<lambda>_.
         Inr (x\<lparr>ps_rows := tbl_upsert a p (ps_rows x)\<rparr>)))))))"

definition load_progress :: "peer_sync_store \<Rightarrow> pystr \<Rightarrow> sync_counters option" where
  "load_progress x address = map_of (ps_rows x) address"

definition all_progress :: "peer_sync_store \<Rightarrow> (pystr \<times> sync_counters) list" where
  "all_progress x = tbl_ordered (ps_rows x)"

section \<open>Opening\<close>

text \<open>
  What the constructors do to a database that exists or not: \<^verbatim>\<open>_migrate\<close> creates the tables that are
  missing, which leaves the rows of the others, and checks the version.
\<close>

definition open_utxo_index :: "utxo_index \<Rightarrow> utxo_index result" where
  "open_utxo_index x = rbind (migrate_version (ui_schema_version x)) (\<lambda>v. Inr (x\<lparr>ui_schema_version := v\<rparr>))"

definition open_mempool_store :: "mempool_store \<Rightarrow> mempool_store result" where
  "open_mempool_store x = rbind (migrate_version (ms_schema_version x)) (\<lambda>v. Inr (x\<lparr>ms_schema_version := v\<rparr>))"

definition open_invalid_cache :: "invalid_cache \<Rightarrow> invalid_cache result" where
  "open_invalid_cache x = rbind (migrate_version (ic_schema_version x)) (\<lambda>v. Inr (x\<lparr>ic_schema_version := v\<rparr>))"

definition open_peer_sync_store :: "peer_sync_store \<Rightarrow> peer_sync_store result" where
  "open_peer_sync_store x = rbind (migrate_version (ps_schema_version x)) (\<lambda>v. Inr (x\<lparr>ps_schema_version := v\<rparr>))"

text \<open>What every store promises of opening: it marks a new database, keeps the rows, and refuses foreign versions.\<close>

locale versioned_store =
  fixes open_store :: "'s \<Rightarrow> 's result" and version :: "'s \<Rightarrow> int option" and mark :: "int option \<Rightarrow> 's \<Rightarrow> 's"
  assumes opens: "open_store s = rbind (migrate_version (version s)) (\<lambda>v. Inr (mark v s))"
    and version_mark: "version (mark v s) = v" and mark_version: "mark (version s) s = s"
begin

lemma open_Inr: "open_store s = Inr s' \<longleftrightarrow> version s \<in> {None, Some STORE_SCHEMA_VERSION} \<and> s' = mark (Some STORE_SCHEMA_VERSION) s"
  by (auto simp: opens migrate_version_def split: option.splits if_splits)

lemma reopen: "open_store s = Inr s' \<Longrightarrow> open_store s' = Inr s'"
  using mark_version [of s'] version_mark [of "Some STORE_SCHEMA_VERSION" s] by (auto simp: open_Inr)

lemma open_current: "version s = Some STORE_SCHEMA_VERSION \<Longrightarrow> open_store s = Inr s"
  using mark_version [of s] by (simp add: open_Inr)

lemma open_Inl: "open_store s = Inl e \<longleftrightarrow> (\<exists>n. version s = Some n \<and> n \<noteq> STORE_SCHEMA_VERSION \<and>
    e = StorageError (ascii ''unsupported store schema version: '' @ int_repr n))"
  by (auto simp: opens migrate_version_def split: option.splits if_splits)

end

interpretation fork_database: versioned_store open_fork_store fs_schema_version "\<lambda>v s. s\<lparr>fs_schema_version := v\<rparr>"
  by unfold_locales (simp_all add: open_fork_store_def)

interpretation utxo_database: versioned_store open_utxo_index ui_schema_version "\<lambda>v s. s\<lparr>ui_schema_version := v\<rparr>"
  by unfold_locales (simp_all add: open_utxo_index_def)

interpretation mempool_database: versioned_store open_mempool_store ms_schema_version "\<lambda>v s. s\<lparr>ms_schema_version := v\<rparr>"
  by unfold_locales (simp_all add: open_mempool_store_def)

interpretation invalid_database: versioned_store open_invalid_cache ic_schema_version "\<lambda>v s. s\<lparr>ic_schema_version := v\<rparr>"
  by unfold_locales (simp_all add: open_invalid_cache_def)

interpretation sync_database: versioned_store open_peer_sync_store ps_schema_version "\<lambda>v s. s\<lparr>ps_schema_version := v\<rparr>"
  by unfold_locales (simp_all add: open_peer_sync_store_def)

section \<open>The two caches are upsert stores\<close>

lemma sql_transaction_Inr: "sql_transaction f s = (Inr u, s') \<longleftrightarrow> f s = Inr s'"
  by (auto simp: sql_transaction_def split: sum.splits)

lemma sql_transaction_Inl: "sql_transaction f s = (Inl e, s') \<longleftrightarrow> f s = Inl e \<and> s' = s"
  by (auto simp: sql_transaction_def split: sum.splits)

lemma length_upsert:
  "int (length (tbl_upsert k v t)) = int (length t) + (if map_of t k = None then 1 else 0)"
  by (induction t) (auto simp: tbl_upsert_def)

interpretation invalid_blocks: upsert_store mark_invalid invalid_reason invalid_count "\<lambda>x. dict_ok (ic_rows x)"
proof
  fix x k v u x'
  assume "dict_ok (ic_rows x)" "mark_invalid k v x = (Inr u, x')"
  then show "dict_ok (ic_rows x') \<and> invalid_reason x' = (invalid_reason x)(k \<mapsto> v) \<and>
      invalid_count x' = invalid_count x + (if invalid_reason x k = None then 1 else 0)"
    using length_upsert [of k v "ic_rows x"]
    by (auto simp: mark_invalid_def sql_transaction_Inr sql_text_def dict_ok_upsert invalid_reason_def
        map_of_upsert invalid_count_def split: if_splits)
qed (simp add: mark_invalid_def sql_transaction_Inl)

interpretation peer_sync: upsert_store save_progress load_progress "\<lambda>x. int (length (all_progress x))"
    "\<lambda>x. dict_ok (ps_rows x)"
proof
  fix x k v u x'
  assume "dict_ok (ps_rows x)" "save_progress k v x = (Inr u, x')"
  then show "dict_ok (ps_rows x') \<and> load_progress x' = (load_progress x)(k \<mapsto> v) \<and>
      int (length (all_progress x')) = int (length (all_progress x)) + (if load_progress x k = None then 1 else 0)"
    using length_upsert [of k v "ps_rows x"]
    by (auto simp: save_progress_def sql_transaction_Inr sql_text_def dict_ok_upsert load_progress_def
        map_of_upsert all_progress_def tbl_ordered_def split: if_splits)
qed (simp add: save_progress_def sql_transaction_Inl)

section \<open>Snapshots read back\<close>

definition snapshot_fits :: "utxo_set \<Rightarrow> bool" where
  "snapshot_fits u \<longleftrightarrow> list_all (\<lambda>p. int64_ok (op_index (fst p)) \<and> int64_ok (out_amount (snd p))) u"

lemma insert_utxo_ok:
  "int64_ok (op_index (utxo_outpoint e)) \<Longrightarrow> int64_ok (out_amount (utxo_output e)) \<Longrightarrow>
   insert_utxo key e t = tbl_insert (key (utxo_outpoint e)) (utxo_output e) t"
  by (cases "utxo_output e") (simp add: insert_utxo_def sql_int_def int64_ok_def)

lemma insert_utxos:
  assumes "\<And>e. e \<in> set es \<Longrightarrow> int64_ok (op_index (utxo_outpoint e)) \<and> int64_ok (out_amount (utxo_output e))"
  shows "rfold (insert_utxo key) es t =
    tbl_insert_many (map (\<lambda>e. (key (utxo_outpoint e), utxo_output e)) es) t"
  using assms
  by (induction es arbitrary: t) (auto simp: tbl_insert_many_def insert_utxo_ok intro!: rbind_cong)

lemma entry_fits:
  "snapshot_fits u \<Longrightarrow> e \<in> set (utxo_entries u) \<Longrightarrow>
   int64_ok (op_index (utxo_outpoint e)) \<and> int64_ok (out_amount (utxo_output e))"
  by (auto simp: snapshot_fits_def set_utxo_entries list_all_iff)

lemma write_tip_snapshot_total:
  assumes "dict_ok u" and "snapshot_fits u" and "dict_ok t"
  shows "write_tip_snapshot tip u t = Inr (tbl_delete_where (\<lambda>k. fst k = tip) t @
    map (\<lambda>e. ((tip, utxo_outpoint e), utxo_output e)) (utxo_entries u))"
proof -
  let ?t = "tbl_delete_where (\<lambda>k. fst k = tip) t"
    and ?new = "map (\<lambda>e. ((tip, utxo_outpoint e), utxo_output e)) (utxo_entries u)"
  have "distinct (map (Pair tip) (map utxo_outpoint (utxo_entries u)))"
    using distinct_utxo_entries [OF assms(1)] by (simp add: distinct_map inj_on_def)
  then have "dict_ok ?new" by (simp add: comp_def)
  moreover have "fst ` set ?t \<inter> fst ` set ?new = {}" by (auto simp: tbl_delete_where_def)
  ultimately have "dict_ok (?t @ ?new)"
    using dict_ok_delete_where [OF assms(3)] by (simp only: map_append distinct_append set_map)
  then have "tbl_insert_many ?new ?t = Inr (?t @ ?new)"
    using tbl_insert_many_Inr [OF dict_ok_delete_where [OF assms(3)]] by blast
  then show ?thesis
    using insert_utxos [of "utxo_entries u" "Pair tip" ?t] entry_fits [OF assms(2)]
    by (simp add: write_tip_snapshot_def)
qed

lemma tip_rows_append: "tip_rows tip (filter (\<lambda>p. fst (fst p) \<noteq> tip) t @ map (\<lambda>(o1, v). ((tip, o1), v)) rows) =
   sort_key fst rows"
proof -
  have f: "filter (\<lambda>p. fst (fst p) = tip) (filter (\<lambda>p. fst (fst p) \<noteq> tip) t) = []"
    by (simp add: filter_empty_conv)
  have g: "filter (\<lambda>p. fst (fst p) = tip) (map (\<lambda>(o1, v). ((tip, o1), v)) rows) =
      map (\<lambda>(o1, v). ((tip, o1), v)) rows"
    by (induction rows) auto
  have "sort_key (\<lambda>p. snd (fst p)) (map (\<lambda>(o1, v). ((tip, o1), v)) rows) =
      map (\<lambda>(o1, v). ((tip, o1), v)) (sort_key fst rows)"
  proof -
    have "insort_key (\<lambda>p. snd (fst p)) ((tip, fst x), snd x) (map (\<lambda>(o1, v). ((tip, o1), v)) ys) =
      map (\<lambda>(o1, v). ((tip, o1), v)) (insort_key fst x ys)" for x ys
      by (induction ys) (auto simp: case_prod_unfold)
    note ins = this
    show ?thesis
    proof (induction rows)
      case (Cons x rows)
      then show ?case using ins [of x "sort_key fst rows"] by (simp add: case_prod_unfold)
    qed simp
  qed
  with f g show ?thesis by (simp add: tip_rows_def comp_def case_prod_unfold)
qed

text \<open>A snapshot that was saved reads back as the same set, and no other tip is disturbed.\<close>

lemma utxo_new_entries:
  assumes "dict_ok rows"
  shows "utxo_new (map as_utxo rows) = Inr rows"
  using utxo_copy_id [OF assms] by (simp add: utxo_copy_def as_utxo_def [abs_def] case_prod_unfold)

definition sorted_utxos :: "utxo_set \<Rightarrow> utxo_set" where
  "sorted_utxos u = map (\<lambda>e. (utxo_outpoint e, utxo_output e)) (utxo_entries u)"

lemma sorted_utxos_sort: "sorted_utxos u = sort_key (\<lambda>p. (op_txid (fst p), op_index (fst p))) u"
  by (simp add: sorted_utxos_def utxo_entries_def comp_def case_prod_unfold)

lemma sorted_utxos_props:
  assumes "dict_ok u"
  shows "dict_ok (sorted_utxos u)" and "set (sorted_utxos u) = set u" and "map_of (sorted_utxos u) = map_of u"
    and "sorted_utxos u = [] \<longleftrightarrow> u = []" and "sort_key fst (sorted_utxos u) = sorted_utxos u"
proof -
  show d: "dict_ok (sorted_utxos u)"
    using distinct_utxo_entries [OF assms] by (simp add: sorted_utxos_def comp_def)
  show st: "set (sorted_utxos u) = set u" by (simp add: sorted_utxos_sort)
  show "map_of (sorted_utxos u) = map_of u"
    using map_of_inject_set [OF d assms] st by simp
  show "sorted_utxos u = [] \<longleftrightarrow> u = []" using st by (metis set_empty)
  have "sorted (map fst (sorted_utxos u))"
    using sorted_utxo_entries [of u] by (simp add: sorted_utxos_def comp_def)
  then show "sort_key fst (sorted_utxos u) = sorted_utxos u" by (rule sort_key_id_if_sorted)
qed

lemma load_after_save_tip_snapshot:
  assumes "dict_ok u" and "snapshot_fits u" and "dict_ok (ui_snapshots x)" and "u \<noteq> []"
    and "save_tip_snapshot tip u x = (r, x')"
  shows "r = Inr ()" and "load_tip_snapshot x' tip = Inr (Some (sorted_utxos u))"
    and "tip' \<noteq> tip \<Longrightarrow> load_tip_snapshot x' tip' = load_tip_snapshot x tip'"
    and "dict_ok (ui_snapshots x')"
proof -
  let ?new = "map (\<lambda>e. ((tip, utxo_outpoint e), utxo_output e)) (utxo_entries u)"
  let ?t = "tbl_delete_where (\<lambda>k. fst k = tip) (ui_snapshots x)"
  have w: "write_tip_snapshot tip u (ui_snapshots x) = Inr (?t @ ?new)"
    by (rule write_tip_snapshot_total [OF assms(1-3)])
  then have x': "x' = x\<lparr>ui_snapshots := ?t @ ?new\<rparr>" and r: "r = Inr ()"
    using assms(5) by (auto simp: save_tip_snapshot_def sql_transaction_def)
  show "r = Inr ()" by (fact r)
  have new: "?new = map (\<lambda>(o1, v). ((tip, o1), v)) (sorted_utxos u)"
    by (simp add: sorted_utxos_def)
  have "tip_rows tip (ui_snapshots x') = sorted_utxos u"
    using tip_rows_append [of tip "ui_snapshots x" "sorted_utxos u"] sorted_utxos_props(5) [OF assms(1)]
    by (simp add: x' new tbl_delete_where_def)
  with sorted_utxos_props [OF assms(1)] assms(4) show "load_tip_snapshot x' tip = Inr (Some (sorted_utxos u))"
    by (simp add: load_tip_snapshot_def Let_def utxo_new_entries)
  show "load_tip_snapshot x' tip' = load_tip_snapshot x tip'" if "tip' \<noteq> tip"
  proof -
    have "filter (\<lambda>p. fst (fst p) = tip') (?t @ ?new) = filter (\<lambda>p. fst (fst p) = tip') (ui_snapshots x)"
      using that by (auto simp: tbl_delete_where_def filter_empty_conv intro!: filter_cong)
    then show ?thesis by (simp add: load_tip_snapshot_def tip_rows_def x')
  qed
  have "dict_ok ?t" by (rule dict_ok_delete_where [OF assms(3)])
  moreover have "dict_ok ?new"
    using distinct_utxo_entries [OF assms(1)]
    by (simp add: comp_def distinct_map inj_on_def)
  ultimately show "dict_ok (ui_snapshots x')" by (auto simp: x' tbl_delete_where_def comp_def)
qed

section \<open>The mempool store reads back\<close>

lemma decode_encode_transaction:
  "tx_ok True tx \<Longrightarrow> encode_transaction tx = Inr d \<Longrightarrow> decode_transaction d = Inr tx"
  by (auto simp: encode_transaction_def decode_transaction_def tx_from_bytes_def full_tx.all_dec_enc)

lemma mempool_row_Inr:
  "mempool_row C tx = Inr p \<longleftrightarrow> txid C tx = Inr (fst p) \<and> encode_transaction tx = Inr (snd p)"
  by (cases p) (auto simp: mempool_row_def)

lemma ms_replace_all_Inr:
  "ms_replace_all C txs x = (Inr u, x') \<longleftrightarrow>
     (\<exists>rows. rmap (mempool_row C) txs = Inr rows \<and> dict_ok rows \<and> x' = x\<lparr>ms_rows := rows\<rparr>)"
  using tbl_insert_many_Inr [of "[]"]
  by (auto simp: ms_replace_all_def sql_transaction_Inr)

text \<open>Reading back sorts by identifier: the set of transactions survives, their order does not.\<close>

lemma rmap_rows_decode:
  assumes "rmap (mempool_row C) txs = Inr rows" and "list_all (tx_ok True) txs"
  shows "rmap (\<lambda>p. decode_transaction (snd p)) rows = Inr txs"
  using assms
  by (induction txs arbitrary: rows) (auto simp: mempool_row_Inr decode_encode_transaction)

lemma rmap_permute:
  assumes "rmap f xs = Inr ys" and "mset xs' = mset xs"
  shows "\<exists>ys'. rmap f xs' = Inr ys' \<and> mset ys' = mset ys"
proof -
  have f: "f x = Inr (projr (f x))" if "x \<in> set xs'" for x
  proof -
    have "x \<in> set xs" using that assms(2) by (metis set_mset_mset)
    with assms(1) obtain y where "f x = Inr y"
      by (auto simp: rmap_eq_Inr list_all2_conv_all_nth in_set_conv_nth)
    then show ?thesis by simp
  qed
  have "rmap f xs = Inr (map (\<lambda>x. projr (f x)) xs)"
    by (rule rmap_total) (use f assms(2) in \<open>metis set_mset_mset\<close>)
  with assms have "mset (map (\<lambda>x. projr (f x)) xs') = mset ys" by (metis mset_map sum.inject(2))
  with rmap_total [of xs' f "\<lambda>x. projr (f x)"] f show ?thesis by blast
qed

lemma ms_transactions_replace_all:
  assumes "ms_replace_all C txs x = (Inr u, x')" and "list_all (tx_ok True) txs"
  shows "\<exists>txs'. ms_transactions x' = Inr txs' \<and> mset txs' = mset txs \<and> ms_count x' = int (length txs)"
proof -
  from assms(1) obtain rows where rows: "rmap (mempool_row C) txs = Inr rows" "x' = x\<lparr>ms_rows := rows\<rparr>"
    by (auto simp: ms_replace_all_Inr)
  have "mset (tbl_ordered rows) = mset rows" by (simp add: tbl_ordered_def)
  from rmap_permute [OF rmap_rows_decode [OF rows(1) assms(2)] this] rmap_length [OF rows(1)] rows(2)
  show ?thesis by (auto simp: ms_transactions_def ms_count_def)
qed

end
