(* ===== verification/Mempool_Policy.thy ===== *)
theory Mempool_Policy
  imports Transaction
begin

text \<open>
  \<^verbatim>\<open>MempoolPolicy\<close> of \<^verbatim>\<open>utxo_node.py\<close>: the local admission limits and fee arithmetic.
\<close>

abbreviation policy_error :: "string \<Rightarrow> 'a result" where
  "policy_error s \<equiv> Inl (MempoolPolicyError (ascii s))"

record mempool_policy =
  max_transactions :: int
  max_transaction_bytes :: int
  max_inputs :: int
  max_outputs :: int
  min_relay_fee :: int
  min_relay_fee_rate :: int
  dynamic_fee_rate_step :: int
  allow_replacement :: bool
  replacement_fee_bump :: int
  allow_eviction :: bool
  eviction_fee_rate_bump :: int

definition default_policy :: mempool_policy where
  "default_policy = \<lparr>max_transactions = 5000, max_transaction_bytes = 100000, max_inputs = 128,
     max_outputs = 128, min_relay_fee = 0, min_relay_fee_rate = 0, dynamic_fee_rate_step = 0,
     allow_replacement = True, replacement_fee_bump = 1, allow_eviction = True,
     eviction_fee_rate_bump = 1\<rparr>"

definition new_policy :: "mempool_policy \<Rightarrow> mempool_policy result" where
  "new_policy p =
     (if max_transactions p \<le> 0 then policy_error ''max mempool transactions must be positive''
      else if max_transaction_bytes p \<le> 0 then policy_error ''max transaction bytes must be positive''
      else if max_inputs p \<le> 0 then policy_error ''max transaction inputs must be positive''
      else if max_outputs p \<le> 0 then policy_error ''max transaction outputs must be positive''
      else if min_relay_fee p < 0 then policy_error ''minimum relay fee cannot be negative''
      else if min_relay_fee_rate p < 0 then policy_error ''minimum relay fee rate cannot be negative''
      else if dynamic_fee_rate_step p < 0 then policy_error ''dynamic fee rate step cannot be negative''
      else if replacement_fee_bump p < 0 then policy_error ''replacement fee bump cannot be negative''
      else if eviction_fee_rate_bump p < 0 then policy_error ''eviction fee rate bump cannot be negative''
      else Inr p)"

definition serialized_size :: "consensus_transaction \<Rightarrow> int result" where
  "serialized_size tx = rbind (tx_to_bytes True tx) (\<lambda>b. Inr (int (length b)))"

definition effective_min_relay_fee_rate :: "mempool_policy \<Rightarrow> int \<Rightarrow> int result" where
  "effective_min_relay_fee_rate p current_count =
     (if current_count < 0 then policy_error ''mempool transaction count cannot be negative''
      else Inr (min_relay_fee_rate p + current_count * dynamic_fee_rate_step p))"

definition minimum_fee :: "mempool_policy \<Rightarrow> int \<Rightarrow> int \<Rightarrow> int result" where
  "minimum_fee p transaction_bytes current_count =
     (if transaction_bytes < 0 then policy_error ''transaction byte size cannot be negative''
      else rbind (effective_min_relay_fee_rate p current_count) (\<lambda>fee_rate.
        Inr (max (min_relay_fee p) ((transaction_bytes * fee_rate + 999) div 1000))))"

definition fee_rate :: "int \<Rightarrow> int \<Rightarrow> int result" where
  "fee_rate fee transaction_bytes =
     (if fee < 0 then policy_error ''transaction fee cannot be negative''
      else if transaction_bytes \<le> 0 then policy_error ''transaction byte size must be positive''
      else Inr ((fee * 1000) div transaction_bytes))"

definition policy_validate :: "mempool_policy \<Rightarrow> consensus_transaction \<Rightarrow> int \<Rightarrow> int \<Rightarrow> unit result" where
  "policy_validate p tx fee current_count =
     (if current_count \<ge> max_transactions p then policy_error ''mempool transaction limit reached''
      else if int (length (tx_inputs tx)) > max_inputs p
      then policy_error ''transaction has too many inputs for mempool policy''
      else if int (length (tx_outputs tx)) > max_outputs p
      then policy_error ''transaction has too many outputs for mempool policy''
      else rbind (serialized_size tx) (\<lambda>size.
        if size > max_transaction_bytes p then policy_error ''transaction exceeds mempool size policy''
        else rbind (minimum_fee p size current_count) (\<lambda>m.
          if fee < m then policy_error ''transaction fee is below mempool relay minimum'' else Inr ())))"

section \<open>Fee arithmetic\<close>

lemma ceil_div_le: "(x + 999) div 1000 \<le> f \<longleftrightarrow> x \<le> 1000 * f" for x f :: int
proof -
  have "x + 999 = 1000 * ((x + 999) div 1000) + (x + 999) mod 1000" by simp
  moreover have "0 \<le> (x + 999) mod 1000" "(x + 999) mod 1000 < 1000" by simp_all
  ultimately show ?thesis by linarith
qed

text \<open>The rounded minimum is exactly the smallest fee that meets both limits, with no rounding slack.\<close>

lemma minimum_fee_meets:
  assumes "minimum_fee p sz count = Inr m"
  shows "m \<le> fee \<longleftrightarrow> min_relay_fee p \<le> fee \<and>
    sz * (min_relay_fee_rate p + count * dynamic_fee_rate_step p) \<le> 1000 * fee"
  using assms
  by (auto simp: minimum_fee_def effective_min_relay_fee_rate_def ceil_div_le split: if_splits)

lemma minimum_fee_mono:
  assumes "minimum_fee p sz count = Inr m" and "minimum_fee p sz' count' = Inr m'"
    and "sz \<le> sz'" and "count \<le> count'" and "new_policy p = Inr p"
  shows "m \<le> m'"
proof -
  have nn: "0 \<le> min_relay_fee_rate p" "0 \<le> dynamic_fee_rate_step p"
    using assms(5) by (auto simp: new_policy_def split: if_splits)
  have c: "0 \<le> count" "0 \<le> sz" using assms(1)
    by (auto simp: minimum_fee_def effective_min_relay_fee_rate_def split: if_splits)
  have "min_relay_fee_rate p + count * dynamic_fee_rate_step p \<le> min_relay_fee_rate p + count' * dynamic_fee_rate_step p"
    using assms(4) nn by (simp add: mult_right_mono)
  moreover have "0 \<le> min_relay_fee_rate p + count * dynamic_fee_rate_step p" using c nn by simp
  ultimately have "sz * (min_relay_fee_rate p + count * dynamic_fee_rate_step p) \<le>
      sz' * (min_relay_fee_rate p + count' * dynamic_fee_rate_step p)"
    using assms(3) c by (meson mult_mono order_trans)
  with minimum_fee_meets [OF assms(1), of m'] minimum_fee_meets [OF assms(2), of m'] show ?thesis by simp
qed

lemma policy_validate_Inr:
  "policy_validate p tx fee count = Inr u \<longleftrightarrow>
     count < max_transactions p \<and> int (length (tx_inputs tx)) \<le> max_inputs p \<and>
     int (length (tx_outputs tx)) \<le> max_outputs p \<and>
     (\<exists>b m. tx_to_bytes True tx = Inr b \<and> int (length b) \<le> max_transaction_bytes p \<and>
        minimum_fee p (int (length b)) count = Inr m \<and> m \<le> fee)"
proof (cases "tx_to_bytes True tx")
  case (Inl e)
  then show ?thesis by (simp add: policy_validate_def serialized_size_def)
next
  case (Inr b)
  then show ?thesis
    by (cases "minimum_fee p (int (length b)) count")
       (auto simp: policy_validate_def serialized_size_def simp del: rbind_eq_Inr)
qed

end
