(* ===== verification/Node.thy ===== *)
theory Node
  imports Fork_Choice Index_Stores Mempool_Policy
begin

text \<open>
  \<^verbatim>\<open>ConsensusNode\<close> of \<^verbatim>\<open>utxo_node.py\<close>: mempool admission with replacement and eviction, pruning,
  queries, transaction and block construction, mining, import with fork choice, creation and
  reopening. Methods are \<open>op\<close>s on the node, so that the part of a method that ran before an
  exception is visible. The wall clock read by \<^verbatim>\<open>time.time()\<close> is the argument \<open>now\<close>, the bits of
  a double.
\<close>

abbreviation node_error :: "string \<Rightarrow> 'a result" where
  "node_error s \<equiv> Inl (ConsensusNodeError (ascii s))"

section \<open>State\<close>

record reorg_event =
  re_old_tip :: pystr
  re_new_tip :: pystr
  re_old_height :: int
  re_new_height :: int

record consensus_node =
  nd_store :: fork_store
  nd_state :: consensus_state
  nd_difficulty :: int
  nd_mempool_store :: "mempool_store option"
  nd_invalid_blocks :: "invalid_cache option"
  nd_policy :: mempool_policy
  nd_last_reorg :: "reorg_event option"
  nd_mempool :: "consensus_transaction list"
  nd_fork_choice :: fork_choice
  nd_utxo_index :: "utxo_index option"

section \<open>Candidate states\<close>

definition copy_state :: "consensus_state \<Rightarrow> consensus_state result" where
  "copy_state st =
     rbind (utxo_copy (cs_utxos st)) (\<lambda>u. new_state (Some u) (cs_block_subsidy st) (cs_max_money st))"

definition candidate_after :: "crypto \<Rightarrow> consensus_state \<Rightarrow> consensus_transaction list \<Rightarrow> consensus_state result" where
  "candidate_after C st txs =
     rbind (copy_state st) (\<lambda>c.
       case apply_transactions C txs 0 c of (Inl e, _) \<Rightarrow> Inl e | (Inr _, c') \<Rightarrow> Inr c')"

section \<open>Mempool admission\<close>

record replacement_context =
  rc_remaining :: "consensus_transaction list"
  rc_replaced :: "consensus_transaction list"
  rc_replaced_fee :: int

definition input_outpoints :: "consensus_transaction \<Rightarrow> outpoint list" where
  "input_outpoints tx = map in_previous_output (tx_inputs tx)"

definition conflicts :: "consensus_transaction \<Rightarrow> consensus_transaction \<Rightarrow> bool" where
  "conflicts tx existing \<longleftrightarrow> list_ex (\<lambda>o1. o1 \<in> set (input_outpoints existing)) (input_outpoints tx)"

definition make_replacement_context ::
  "crypto \<Rightarrow> consensus_node \<Rightarrow> consensus_transaction \<Rightarrow> replacement_context result" where
  "make_replacement_context C n tx =
     (let replaced = filter (conflicts tx) (nd_mempool n) in
      if replaced = []
      then Inr \<lparr>rc_remaining = nd_mempool n, rc_replaced = [], rc_replaced_fee = 0\<rparr>
      else if \<not> allow_replacement (nd_policy n) then policy_error ''transaction conflicts with mempool policy''
      else
        rbind (rmap (txid C) replaced) (\<lambda>replaced_txids.
        rbind (rfilter (\<lambda>t. rbind (txid C t) (\<lambda>i. Inr (i \<notin> set replaced_txids))) (nd_mempool n)) (\<lambda>remaining.
        rbind (candidate_after C (nd_state n) remaining) (\<lambda>candidate.
        case apply_transactions C replaced 0 candidate of
          (Inl e, _) \<Rightarrow> Inl e
        | (Inr fee, _) \<Rightarrow>
            Inr \<lparr>rc_remaining = remaining, rc_replaced = replaced, rc_replaced_fee = fee\<rparr>))))"

definition validate_replacement_fee :: "mempool_policy \<Rightarrow> int \<Rightarrow> int \<Rightarrow> unit result" where
  "validate_replacement_fee p fee replaced_fee =
     (if fee < replaced_fee + replacement_fee_bump p
      then policy_error ''replacement fee is below mempool replacement minimum'' else Inr ())"

definition transaction_policy_score :: "crypto \<Rightarrow> consensus_transaction \<Rightarrow> int \<Rightarrow> (int \<times> int \<times> pystr) result" where
  "transaction_policy_score C tx fee =
     rbind (serialized_size tx) (\<lambda>sz.
     rbind (fee_rate fee sz) (\<lambda>rate.
     rbind (txid C tx) (\<lambda>t. Inr (rate, fee, t))))"

primrec collect_fees ::
  "crypto \<Rightarrow> consensus_transaction list \<Rightarrow> (pystr, int) dict \<Rightarrow> consensus_state \<Rightarrow> (pystr, int) dict result" where
  "collect_fees C [] fees c = Inr fees"
| "collect_fees C (tx # txs) fees c =
     (case apply_transaction C tx c of
        (Inl e, _) \<Rightarrow> Inl e
      | (Inr fee, c') \<Rightarrow> rbind (txid C tx) (\<lambda>t. collect_fees C txs (AList.update t fee fees) c'))"

definition transaction_fees ::
  "crypto \<Rightarrow> consensus_state \<Rightarrow> consensus_transaction list \<Rightarrow> (pystr, int) dict result" where
  "transaction_fees C st txs = rbind (copy_state st) (collect_fees C txs [])"

text \<open>
  One round of the eviction search: the entry at \<open>index\<close> is considered as the victim. The locals
  \<^verbatim>\<open>best_remaining\<close>, \<^verbatim>\<open>best_fee\<close> and \<^verbatim>\<open>best_score\<close> are set together.
\<close>

type_synonym eviction_best = "(consensus_transaction list \<times> int \<times> (int \<times> int \<times> pystr)) option"

definition evict_round ::
  "crypto \<Rightarrow> consensus_state \<Rightarrow> consensus_transaction \<Rightarrow> consensus_transaction list \<Rightarrow> (pystr, int) dict \<Rightarrow>
   nat \<times> consensus_transaction \<Rightarrow> eviction_best \<Rightarrow> eviction_best result" where
  "evict_round C st tx remaining fees p best =
     rbind (txid C (snd p)) (\<lambda>t.
     rbind (case map_of fees t of None \<Rightarrow> Inl KeyError | Some f \<Rightarrow> Inr f) (\<lambda>existing_fee.
     rbind (transaction_policy_score C (snd p) existing_fee) (\<lambda>score.
     let candidate_remaining = take (fst p) remaining @ drop (fst p + 1) remaining in
     case candidate_after C st candidate_remaining of
       Inl e \<Rightarrow> Inr best
     | Inr candidate \<Rightarrow>
         (case apply_transaction C tx candidate of
            (Inl e, _) \<Rightarrow> Inr best
          | (Inr candidate_fee, _) \<Rightarrow>
              (case best of
                 None \<Rightarrow> Inr (Some (candidate_remaining, candidate_fee, score))
               | Some (_, _, best_score) \<Rightarrow>
                   Inr (if score < best_score then Some (candidate_remaining, candidate_fee, score)
                        else best))))))"

definition evict_for_policy ::
  "crypto \<Rightarrow> consensus_node \<Rightarrow> consensus_transaction \<Rightarrow> consensus_transaction list \<Rightarrow> int \<Rightarrow>
   (consensus_transaction list \<times> int) result" where
  "evict_for_policy C n tx remaining fee =
     (if int (length remaining) < max_transactions (nd_policy n) then Inr (remaining, fee)
      else if \<not> allow_eviction (nd_policy n) then Inr (remaining, fee)
      else
        rbind (transaction_policy_score C tx fee) (\<lambda>new_score.
        rbind (transaction_fees C (nd_state n) remaining) (\<lambda>fees.
        rbind (rfold (evict_round C (nd_state n) tx remaining fees) (List.enumerate 0 remaining) None) (\<lambda>best.
        case best of
          None \<Rightarrow> Inr (remaining, fee)
        | Some (best_remaining, best_fee, best_score) \<Rightarrow>
            if fst new_score < fst best_score + eviction_fee_rate_bump (nd_policy n)
            then policy_error ''transaction fee rate is below mempool eviction minimum''
            else Inr (best_remaining, best_fee)))))"

definition persist_mempool :: "crypto \<Rightarrow> (consensus_node, unit) op" where
  "persist_mempool C n =
     (case nd_mempool_store n of
        None \<Rightarrow> (Inr (), n)
      | Some ms \<Rightarrow>
          (case ms_replace_all C (nd_mempool n) ms of (r, ms') \<Rightarrow> (r, n\<lparr>nd_mempool_store := Some ms'\<rparr>)))"

definition admit :: "crypto \<Rightarrow> consensus_node \<Rightarrow> consensus_transaction \<Rightarrow> (pystr \<times> consensus_transaction list) result" where
  "admit C n tx =
     rbind (txid C tx) (\<lambda>t.
     if is_coinbase tx then policy_error ''coinbase transactions cannot enter the mempool''
     else
       rbind (rany (\<lambda>existing. rbind (txid C existing) (\<lambda>i. Inr (i = t))) (nd_mempool n)) (\<lambda>known.
       if known then policy_error ''transaction already in mempool''
       else
         rbind (make_replacement_context C n tx) (\<lambda>replacement.
         rbind (candidate_after C (nd_state n) (rc_remaining replacement)) (\<lambda>candidate.
         rbind (fst (apply_transaction C tx candidate)) (\<lambda>fee.
         rbind (if rc_replaced replacement \<noteq> []
                then validate_replacement_fee (nd_policy n) fee (rc_replaced_fee replacement) else Inr ()) (\<lambda>_.
         rbind (if rc_replaced replacement = []
                then evict_for_policy C n tx (rc_remaining replacement) fee
                else Inr (rc_remaining replacement, fee)) (\<lambda>(remaining, fee').
         rbind (policy_validate (nd_policy n) tx fee' (int (length remaining))) (\<lambda>_.
           Inr (t, remaining @ [tx])))))))))"

definition submit_transaction :: "crypto \<Rightarrow> consensus_transaction \<Rightarrow> (consensus_node, pystr) op" where
  "submit_transaction C tx =
     obind (oeval (\<lambda>n. admit C n tx)) (\<lambda>(t, mempool).
     obind (omodify (nd_mempool_update (\<lambda>_. mempool))) (\<lambda>_.
     obind (persist_mempool C) (\<lambda>_. oreturn t)))"

section \<open>Pruning and inspection\<close>

primrec prune_loop ::
  "crypto \<Rightarrow> mempool_policy \<Rightarrow> consensus_transaction list \<Rightarrow> consensus_transaction list \<Rightarrow> consensus_state \<Rightarrow>
   consensus_transaction list" where
  "prune_loop C p [] valid c = valid"
| "prune_loop C p (tx # txs) valid c =
     (case apply_transaction C tx c of
        (Inl e, c') \<Rightarrow> prune_loop C p txs valid c'
      | (Inr fee, c') \<Rightarrow>
          (case policy_validate p tx fee (int (length valid)) of
             Inl e \<Rightarrow> prune_loop C p txs valid c'
           | Inr _ \<Rightarrow> prune_loop C p txs (valid @ [tx]) c'))"

definition prune_invalid_mempool :: "crypto \<Rightarrow> (consensus_node, unit) op" where
  "prune_invalid_mempool C =
     obind (oeval (\<lambda>n. copy_state (nd_state n))) (\<lambda>c.
       omodify (\<lambda>n. n\<lparr>nd_mempool := prune_loop C (nd_policy n) (nd_mempool n) [] c\<rparr>))"

definition prune_mempool :: "crypto \<Rightarrow> (consensus_node, int) op" where
  "prune_mempool C =
     obind (oeval (\<lambda>n. Inr (int (length (nd_mempool n))))) (\<lambda>original_count.
     obind (prune_invalid_mempool C) (\<lambda>_.
     obind (persist_mempool C) (\<lambda>_.
       oeval (\<lambda>n. Inr (original_count - int (length (nd_mempool n)))))))"

definition clear_mempool :: "crypto \<Rightarrow> (consensus_node, int) op" where
  "clear_mempool C =
     obind (oeval (\<lambda>n. Inr (int (length (nd_mempool n))))) (\<lambda>removed.
     obind (omodify (\<lambda>n. n\<lparr>nd_mempool := []\<rparr>)) (\<lambda>_.
     obind (persist_mempool C) (\<lambda>_. oreturn removed)))"

record mempool_entry =
  me_txid :: pystr
  me_inputs :: int
  me_outputs :: int
  me_output_value :: int
  me_fee :: "int option"
  me_fee_rate :: "int option"
  me_bytes :: int
  me_valid :: bool

primrec summary_loop :: "crypto \<Rightarrow> consensus_transaction list \<Rightarrow> consensus_state \<Rightarrow> mempool_entry list result" where
  "summary_loop C [] c = Inr []"
| "summary_loop C (tx # txs) c =
     rbind (serialized_size tx) (\<lambda>sz.
     let (r, c') = apply_transaction C tx c;
         rates = rbind r (\<lambda>fee. rbind (fee_rate fee sz) (\<lambda>rate. Inr (fee, rate)))
     in rbind (txid C tx) (\<lambda>t.
        rbind (summary_loop C txs c') (\<lambda>rest.
          Inr (\<lparr>me_txid = t, me_inputs = int (length (tx_inputs tx)),
                me_outputs = int (length (tx_outputs tx)), me_output_value = output_total tx,
                me_fee = (case rates of Inl e \<Rightarrow> None | Inr (fee, rate) \<Rightarrow> Some fee),
                me_fee_rate = (case rates of Inl e \<Rightarrow> None | Inr (fee, rate) \<Rightarrow> Some rate),
                me_bytes = sz, me_valid = (case rates of Inl e \<Rightarrow> False | Inr _ \<Rightarrow> True)\<rparr> # rest))))"

definition mempool_summary :: "crypto \<Rightarrow> consensus_node \<Rightarrow> mempool_entry list result" where
  "mempool_summary C n = rbind (copy_state (nd_state n)) (summary_loop C (nd_mempool n))"

section \<open>Queries\<close>

definition tip_hash :: "crypto \<Rightarrow> consensus_node \<Rightarrow> pystr result" where
  "tip_hash C n =
     rbind (best_tip C (nd_store n)) (\<lambda>tip.
       case tip of None \<Rightarrow> Inr ZERO_HASH | Some sb \<Rightarrow> block_hash C (sb_block sb))"

definition node_height :: "crypto \<Rightarrow> consensus_node \<Rightarrow> int result" where
  "node_height C n =
     rbind (best_tip C (nd_store n)) (\<lambda>tip.
       Inr (case tip of None \<Rightarrow> - 1 | Some sb \<Rightarrow> blk_height (sb_block sb)))"

definition spendable_outputs :: "consensus_node \<Rightarrow> pystr \<Rightarrow> utxo list" where
  "spendable_outputs n address = utxo_entries_for_address address (cs_utxos (nd_state n))"

record spendable_summary_row =
  ss_address :: pystr
  ss_balance :: int
  ss_count :: int
  ss_utxos :: "utxo list"

definition spendable_summary :: "consensus_node \<Rightarrow> pystr \<Rightarrow> spendable_summary_row result" where
  "spendable_summary n address =
     (if \<not> is_valid_address address then node_error ''address is invalid''
      else let entries = spendable_outputs n address in
        Inr \<lparr>ss_address = address, ss_balance = sum_list (map (\<lambda>e. out_amount (utxo_output e)) entries),
             ss_count = int (length entries), ss_utxos = entries\<rparr>)"

record block_summary_row =
  bs_hash :: pystr
  bs_block :: consensus_block
  bs_transactions :: "pystr list"
  bs_transaction_count :: int
  bs_cumulative_work :: int
  bs_active :: bool

definition summary_of :: "crypto \<Rightarrow> pystr list \<Rightarrow> consensus_block \<Rightarrow> stored_block \<Rightarrow> block_summary_row result" where
  "summary_of C active_hashes b stored =
     rbind (block_hash C b) (\<lambda>h.
     rbind (rmap (txid C) (blk_transactions b)) (\<lambda>txids.
       Inr \<lparr>bs_hash = h, bs_block = b, bs_transactions = txids,
            bs_transaction_count = int (length (blk_transactions b)),
            bs_cumulative_work = sb_cumulative_work stored, bs_active = h \<in> set active_hashes\<rparr>))"

definition block_summary :: "crypto \<Rightarrow> consensus_node \<Rightarrow> pystr option \<Rightarrow> int option \<Rightarrow> block_summary_row result" where
  "block_summary C n hash_arg height_arg =
     (if (hash_arg = None) = (height_arg = None)
      then node_error ''provide exactly one of block_hash or height''
      else
        rbind (fc_active_chain C (nd_fork_choice n) (nd_store n)) (\<lambda>active.
        rbind (rmap (block_hash C) (ac_blocks active)) (\<lambda>active_hashes.
        case height_arg of
          Some height \<Rightarrow>
            if height < 0 then node_error ''height cannot be negative''
            else if nat height \<ge> length (ac_blocks active)
            then Inl (ConsensusNodeError (ascii ''unknown active-chain block height: '' @ int_repr height))
            else
              (let b = ac_blocks active ! nat height in
               rbind (block_hash C b) (\<lambda>h.
               rbind (get_block C (nd_store n) h) (\<lambda>stored. summary_of C active_hashes b stored)))
        | None \<Rightarrow>
            (case get_block C (nd_store n) (the hash_arg) of
               Inl (StorageError m) \<Rightarrow> Inl (ConsensusNodeError (ascii ''unknown block: '' @ the hash_arg))
             | Inl e \<Rightarrow> Inl e
             | Inr stored \<Rightarrow> summary_of C active_hashes (sb_block stored) stored))))"

record transaction_summary_row =
  ts_transaction :: consensus_transaction
  ts_confirmed :: bool
  ts_location :: "(pystr \<times> int) option"

text \<open>The search through the active blocks, then through the mempool.\<close>

primrec find_in_block ::
  "crypto \<Rightarrow> pystr \<Rightarrow> consensus_block \<Rightarrow> consensus_transaction list \<Rightarrow> transaction_summary_row option result" where
  "find_in_block C t b [] = Inr None"
| "find_in_block C t b (tx # txs) =
     rbind (txid C tx) (\<lambda>i.
       if i = t then rbind (block_hash C b) (\<lambda>h.
         Inr (Some \<lparr>ts_transaction = tx, ts_confirmed = True, ts_location = Some (h, blk_height b)\<rparr>))
       else find_in_block C t b txs)"

primrec find_in_blocks :: "crypto \<Rightarrow> pystr \<Rightarrow> consensus_block list \<Rightarrow> transaction_summary_row option result" where
  "find_in_blocks C t [] = Inr None"
| "find_in_blocks C t (b # bs) =
     rbind (find_in_block C t b (blk_transactions b)) (\<lambda>r.
       case r of Some x \<Rightarrow> Inr (Some x) | None \<Rightarrow> find_in_blocks C t bs)"

primrec find_in_mempool :: "crypto \<Rightarrow> pystr \<Rightarrow> consensus_transaction list \<Rightarrow> transaction_summary_row option result" where
  "find_in_mempool C t [] = Inr None"
| "find_in_mempool C t (tx # txs) =
     rbind (txid C tx) (\<lambda>i.
       if i = t then Inr (Some \<lparr>ts_transaction = tx, ts_confirmed = False, ts_location = None\<rparr>)
       else find_in_mempool C t txs)"

definition transaction_summary :: "crypto \<Rightarrow> consensus_node \<Rightarrow> pystr \<Rightarrow> transaction_summary_row result" where
  "transaction_summary C n t =
     rbind (fc_active_chain C (nd_fork_choice n) (nd_store n)) (\<lambda>active.
     rbind (find_in_blocks C t (ac_blocks active)) (\<lambda>r.
     case r of
       Some x \<Rightarrow> Inr x
     | None \<Rightarrow>
         rbind (find_in_mempool C t (nd_mempool n)) (\<lambda>r.
         case r of
           Some x \<Rightarrow> Inr x
         | None \<Rightarrow> Inl (ConsensusNodeError (ascii ''unknown transaction: '' @ t)))))"

definition active_chain_hashes :: "crypto \<Rightarrow> consensus_node \<Rightarrow> pystr list result" where
  "active_chain_hashes C n =
     rbind (fc_active_chain C (nd_fork_choice n) (nd_store n)) (\<lambda>a. rmap (block_hash C) (ac_blocks a))"

end
