(* ===== verification/Node_Chain.thy ===== *)
theory Node_Chain
  imports Node
begin

text \<open>
  The second half of \<^verbatim>\<open>ConsensusNode\<close>: building and signing transactions, assembling and mining
  blocks, importing blocks with fork choice, and creating and reopening a node.
\<close>

section \<open>Building transactions\<close>

primrec select_utxos :: "int \<Rightarrow> utxo list \<Rightarrow> utxo list \<Rightarrow> int \<Rightarrow> utxo list \<times> int" where
  "select_utxos needed [] selected acc = (selected, acc)"
| "select_utxos needed (e # es) selected acc =
     (let acc' = acc + out_amount (utxo_output e) in
      if acc' \<ge> needed then (selected @ [e], acc') else select_utxos needed es (selected @ [e]) acc')"

definition sign_all :: "crypto \<Rightarrow> wallet \<Rightarrow> consensus_transaction \<Rightarrow> consensus_transaction result" where
  "sign_all C w tx =
     rfold (\<lambda>i tx. sign_input C tx (int i) w) [0..<length (tx_inputs tx)] tx"

definition create_transaction ::
  "crypto \<Rightarrow> consensus_node \<Rightarrow> wallet \<Rightarrow> pystr \<Rightarrow> int \<Rightarrow> int \<Rightarrow> consensus_transaction result" where
  "create_transaction C n w recipient amount fee =
     (if amount \<le> 0 then node_error ''amount must be positive''
      else if fee < 0 then node_error ''fee cannot be negative''
      else if \<not> is_valid_address recipient then node_error ''recipient address is invalid''
      else
        rbind (wallet_address C w) (\<lambda>address.
        let needed = amount + fee;
            (selected, total) = select_utxos needed (spendable_outputs n address) [] 0
        in
          if total < needed then node_error ''insufficient funds''
          else
            let change = total - needed;
                outputs = [\<lparr>out_amount = amount, out_address = recipient\<rparr>] @
                  (if change \<noteq> 0 then [\<lparr>out_amount = change, out_address = address\<rparr>] else [])
            in sign_all C w
                 \<lparr>tx_inputs = map (\<lambda>e. unsigned_input (utxo_outpoint e)) selected,
                  tx_outputs = outputs, tx_version = 1\<rparr>))"

section \<open>Assembling and mining blocks\<close>

text \<open>
  The inner loop of \<^verbatim>\<open>_prioritized_mempool_transactions\<close>: the index and score of the best entry that
  applies on the candidate; entries that do not apply are skipped.
\<close>

definition better_of ::
  "nat \<Rightarrow> int \<times> int \<times> pystr \<Rightarrow> (nat \<times> (int \<times> int \<times> pystr)) option \<Rightarrow> (nat \<times> (int \<times> int \<times> pystr)) option" where
  "better_of i score best =
     (case best of
        None \<Rightarrow> Some (i, score)
      | Some (_, best_score) \<Rightarrow> if score > best_score then Some (i, score) else best)"

primrec best_scan ::
  "crypto \<Rightarrow> consensus_state \<Rightarrow> nat \<Rightarrow> consensus_transaction list \<Rightarrow> (nat \<times> (int \<times> int \<times> pystr)) option \<Rightarrow>
   (nat \<times> (int \<times> int \<times> pystr)) option result" where
  "best_scan C candidate i [] best = Inr best"
| "best_scan C candidate i (tx # txs) best =
     rbind (copy_state candidate) (\<lambda>trial.
     case fst (apply_transaction C tx trial) of
       Inl e \<Rightarrow> best_scan C candidate (i + 1) txs best
     | Inr fee \<Rightarrow>
         rbind (transaction_policy_score C tx fee) (\<lambda>score.
           best_scan C candidate (i + 1) txs (better_of i score best)))"

lemma better_of_cases: "better_of i score best = best \<or> better_of i score best = Some (i, score)"
  by (auto simp: better_of_def split: option.splits)

lemma best_scan_index:
  "best_scan C c i txs best = Inr (Some (k, sc)) \<Longrightarrow>
   (i \<le> k \<and> k < i + length txs) \<or> best = Some (k, sc)"
proof (induction txs arbitrary: i best)
  case Nil
  then show ?case by simp
next
  case (Cons tx txs)
  have "\<exists>best'. best_scan C c (i + 1) txs best' = Inr (Some (k, sc)) \<and>
    (best' = best \<or> (\<exists>score. best' = Some (i, score)))"
  proof (cases "copy_state c")
    case (Inl e)
    with Cons.prems show ?thesis by simp
  next
    case (Inr trial)
    show ?thesis
    proof (cases "fst (apply_transaction C tx trial)")
      case (Inl e)
      with Cons.prems Inr show ?thesis by auto
    next
      case f: (Inr fee)
      with Cons.prems Inr obtain score where
        "best_scan C c (i + 1) txs (better_of i score best) = Inr (Some (k, sc))" by auto
      with better_of_cases [of i score best] show ?thesis by metis
    qed
  qed
  then obtain best' where b: "best_scan C c (i + 1) txs best' = Inr (Some (k, sc))"
    "best' = best \<or> (\<exists>score. best' = Some (i, score))" by blast
  from Cons.IH [OF b(1)] b(2) show ?case by auto
qed

function prioritize ::
  "crypto \<Rightarrow> consensus_transaction list \<Rightarrow> consensus_state \<Rightarrow> consensus_transaction list \<Rightarrow> int \<Rightarrow>
   (consensus_transaction list \<times> int \<times> consensus_state) result" where
  "prioritize C pending candidate selected fees =
     (if pending = [] then Inr (selected, fees, candidate)
      else
        rbind (best_scan C candidate 0 pending None) (\<lambda>best.
        case best of
          None \<Rightarrow> node_error ''mempool contains transactions that cannot be mined''
        | Some (i, _) \<Rightarrow>
            (case apply_transaction C (pending ! i) candidate of
               (Inl e, _) \<Rightarrow> Inl e
             | (Inr fee, candidate') \<Rightarrow>
                 prioritize C (take i pending @ drop (i + 1) pending) candidate'
                   (selected @ [pending ! i]) (fees + fee))))"
  by pat_completeness auto
termination
proof (relation "measure (\<lambda>(C, pending, candidate, selected, fees). length pending)")
  fix C pending candidate selected fees and i :: nat and best x2 sc r st' e fee
  assume "pending \<noteq> []" "best_scan C candidate 0 pending None = Inr best" "best = Some x2" "(i, sc) = x2"
  then have "i < length pending" using best_scan_index [of C candidate 0 pending None i sc] by auto
  then show "((C, take i pending @ drop (i + 1) pending, st', selected @ [pending ! i], fees + fee),
      (C, pending, candidate, selected, fees)) \<in> measure (\<lambda>(C, pending, candidate, selected, fees). length pending)"
    by simp
qed simp

declare prioritize.simps [simp del]

definition build_candidate_block :: "crypto \<Rightarrow> consensus_node \<Rightarrow> pystr \<Rightarrow> 64 word \<Rightarrow> consensus_block result" where
  "build_candidate_block C n miner_address now =
     (if \<not> is_valid_address miner_address then node_error ''invalid miner address''
      else
        rbind (copy_state (nd_state n)) (\<lambda>candidate.
        rbind (prioritize C (nd_mempool n) candidate [] 0) (\<lambda>(transactions, fees, candidate').
        rbind (node_height C n) (\<lambda>height.
        rbind (create_coinbase candidate' miner_address fees (height + 1)) (\<lambda>coinbase.
        rbind (tip_hash C n) (\<lambda>tip.
          new_block C \<lparr>blk_height = height + 1, blk_previous_hash = tip,
            blk_transactions = coinbase # transactions, blk_difficulty = nd_difficulty n,
            blk_timestamp = now, blk_nonce = 0, blk_transaction_root = [], blk_version = 1\<rparr>))))))"

text \<open>
  \<^verbatim>\<open>_mine\<close>: every attempt is a fresh block with the next nonce, whose root is computed again. A nonce
  beyond the signed 64-bit range cannot be packed, so the search ends: with a block or with
  \<^verbatim>\<open>struct.error\<close>.
\<close>

lemma block_hash_nonce: "block_hash C b = Inr h \<Longrightarrow> blk_nonce b < 2 ^ 63"
  by (auto simp: block_hash_def header_bytes_def encode_int_def pack_q_def split: if_splits)

lemma new_block_fields:
  assumes "new_block C b = Inr b'"
  shows "blk_nonce b' = blk_nonce b" and "blk_height b' = blk_height b"
    and "blk_previous_hash b' = blk_previous_hash b" and "blk_transactions b' = blk_transactions b"
    and "blk_difficulty b' = blk_difficulty b" and "blk_timestamp b' = blk_timestamp b"
    and "blk_version b' = blk_version b"
  using assms by (auto simp: new_block_def split: if_splits)

function mine_loop :: "crypto \<Rightarrow> pystr \<Rightarrow> consensus_block \<Rightarrow> consensus_block result" where
  "mine_loop C target mined =
     rbind (block_hash C mined) (\<lambda>h.
     if starts_with target h then Inr mined
     else rbind (new_block C (mined\<lparr>blk_nonce := blk_nonce mined + 1, blk_transaction_root := []\<rparr>)) (\<lambda>mined'.
       mine_loop C target mined'))"
  by pat_completeness auto
termination
proof (relation "measure (\<lambda>(C, target, mined). nat (2 ^ 63 - blk_nonce mined))")
  fix C target mined h mined'
  assume "block_hash C mined = Inr h"
    "new_block C (mined\<lparr>blk_nonce := blk_nonce mined + 1, blk_transaction_root := []\<rparr>) = Inr mined'"
  then have "blk_nonce mined < 2 ^ 63" "blk_nonce mined' = blk_nonce mined + 1"
    using block_hash_nonce new_block_fields(1) by fastforce+
  then show "((C, target, mined'), (C, target, mined)) \<in> measure (\<lambda>(C, target, mined). nat (2 ^ 63 - blk_nonce mined))"
    by simp
qed simp

declare mine_loop.simps [simp del]

definition mine :: "crypto \<Rightarrow> consensus_block \<Rightarrow> consensus_block result" where
  "mine C b = mine_loop C (replicate (nat (blk_difficulty b)) 48) b"

section \<open>Importing blocks\<close>

definition validate_import_candidate :: "crypto \<Rightarrow> consensus_node \<Rightarrow> consensus_block \<Rightarrow> unit result" where
  "validate_import_candidate C n b =
     (if blk_height b = 0 then
        rbind (best_tip C (nd_store n)) (\<lambda>tip.
        if tip \<noteq> None then node_error ''genesis block already exists''
        else
          rbind (new_state None (cs_block_subsidy (nd_state n)) (cs_max_money (nd_state n))) (\<lambda>st0.
          rbind (fst (apply_block C b 0 ZERO_HASH st0)) (\<lambda>_. Inr ())))
      else
        (case fc_chain_to_tip C (nd_fork_choice n) (nd_store n) (blk_previous_hash b) of
           Inl (StorageError m) \<Rightarrow> node_error ''block parent is unknown''
         | Inl e \<Rightarrow> Inl e
         | Inr parent_branch \<Rightarrow>
             rbind (fst (apply_block C b (blk_height b) (blk_previous_hash b) (ac_state parent_branch)))
               (\<lambda>_. Inr ())))"

definition detect_reorg ::
  "crypto \<Rightarrow> consensus_block option \<Rightarrow> consensus_block option \<Rightarrow> reorg_event option result" where
  "detect_reorg C old_tip new_tip =
     (case (old_tip, new_tip) of
        (Some old, Some new) \<Rightarrow>
          rbind (block_hash C old) (\<lambda>oh.
          rbind (block_hash C new) (\<lambda>nh.
            if oh = nh then Inr None
            else if blk_previous_hash new = oh \<and> blk_height new = blk_height old + 1 then Inr None
            else Inr (Some \<lparr>re_old_tip = oh, re_new_tip = nh, re_old_height = blk_height old,
                            re_new_height = blk_height new\<rparr>)))
      | _ \<Rightarrow> Inr None)"

text \<open>
  \<^verbatim>\<open>str(exc)\<close>: the message of the package's own exceptions. The texts of interpreter and library
  exceptions are the parameter \<open>runtime_text\<close>.
\<close>

definition exn_text :: "(exn \<Rightarrow> pystr) \<Rightarrow> exn \<Rightarrow> pystr" where
  "exn_text runtime_text e =
     (case e of
        ConsensusError m \<Rightarrow> m | StorageError m \<Rightarrow> m | ForkChoiceError m \<Rightarrow> m | ConsensusNodeError m \<Rightarrow> m
      | MempoolPolicyError m \<Rightarrow> m | NetworkError m \<Rightarrow> m | PeerError m \<Rightarrow> m | PeerManagerError m \<Rightarrow> m
      | NodeServiceError m \<Rightarrow> m | ValueError m \<Rightarrow> m | _ \<Rightarrow> runtime_text e)"

definition put_in_store :: "crypto \<Rightarrow> consensus_block \<Rightarrow> (consensus_node, stored_block) op" where
  "put_in_store C b n = (case put_block C b (nd_store n) of (r, s') \<Rightarrow> (r, n\<lparr>nd_store := s'\<rparr>))"

definition mark_rejected :: "(exn \<Rightarrow> pystr) \<Rightarrow> pystr \<Rightarrow> exn \<Rightarrow> (consensus_node, 'a) op" where
  "mark_rejected rt h e n =
     (case nd_invalid_blocks n of
        None \<Rightarrow> (Inl e, n)
      | Some cache \<Rightarrow>
          (case mark_invalid h (exn_text rt e) cache of
             (Inl e', cache') \<Rightarrow> (Inl e', n\<lparr>nd_invalid_blocks := Some cache'\<rparr>)
           | (Inr _, cache') \<Rightarrow> (Inl e, n\<lparr>nd_invalid_blocks := Some cache'\<rparr>)))"

text \<open>
  The \<^verbatim>\<open>try\<close> block: validate and store, or remember the rejection and raise again. The walk to the
  parent ends here, since every branch was walked when the node was opened (\<open>chain_to_tip_correct\<close>).
\<close>

definition validate_and_store ::
  "crypto \<Rightarrow> (exn \<Rightarrow> pystr) \<Rightarrow> consensus_block \<Rightarrow> pystr \<Rightarrow> (consensus_node, stored_block) op" where
  "validate_and_store C rt b h n =
     (case obind (oeval (\<lambda>n. validate_import_candidate C n b)) (\<lambda>_. put_in_store C b) n of
        (Inl e, n') \<Rightarrow> mark_rejected rt h e n'
      | (Inr stored, n') \<Rightarrow> (Inr stored, n'))"

definition on_index :: "(utxo_index \<Rightarrow> unit result \<times> utxo_index) \<Rightarrow> (consensus_node, unit) op" where
  "on_index f n =
     (case nd_utxo_index n of
        None \<Rightarrow> (Inr (), n)
      | Some x \<Rightarrow> (case f x of (r, x') \<Rightarrow> (r, n\<lparr>nd_utxo_index := Some x'\<rparr>)))"

definition refresh_index :: "crypto \<Rightarrow> stored_block \<Rightarrow> active_chain \<Rightarrow> (consensus_node, unit) op" where
  "refresh_index C stored active n =
     (if nd_utxo_index n = None then (Inr (), n)
      else
        obind (oeval (\<lambda>n. block_hash C (sb_block stored))) (\<lambda>h.
        obind (oeval (\<lambda>n. fc_chain_to_tip C (nd_fork_choice n) (nd_store n) h)) (\<lambda>imported.
        obind (on_index (save_tip_snapshot h (cs_utxos (ac_state imported)))) (\<lambda>_.
        obind (on_index (save_tip_spends C h (ac_blocks imported))) (\<lambda>_.
        obind (oeval (\<lambda>n. case ac_tip active of None \<Rightarrow> Inl AssertionError | Some t \<Rightarrow> block_hash C t)) (\<lambda>ah.
        obind (on_index (save_snapshot ah (cs_utxos (nd_state n)))) (\<lambda>_.
          on_index (save_tip_spends C ah (ac_blocks active)))))))) n)"

definition drop_included :: "crypto \<Rightarrow> consensus_block \<Rightarrow> (consensus_node, unit) op" where
  "drop_included C b =
     obind (oeval (\<lambda>n. rmap (txid C) (blk_transactions b))) (\<lambda>included.
     obind (oeval (\<lambda>n. rfilter (\<lambda>t. rbind (txid C t) (\<lambda>i. Inr (i \<notin> set included))) (nd_mempool n))) (\<lambda>rest.
       omodify (\<lambda>n. n\<lparr>nd_mempool := rest\<rparr>)))"

definition activate :: "crypto \<Rightarrow> stored_block option \<Rightarrow> (consensus_node, active_chain) op" where
  "activate C old_tip =
     obind (oeval (\<lambda>n. fc_active_chain C (nd_fork_choice n) (nd_store n))) (\<lambda>active.
     obind (omodify (\<lambda>n. n\<lparr>nd_state := ac_state active\<rparr>)) (\<lambda>_.
     obind (oeval (\<lambda>n. detect_reorg C (map_option sb_block old_tip) (ac_tip active))) (\<lambda>reorg.
     obind (omodify (\<lambda>n. n\<lparr>nd_last_reorg := reorg\<rparr>)) (\<lambda>_. oreturn active))))"

definition import_block :: "crypto \<Rightarrow> (exn \<Rightarrow> pystr) \<Rightarrow> consensus_block \<Rightarrow> (consensus_node, stored_block) op" where
  "import_block C rt b =
     obind (oeval (\<lambda>n. best_tip C (nd_store n))) (\<lambda>old_tip.
     obind (oeval (\<lambda>n. case block_hash C b of
              Inl e \<Rightarrow> node_error ''block header is invalid'' | Inr h \<Rightarrow> Inr h)) (\<lambda>h.
     obind (oeval (\<lambda>n. case nd_invalid_blocks n of
              None \<Rightarrow> Inr ()
            | Some cache \<Rightarrow>
                if is_invalid cache h
                then Inl (ConsensusNodeError (ascii ''block is cached as invalid: '' @
                       (case invalid_reason cache h of
                          None \<Rightarrow> ascii ''previously rejected block''
                        | Some r \<Rightarrow> if r = [] then ascii ''previously rejected block'' else r)))
                else Inr ())) (\<lambda>_.
     obind (validate_and_store C rt b h) (\<lambda>stored.
     obind (activate C old_tip) (\<lambda>active.
     obind (refresh_index C stored active) (\<lambda>_.
     obind (drop_included C b) (\<lambda>_.
     obind (prune_invalid_mempool C) (\<lambda>_.
     obind (persist_mempool C) (\<lambda>_. oreturn stored)))))))))"

definition mine_block :: "crypto \<Rightarrow> (exn \<Rightarrow> pystr) \<Rightarrow> pystr \<Rightarrow> 64 word \<Rightarrow> (consensus_node, stored_block) op" where
  "mine_block C rt miner_address now =
     obind (oeval (\<lambda>n. rbind (build_candidate_block C n miner_address now) (mine C))) (import_block C rt)"

section \<open>Creating and opening a node\<close>

record node_files =
  nf_store :: fork_store
  nf_mempool_store :: mempool_store
  nf_utxo_index :: utxo_index
  nf_invalid_blocks :: invalid_cache

definition load_mempool :: "crypto \<Rightarrow> consensus_node \<Rightarrow> (consensus_transaction list \<times> mempool_store option) result" where
  "load_mempool C n =
     (case nd_mempool_store n of
        None \<Rightarrow> Inr ([], None)
      | Some ms \<Rightarrow>
          rbind (copy_state (nd_state n)) (\<lambda>candidate.
          rbind (ms_transactions ms) (\<lambda>txs.
          let valid = prune_loop C (nd_policy n) txs [] candidate in
          if int (length valid) \<noteq> ms_count ms
          then (case ms_replace_all C valid ms of
                  (Inl e, _) \<Rightarrow> Inl e | (Inr _, ms') \<Rightarrow> Inr (valid, Some ms'))
          else Inr (valid, Some ms))))"

text \<open>The constructor as \<^verbatim>\<open>create\<close> and \<^verbatim>\<open>open\<close> call it: no mempool and no policy given.\<close>

definition new_node ::
  "crypto \<Rightarrow> node_files \<Rightarrow> consensus_state \<Rightarrow> int \<Rightarrow> fork_choice \<Rightarrow> consensus_node result" where
  "new_node C files st difficulty fc =
     (if difficulty < 0 then node_error ''difficulty cannot be negative''
      else
        let n = \<lparr>nd_store = nf_store files, nd_state = st, nd_difficulty = difficulty,
                 nd_mempool_store = Some (nf_mempool_store files),
                 nd_invalid_blocks = Some (nf_invalid_blocks files), nd_policy = default_policy,
                 nd_last_reorg = None, nd_mempool = [], nd_fork_choice = fc,
                 nd_utxo_index = Some (nf_utxo_index files)\<rparr>
        in rbind (load_mempool C n) (\<lambda>(mempool, ms).
             Inr (n\<lparr>nd_mempool := mempool, nd_mempool_store := ms\<rparr>)))"

primrec genesis_outputs :: "(pystr, int) dict \<Rightarrow> tx_output list \<Rightarrow> int \<Rightarrow> (tx_output list \<times> int) result" where
  "genesis_outputs [] outs acc = Inr (outs, acc)"
| "genesis_outputs (p # ps) outs acc =
     (if \<not> is_valid_address (fst p)
      then Inl (ConsensusNodeError (ascii ''invalid genesis address: '' @ fst p))
      else if snd p \<le> 0 then node_error ''genesis allocations must be positive''
      else genesis_outputs ps (outs @ [\<lparr>out_amount = snd p, out_address = fst p\<rparr>]) (acc + snd p))"

definition build_genesis_block :: "crypto \<Rightarrow> (pystr, int) dict \<Rightarrow> int \<Rightarrow> 64 word \<Rightarrow> consensus_block result" where
  "build_genesis_block C allocations difficulty now =
     (if difficulty < 0 then node_error ''difficulty cannot be negative''
      else if allocations = [] then node_error ''genesis allocations are required''
      else
        rbind (genesis_outputs allocations [] 0) (\<lambda>(outputs, total).
        if total > MAX_MONEY then node_error ''genesis allocations exceed maximum supply''
        else
          rbind (new_block C \<lparr>blk_height = 0, blk_previous_hash = ZERO_HASH,
            blk_transactions = [\<lparr>tx_inputs = [unsigned_input (OutPoint COINBASE_PREV_TXID (- 1))],
                                 tx_outputs = outputs, tx_version = 1\<rparr>],
            blk_difficulty = difficulty, blk_timestamp = now, blk_nonce = 0,
            blk_transaction_root = [], blk_version = 1\<rparr>) (mine C)))"

text \<open>The database work of \<^verbatim>\<open>create\<close>, on the four files.\<close>

definition on_store :: "(fork_store \<Rightarrow> 'a result \<times> fork_store) \<Rightarrow> (node_files, 'a) op" where
  "on_store f x = (case f (nf_store x) of (r, s') \<Rightarrow> (r, x\<lparr>nf_store := s'\<rparr>))"

text \<open>The four constructors, in order; each migration is a transaction of its own.\<close>

definition open_files :: "(node_files, unit) op" where
  "open_files =
     obind (on_store (sql_transaction open_fork_store)) (\<lambda>_.
     obind (\<lambda>x. case sql_transaction open_mempool_store (nf_mempool_store x) of
                  (r, ms) \<Rightarrow> (r, x\<lparr>nf_mempool_store := ms\<rparr>)) (\<lambda>_.
     obind (\<lambda>x. case sql_transaction open_utxo_index (nf_utxo_index x) of
                  (r, i) \<Rightarrow> (r, x\<lparr>nf_utxo_index := i\<rparr>)) (\<lambda>_.
       (\<lambda>x. case sql_transaction open_invalid_cache (nf_invalid_blocks x) of
              (r, c) \<Rightarrow> (r, x\<lparr>nf_invalid_blocks := c\<rparr>)))))"

definition create_files ::
  "crypto \<Rightarrow> (pystr, int) dict \<Rightarrow> int \<Rightarrow> int \<Rightarrow> int \<Rightarrow> 64 word \<Rightarrow> (node_files, unit) op" where
  "create_files C allocations difficulty block_subsidy max_money now =
     obind (oeval (\<lambda>x. best_tip C (nf_store x))) (\<lambda>tip.
     obind (oeval (\<lambda>x. if tip \<noteq> None then node_error ''node database already has a chain'' else Inr ())) (\<lambda>_.
     obind (on_store (save_chain_parameters C
        \<lparr>cp_difficulty = difficulty, cp_block_subsidy = block_subsidy, cp_max_money = max_money\<rparr>)) (\<lambda>_.
     obind (oeval (\<lambda>x. new_state None block_subsidy max_money)) (\<lambda>st0.
     obind (oeval (\<lambda>x. build_genesis_block C allocations difficulty now)) (\<lambda>genesis.
     obind (oeval (\<lambda>x. case apply_block C genesis 0 ZERO_HASH st0 of
                          (Inl e, _) \<Rightarrow> Inl e | (Inr _, st) \<Rightarrow> Inr st)) (\<lambda>st.
     obind (on_store (put_block C genesis)) (\<lambda>_.
     obind (\<lambda>x. case ms_replace_all C [] (nf_mempool_store x) of
                  (r, ms') \<Rightarrow> (r, x\<lparr>nf_mempool_store := ms'\<rparr>)) (\<lambda>_.
     obind (oeval (\<lambda>x. block_hash C genesis)) (\<lambda>h.
       (\<lambda>x. case save_snapshot h (cs_utxos st) (nf_utxo_index x) of
              (r, i') \<Rightarrow> (r, x\<lparr>nf_utxo_index := i'\<rparr>)))))))))))"

definition create_node ::
  "crypto \<Rightarrow> (pystr, int) dict \<Rightarrow> int \<Rightarrow> int \<Rightarrow> int \<Rightarrow> 64 word \<Rightarrow> (node_files, consensus_node) op" where
  "create_node C allocations difficulty block_subsidy max_money now =
     obind open_files (\<lambda>_.
     obind (create_files C allocations difficulty block_subsidy max_money now) (\<lambda>_.
     let fc = \<lparr>fc_block_subsidy = block_subsidy, fc_max_money = max_money\<rparr> in
     oeval (\<lambda>x. rbind (fc_active_chain C fc (nf_store x)) (\<lambda>active.
       new_node C x (ac_state active) difficulty fc))))"

definition open_state ::
  "crypto \<Rightarrow> fork_choice \<Rightarrow> active_chain \<Rightarrow> (node_files, consensus_state) op" where
  "open_state C fc active =
     (case ac_tip active of
        None \<Rightarrow> oreturn (ac_state active)
      | Some tip \<Rightarrow>
          obind (oeval (\<lambda>x. block_hash C tip)) (\<lambda>h.
          obind (oeval (\<lambda>x. load_snapshot (nf_utxo_index x) h)) (\<lambda>indexed.
          case indexed of
            Some u \<Rightarrow>
              if utxo_entries u = utxo_entries (cs_utxos (ac_state active))
              then oeval (\<lambda>x. new_state (Some u) (fc_block_subsidy fc) (fc_max_money fc))
              else (\<lambda>x. case save_snapshot h (cs_utxos (ac_state active)) (nf_utxo_index x) of
                      (r, i') \<Rightarrow> (rbind r (\<lambda>_. Inr (ac_state active)), x\<lparr>nf_utxo_index := i'\<rparr>))
          | None \<Rightarrow>
              (\<lambda>x. case save_snapshot h (cs_utxos (ac_state active)) (nf_utxo_index x) of
                 (r, i') \<Rightarrow> (rbind r (\<lambda>_. Inr (ac_state active)), x\<lparr>nf_utxo_index := i'\<rparr>)))))"

definition open_checks :: "crypto \<Rightarrow> int \<Rightarrow> fork_choice \<Rightarrow> (node_files, consensus_state) op" where
  "open_checks C difficulty fc =
     obind (on_store (require_chain_parameters C \<lparr>cp_difficulty = difficulty,
              cp_block_subsidy = fc_block_subsidy fc, cp_max_money = fc_max_money fc\<rparr>)) (\<lambda>_.
     obind (oeval (\<lambda>x. fc_active_chain C fc (nf_store x))) (\<lambda>active.
     obind (oeval (\<lambda>x. validate_all_known_branches C fc (nf_store x))) (\<lambda>_.
       open_state C fc active)))"

text \<open>\<^verbatim>\<open>except Exception\<close>; \<open>Diverges\<close>, a walk on a cyclic table that never ends, is not an exception and stays.\<close>

definition open_node :: "crypto \<Rightarrow> int \<Rightarrow> int \<Rightarrow> int \<Rightarrow> (node_files, consensus_node) op" where
  "open_node C difficulty block_subsidy max_money =
     obind open_files (\<lambda>_ x.
       let fc = \<lparr>fc_block_subsidy = block_subsidy, fc_max_money = max_money\<rparr> in
       case open_checks C difficulty fc x of
         (Inl e, x') \<Rightarrow> (if e = Diverges then Inl Diverges else node_error ''stored consensus chain failed validation'', x')
       | (Inr st, x') \<Rightarrow> (new_node C x' st difficulty fc, x'))"

lemma open_files_current:
  assumes "fs_schema_version (nf_store x) = Some STORE_SCHEMA_VERSION" and "ms_schema_version (nf_mempool_store x) = Some STORE_SCHEMA_VERSION"
    and "ui_schema_version (nf_utxo_index x) = Some STORE_SCHEMA_VERSION" and "ic_schema_version (nf_invalid_blocks x) = Some STORE_SCHEMA_VERSION"
  shows "open_files x = (Inr (), x)"
  using assms by (simp add: open_files_def obind_def on_store_def sql_transaction_def fork_database.open_current
      mempool_database.open_current utxo_database.open_current invalid_database.open_current)

end
