(* ===== verification/Node_Laws.thy ===== *)
theory Node_Laws
  imports Node_Chain
begin

text \<open>
  Lemmas on the node: which statements touch the chain state at all, the invariant that ties the
  active state to the block database, and that importing, mining, admission and construction of
  transactions keep their contracts.
\<close>

section \<open>Statements that leave part of the node alone\<close>

definition preserves :: "('s \<Rightarrow> 'v) \<Rightarrow> ('s, 'a) op \<Rightarrow> bool" where
  "preserves view m \<longleftrightarrow> (\<forall>s. view (snd (m s)) = view s)"

named_theorems preserving \<open>operations that preserve a view of the state\<close>

lemma preserves_obind [preserving]:
  "preserves view m \<Longrightarrow> (\<And>x. preserves view (f x)) \<Longrightarrow> preserves view (obind m f)"
  by (simp add: preserves_def obind_def split: prod.split sum.split) (metis snd_conv)

lemma preserves_basic [preserving]:
  "preserves view (oreturn x)" "preserves view (oeval g)"
  by (simp_all add: preserves_def)

lemma preserves_omodify [preserving]: "(\<And>s. view (g s) = view s) \<Longrightarrow> preserves view (omodify g)"
  by (simp add: preserves_def)

lemma preservesD: "preserves view m \<Longrightarrow> m s = (r, s') \<Longrightarrow> view s' = view s"
  by (metis preserves_def snd_conv)

text \<open>The chain part of a node: the block database, the active state and the consensus parameters.\<close>

definition chain_view :: "consensus_node \<Rightarrow> fork_store \<times> consensus_state \<times> fork_choice" where
  "chain_view n = (nd_store n, nd_state n, nd_fork_choice n)"

lemma persist_preserves [preserving]:
  "preserves chain_view (persist_mempool C)"
  by (simp add: preserves_def persist_mempool_def chain_view_def split: option.split prod.split)

lemma prune_preserves [preserving]: "preserves chain_view (prune_invalid_mempool C)"
  unfolding prune_invalid_mempool_def by (intro preserving) (simp add: chain_view_def)

lemma drop_preserves [preserving]: "preserves chain_view (drop_included C b)"
  unfolding drop_included_def by (intro preserving) (simp add: chain_view_def)

text \<open>Refreshing the index changes nothing but the index.\<close>

lemma on_index_view: "(\<And>n i. v (n\<lparr>nd_utxo_index := i\<rparr>) = v n) \<Longrightarrow> preserves v (on_index f)"
  by (simp add: preserves_def on_index_def split: option.split prod.split)

lemma refresh_view:
  assumes "\<And>n i. v (n\<lparr>nd_utxo_index := i\<rparr>) = v n"
  shows "preserves v (refresh_index C stored active)"
proof -
  have body: "preserves v (obind (oeval (\<lambda>n. block_hash C (sb_block stored))) (\<lambda>h.
        obind (oeval (\<lambda>n. fc_chain_to_tip C (nd_fork_choice n) (nd_store n) h)) (\<lambda>imported.
        obind (on_index (save_tip_snapshot h (cs_utxos (ac_state imported)))) (\<lambda>_.
        obind (on_index (save_tip_spends C h (ac_blocks imported))) (\<lambda>_.
        obind (oeval (\<lambda>n. case ac_tip active of None \<Rightarrow> Inl AssertionError | Some t \<Rightarrow> block_hash C t)) (\<lambda>ah.
        obind (on_index (save_snapshot ah (cs_utxos st))) (\<lambda>_.
          on_index (save_tip_spends C ah (ac_blocks active)))))))))" for st
    by (intro preserving on_index_view assms)
  show ?thesis
    unfolding preserves_def
  proof
    fix n
    show "v (snd (refresh_index C stored active n)) = v n"
    proof (cases "nd_utxo_index n = None")
      case True
      then show ?thesis by (simp add: refresh_index_def)
    next
      case False
      with body [of "nd_state n", unfolded preserves_def, rule_format, of n]
      show ?thesis by (simp only: refresh_index_def if_False)
    qed
  qed
qed

lemma refresh_preserves [preserving]: "preserves chain_view (refresh_index C stored active)"
  by (rule refresh_view) (simp add: chain_view_def)

lemma mark_preserves [preserving]: "preserves chain_view (mark_rejected rt h e)"
  by (simp add: preserves_def mark_rejected_def chain_view_def split: option.split prod.split sum.split)

lemma submit_preserves [preserving]: "preserves chain_view (submit_transaction C tx)"
  unfolding submit_transaction_def
  by (intro preserving; clarsimp) (intro preserving, simp add: chain_view_def)

section \<open>The node invariant\<close>

text \<open>
  Every stored branch is valid, the active state holds the coins the best branch replays to, and
  the state and fork choice agree on the monetary parameters.
\<close>

definition node_ok :: "crypto \<Rightarrow> consensus_node \<Rightarrow> bool" where
  "node_ok C n \<longleftrightarrow>
     branches_ok C (nd_fork_choice n) (nd_store n) \<and> state_ok (nd_state n) \<and>
     cs_block_subsidy (nd_state n) = fc_block_subsidy (nd_fork_choice n) \<and>
     cs_max_money (nd_state n) = fc_max_money (nd_fork_choice n) \<and>
     (\<exists>a. fc_active_chain C (nd_fork_choice n) (nd_store n) = Inr a \<and>
        map_of (cs_utxos (nd_state n)) = map_of (cs_utxos (ac_state a)))"

lemma node_ok_view: "chain_view n' = chain_view n \<Longrightarrow> node_ok C n \<Longrightarrow> node_ok C n'"
  by (simp add: node_ok_def chain_view_def)

lemma rebuilt_state_ok:
  assumes "rebuild_state_from_blocks C bs s m = Inr st"
  shows "state_ok st" and "cs_block_subsidy st = s" and "cs_max_money st = m"
proof -
  from assms obtain st0 where st0: "new_state None s m = Inr st0" "chain_run C 0 ZERO_HASH st0 bs st"
    by (auto simp: rebuild_iff)
  from new_state_ok [OF st0(1)] chain_run_ok [OF st0(2)]
  show "state_ok st" "cs_block_subsidy st = s" "cs_max_money st = m" by auto
qed

lemma node_best_tip: "node_ok C n \<Longrightarrow> \<exists>tip. best_tip C (nd_store n) = Inr tip"
  using best_tip_least [of C "nd_store n"] best_tip_empty [of "nd_store n" C]
  by (cases "fs_blocks (nd_store n) = []") (auto simp: node_ok_def branches_ok_def)

lemma active_state_ok:
  assumes "branches_ok C fc s" and "fc_active_chain C fc s = Inr a"
  shows "state_ok (ac_state a)" and "cs_block_subsidy (ac_state a) = fc_block_subsidy fc"
    and "cs_max_money (ac_state a) = fc_max_money fc"
proof -
  have "state_ok (ac_state a) \<and> cs_block_subsidy (ac_state a) = fc_block_subsidy fc \<and>
    cs_max_money (ac_state a) = fc_max_money fc"
  proof (cases "fs_blocks s = []")
    case True
    from active_chain_empty [OF assms(1) this] assms(2) obtain st where
      "new_state None (fc_block_subsidy fc) (fc_max_money fc) = Inr st" "ac_state a = st" by auto
    with new_state_ok [OF this(1)] show ?thesis by simp
  next
    case False
    have st: "store_ok C s" using assms(1) by (simp add: branches_ok_def)
    obtain a' p where "fc_active_chain C fc s = Inr a'" "p \<in> set (fs_blocks s)" "fc_chain_to_tip C fc s (fst p) = Inr a'"
      by (rule active_chain_best [OF assms(1) False]) blast
    with assms(2) have tip: "fc_chain_to_tip C fc s (fst p) = Inr a" by simp
    obtain bs :: "stored_block list" where
      "rebuild_state_from_blocks C (map sb_block bs) (fc_block_subsidy fc) (fc_max_money fc) = Inr (ac_state a)"
      by (rule fc_chain_to_tip_Inr [OF st tip]) blast
    from rebuilt_state_ok [OF this] show ?thesis by blast
  qed
  then show "state_ok (ac_state a)" "cs_block_subsidy (ac_state a) = fc_block_subsidy fc"
    "cs_max_money (ac_state a) = fc_max_money fc" by blast+
qed

section \<open>Import\<close>

lemma validate_import_extends:
  assumes "validate_import_candidate C n b = Inr u"
    and "cs_block_subsidy (nd_state n) = fc_block_subsidy (nd_fork_choice n)"
    and "cs_max_money (nd_state n) = fc_max_money (nd_fork_choice n)"
  shows "extends_valid_branch C (nd_fork_choice n) (nd_store n) b"
proof (cases "blk_height b = 0")
  case True
  with assms show ?thesis
    by (auto simp: validate_import_candidate_def extends_valid_branch_def split: if_splits)
       (metis prod.collapse)
next
  case False
  with assms(1) obtain a fees where
    "fc_chain_to_tip C (nd_fork_choice n) (nd_store n) (blk_previous_hash b) = Inr a"
    "fst (apply_block C b (blk_height b) (blk_previous_hash b) (ac_state a)) = Inr fees"
    by (auto simp: validate_import_candidate_def split: sum.splits exn.splits)
  with False show ?thesis by (auto simp: extends_valid_branch_def) (metis prod.collapse)
qed

lemma validate_and_store_Inr:
  assumes "validate_and_store C rt b h n = (Inr stored, n')"
  shows "validate_import_candidate C n b = Inr ()" and "put_block C b (nd_store n) = (Inr stored, nd_store n')"
    and "n' = n\<lparr>nd_store := nd_store n'\<rparr>"
proof -
  have "obind (oeval (\<lambda>n. validate_import_candidate C n b)) (\<lambda>_. put_in_store C b) n = (Inr stored, n')"
    using assms
    by (auto simp: validate_and_store_def mark_rejected_def split: prod.splits sum.splits option.splits)
  then show "validate_import_candidate C n b = Inr ()" "put_block C b (nd_store n) = (Inr stored, nd_store n')"
    "n' = n\<lparr>nd_store := nd_store n'\<rparr>"
    by (auto simp: obind_Inr put_in_store_def split: prod.splits)
qed

lemma validate_and_store_Inl:
  assumes "validate_and_store C rt b h n = (Inl e, n')"
  shows "chain_view n' = chain_view n"
proof -
  from assms obtain e0 n0 where
    o: "obind (oeval (\<lambda>n. validate_import_candidate C n b)) (\<lambda>_. put_in_store C b) n = (Inl e0, n0)"
    and m: "mark_rejected rt h e0 n0 = (Inl e :: stored_block result, n')"
    by (auto simp: validate_and_store_def split: prod.splits sum.splits)
  from o have "chain_view n0 = chain_view n"
    by (auto simp: obind_Inl put_in_store_def chain_view_def split: prod.splits dest: put_block_fail)
  with preservesD [OF mark_preserves m] show ?thesis by simp
qed

lemma activate_effect:
  assumes "branches_ok C (nd_fork_choice n) (nd_store n)" and "activate C old_tip n = (r, n')"
  shows "nd_store n' = nd_store n" and "nd_fork_choice n' = nd_fork_choice n"
    and "\<exists>a. fc_active_chain C (nd_fork_choice n) (nd_store n) = Inr a \<and> nd_state n' = ac_state a \<and>
      (\<forall>x. r = Inr x \<longrightarrow> x = a)"
proof -
  obtain a where a: "fc_active_chain C (nd_fork_choice n) (nd_store n) = Inr a"
    using active_chain_total [OF assms(1)] by blast
  obtain d where d: "detect_reorg C (map_option sb_block old_tip) (ac_tip a) = d" by simp
  have "nd_store n' = nd_store n \<and> nd_fork_choice n' = nd_fork_choice n \<and> nd_state n' = ac_state a \<and>
    (\<forall>x. r = Inr x \<longrightarrow> x = a)"
    using assms(2) a d
    by (cases d) (auto simp: activate_def obind_def)
  with a show "nd_store n' = nd_store n" "nd_fork_choice n' = nd_fork_choice n"
    "\<exists>a. fc_active_chain C (nd_fork_choice n) (nd_store n) = Inr a \<and> nd_state n' = ac_state a \<and>
      (\<forall>x. r = Inr x \<longrightarrow> x = a)" by auto
qed

text \<open>What runs after the block is stored.\<close>

definition after_store :: "crypto \<Rightarrow> stored_block option \<Rightarrow> consensus_block \<Rightarrow> stored_block \<Rightarrow> (consensus_node, stored_block) op" where
  "after_store C old_tip b stored =
     obind (activate C old_tip) (\<lambda>active.
     obind (refresh_index C stored active) (\<lambda>_.
     obind (drop_included C b) (\<lambda>_.
     obind (prune_invalid_mempool C) (\<lambda>_.
     obind (persist_mempool C) (\<lambda>_. oreturn stored)))))"

lemma after_store_node_ok:
  assumes "branches_ok C (nd_fork_choice n) (nd_store n)" and "after_store C old_tip b stored n = (r, n')"
  shows "node_ok C n'" and "nd_store n' = nd_store n" and "nd_fork_choice n' = nd_fork_choice n"
    and "fc_active_chain C (nd_fork_choice n) (nd_store n) = Inr a \<Longrightarrow> nd_state n' = ac_state a"
proof -
  obtain r1 n1 where act: "activate C old_tip n = (r1, n1)" by (cases "activate C old_tip n")
  note e = activate_effect [OF assms(1) act]
  have tail: "preserves chain_view (obind (refresh_index C stored active) (\<lambda>_.
     obind (drop_included C b) (\<lambda>_. obind (prune_invalid_mempool C) (\<lambda>_.
     obind (persist_mempool C) (\<lambda>_. oreturn stored)))))" for active
    by (intro preserving)
  have view: "chain_view n' = chain_view n1"
  proof (cases r1)
    case (Inl x)
    with assms(2) act show ?thesis by (simp add: after_store_def obind_def)
  next
    case (Inr active)
    with assms(2) act have "(obind (refresh_index C stored active) (\<lambda>_.
     obind (drop_included C b) (\<lambda>_. obind (prune_invalid_mempool C) (\<lambda>_.
     obind (persist_mempool C) (\<lambda>_. oreturn stored))))) n1 = (r, n')"
      by (simp add: after_store_def obind_def)
    from preservesD [OF tail this] show ?thesis .
  qed
  from e(3) obtain a0 where a0: "fc_active_chain C (nd_fork_choice n) (nd_store n) = Inr a0" "nd_state n1 = ac_state a0"
    by blast
  have "node_ok C n1"
    using assms(1) e(1,2) a0 active_state_ok [OF assms(1) a0(1)] by (auto simp: node_ok_def)
  with view show "node_ok C n'" using node_ok_view by blast
  from view e(1,2) show "nd_store n' = nd_store n" "nd_fork_choice n' = nd_fork_choice n"
    by (simp_all add: chain_view_def)
  show "nd_state n' = ac_state a" if "fc_active_chain C (nd_fork_choice n) (nd_store n) = Inr a"
    using that a0 view by (simp add: chain_view_def)
qed

lemma import_block_cases:
  assumes "import_block C rt b n = (r, n')"
  shows "n' = n \<and> (\<exists>e. r = Inl e) \<or>
    (\<exists>h e. block_hash C b = Inr h \<and> validate_and_store C rt b h n = (Inl e, n') \<and> r = Inl e) \<or>
    (\<exists>h old_tip stored n1. block_hash C b = Inr h \<and> validate_and_store C rt b h n = (Inr stored, n1) \<and>
       after_store C old_tip b stored n1 = (r, n'))"
proof (cases "best_tip C (nd_store n)")
  case (Inl e)
  with assms show ?thesis by (auto simp: import_block_def obind_def)
next
  case tip: (Inr old_tip)
  show ?thesis
  proof (cases "block_hash C b")
    case (Inl e)
    with assms tip show ?thesis by (auto simp: import_block_def obind_def)
  next
    case h: (Inr h)
    show ?thesis
    proof (cases "\<exists>cache. nd_invalid_blocks n = Some cache \<and> is_invalid cache h")
      case True
      with assms tip h show ?thesis by (auto simp: import_block_def obind_def)
    next
      case False
      then have "import_block C rt b n =
        obind (validate_and_store C rt b h) (after_store C old_tip b) n"
        using tip h by (auto simp: import_block_def obind_def after_store_def [abs_def] split: option.splits)
      with assms h show ?thesis
        by (cases "validate_and_store C rt b h n") (auto simp: obind_def split: sum.splits)
    qed
  qed
qed

text \<open>The database after the block was stored: still valid, and larger by at most the block.\<close>

lemma import_stored_branches:
  assumes "node_ok C n" and "block_ok b" and "validate_and_store C rt b h n = (Inr stored, n1)"
  shows "branches_ok C (nd_fork_choice n1) (nd_store n1)"
    and "map_of (fs_blocks (nd_store n)) \<subseteq>\<^sub>m map_of (fs_blocks (nd_store n1))"
    and "\<exists>h. block_hash C b = Inr h \<and> get_block C (nd_store n1) h = Inr stored"
proof -
  note v = validate_and_store_Inr [OF assms(3)]
  have ok: "branches_ok C (nd_fork_choice n) (nd_store n)" "store_ok C (nd_store n)"
    using assms(1) by (auto simp: node_ok_def branches_ok_def)
  have "extends_valid_branch C (nd_fork_choice n) (nd_store n) b"
    using validate_import_extends [OF v(1)] assms(1) by (simp add: node_ok_def)
  from put_keeps_branches_ok [OF ok(1) assms(2) v(2) this]
  have "branches_ok C (nd_fork_choice n) (nd_store n1)" .
  moreover have "nd_fork_choice n1 = nd_fork_choice n" using arg_cong [OF v(3), of nd_fork_choice] by simp
  ultimately show "branches_ok C (nd_fork_choice n1) (nd_store n1)" by simp
  show "map_of (fs_blocks (nd_store n)) \<subseteq>\<^sub>m map_of (fs_blocks (nd_store n1))"
    "\<exists>h. block_hash C b = Inr h \<and> get_block C (nd_store n1) h = Inr stored"
    using put_block_ok(2,3) [OF ok(2) assms(2) v(2)] by blast+
qed

lemma import_node_ok:
  assumes "node_ok C n" and "block_ok b" and "import_block C rt b n = (r, n')"
  shows "node_ok C n'"
proof -
  from import_block_cases [OF assms(3)] consider
    "n' = n" | h e where "validate_and_store C rt b h n = (Inl e, n')"
    | h old_tip stored n1 where "validate_and_store C rt b h n = (Inr stored, n1)"
        "after_store C old_tip b stored n1 = (r, n')" by blast
  then show ?thesis
  proof cases
    case 1
    with assms(1) show ?thesis by simp
  next
    case 2
    from node_ok_view [OF validate_and_store_Inl [OF 2] assms(1)] show ?thesis .
  next
    case 3
    from after_store_node_ok(1) [OF import_stored_branches(1) [OF assms(1,2) 3(1)] 3(2)] show ?thesis .
  qed
qed

lemma active_work_max:
  assumes "branches_ok C fc s" and "fc_active_chain C fc s = Inr a" and "get_block C s h = Inr sb"
  shows "sb_cumulative_work sb \<le> ac_cumulative_work a"
proof -
  have st: "store_ok C s" using assms(1) by (simp add: branches_ok_def)
  obtain row where row: "map_of (fs_blocks s) h = Some row" "sb_cumulative_work sb = fr_cumulative_work row"
    by (rule get_block_Inr [OF st assms(3)])
  then have ne: "fs_blocks s \<noteq> []" by auto
  obtain a' p where a': "fc_active_chain C fc s = Inr a'" "p \<in> set (fs_blocks s)"
    "\<forall>q \<in> set (fs_blocks s). tip_order p \<le> tip_order q"
    "best_tip C s = Inr (Some \<lparr>sb_block = last (ac_blocks a'), sb_cumulative_work = ac_cumulative_work a'\<rparr>)"
    by (rule active_chain_best [OF assms(1) ne]) blast
  obtain q where q: "ac_cumulative_work a' = fr_cumulative_work (snd q)"
    "\<forall>r \<in> set (fs_blocks s). tip_order q \<le> tip_order r"
    by (rule best_tip_hash [OF st a'(4)]) simp
  from q(2) map_of_SomeD [OF row(1)] have "tip_order q \<le> tip_order (h, row)" by blast
  then have "fr_cumulative_work row \<le> fr_cumulative_work (snd q)" by (auto simp: tip_order_def)
  with q(1) row(2) a'(1) assms(2) show ?thesis by simp
qed

end
