(* ===== verification/Mempool_Laws.thy ===== *)
theory Mempool_Laws
  imports Node_Chain
begin

text \<open>
  Lemmas on the mempool of the node: runs of transactions on a candidate state, what admission,
  replacement and eviction leave behind, and what pruning keeps.
\<close>

section \<open>Candidate states\<close>

lemma copy_state_id [simp]: "state_ok st \<Longrightarrow> copy_state st = Inr st"
  using candidate_state by (simp add: copy_state_def)

lemma candidate_after_iff:
  "state_ok st \<Longrightarrow> candidate_after C st txs = Inr c \<longleftrightarrow> (\<exists>fees. apply_transactions C txs 0 st = (Inr fees, c))"
  by (auto simp: candidate_after_def split: prod.splits sum.splits)

lemma apply_transactions_state_ok:
  "apply_transactions C txs fees st = (r, st') \<Longrightarrow> state_ok st \<Longrightarrow> state_ok st'"
proof (induction txs arbitrary: fees st)
  case (Cons tx txs)
  then show ?case
    using tx_method.invariant [of st C tx] by (auto split: prod.splits sum.splits)
qed simp

lemma apply_transactions_params:
  "apply_transactions C txs fees st = (r, st') \<Longrightarrow> state_ok st \<Longrightarrow>
   cs_block_subsidy st' = cs_block_subsidy st \<and> cs_max_money st' = cs_max_money st"
proof (induction txs arbitrary: fees st)
  case (Cons tx txs)
  then show ?case
    using tx_method.invariant [of st C tx] tx_method.params [of st C tx]
    by (auto split: prod.splits sum.splits)
qed simp

lemma apply_transactions_append:
  "apply_transactions C (xs @ ys) fees st =
     (case apply_transactions C xs fees st of
        (Inl e, st') \<Rightarrow> (Inl e, st') | (Inr fees', st') \<Rightarrow> apply_transactions C ys fees' st')"
  by (induction xs arbitrary: fees st) (auto split: prod.splits sum.splits)

text \<open>The mempool can be mined in the order it is kept.\<close>

definition applicable :: "crypto \<Rightarrow> consensus_state \<Rightarrow> consensus_transaction list \<Rightarrow> bool" where
  "applicable C st txs \<longleftrightarrow> (\<exists>fees c. apply_transactions C txs 0 st = (Inr fees, c))"

lemma applicable_Nil [simp]: "applicable C st []"
  by (simp add: applicable_def)

lemma applicable_snoc:
  assumes "apply_transactions C txs 0 st = (Inr fees, c)" and "apply_transaction C tx c = (Inr fee, c')"
  shows "apply_transactions C (txs @ [tx]) 0 st = (Inr (fees + fee), c')"
  using assms by (simp add: apply_transactions_append)

text \<open>Two transactions of an applicable list never spend the same coin twice from one state.\<close>

definition mempool_ok :: "crypto \<Rightarrow> consensus_node \<Rightarrow> bool" where
  "mempool_ok C n \<longleftrightarrow>
     applicable C (nd_state n) (nd_mempool n) \<and> list_all (\<lambda>tx. \<not> is_coinbase tx) (nd_mempool n) \<and>
     int (length (nd_mempool n)) \<le> max_transactions (nd_policy n)"

section \<open>Eviction\<close>

text \<open>What a pending eviction stands for: one entry dropped, and the new transaction applies after the rest.\<close>

definition eviction_ok ::
  "crypto \<Rightarrow> consensus_state \<Rightarrow> consensus_transaction \<Rightarrow> consensus_transaction list \<Rightarrow> consensus_transaction list \<Rightarrow> int \<Rightarrow> bool" where
  "eviction_ok C st tx remaining remaining' fee \<longleftrightarrow>
     (remaining' = remaining \<or> (\<exists>i < length remaining. remaining' = take i remaining @ drop (i + 1) remaining)) \<and>
     (\<exists>c c'. candidate_after C st remaining' = Inr c \<and> apply_transaction C tx c = (Inr fee, c'))"

lemma evict_round_ok:
  assumes "evict_round C st tx remaining fees p best = Inr best'"
    and "p \<in> set (List.enumerate 0 remaining)"
    and "\<forall>r f s. best = Some (r, f, s) \<longrightarrow> eviction_ok C st tx remaining r f"
  shows "\<forall>r f s. best' = Some (r, f, s) \<longrightarrow> eviction_ok C st tx remaining r f"
proof -
  have i: "fst p < length remaining" using assms(2) by (auto simp: in_set_enumerate_eq)
  let ?rest = "take (fst p) remaining @ drop (fst p + 1) remaining"
  from assms(1) obtain score where
    run: "(case candidate_after C st ?rest of
       Inl e \<Rightarrow> Inr best
     | Inr candidate \<Rightarrow>
         (case apply_transaction C tx candidate of
            (Inl e, _) \<Rightarrow> Inr best
          | (Inr candidate_fee, _) \<Rightarrow>
              (case best of
                 None \<Rightarrow> Inr (Some (?rest, candidate_fee, score))
               | Some (_, _, best_score) \<Rightarrow>
                   Inr (if score < best_score then Some (?rest, candidate_fee, score) else best)))) = (Inr best' :: eviction_best result)"
    unfolding evict_round_def Let_def rbind_eq_Inr by blast
  have "best' = best \<or> (\<exists>c c' fee score. candidate_after C st ?rest = Inr c \<and>
      apply_transaction C tx c = (Inr fee, c') \<and> best' = Some (?rest, fee, score))"
  proof (cases "candidate_after C st ?rest")
    case (Inl e)
    with run show ?thesis by simp
  next
    case c: (Inr c)
    obtain r c' where a: "apply_transaction C tx c = (r, c')" by (cases "apply_transaction C tx c")
    show ?thesis
    proof (cases r)
      case (Inl e)
      with run c a show ?thesis by simp
    next
      case (Inr fee)
      with run c a have "best' = best \<or> best' = Some (?rest, fee, score)"
        by (cases best) (auto split: if_splits)
      with c a Inr show ?thesis by blast
    qed
  qed
  with assms(3) i show ?thesis by (auto simp: eviction_ok_def)
qed

lemma evict_for_policy_ok:
  assumes "evict_for_policy C n tx remaining fee = Inr (remaining', fee')"
    and "eviction_ok C (nd_state n) tx remaining remaining fee"
  shows "eviction_ok C (nd_state n) tx remaining remaining' fee'"
proof -
  have "(remaining', fee') = (remaining, fee) \<or> (\<exists>fees s.
    rfold (evict_round C (nd_state n) tx remaining fees) (List.enumerate 0 remaining) None = Inr (Some (remaining', fee', s)))"
  proof (cases "int (length remaining) < max_transactions (nd_policy n) \<or> \<not> allow_eviction (nd_policy n)")
    case True
    with assms(1) show ?thesis by (auto simp: evict_for_policy_def split: if_splits)
  next
    case False
    with assms(1) obtain sc :: "int \<times> int \<times> pystr" and fees best where
      best: "rfold (evict_round C (nd_state n) tx remaining fees) (List.enumerate 0 remaining) None = Inr best"
        "(case best of None \<Rightarrow> Inr (remaining, fee) | Some (best_remaining, best_fee, best_score) \<Rightarrow>
            if fst sc < fst best_score + eviction_fee_rate_bump (nd_policy n)
            then policy_error ''transaction fee rate is below mempool eviction minimum''
            else Inr (best_remaining, best_fee)) = (Inr (remaining', fee') :: (consensus_transaction list \<times> int) result)"
      by (simp add: evict_for_policy_def del: split_paired_Ex) blast
    then show ?thesis by (cases best) (auto split: if_splits)
  qed
  then consider "(remaining', fee') = (remaining, fee)" |
    fees s where "rfold (evict_round C (nd_state n) tx remaining fees) (List.enumerate 0 remaining) None =
      Inr (Some (remaining', fee', s))" by blast
  then show ?thesis
  proof cases
    case 1
    with assms(2) show ?thesis by simp
  next
    case (2 fees s)
    from rfold_invariant [OF 2, of "\<lambda>best. \<forall>r f s. best = Some (r, f, s) \<longrightarrow> eviction_ok C (nd_state n) tx remaining r f"]
      evict_round_ok show ?thesis by blast
  qed
qed

section \<open>Admission\<close>

lemma replacement_remaining:
  assumes "make_replacement_context C n tx = Inr rc"
  shows "set (rc_remaining rc) \<subseteq> set (nd_mempool n)"
    and "rc_replaced rc = filter (conflicts tx) (nd_mempool n)"
    and "rc_replaced rc = [] \<Longrightarrow> rc_remaining rc = nd_mempool n"
proof -
  let ?replaced = "filter (conflicts tx) (nd_mempool n)"
  have "set (rc_remaining rc) \<subseteq> set (nd_mempool n) \<and> rc_replaced rc = ?replaced \<and>
    (rc_replaced rc = [] \<longrightarrow> rc_remaining rc = nd_mempool n)"
  proof (cases "?replaced = []")
    case True
    with assms show ?thesis by (auto simp: make_replacement_context_def Let_def)
  next
    case False
    with assms obtain ids rem c where
      rem: "rfilter (\<lambda>t. rbind (txid C t) (\<lambda>i. Inr (i \<notin> set ids))) (nd_mempool n) = Inr rem"
      and run: "(case apply_transactions C ?replaced 0 c of (Inl e, _) \<Rightarrow> Inl e
        | (Inr fee, _) \<Rightarrow> Inr \<lparr>rc_remaining = rem, rc_replaced = ?replaced, rc_replaced_fee = fee\<rparr>) = Inr rc"
      by (auto simp: make_replacement_context_def Let_def split: if_splits)
    from run have "rc_remaining rc = rem" "rc_replaced rc = ?replaced" by (auto split: prod.splits sum.splits)
    with rfilter_subset [OF rem] False show ?thesis by simp
  qed
  then show "set (rc_remaining rc) \<subseteq> set (nd_mempool n)" "rc_replaced rc = ?replaced"
    "rc_replaced rc = [] \<Longrightarrow> rc_remaining rc = nd_mempool n" by blast+
qed

lemma admit_Inr:
  assumes "admit C n tx = Inr (t, mempool)"
  obtains remaining c fee c' where "mempool = remaining @ [tx]" and "txid C tx = Inr t" and "\<not> is_coinbase tx"
    and "set remaining \<subseteq> set (nd_mempool n)" and "candidate_after C (nd_state n) remaining = Inr c"
    and "apply_transaction C tx c = (Inr fee, c')"
    and "policy_validate (nd_policy n) tx fee (int (length remaining)) = Inr ()"
    and "filter (conflicts tx) (nd_mempool n) = [] \<Longrightarrow> length remaining \<in> {length (nd_mempool n) - 1, length (nd_mempool n)}"
proof -
  define ev where "ev = (\<lambda>(rc :: replacement_context) fee. if rc_replaced rc = [] then evict_for_policy C n tx (rc_remaining rc) fee
    else Inr (rc_remaining rc, fee))"
  from assms obtain rc c fee remaining fee' where
    t: "txid C tx = Inr t" "\<not> is_coinbase tx" and rc: "make_replacement_context C n tx = Inr rc" and
    c: "candidate_after C (nd_state n) (rc_remaining rc) = Inr c" "fst (apply_transaction C tx c) = Inr fee" and
    ev: "ev rc fee = Inr (remaining, fee')" and
    pol: "policy_validate (nd_policy n) tx fee' (int (length remaining)) = Inr ()" and
    mp: "mempool = remaining @ [tx]"
    unfolding admit_def ev_def [THEN fun_cong, THEN fun_cong, symmetric]
    by (fastforce split: if_split_asm)
  have "eviction_ok C (nd_state n) tx (rc_remaining rc) (rc_remaining rc) fee"
    using c by (auto simp: eviction_ok_def) (metis prod.collapse)
  with ev evict_for_policy_ok have ok: "eviction_ok C (nd_state n) tx (rc_remaining rc) remaining fee'"
    by (auto simp: ev_def split: if_splits)
  then obtain c1 c1' where c1: "candidate_after C (nd_state n) remaining = Inr c1" "apply_transaction C tx c1 = (Inr fee', c1')"
    by (auto simp: eviction_ok_def)
  have "set remaining \<subseteq> set (rc_remaining rc)"
    using ok by (auto simp: eviction_ok_def dest: in_set_takeD in_set_dropD)
  with replacement_remaining(1) [OF rc] have sub: "set remaining \<subseteq> set (nd_mempool n)" by blast
  have "length remaining \<in> {length (nd_mempool n) - 1, length (nd_mempool n)}" if "filter (conflicts tx) (nd_mempool n) = []"
  proof -
    have "rc_remaining rc = nd_mempool n" using replacement_remaining(2,3) [OF rc] that by simp
    with ok show ?thesis by (auto simp: eviction_ok_def)
  qed
  with that [OF mp t sub c1 pol] show ?thesis by blast
qed

lemma submit_Inr:
  assumes "submit_transaction C tx n = (Inr t, n')"
  obtains mempool ms where "admit C n tx = Inr (t, mempool)"
    and "n' = n\<lparr>nd_mempool := mempool, nd_mempool_store := ms\<rparr>"
    and "\<And>x. nd_mempool_store n = Some x \<Longrightarrow> \<exists>x'. ms = Some x' \<and> ms_replace_all C mempool x = (Inr (), x')"
proof -
  from assms obtain mempool where a: "admit C n tx = Inr (t, mempool)"
    "persist_mempool C (n\<lparr>nd_mempool := mempool\<rparr>) = (Inr (), n')"
    by (auto simp: submit_transaction_def obind_Inr)
  show ?thesis
  proof (cases "nd_mempool_store n")
    case None
    with a that [OF a(1), of None] show ?thesis by (auto simp: persist_mempool_def)
  next
    case (Some x)
    obtain r x' where x': "ms_replace_all C mempool x = (r, x')" by (cases "ms_replace_all C mempool x")
    with Some a that [OF a(1), of "Some x'"] show ?thesis by (auto simp: persist_mempool_def)
  qed
qed

lemma submit_Inr_mempool_ok:
  assumes "state_ok (nd_state n)" and "mempool_ok C n" and "submit_transaction C tx n = (Inr t, n')"
  shows "mempool_ok C n'" and "last (nd_mempool n') = tx" and "nd_mempool n' \<noteq> []" and "txid C tx = Inr t"
    and "set (nd_mempool n') \<subseteq> insert tx (set (nd_mempool n))"
proof -
  obtain mempool ms where s: "admit C n tx = Inr (t, mempool)"
    "n' = n\<lparr>nd_mempool := mempool, nd_mempool_store := ms\<rparr>" by (rule submit_Inr [OF assms(3)])
  obtain remaining c fee c' where a: "mempool = remaining @ [tx]" "txid C tx = Inr t" "\<not> is_coinbase tx"
    "set remaining \<subseteq> set (nd_mempool n)" "candidate_after C (nd_state n) remaining = Inr c"
    "apply_transaction C tx c = (Inr fee, c')"
    "policy_validate (nd_policy n) tx fee (int (length remaining)) = Inr ()" by (rule admit_Inr [OF s(1)])
  from a(5) candidate_after_iff [OF assms(1)] obtain fees where
    "apply_transactions C remaining 0 (nd_state n) = (Inr fees, c)" by blast
  from applicable_snoc [OF this a(6)] have "applicable C (nd_state n) mempool"
    using a(1) by (auto simp: applicable_def)
  moreover have "int (length mempool) \<le> max_transactions (nd_policy n)"
    using a(1,7) by (auto simp: policy_validate_Inr)
  moreover have "list_all (\<lambda>tx. \<not> is_coinbase tx) mempool"
    using assms(2) a(1,3,4) by (auto simp: mempool_ok_def list_all_iff)
  ultimately show "mempool_ok C n'" using s(2) by (simp add: mempool_ok_def)
  show "last (nd_mempool n') = tx" "nd_mempool n' \<noteq> []" "txid C tx = Inr t"
    "set (nd_mempool n') \<subseteq> insert tx (set (nd_mempool n))" using s(2) a(1,2,4) by auto
qed

lemma submit_admit_fail:
  assumes "admit C n tx = Inl e"
  shows "submit_transaction C tx n = (Inl e, n)"
  using assms by (simp add: submit_transaction_def obind_def)

section \<open>Pruning\<close>

lemma prune_loop_prefix: "\<exists>rest. prune_loop C p txs valid c = valid @ rest \<and> set rest \<subseteq> set txs"
proof (induction txs arbitrary: valid c)
  case (Cons tx txs)
  obtain r c' where a: "apply_transaction C tx c = (r, c')" by (cases "apply_transaction C tx c")
  from Cons.IH [of valid c'] obtain rest where "prune_loop C p txs valid c' = valid @ rest" "set rest \<subseteq> set txs" by blast
  moreover from Cons.IH [of "valid @ [tx]" c'] obtain rest' where
    "prune_loop C p txs (valid @ [tx]) c' = valid @ tx # rest'" "set rest' \<subseteq> set txs" by auto
  ultimately show ?case using a by (auto split: sum.split)
qed simp

lemma apply_fee_nonneg: "state_ok st \<Longrightarrow> apply_transaction C tx st = (Inr fee, st') \<Longrightarrow> 0 \<le> fee"
  using apply_transfer(1,2) [of st tx C fee st'] apply_coinbase_transaction(1) [of st tx C fee st']
  by (cases "is_coinbase tx") (auto simp: transfer_valid_def)

text \<open>While the policy refuses none of the transactions, what is kept applies in order.\<close>

lemma prune_loop_applicable:
  assumes "state_ok c" and "apply_transactions C valid 0 st = (Inr fees, c)"
    and "\<And>tx fee k. tx \<in> set txs \<Longrightarrow> 0 \<le> fee \<Longrightarrow> k < length valid + length txs \<Longrightarrow>
      policy_validate p tx fee (int k) = Inr ()"
  shows "applicable C st (prune_loop C p txs valid c)"
  using assms
proof (induction txs arbitrary: valid c fees)
  case Nil
  then show ?case by (auto simp: applicable_def)
next
  case (Cons tx txs)
  show ?case
  proof (cases "apply_transaction C tx c")
    case (Pair r c')
    show ?thesis
    proof (cases r)
      case (Inl e)
      with Pair have c': "c' = c" using tx_method.atomic [OF Cons.prems(1)] by simp
      have "applicable C st (prune_loop C p txs valid c)"
        by (rule Cons.IH [OF Cons.prems(1,2)]) (use Cons.prems(3) in simp)
      with Pair Inl c' show ?thesis by simp
    next
      case (Inr fee)
      have pol: "policy_validate p tx fee (int (length valid)) = Inr ()" 
        using Cons.prems(3) [of tx fee "length valid"] apply_fee_nonneg [OF Cons.prems(1)] Pair Inr by simp
      have ok: "state_ok c'" using tx_method.keeps_ok [OF Cons.prems(1)] Pair Inr by simp
      have run: "apply_transactions C (valid @ [tx]) 0 st = (Inr (fees + fee), c')"
        using applicable_snoc [OF Cons.prems(2)] Pair Inr by simp
      have "applicable C st (prune_loop C p txs (valid @ [tx]) c')"
        by (rule Cons.IH [OF ok run]) (use Cons.prems(3) in simp)
      with Pair Inr pol show ?thesis by simp
    qed
  qed
qed

text \<open>Transactions that all apply and that the policy accepts are all kept.\<close>

lemma prune_loop_keeps:
  assumes "apply_transactions C txs f0 c = (Inr fees, c')" and "state_ok c"
    and "\<And>tx fee k. tx \<in> set txs \<Longrightarrow> 0 \<le> fee \<Longrightarrow> k < length valid + length txs \<Longrightarrow>
      policy_validate p tx fee (int k) = Inr ()"
  shows "prune_loop C p txs valid c = valid @ txs"
  using assms
proof (induction txs arbitrary: valid c f0)
  case (Cons tx txs)
  then obtain fee c1 where a: "apply_transaction C tx c = (Inr fee, c1)" "apply_transactions C txs (f0 + fee) c1 = (Inr fees, c')"
    by (auto split: prod.splits sum.splits)
  have "policy_validate p tx fee (int (length valid)) = Inr ()"
    using Cons.prems(3) [of tx fee "length valid"] apply_fee_nonneg [OF Cons.prems(2) a(1)] by simp
  moreover have "prune_loop C p txs (valid @ [tx]) c1 = (valid @ [tx]) @ txs"
    by (rule Cons.IH [OF a(2) tx_method.keeps_ok [OF Cons.prems(2) a(1)]]) (use Cons.prems(3) in simp)
  ultimately show ?case using a by simp
qed simp

end
