(* ===== verification/Mining_Laws.thy ===== *)
theory Mining_Laws
  imports Mempool_Laws
begin

text \<open>
  Lemmas on block assembly and mining: the order in which pending transactions are taken, the nonce
  search, and when the node's own block is one it accepts.
\<close>

section \<open>Ordering by fee\<close>

lemma mset_remove_nth: "i < length xs \<Longrightarrow> mset xs = add_mset (xs ! i) (mset (take i xs @ drop (i + 1) xs))"
  by (metis Suc_eq_plus1 id_take_nth_drop mset_append mset.simps(2) union_mset_add_mset_right)

text \<open>
  The transactions taken so far apply in their order, with the fees collected, and together with the
  pending ones they are the mempool.
\<close>

lemma prioritize_Inr:
  assumes "prioritize C pending c sel fees = Inr (sel', fees', c')"
    and "apply_transactions C sel 0 st = (Inr fees, c)"
  shows "apply_transactions C sel' 0 st = (Inr fees', c') \<and> mset sel' = mset sel + mset pending"
  using assms
proof (induction C pending c sel fees rule: prioritize.induct)
  case (1 C pending candidate selected fees)
  show ?case
  proof (cases "pending = []")
    case True
    with "1.prems" show ?thesis by (simp add: prioritize.simps [of C "[]"])
  next
    case False
    from False "1.prems"(1) obtain i sc where
      best: "best_scan C candidate 0 pending None = Inr (Some (i, sc))"
      by (subst (asm) prioritize.simps) (auto split: option.splits)
    from False "1.prems"(1) best obtain fee candidate' where
      ap: "apply_transaction C (pending ! i) candidate = (Inr fee, candidate')"
      by (subst (asm) prioritize.simps) (auto split: prod.splits sum.splits)
    have rec: "prioritize C (take i pending @ drop (i + 1) pending) candidate' (selected @ [pending ! i])
        (fees + fee) = Inr (sel', fees', c')"
      using False "1.prems"(1) best ap by (subst (asm) prioritize.simps) simp
    have i: "i < length pending" using best_scan_index [OF best] by simp
    have "apply_transactions C (selected @ [pending ! i]) 0 st = (Inr (fees + fee), candidate')"
      by (rule applicable_snoc [OF "1.prems"(2) ap])
    from "1.IH" [OF False best refl refl ap [symmetric] refl rec this] mset_remove_nth [OF i]
    show ?thesis by (auto simp: ac_simps)
  qed
qed

section \<open>The nonce search\<close>

text \<open>A block whose stored root is the root of its transactions.\<close>

definition rooted :: "crypto \<Rightarrow> consensus_block \<Rightarrow> bool" where
  "rooted C b \<longleftrightarrow> calculate_transaction_root C (blk_transactions b) = Inr (blk_transaction_root b)"

lemma new_block_no_root:
  assumes "new_block C b = Inr b'" and "blk_transaction_root b = []"
  shows "rooted C b'" and "\<exists>root. b' = b\<lparr>blk_transaction_root := root\<rparr>"
  using assms by (auto simp: new_block_def rooted_def)

text \<open>The next attempt only changes the nonce.\<close>

lemma next_attempt:
  assumes "rooted C b"
  shows "new_block C (b\<lparr>blk_nonce := k, blk_transaction_root := []\<rparr>) = Inr (b\<lparr>blk_nonce := k\<rparr>)"
  using assms by (simp add: new_block_def rooted_def)

text \<open>The first nonce, from the start, whose header hash meets the target.\<close>

definition meets :: "crypto \<Rightarrow> pystr \<Rightarrow> consensus_block \<Rightarrow> int \<Rightarrow> bool" where
  "meets C target b k \<longleftrightarrow> (\<exists>h. block_hash C (b\<lparr>blk_nonce := k\<rparr>) = Inr h \<and> starts_with target h)"

lemma mine_loop_Inr:
  assumes "mine_loop C target b = Inr b'" and "rooted C b"
  shows "\<exists>k \<ge> blk_nonce b. b' = b\<lparr>blk_nonce := k\<rparr> \<and> meets C target b k \<and>
    (\<forall>j. blk_nonce b \<le> j \<and> j < k \<longrightarrow> \<not> meets C target b j)"
  using assms
proof (induction C target b rule: mine_loop.induct)
  case (1 C target mined)
  from "1.prems"(1) obtain h where h: "block_hash C mined = Inr h"
    by (subst (asm) mine_loop.simps) auto
  show ?case
  proof (cases "starts_with target h")
    case True
    with "1.prems"(1) h have "b' = mined" by (subst (asm) mine_loop.simps) simp
    with True h show ?thesis by (intro exI [of _ "blk_nonce mined"]) (auto simp: meets_def)
  next
    case False
    let ?next = "mined\<lparr>blk_nonce := blk_nonce mined + 1\<rparr>"
    note nxt = next_attempt [OF "1.prems"(2), of "blk_nonce mined + 1"]
    have rec: "mine_loop C target ?next = Inr b'"
      using "1.prems"(1) h False nxt by (subst (asm) mine_loop.simps) simp
    have r: "rooted C ?next" using "1.prems"(2) by (simp add: rooted_def)
    from "1.IH" [OF h False nxt rec r] obtain k where
      k: "k \<ge> blk_nonce mined + 1" "b' = mined\<lparr>blk_nonce := k\<rparr>" "meets C target mined k"
        "\<forall>j. blk_nonce mined + 1 \<le> j \<and> j < k \<longrightarrow> \<not> meets C target mined j"
      by (auto simp: meets_def)
    have "\<not> meets C target mined (blk_nonce mined)" using h False by (simp add: meets_def)
    moreover have "j = blk_nonce mined \<or> blk_nonce mined + 1 \<le> j" if "blk_nonce mined \<le> j" for j using that by linarith
    ultimately have "\<forall>j. blk_nonce mined \<le> j \<and> j < k \<longrightarrow> \<not> meets C target mined j" using k(4) by metis
    with k(1-3) show ?thesis by (intro exI [of _ k]) auto
  qed
qed

lemma header_nonce_overflow:
  assumes "header_ok (b\<lparr>blk_nonce := 0\<rparr>)" and "2 ^ 63 \<le> blk_nonce b"
  shows "header_bytes b = Inl StructError"
proof -
  have "encode_int (blk_nonce b) = Inl StructError" using assms(2) by (simp add: encode_int_def pack_q_def)
  with header_bytes_total [OF assms(1)] show ?thesis by (auto simp: header_bytes_def)
qed

text \<open>The search gives up only when every nonce a header can carry has been tried.\<close>

lemma mine_loop_Inl:
  assumes "mine_loop C target b = Inl e" and "rooted C b" and "header_ok (b\<lparr>blk_nonce := 0\<rparr>)"
    and "- (2 ^ 63) \<le> blk_nonce b"
  shows "e = StructError \<and> (\<forall>j. blk_nonce b \<le> j \<and> j < 2 ^ 63 \<longrightarrow> \<not> meets C target b j)"
  using assms
proof (induction C target b rule: mine_loop.induct)
  case (1 C target mined)
  show ?case
  proof (cases "blk_nonce mined < 2 ^ 63")
    case False
    then have "block_hash C mined = Inl StructError"
      using header_nonce_overflow [OF "1.prems"(3)] by (simp add: block_hash_def)
    with "1.prems"(1) False show ?thesis by (subst (asm) mine_loop.simps) auto
  next
    case True
    then have "header_ok mined" using "1.prems"(3,4) by (simp add: header_ok_def int64_ok_def)
    from header_bytes_total [OF this] obtain h where h: "block_hash C mined = Inr h" by (auto simp: block_hash_def)
    have nm: "\<not> starts_with target h" using "1.prems"(1) h by (subst (asm) mine_loop.simps) (auto split: if_splits)
    let ?next = "mined\<lparr>blk_nonce := blk_nonce mined + 1\<rparr>"
    note nxt = next_attempt [OF "1.prems"(2), of "blk_nonce mined + 1"]
    have rec: "mine_loop C target ?next = Inl e"
      using "1.prems"(1) h nm nxt by (subst (asm) mine_loop.simps) simp
    have "e = StructError \<and> (\<forall>j. blk_nonce mined + 1 \<le> j \<and> j < 2 ^ 63 \<longrightarrow> \<not> meets C target mined j)"
      using "1.IH" [OF h nm nxt rec] "1.prems"(2-4) by (simp add: rooted_def meets_def)
    moreover have "\<not> meets C target mined (blk_nonce mined)" using h nm by (simp add: meets_def)
    moreover have "j = blk_nonce mined \<or> blk_nonce mined + 1 \<le> j" if "blk_nonce mined \<le> j" for j using that by linarith
    ultimately show ?thesis by metis
  qed
qed

section \<open>The node's own blocks\<close>

text \<open>A well-formed reward with a fresh outpoint is refused only by the supply limit.\<close>

lemma mint_total:
  assumes "state_ok st" and "txid C tx = Inr t" and "tx_outputs tx \<noteq> []"
    and "\<And>o1. o1 \<in> fst ` set (created C tx) \<Longrightarrow> map_of (cs_utxos st) o1 = None"
    and "utxo_total (cs_utxos st) + output_total tx \<le> cs_max_money st"
  shows "\<exists>u. add_outputs C tx (cs_utxos st) = Inr u \<and> require_supply st u = Inr ()"
proof -
  have d: "dict_ok (cs_utxos st)" using assms(1) by simp
  from utxo_store.add_list_total [OF d distinct_created [of C tx]] assms(4) obtain u where
    u: "add_outputs C tx (cs_utxos st) = Inr u" by (auto simp: add_outputs_created [OF assms(2)])
  moreover have "utxo_total u \<le> cs_max_money st"
    using add_outputs_Inr(5) [OF u d assms(3)] assms(5) by simp
  ultimately show ?thesis by (simp add: require_supply_def)
qed

lemma reward_total:
  assumes "state_ok st" and "reward_valid st (cs_block_subsidy st + fees) tx" and "0 \<le> fees"
    and "txid C tx = Inr t" and "\<And>o1. o1 \<in> fst ` set (created C tx) \<Longrightarrow> map_of (cs_utxos st) o1 = None"
    and "utxo_total (cs_utxos st) + output_total tx \<le> cs_max_money st" and "tx = hd (blk_transactions b)"
  shows "\<exists>st'. apply_first_transaction C b fees st = (Inr (), st')"
proof -
  have v: "outputs_valid st tx" "is_coinbase tx" "\<not> input_is_signed (tx_inputs tx ! 0)"
      "output_total tx \<le> cs_block_subsidy st + fees"
    using assms(2) is_coinbase_inputs [of tx] by (auto simp: reward_valid_def)
  from mint_total [OF assms(1,4) _ assms(5,6)] v(1) obtain u where
    u: "add_outputs C tx (cs_utxos st) = Inr u" "require_supply st u = Inr ()"
    by (auto simp: outputs_valid_def)
  have "validate_outputs st (tx_outputs tx) = Inr ()" "validate_transaction_version tx = Inr ()"
    using v(1) by (auto simp: outputs_valid_def validate_outputs_iff)
  with v u assms(1,3) show ?thesis
    by (auto simp: apply_first_transaction_def apply_genesis_coinbase_def apply_block_coinbase_def
        assms(7) [symmetric] simp del: validate_version_iff)
qed

lemma utxo_total_nonneg: "state_ok st \<Longrightarrow> 0 \<le> utxo_total (cs_utxos st)"
  by (auto simp: state_ok_def utxo_total_def list_all_iff coin_ok_def intro!: sum_list_nonneg)
     fastforce

lemma build_candidate_Inr:
  assumes "state_ok (nd_state n)" and "build_candidate_block C n addr now = Inr b"
  obtains txs fees st1 coinbase height tip where
    "apply_transactions C txs 0 (nd_state n) = (Inr fees, st1)" and "mset txs = mset (nd_mempool n)"
    and "node_height C n = Inr height" and "tip_hash C n = Inr tip"
    and "create_coinbase st1 addr fees (height + 1) = Inr coinbase"
    and "blk_height b = height + 1" and "blk_previous_hash b = tip" and "blk_transactions b = coinbase # txs"
    and "blk_difficulty b = nd_difficulty n" and "blk_version b = 1" and "blk_nonce b = 0" and "rooted C b"
proof -
  from assms obtain txs fees st1 height tip coinbase where
    p: "prioritize C (nd_mempool n) (nd_state n) [] 0 = Inr (txs, fees, st1)"
    and q: "node_height C n = Inr height" "tip_hash C n = Inr tip"
      "create_coinbase st1 addr fees (height + 1) = Inr coinbase"
    and b: "new_block C \<lparr>blk_height = height + 1, blk_previous_hash = tip,
            blk_transactions = coinbase # txs, blk_difficulty = nd_difficulty n,
            blk_timestamp = now, blk_nonce = 0, blk_transaction_root = [], blk_version = 1\<rparr> = Inr b"
    by (auto simp: build_candidate_block_def split: if_splits)
  have "apply_transactions C txs 0 (nd_state n) = (Inr fees, st1)" "mset txs = mset (nd_mempool n)"
    using prioritize_Inr [OF p, of "nd_state n"] by auto
  moreover have "rooted C b" using new_block_no_root(1) [OF b] by simp
  ultimately show ?thesis using that [of txs fees st1 height tip coinbase] q new_block_fields [OF b] by simp
qed

text \<open>
  The candidate after its nonce is found: accepted on the active state exactly when it pays anything,
  the output of its coinbase is new, and the subsidy fits under the supply limit. The node itself
  compares the limit with the total left after the fees were taken out, and checks neither of the other
  two, so it builds candidates for which this fails.
\<close>

definition reward_fresh :: "crypto \<Rightarrow> consensus_state \<Rightarrow> consensus_block \<Rightarrow> bool" where
  "reward_fresh C st b \<longleftrightarrow>
     (case (txid C (hd (blk_transactions b)), apply_transactions C (tl (blk_transactions b)) 0 st) of
        (Inr t, (Inr fees, st1)) \<Rightarrow> map_of (cs_utxos st1) (OutPoint t 0) = None
      | _ \<Rightarrow> False)"

lemma first_transaction_outputs:
  "state_ok st \<Longrightarrow> apply_first_transaction C b fees st = (Inr y, st') \<Longrightarrow> outputs_valid st (hd (blk_transactions b))"
  using apply_genesis(1) apply_reward(1)
  by (fastforce simp: apply_first_transaction_def reward_valid_def split: if_splits)

lemma mined_block_accepted:
  assumes ok: "state_ok (nd_state n)" "list_all (\<lambda>tx. \<not> is_coinbase tx) (nd_mempool n)" "0 \<le> nd_difficulty n"
    and build: "build_candidate_block C n addr now = Inr b" and mined: "mine C b = Inr b'"
  shows "(\<exists>fees st'. apply_block C b' (blk_height b') (blk_previous_hash b') (nd_state n) = (Inr fees, st')) \<longleftrightarrow>
    0 < output_total (hd (blk_transactions b)) \<and> reward_fresh C (nd_state n) b \<and>
    utxo_total (cs_utxos (nd_state n)) + cs_block_subsidy (nd_state n) \<le> cs_max_money (nd_state n)"
proof -
  obtain txs fees st1 coinbase height where
    txs: "apply_transactions C txs 0 (nd_state n) = (Inr fees, st1)" "mset txs = mset (nd_mempool n)"
    and cb: "create_coinbase st1 addr fees (height + 1) = Inr coinbase"
    and b: "blk_transactions b = coinbase # txs" "blk_difficulty b = nd_difficulty n" "blk_version b = 1" "rooted C b"
    by (rule build_candidate_Inr [OF ok(1) build])
  from mine_loop_Inr [OF mined [unfolded mine_def] b(4)] obtain k where
    b': "b' = b\<lparr>blk_nonce := k\<rparr>" "meets C (replicate (nat (blk_difficulty b)) 48) b k" by blast
  have nc: "list_all (\<lambda>tx. \<not> is_coinbase tx) txs"
    using ok(2) txs(2) unfolding list_all_iff by (metis set_mset_mset)
  note run = apply_transactions_Inr [OF ok(1) nc txs(1)]
  from cb have c: "is_valid_address addr" "0 \<le> fees"
      "coinbase = \<lparr>tx_inputs = [unsigned_input (OutPoint COINBASE_PREV_TXID (- (height + 1 + 1)))],
         tx_outputs = [\<lparr>out_amount = cs_block_subsidy st1 + fees, out_address = addr\<rparr>], tx_version = 1\<rparr>" "0 \<le> height + 1"
    by (auto simp: create_coinbase_def split: if_splits)
  have isc: "is_coinbase coinbase" using c(3,4) by (simp add: is_coinbase_def unsigned_input_def)
  have tot: "output_total coinbase = cs_block_subsidy st1 + fees" by (simp add: c(3) output_total_def)
  have head: "check_header C b' (blk_height b') (blk_previous_hash b') = Inr ()" "check_body C b' = Inr ()"
    using b(1,4) b'(1) isc nc b(2,3) b'(2) ok(3)
    by (simp_all add: check_header_iff check_body_iff meets_def rooted_def)
  have total: "utxo_total (cs_utxos st1) + output_total coinbase = utxo_total (cs_utxos (nd_state n)) + cs_block_subsidy (nd_state n)"
    using run tot by simp
  obtain t where t: "txid C coinbase = Inr t"
    using b(1,4) by (auto simp: rooted_def calculate_transaction_root_def)
  show ?thesis
  proof
    assume "\<exists>fees st'. apply_block C b' (blk_height b') (blk_previous_hash b') (nd_state n) = (Inr fees, st')"
    then obtain f st' where "block_applies C b' (blk_height b') (blk_previous_hash b') (nd_state n) f st'"
      by (auto simp: apply_block_Inr_iff [OF ok(1)])
    then have first: "apply_first_transaction C b' fees st1 = (Inr (), st')"
      using txs(1) b(1) b'(1) by (auto simp: block_applies_def)
    then have "mints C coinbase st1 st'"
      using first_transaction_mints(1) [of st1 C b' fees "()" st'] run b(1) b'(1) by simp
    note m = this
    have "outputs_valid st1 coinbase"
      using first_transaction_outputs [OF _ first] run b(1) b'(1) by simp
    then have "0 < output_total coinbase" by (simp add: outputs_valid_def c(3) output_total_def)
    moreover have "reward_fresh C (nd_state n) b"
      using m t txs(1) b(1) c(3) by (simp add: reward_fresh_def mints_def created_def)
    moreover have "utxo_total (cs_utxos (nd_state n)) + cs_block_subsidy (nd_state n) \<le> cs_max_money (nd_state n)"
      using m total run by (simp add: mints_def state_ok_def)
    ultimately show "0 < output_total (hd (blk_transactions b)) \<and> reward_fresh C (nd_state n) b \<and>
        utxo_total (cs_utxos (nd_state n)) + cs_block_subsidy (nd_state n) \<le> cs_max_money (nd_state n)"
      using b(1) by simp
  next
    assume r: "0 < output_total (hd (blk_transactions b)) \<and> reward_fresh C (nd_state n) b \<and>
        utxo_total (cs_utxos (nd_state n)) + cs_block_subsidy (nd_state n) \<le> cs_max_money (nd_state n)"
    then have cap: "utxo_total (cs_utxos (nd_state n)) + cs_block_subsidy (nd_state n) \<le> cs_max_money (nd_state n)" by simp
    have fr: "0 < cs_block_subsidy st1 + fees" "map_of (cs_utxos st1) (OutPoint t 0) = None"
      using r t txs(1) b(1) tot by (simp_all add: reward_fresh_def)
    have "0 \<le> utxo_total (cs_utxos st1)"
      using run utxo_total_nonneg by blast
    with cap total tot run have "cs_block_subsidy st1 + fees \<le> cs_max_money st1" by simp
    with c fr(1) isc tot have "reward_valid st1 (cs_block_subsidy st1 + fees) coinbase"
      by (simp add: reward_valid_def outputs_valid_def input_is_signed_def unsigned_input_def)
    note rv = this
    have fresh': "\<And>o1. o1 \<in> fst ` set (created C coinbase) \<Longrightarrow> map_of (cs_utxos st1) o1 = None"
      using fr(2) t c(3) by (simp add: created_def)
    have room: "utxo_total (cs_utxos st1) + output_total coinbase \<le> cs_max_money st1" using run total cap by simp
    have hd: "coinbase = hd (blk_transactions b')" using b(1) b'(1) by simp
    obtain st' where "apply_first_transaction C b' fees st1 = (Inr (), st')"
      using reward_total [OF _ rv c(2) t fresh' room hd] run by blast
    then have "block_applies C b' (blk_height b') (blk_previous_hash b') (nd_state n) fees st'"
      using head txs(1) b(1) b'(1) by (auto simp: block_applies_def)
    then show "\<exists>fees st'. apply_block C b' (blk_height b') (blk_previous_hash b') (nd_state n) = (Inr fees, st')"
      using apply_block_Inr_iff [OF ok(1)] by blast
  qed
qed

end
