(* ===== verification/Spending_Laws.thy ===== *)
theory Spending_Laws
  imports Mempool_Laws
begin

text \<open>
  Lemmas on transaction construction: coin selection, signing every input, and that what
  \<^verbatim>\<open>create_transaction\<close> returns is a valid transfer with the requested amount and fee.
\<close>

section \<open>Coin selection\<close>

abbreviation amounts :: "utxo list \<Rightarrow> int" where
  "amounts es \<equiv> sum_list (map (\<lambda>e. out_amount (utxo_output e)) es)"

lemma select_utxos_spec:
  assumes "select_utxos needed es sel acc = (sel', tot)" and "acc < needed"
  shows "\<exists>k \<le> length es. sel' = sel @ take k es \<and> tot = acc + amounts (take k es) \<and>
    (needed \<le> tot \<or> k = length es)"
  using assms
proof (induction es arbitrary: sel acc)
  case Nil
  then show ?case by simp
next
  case (Cons e es)
  show ?case
  proof (cases "acc + out_amount (utxo_output e) \<ge> needed")
    case True
    with Cons.prems show ?thesis by (intro exI [of _ 1]) (auto simp: Let_def)
  next
    case False
    with Cons.prems have "select_utxos needed es (sel @ [e]) (acc + out_amount (utxo_output e)) = (sel', tot)"
      by (simp add: Let_def)
    from Cons.IH [OF this] False obtain k where "k \<le> length es" "sel' = (sel @ [e]) @ take k es"
      "tot = acc + out_amount (utxo_output e) + amounts (take k es)" "needed \<le> tot \<or> k = length es" by auto
    then show ?thesis by (intro exI [of _ "Suc k"]) auto
  qed
qed

lemma amounts_split: "amounts (filter P es) + amounts (filter (\<lambda>e. \<not> P e) es) = amounts es"
  by (induction es) simp_all

section \<open>Signing\<close>

lemma sign_prefix:
  assumes "ed25519_ok C" and "ed25519_secret_ok C raw" and "wallet_create C bits raw = Inr w"
    and "wallet_address C w = Inr addr"
    and "rfold (\<lambda>i tx. sign_input C tx (int i) w) [0..<m] tx = Inr tx'" and "m \<le> length (tx_inputs tx)"
  shows "map in_previous_output (tx_inputs tx') = map in_previous_output (tx_inputs tx) \<and>
    tx_outputs tx' = tx_outputs tx \<and> tx_version tx' = tx_version tx \<and>
    (\<forall>k < m. \<forall>prev. out_address prev = addr \<longrightarrow> authorizes C tx' (int k) (tx_inputs tx' ! k) prev)"
  using assms(5,6)
proof (induction m arbitrary: tx')
  case 0
  then show ?case by simp
next
  case (Suc m)
  from Suc.prems(1) obtain tx1 where
    run: "rfold (\<lambda>i tx. sign_input C tx (int i) w) [0..<m] tx = Inr tx1" and s: "sign_input C tx1 (int m) w = Inr tx'"
    by (auto simp: rfold_append)
  from Suc.IH [OF run] Suc.prems(2) have ih:
    "map in_previous_output (tx_inputs tx1) = map in_previous_output (tx_inputs tx)"
    "tx_outputs tx1 = tx_outputs tx" "tx_version tx1 = tx_version tx"
    "\<forall>k < m. \<forall>prev. out_address prev = addr \<longrightarrow> authorizes C tx1 (int k) (tx_inputs tx1 ! k) prev" by auto
  note p = sign_input_previous_outputs [OF s]
  have len: "length (tx_inputs tx1) = length (tx_inputs tx)" using arg_cong [OF ih(1), of length] by simp
  have "authorizes C tx' (int k) (tx_inputs tx' ! k) prev" if k: "k < Suc m" and a: "out_address prev = addr" for k prev
  proof -
    note e = sign_input_effect [OF assms(1-3) _ s, of prev, unfolded a, OF assms(4)]
    show ?thesis
    proof (cases "k = m")
      case True
      with e(1) show ?thesis by simp
    next
      case False
      with k ih(4) a have "authorizes C tx1 (int k) (tx_inputs tx1 ! k) prev" by simp
      moreover have "tx_inputs tx' ! k = tx_inputs tx1 ! k" using e(3) False k len Suc.prems(2) by simp
      ultimately show ?thesis using e(2) by (simp add: authorizes_def)
    qed
  qed
  with p ih show ?case by simp
qed

lemma sign_all_effect:
  assumes "ed25519_ok C" and "ed25519_secret_ok C raw" and "wallet_create C bits raw = Inr w"
    and "wallet_address C w = Inr addr" and "sign_all C w tx = Inr tx'"
  shows "map in_previous_output (tx_inputs tx') = map in_previous_output (tx_inputs tx)"
    and "tx_outputs tx' = tx_outputs tx" and "tx_version tx' = tx_version tx"
    and "k < length (tx_inputs tx) \<Longrightarrow> out_address prev = addr \<Longrightarrow> authorizes C tx' (int k) (tx_inputs tx' ! k) prev"
  using sign_prefix [OF assms(1-4) assms(5) [unfolded sign_all_def] le_refl] by blast+

section \<open>The transaction built\<close>

lemma create_transaction_Inr:
  assumes "create_transaction C n w recipient amount fee = Inr tx"
  obtains addr sel tot where "0 < amount" and "0 \<le> fee" and "is_valid_address recipient"
    and "wallet_address C w = Inr addr"
    and "select_utxos (amount + fee) (spendable_outputs n addr) [] 0 = (sel, tot)" and "amount + fee \<le> tot"
    and "sign_all C w \<lparr>tx_inputs = map (\<lambda>e. unsigned_input (utxo_outpoint e)) sel,
       tx_outputs = [\<lparr>out_amount = amount, out_address = recipient\<rparr>] @
         (if tot - (amount + fee) \<noteq> 0 then [\<lparr>out_amount = tot - (amount + fee), out_address = addr\<rparr>] else []),
       tx_version = 1\<rparr> = Inr tx"
proof -
  have a: "0 < amount" "0 \<le> fee" "is_valid_address recipient"
    using assms by (auto simp: create_transaction_def split: if_splits)
  obtain addr where addr: "wallet_address C w = Inr addr"
    using assms a by (auto simp: create_transaction_def)
  obtain sel tot where sel: "select_utxos (amount + fee) (spendable_outputs n addr) [] 0 = (sel, tot)" by fastforce
  have enough: "amount + fee \<le> tot"
    using assms a addr sel by (auto simp: create_transaction_def Let_def split: if_splits)
  show ?thesis
    by (rule that [OF a addr sel enough]) (use assms a addr sel enough in \<open>simp add: create_transaction_def Let_def\<close>)
qed

lemma chosen_coins:
  assumes "state_ok st" and "es = utxo_entries_for_address addr (cs_utxos st)" and "k \<le> length es"
  shows "distinct (map utxo_outpoint (take k es))"
    and "e \<in> set (take k es) \<Longrightarrow> map_of (cs_utxos st) (utxo_outpoint e) = Some (utxo_output e) \<and>
      out_address (utxo_output e) = addr \<and> 0 < out_amount (utxo_output e) \<and> 0 \<le> op_index (utxo_outpoint e)"
    and "amounts (take k es) \<le> utxo_total (cs_utxos st)"
proof -
  let ?all = "utxo_entries (cs_utxos st)"
  have es: "es = filter (\<lambda>e. out_address (utxo_output e) = addr) ?all"
    using assms(2) by (simp add: utxo_entries_for_address_def)
  have d: "distinct (map utxo_outpoint es)"
    using distinct_utxo_entries [OF state_ok_dict [OF assms(1)]] es by (simp add: distinct_map_filter)
  then show "distinct (map utxo_outpoint (take k es))" by (simp add: take_map [symmetric])
  have mem: "map_of (cs_utxos st) (utxo_outpoint e) = Some (utxo_output e) \<and> out_address (utxo_output e) = addr \<and>
    0 < out_amount (utxo_output e) \<and> 0 \<le> op_index (utxo_outpoint e)" if "e \<in> set es" for e
    using that mem_entries_for_address [OF state_ok_dict [OF assms(1)], of e addr] assms(2)
      state_ok_coin [OF assms(1), of "utxo_outpoint e" "utxo_output e"] by (auto simp: coin_ok_def)
  then show "e \<in> set (take k es) \<Longrightarrow> map_of (cs_utxos st) (utxo_outpoint e) = Some (utxo_output e) \<and>
      out_address (utxo_output e) = addr \<and> 0 < out_amount (utxo_output e) \<and> 0 \<le> op_index (utxo_outpoint e)"
    by (auto dest: in_set_takeD)
  have "0 \<le> amounts (drop k es)" using mem by (fastforce intro: sum_list_nonneg dest: in_set_dropD)
  moreover have "amounts es = amounts (take k es) + amounts (drop k es)"
    by (metis append_take_drop_id map_append sum_list_append)
  moreover have "amounts es + amounts (filter (\<lambda>e. out_address (utxo_output e) \<noteq> addr) ?all) = amounts ?all"
    unfolding es by (rule amounts_split)
  moreover have "0 \<le> amounts (filter (\<lambda>e. out_address (utxo_output e) \<noteq> addr) ?all)"
    using assms(1) by (fastforce intro!: sum_list_nonneg simp: set_utxo_entries state_ok_def list_all_iff coin_ok_def)
  ultimately show "amounts (take k es) \<le> utxo_total (cs_utxos st)"
    using sum_utxo_entries [of "cs_utxos st"] by simp
qed

lemma create_transaction_valid:
  assumes C: "ed25519_ok C" "ed25519_secret_ok C raw" "wallet_create C bits raw = Inr w"
    and addr_ok: "\<And>a. wallet_address C w = Inr a \<Longrightarrow> is_valid_address a"
    and st: "state_ok (nd_state n)" and run: "create_transaction C n w recipient amount fee = Inr tx"
  shows "transfer_valid C (nd_state n) tx" and "input_value (nd_state n) tx - output_total tx = fee"
    and "hd (tx_outputs tx) = \<lparr>out_amount = amount, out_address = recipient\<rparr>"
proof -
  obtain addr sel tot where a: "0 < amount" "0 \<le> fee" "is_valid_address recipient"
    and addr: "wallet_address C w = Inr addr"
    and sel: "select_utxos (amount + fee) (spendable_outputs n addr) [] 0 = (sel, tot)" and enough: "amount + fee \<le> tot"
    and sign: "sign_all C w \<lparr>tx_inputs = map (\<lambda>e. unsigned_input (utxo_outpoint e)) sel,
       tx_outputs = [\<lparr>out_amount = amount, out_address = recipient\<rparr>] @
         (if tot - (amount + fee) \<noteq> 0 then [\<lparr>out_amount = tot - (amount + fee), out_address = addr\<rparr>] else []),
       tx_version = 1\<rparr> = Inr tx"
    by (rule create_transaction_Inr [OF run])
  let ?es = "spendable_outputs n addr"
  from select_utxos_spec [OF sel] a obtain k where
    k: "k \<le> length ?es" "sel = take k ?es" "tot = amounts sel" by auto
  note ch = chosen_coins [OF st spendable_outputs_def k(1), folded k(2)]
  note s = sign_all_effect [OF C addr sign]
  have prev: "map in_previous_output (tx_inputs tx) = map utxo_outpoint sel"
    using s(1) by (simp add: comp_def unsigned_input_def)
  have len: "length (tx_inputs tx) = length sel" using arg_cong [OF prev, of length] by simp
  have nth: "in_previous_output (tx_inputs tx ! i) = utxo_outpoint (sel ! i)" if "i < length sel" for i
    using arg_cong [OF prev, of "\<lambda>xs. xs ! i"] that len by simp
  have ne: "sel \<noteq> []" using enough a k(3) by auto
  have in_val: "input_value (nd_state n) tx = tot"
  proof -
    have "input_value (nd_state n) tx = sum_list (map (\<lambda>o1. out_amount (the (map_of (cs_utxos (nd_state n)) o1)))
        (map in_previous_output (tx_inputs tx)))" by (simp add: input_value_def comp_def)
    also have "\<dots> = amounts sel" unfolding prev using ch(2) by (simp add: comp_def cong: map_cong)
    finally show ?thesis using k(3) by simp
  qed
  have out_val: "output_total tx = tot - fee" using s(2) by (auto simp: output_total_def)
  have "tot \<le> cs_max_money (nd_state n)" using ch(3) k(3) st by (simp add: state_ok_def)
  then have ov: "outputs_valid (nd_state n) tx"
    using s(2,3) a enough addr_ok [OF addr] by (auto simp: outputs_valid_def)
  have nc: "\<not> is_coinbase tx"
    using ch(2) [of "sel ! 0"] nth [of 0] len ne by (cases "tx_inputs tx") (auto simp: is_coinbase_def split: list.splits)
  have auth: "\<exists>prev. map_of (cs_utxos (nd_state n)) (in_previous_output (tx_inputs tx ! i)) = Some prev \<and>
      authorizes C tx (int i) (tx_inputs tx ! i) prev" if "i < length (tx_inputs tx)" for i
    using ch(2) [of "sel ! i"] s(4) [of i "utxo_output (sel ! i)"] nth [of i] that len by auto
  show "transfer_valid C (nd_state n) tx"
    using ov nc ne len prev ch(1) auth in_val out_val a(2) by (auto simp: transfer_valid_def)
  show "input_value (nd_state n) tx - output_total tx = fee" using in_val out_val by simp
  show "hd (tx_outputs tx) = \<lparr>out_amount = amount, out_address = recipient\<rparr>" using s(2) by simp
qed

end
