(* ===== verification/Node_Samples.thy ===== *)
theory Node_Samples
  imports Samples Node_Laws Mining_Laws Spending_Laws
begin

text \<open>
  A concrete block database and node for the witnesses, built by the model's own operations from the
  sample chain.
\<close>

section \<open>Databases\<close>

lemma put_block_total:
  assumes "block_ok b" and "block_hash C b = Inr h" and "\<not> has_block s h" and "block_work C s b = Inr cw"
    and "int64_ok cw"
  shows "\<exists>s'. put_block C b s = (Inr \<lparr>sb_block = b, sb_cumulative_work = cw\<rparr>, s')"
proof -
  obtain p where "encode_consensus_block b = Inr p" using encode_consensus_block_total [OF assms(1)] by blast
  moreover have "int64_ok (blk_height b)" "int64_ok (blk_difficulty b)" using assms(1) by (auto simp: block_ok_def header_ok_def)
  ultimately show ?thesis
    using assms(2-5) by (auto simp: put_block_def sql_int_def int64_ok_def tbl_insert_def has_block_def map_of_eq_None_iff)
qed

definition empty_store :: fork_store where
  "empty_store = \<lparr>fs_schema_version = Some 1, fs_parameters = None, fs_chain_id = None, fs_blocks = []\<rparr>"

definition store0 :: fork_store where
  "store0 = snd (put_block toy genesis_block empty_store)"

definition store1 :: fork_store where
  "store1 = snd (put_block toy block1 store0)"

definition sample_fc :: fork_choice where
  "sample_fc = \<lparr>fc_block_subsidy = 50, fc_max_money = 1000\<rparr>"

lemma empty_store_ok: "store_ok toy empty_store" "branches_ok toy sample_fc empty_store"
  by (simp_all add: store_ok_def branches_ok_def empty_store_def sample_fc_def)

lemma sample_put0: "put_block toy genesis_block empty_store = (Inr \<lparr>sb_block = genesis_block, sb_cumulative_work = 1\<rparr>, store0)"
proof -
  have "block_work toy empty_store genesis_block = Inr 1"
    by (simp add: block_work_def work_for_def genesis_block_def)
  from put_block_total [OF sample_block_ok(1) sample_hashes(1) _ this] show ?thesis
    by (auto simp: has_block_def empty_store_def store0_def int64_ok_def)
qed

lemma genesis_ne: "genesis_hash \<noteq> block1_hash"
  by code_simp

lemma store0_ok: "store_ok toy store0" "get_block toy store0 genesis_hash = Inr \<lparr>sb_block = genesis_block, sb_cumulative_work = 1\<rparr>"
    "map_of (fs_blocks store0) h \<noteq> None \<longleftrightarrow> h = genesis_hash"
proof -
  note p = put_block_ok [OF empty_store_ok(1) sample_block_ok(1) sample_put0]
  show "store_ok toy store0" "get_block toy store0 genesis_hash = Inr \<lparr>sb_block = genesis_block, sb_cumulative_work = 1\<rparr>"
    using p(1,3) sample_hashes(1) by auto
  show "map_of (fs_blocks store0) h \<noteq> None \<longleftrightarrow> h = genesis_hash"
    using p(3) sample_hashes(1) by (cases "h = genesis_hash") (auto simp: empty_store_def get_block_def split: option.splits)
qed

lemma sample_put1: "put_block toy block1 store0 = (Inr \<lparr>sb_block = block1, sb_cumulative_work = 2\<rparr>, store1)"
proof -
  have "block_work toy store0 block1 = Inr 2"
    using store0_ok(2) by (simp add: block_work_def work_for_def block1_def genesis_block_def)
  from put_block_total [OF sample_block_ok(2) sample_hashes(2) _ this] store0_ok(3) [of block1_hash] genesis_ne show ?thesis
    by (auto simp: has_block_def store1_def int64_ok_def)
qed

lemma sample_apply_blocks:
  "apply_block toy genesis_block 0 ZERO_HASH empty_state = (Inr 0, genesis_state)"
  "apply_block toy block1 1 genesis_hash genesis_state = (Inr 1, block1_state)"
  using sample_block_applies apply_block_Inr_iff sample_states by blast+

lemma sample_rebuild0: "rebuild_state_from_blocks toy [genesis_block] 50 1000 = Inr genesis_state"
  using sample_new_state sample_apply_blocks(1) sample_hashes(1) by (simp add: rebuild_state_from_blocks_def)

lemma store0_branches: "branches_ok toy sample_fc store0"
proof (rule put_keeps_branches_ok [OF empty_store_ok(2) sample_block_ok(1) sample_put0])
  show "extends_valid_branch toy sample_fc empty_store genesis_block"
    using sample_new_state sample_apply_blocks(1) by (simp add: extends_valid_branch_def sample_fc_def genesis_block_def)
qed

lemma store0_tip: "fc_chain_to_tip toy sample_fc store0 genesis_hash =
  Inr \<lparr>ac_blocks = [genesis_block], ac_state = genesis_state, ac_cumulative_work = 1\<rparr>"
proof -
  have "branch toy store0 genesis_hash [\<lparr>sb_block = genesis_block, sb_cumulative_work = 1\<rparr>]"
    using branch_genesis [OF store0_ok(2)] by (simp add: genesis_block_def)
  from chain_to_tip_branch [OF store0_ok(1) this] sample_rebuild0 show ?thesis
    by (simp add: fc_chain_to_tip_def validate_stored_chain_def sample_fc_def)
qed

lemma store0_nonempty: "fs_blocks store0 \<noteq> []"
  using store0_ok(3) [of genesis_hash] by auto

lemma store0_active: "fc_active_chain toy sample_fc store0 =
  Inr \<lparr>ac_blocks = [genesis_block], ac_state = genesis_state, ac_cumulative_work = 1\<rparr>"
  and store0_best: "best_tip toy store0 = Inr (Some \<lparr>sb_block = genesis_block, sb_cumulative_work = 1\<rparr>)"
proof -
  obtain a p where a: "fc_active_chain toy sample_fc store0 = Inr a" "p \<in> set (fs_blocks store0)"
    "fc_chain_to_tip toy sample_fc store0 (fst p) = Inr a"
    "best_tip toy store0 = Inr (Some \<lparr>sb_block = last (ac_blocks a), sb_cumulative_work = ac_cumulative_work a\<rparr>)"
    by (rule active_chain_best [OF store0_branches store0_nonempty]) blast
  have "map_of (fs_blocks store0) (fst p) \<noteq> None" using a(2) by (metis map_of_eq_None_iff image_eqI)
  then have "fst p = genesis_hash" using store0_ok(3) by blast
  with a store0_tip have "a = \<lparr>ac_blocks = [genesis_block], ac_state = genesis_state, ac_cumulative_work = 1\<rparr>" by simp
  with a show "fc_active_chain toy sample_fc store0 =
      Inr \<lparr>ac_blocks = [genesis_block], ac_state = genesis_state, ac_cumulative_work = 1\<rparr>"
    "best_tip toy store0 = Inr (Some \<lparr>sb_block = genesis_block, sb_cumulative_work = 1\<rparr>)" by simp_all
qed

section \<open>A node\<close>

definition node0 :: consensus_node where
  "node0 = \<lparr>nd_store = store0, nd_state = genesis_state, nd_difficulty = 0, nd_mempool_store = None,
     nd_invalid_blocks = Some \<lparr>ic_schema_version = Some 1, ic_rows = []\<rparr>, nd_policy = default_policy,
     nd_last_reorg = None, nd_mempool = [], nd_fork_choice = sample_fc, nd_utxo_index = None\<rparr>"

lemma node0_ok: "node_ok toy node0"
  using store0_branches sample_states(2) store0_active
  by (auto simp: node_ok_def node0_def sample_fc_def genesis_state_def)

lemma node0_mempool_ok: "mempool_ok toy node0"
  by (simp add: mempool_ok_def node0_def default_policy_def)

lemma sample_validates: "validate_import_candidate toy node0 block1 = Inr ()"
  using store0_tip sample_apply_blocks(2)
  by (simp add: validate_import_candidate_def node0_def block1_def)

text \<open>Importing the sample block succeeds.\<close>

lemma sample_import: "\<exists>n'. import_block toy rt block1 node0 = (Inr \<lparr>sb_block = block1, sb_cumulative_work = 2\<rparr>, n') \<and>
  nd_fork_choice n' = sample_fc"
proof -
  let ?sb = "\<lparr>sb_block = block1, sb_cumulative_work = 2\<rparr>"
  let ?n1 = "node0\<lparr>nd_store := store1\<rparr>"
  have vs: "validate_and_store toy rt block1 block1_hash node0 = (Inr ?sb, ?n1)"
    using sample_validates sample_put1 by (simp add: validate_and_store_def obind_def put_in_store_def node0_def)
  note e = import_stored_branches [OF node0_ok sample_block_ok(2) vs]
  obtain a where a: "fc_active_chain toy sample_fc store1 = Inr a"
    using active_chain_total [OF e(1)] by (auto simp: node0_def)
  have st: "store_ok toy store1" using e(1) by (simp add: branches_ok_def node0_def)
  have ne: "fs_blocks store1 \<noteq> []"
    using e(3) by (auto simp: node0_def get_block_def)
  obtain a' where "best_tip toy store1 = Inr (Some \<lparr>sb_block = last (ac_blocks a'), sb_cumulative_work = ac_cumulative_work a'\<rparr>)"
    "fc_active_chain toy sample_fc store1 = Inr a'"
    using e(1) by (auto simp: node0_def intro: active_chain_best [OF _ ne])
  with a have best: "best_tip toy store1 = Inr (Some \<lparr>sb_block = last (ac_blocks a), sb_cumulative_work = ac_cumulative_work a\<rparr>)" by simp
  obtain h where h: "block_hash toy (last (ac_blocks a)) = Inr h"
    by (rule best_tip_hash [OF st best]) simp
  have sok: "state_ok (ac_state a)" using active_state_ok(1) [of toy sample_fc store1 a] e(1) a by (simp add: node0_def)
  have "import_block toy rt block1 node0 = obind (validate_and_store toy rt block1 block1_hash)
      (after_store toy (Some \<lparr>sb_block = genesis_block, sb_cumulative_work = 1\<rparr>) block1) node0"
    using store0_best sample_hashes(2)
    by (simp add: import_block_def obind_def after_store_def [abs_def] node0_def is_invalid_def)
  also have "\<dots> = (Inr ?sb, ?n1\<lparr>nd_state := ac_state a,
      nd_last_reorg := projr (detect_reorg toy (Some genesis_block) (ac_tip a))\<rparr>)"
    using vs a h sok sample_hashes(1) sample_txids
    by (auto simp: obind_def after_store_def activate_def detect_reorg_def refresh_index_def drop_included_def
        prune_invalid_mempool_def persist_mempool_def node0_def ac_tip_def block1_def)
  finally show ?thesis by (simp add: node0_def)
qed

text \<open>The header of the sample block with no transactions is refused.\<close>

lemma block_hash_body: "block_hash C (b\<lparr>blk_transactions := txs\<rparr>) = block_hash C b"
  by (simp add: block_hash_def header_bytes_def)

lemma sample_forged:
  "\<exists>e. validate_import_candidate toy node0 (block1\<lparr>blk_transactions := []\<rparr>) = Inl e \<and>
     sql_text (exn_text rt e) = Inr (exn_text rt e)"
proof -
  have "check_header toy (block1\<lparr>blk_transactions := []\<rparr>) 1 genesis_hash = Inr ()"
    using sample_block_applies(2) by (simp add: block_applies_def check_header_iff block_hash_body)
  moreover have "check_body toy (block1\<lparr>blk_transactions := []\<rparr>) = consensus_error ''block transaction root is invalid''"
    by code_simp
  ultimately have "apply_block toy (block1\<lparr>blk_transactions := []\<rparr>) 1 genesis_hash genesis_state =
      (consensus_error ''block transaction root is invalid'', genesis_state)"
    by (simp add: apply_block_def validate_block_def)
  then have "validate_import_candidate toy node0 (block1\<lparr>blk_transactions := []\<rparr>) = consensus_error ''block transaction root is invalid''"
    using store0_tip by (simp add: validate_import_candidate_def node0_def block1_def)
  moreover have "sql_text (ascii ''block transaction root is invalid'') = Inr (ascii ''block transaction root is invalid'')"
    by code_simp
  ultimately show ?thesis by (simp add: exn_text_def)
qed

lemma sample_policy: "policy_validate default_policy spend_tx 1 0 = Inr ()"
  by code_simp

lemma sample_submit: "\<exists>n'. submit_transaction toy spend_tx node0 = (Inr spend_txid, n')"
proof -
  have "admit toy node0 spend_tx = Inr (spend_txid, [spend_tx])"
    using sample_txids(2) sample_coinbase(3) sample_apply sample_states(2) sample_policy
    by (simp add: admit_def node0_def make_replacement_context_def candidate_after_def evict_for_policy_def)
       (simp add: default_policy_def)
  then show ?thesis by (simp add: submit_transaction_def obind_def persist_mempool_def node0_def)
qed

lemma sample_policy_any: "0 \<le> fee \<Longrightarrow> policy_validate default_policy spend_tx fee 0 = Inr ()"
proof -
  assume fee: "0 \<le> fee"
  obtain b where b: "tx_to_bytes True spend_tx = Inr b" using sample_blob_ok(2) by (auto split: sum.splits)
  from sample_policy b have "int (length (tx_inputs spend_tx)) \<le> 128" "int (length (tx_outputs spend_tx)) \<le> 128"
    "int (length b) \<le> 100000" by (auto simp: policy_validate_Inr default_policy_def)
  moreover have "minimum_fee default_policy (int (length b)) 0 = Inr 0"
    by (simp add: minimum_fee_def effective_min_relay_fee_rate_def default_policy_def)
  ultimately show ?thesis using b fee by (simp add: policy_validate_Inr default_policy_def)
qed

section \<open>Building and mining\<close>

definition reward1 :: consensus_transaction where
  "reward1 = \<lparr>tx_inputs = [unsigned_input (OutPoint COINBASE_PREV_TXID (- 2))],
     tx_outputs = [\<lparr>out_amount = 50, out_address = bob_address\<rparr>], tx_version = 1\<rparr>"

lemma sample_reward:
  "case calculate_transaction_root toy [reward1] of Inl e \<Rightarrow> False | Inr r \<Rightarrow> is_hash r"
  "case txid toy reward1 of Inl e \<Rightarrow> False | Inr t \<Rightarrow> map_of (cs_utxos genesis_state) (OutPoint t 0) = None"
  "is_hash genesis_hash"
  by code_simp+

lemma sample_candidate:
  obtains b where "build_candidate_block toy node0 bob_address now = Inr b" and "mine toy b = Inr b"
    and "blk_transactions b = [reward1]"
proof -
  obtain root where root: "calculate_transaction_root toy [reward1] = Inr root" "is_hash root"
    using sample_reward(1) by (auto split: sum.splits)
  let ?b = "\<lparr>blk_height = 1, blk_previous_hash = genesis_hash, blk_transactions = [reward1],
    blk_difficulty = 0, blk_timestamp = now, blk_nonce = 0, blk_transaction_root = root, blk_version = 1\<rparr>"
  have "node_height toy node0 = Inr 0" "tip_hash toy node0 = Inr genesis_hash"
    using store0_best sample_hashes(1) by (simp_all add: node_height_def tip_hash_def node0_def genesis_block_def)
  moreover have "create_coinbase genesis_state bob_address 0 1 = Inr reward1"
    using sample_addresses(3) by (simp add: create_coinbase_def genesis_state_def utxo_total_def reward1_def)
  ultimately have build: "build_candidate_block toy node0 bob_address now = Inr ?b"
    using sample_addresses(3) sample_states(2) root
    by (simp add: build_candidate_block_def node0_def prioritize.simps [of toy "[]"] new_block_def)
  have "header_ok ?b" using root(2) sample_reward(3) by (simp add: header_ok_def int64_ok_def)
  from header_bytes_total [OF this] obtain h where "block_hash toy ?b = Inr h" by (auto simp: block_hash_def)
  then have "mine toy ?b = Inr ?b" by (simp add: mine_def mine_loop.simps starts_with_def)
  with build that show ?thesis by simp
qed

section \<open>Wallet and files\<close>

lemma sample_wallet: "ed25519_secret_ok toy (replicate 32 3)" "wallet_create toy None (replicate 32 3) = Inr alice"
proof -
  show "ed25519_secret_ok toy (replicate 32 3)" by (simp add: toy_def)
  show "wallet_create toy None (replicate 32 3) = Inr alice" by code_simp
qed

definition bare_node :: consensus_node where
  "bare_node = \<lparr>nd_store = empty_store, nd_state = genesis_state, nd_difficulty = 0, nd_mempool_store = None,
     nd_invalid_blocks = None, nd_policy = default_policy, nd_last_reorg = None, nd_mempool = [],
     nd_fork_choice = sample_fc, nd_utxo_index = None\<rparr>"

lemma sample_create_transaction: "create_transaction toy bare_node alice bob_address 60 1 = Inr spend_tx"
  by code_simp

definition empty_files :: node_files where
  "empty_files = \<lparr>nf_store = empty_store, nf_mempool_store = \<lparr>ms_schema_version = Some 1, ms_rows = []\<rparr>,
     nf_utxo_index = \<lparr>ui_schema_version = Some 1, ui_active_tip = None, ui_utxos = [], ui_snapshots = [], ui_spent = []\<rparr>,
     nf_invalid_blocks = \<lparr>ic_schema_version = Some 1, ic_rows = []\<rparr>\<rparr>"

lemma empty_files_open: "open_files empty_files = (Inr (), empty_files)"
  by (rule open_files_current) (simp_all add: empty_files_def empty_store_def STORE_SCHEMA_VERSION_def)

lemma sample_genesis: "build_genesis_block toy [(alice_address, 100)] 0 0 = Inr genesis_block"
  by code_simp

lemma sample_chain_id:
  "case chain_id toy \<lparr>cp_difficulty = 0, cp_block_subsidy = 50, cp_max_money = 1000\<rparr> of Inl e \<Rightarrow> False | Inr i \<Rightarrow> True"
  by code_simp

lemma sample_snapshot: "case save_snapshot genesis_hash (cs_utxos genesis_state) (nf_utxo_index empty_files) of
   (Inl e, i) \<Rightarrow> False | (Inr u, i) \<Rightarrow> True"
  by code_simp

lemma sample_create_node: "\<exists>n x'. create_node toy [(alice_address, 100)] 0 50 1000 0 empty_files = (Inr n, x')"
proof -
  obtain i where i: "chain_id toy \<lparr>cp_difficulty = 0, cp_block_subsidy = 50, cp_max_money = 1000\<rparr> = Inr i"
    using sample_chain_id by (auto split: sum.splits)
  let ?s1 = "empty_store\<lparr>fs_parameters := Some \<lparr>cp_difficulty = 0, cp_block_subsidy = 50, cp_max_money = 1000\<rparr>,
    fs_chain_id := Some i\<rparr>"
  have "block_work toy ?s1 genesis_block = Inr 1" by (simp add: block_work_def work_for_def genesis_block_def)
  from put_block_total [OF sample_block_ok(1) sample_hashes(1) _ this] obtain s2 where
    s2: "put_block toy genesis_block ?s1 = (Inr \<lparr>sb_block = genesis_block, sb_cumulative_work = 1\<rparr>, s2)"
    by (auto simp: has_block_def empty_store_def int64_ok_def)
  obtain ix where ix: "save_snapshot genesis_hash (cs_utxos genesis_state) (nf_utxo_index empty_files) = (Inr (), ix)"
    using sample_snapshot by (auto split: prod.splits sum.splits)
  let ?x = "empty_files\<lparr>nf_store := s2, nf_utxo_index := ix\<rparr>"
  have "create_files toy [(alice_address, 100)] 0 50 1000 0 empty_files = (Inr (), ?x)"
    using i s2 ix sample_new_state sample_genesis sample_apply_blocks(1) sample_hashes(1)
    by (simp add: create_files_def obind_def on_store_def save_chain_parameters_def sql_transaction_def
        ms_replace_all_def tbl_insert_many_def best_tip_def empty_files_def empty_store_def)
  moreover have br1: "branches_ok toy sample_fc ?s1"
    by (simp add: store_ok_def branches_ok_def empty_store_def sample_fc_def)
  have "extends_valid_branch toy sample_fc ?s1 genesis_block"
    using sample_new_state sample_apply_blocks(1) by (simp add: extends_valid_branch_def sample_fc_def genesis_block_def)
  from put_keeps_branches_ok [OF br1 sample_block_ok(1) s2 this] have br: "branches_ok toy sample_fc s2" .
  from active_chain_total [OF br] obtain a where a: "fc_active_chain toy sample_fc s2 = Inr a" by blast
  moreover have "state_ok (ac_state a)" by (rule active_state_ok(1) [OF br a])
  ultimately show ?thesis
    using empty_files_open by (simp add: create_node_def obind_def sample_fc_def new_node_def load_mempool_def ms_transactions_def
        tbl_ordered_def ms_count_def empty_files_def Let_def)
qed

lemma sample_open_node: "\<exists>n x'. open_node toy 0 50 1000 empty_files = (Inr n, x')"
proof -
  obtain i where i: "chain_id toy \<lparr>cp_difficulty = 0, cp_block_subsidy = 50, cp_max_money = 1000\<rparr> = Inr i"
    using sample_chain_id by (auto split: sum.splits)
  then show ?thesis
    using sample_new_state sample_states(1) empty_files_open [unfolded empty_files_def empty_store_def]
    by (simp add: open_node_def open_checks_def obind_def on_store_def require_chain_parameters_def
        load_chain_parameters_def save_chain_parameters_def sql_transaction_def best_tip_def empty_files_def
        empty_store_def fc_active_chain_def stored_active_chain_def validate_all_known_branches_def open_state_def
        ac_tip_def new_node_def load_mempool_def ms_transactions_def tbl_ordered_def ms_count_def)
qed

end
