(* ===== verification/Storage_Properties.thy ===== *)
theory Storage_Properties
  imports Node_Samples
begin

text \<open>
  The properties of the stores of \<^verbatim>\<open>storage.py\<close> and of \<^verbatim>\<open>fork_choice.py\<close>: what the block database keeps,
  which branch is active, and what the indexes read back.
\<close>

section \<open>The block database\<close>

text \<open>
  Storing a block keeps the database well formed, makes the block readable under its
  hash, and changes no other row; when it raises nothing is written.
\<close>

lemma put_block_contract:
  assumes "store_ok C s" and "block_ok b" and "put_block C b s = (r, s')"
  shows "store_ok C s' \<and>
    (case r of
       Inl e \<Rightarrow> s' = s
     | Inr sb \<Rightarrow> \<exists>h. block_hash C b = Inr h \<and> get_block C s' h = Inr sb \<and>
         (\<forall>h'. h' \<noteq> h \<longrightarrow> get_block C s' h' = get_block C s h'))"
proof (cases r)
  case (Inl e)
  with assms put_block_fail [of C b s e s'] show ?thesis by auto
next
  case (Inr sb)
  note p = put_block_ok [OF assms(1,2) assms(3) [unfolded Inr]]
  from p(3) obtain h where "block_hash C b = Inr h" "get_block C s' h = Inr sb"
    "\<forall>h'. h' \<noteq> h \<longrightarrow> map_of (fs_blocks s') h' = map_of (fs_blocks s) h'" by blast
  with p(1) Inr show ?thesis by (auto simp: get_block_def)
qed

lemma put_block_contract_witness:
  "store_ok toy store1 \<and> (\<exists>h. block_hash toy block1 = Inr h \<and>
     get_block toy store1 h = Inr \<lparr>sb_block = block1, sb_cumulative_work = 2\<rparr> \<and>
     (\<forall>h'. h' \<noteq> h \<longrightarrow> get_block toy store1 h' = get_block toy store0 h'))"
  using put_block_contract [OF store0_ok(1) sample_block_ok(2) sample_put1] by simp

text \<open>
  C27: walking from any stored block to genesis ends, for every database the store can be in: it
  yields a branch with heights 0, 1, ... whose hashes link, that ends at the requested block and
  whose last entry carries the sum of the branch's work. An unknown hash is reported as such.
\<close>

theorem chain_to_tip_correct:
  assumes "store_ok C s"
  shows "(\<not> has_block s h \<longrightarrow> chain_to_tip C s h = Inl (StorageError (ascii ''unknown block: '' @ h))) \<and>
    (has_block s h \<longrightarrow> (\<exists>bs. chain_to_tip C s h = Inr bs \<and> bs \<noteq> [] \<and>
       map (\<lambda>sb. blk_height (sb_block sb)) bs = map int [0..<length bs] \<and>
       (\<forall>k. Suc k < length bs \<longrightarrow>
          block_hash C (sb_block (bs ! k)) = Inr (blk_previous_hash (sb_block (bs ! Suc k)))) \<and>
       block_hash C (sb_block (last bs)) = Inr h \<and>
       sb_cumulative_work (last bs) = sum_list (map (\<lambda>sb. work_for (sb_block sb)) bs)))"
proof (cases "has_block s h")
  case False
  with chain_to_tip_unknown show ?thesis by simp
next
  case True
  from chain_to_tip_known [OF assms True] obtain bs where bs: "chain_to_tip C s h = Inr bs" "branch C s h bs" by blast
  from branch_last [OF bs(2)] have l: "bs \<noteq> []" "get_block C s h = Inr (last bs)" by auto
  from get_block_Inr [OF assms l(2)] have "block_hash C (sb_block (last bs)) = Inr h"
    by (metis row_holds_def fst_conv)
  with True bs l branch_heights [OF bs(2) assms] branch_links [OF bs(2) assms] branch_work [OF bs(2) assms]
  show ?thesis by blast
qed

theorem chain_to_tip_correct_witness:
  "\<exists>bs. chain_to_tip toy store0 genesis_hash = Inr bs \<and> map (\<lambda>sb. blk_height (sb_block sb)) bs = map int [0..<length bs]"
proof -
  have "has_block store0 genesis_hash" using store0_ok(3) by (simp add: has_block_def)
  with chain_to_tip_correct [OF store0_ok(1), of genesis_hash] show ?thesis by blast
qed

text \<open>
  Opening a database for a chain succeeds exactly when the parameters stored with it are the
  expected ones, or when it holds neither parameters nor blocks; in the second case they are saved,
  so that any later open with other parameters raises.
\<close>

lemma require_chain_parameters_spec:
  assumes "store_ok C s" and "require_chain_parameters C p s = (r, s')"
  shows "(case r of
       Inl e \<Rightarrow> s' = s \<and> load_chain_parameters s \<noteq> Some p
     | Inr _ \<Rightarrow> load_chain_parameters s' = Some p \<and> fs_blocks s' = fs_blocks s \<and>
         (load_chain_parameters s = Some p \<or> load_chain_parameters s = None \<and> fs_blocks s = []) \<and>
         (\<forall>p'. p' \<noteq> p \<longrightarrow> raises (fst (require_chain_parameters C p' s'))))"
proof -
  have tip: "fs_blocks s \<noteq> [] \<Longrightarrow> \<exists>sb. best_tip C s = Inr (Some sb)"
    using best_tip_least [OF assms(1)] by blast
  have ok: "load_chain_parameters s' = Some p \<and> fs_blocks s' = fs_blocks s \<and>
      (load_chain_parameters s = Some p \<or> load_chain_parameters s = None \<and> fs_blocks s = [])" if "r = Inr u" for u
    using assms(2) tip best_tip_empty [of s C] that
    by (cases "fs_blocks s = []")
       (auto simp: require_chain_parameters_def load_chain_parameters_def save_chain_parameters_def
        sql_transaction_def split: option.splits sum.splits if_splits)
  show ?thesis
  proof (cases r)
    case (Inl e)
    with assms(2) show ?thesis
      by (auto simp: require_chain_parameters_def save_chain_parameters_def sql_transaction_def
          split: option.splits sum.splits if_splits)
  next
    case (Inr u)
    with ok [OF Inr] show ?thesis by (simp add: require_chain_parameters_def)
  qed
qed

lemma require_chain_parameters_spec_witness:
  "\<exists>r s'. require_chain_parameters toy \<lparr>cp_difficulty = 0, cp_block_subsidy = 50, cp_max_money = 1000\<rparr> empty_store = (r, s') \<and>
    (\<forall>e. r = Inl e \<longrightarrow> s' = empty_store)"
proof -
  obtain r s' where run: "require_chain_parameters toy
      \<lparr>cp_difficulty = 0, cp_block_subsidy = 50, cp_max_money = 1000\<rparr> empty_store = (r, s')" by fastforce
  from require_chain_parameters_spec [OF empty_store_ok(1) run] run show ?thesis by (auto split: sum.splits)
qed

section \<open>Fork choice\<close>

text \<open>
  C11: on a database in which every stored block ends a valid branch, the active chain exists, is the
  replay of the branch to a stored tip, and no stored block has more cumulative work; among tips of
  equal work the higher one wins, and among those the smaller hash.
\<close>

theorem active_chain_is_heaviest:
  assumes "branches_ok C fc s" and "fs_blocks s \<noteq> []"
  shows "\<exists>a h row. fc_active_chain C fc s = Inr a \<and> map_of (fs_blocks s) h = Some row \<and>
    ac_cumulative_work a = fr_cumulative_work row \<and>
    rebuild_state_from_blocks C (ac_blocks a) (fc_block_subsidy fc) (fc_max_money fc) = Inr (ac_state a) \<and>
    block_hash C (last (ac_blocks a)) = Inr h \<and>
    (\<forall>h' row'. map_of (fs_blocks s) h' = Some row' \<longrightarrow>
       fr_cumulative_work row' < fr_cumulative_work row \<or>
       fr_cumulative_work row' = fr_cumulative_work row \<and>
         (fr_height row' < fr_height row \<or> fr_height row' = fr_height row \<and> h \<le> h'))"
proof -
  have st: "store_ok C s" using assms(1) by (simp add: branches_ok_def)
  obtain a p where a: "fc_active_chain C fc s = Inr a" "p \<in> set (fs_blocks s)"
    "fc_chain_to_tip C fc s (fst p) = Inr a" "\<forall>q \<in> set (fs_blocks s). tip_order p \<le> tip_order q"
    by (rule active_chain_best [OF assms]) blast
  obtain h row where p: "p = (h, row)" by (cases p)
  have row: "map_of (fs_blocks s) h = Some row" using a(2) st p by (simp add: store_ok_def)
  obtain bs where bs: "branch C s h bs" "ac_blocks a = map sb_block bs"
    "ac_cumulative_work a = sb_cumulative_work (last bs)"
    "rebuild_state_from_blocks C (map sb_block bs) (fc_block_subsidy fc) (fc_max_money fc) = Inr (ac_state a)"
    using fc_chain_to_tip_Inr [OF st a(3)] p by auto
  from branch_last [OF bs(1)] have l: "bs \<noteq> []" "get_block C s h = Inr (last bs)" by auto
  from get_block_Inr [OF st l(2)] row have "block_hash C (sb_block (last bs)) = Inr h"
    "sb_cumulative_work (last bs) = fr_cumulative_work row" by (metis row_holds_def fst_conv option.inject)+
  moreover have "tip_order (h, row) \<le> tip_order (h', row')" if "map_of (fs_blocks s) h' = Some row'" for h' row'
    using a(4) p map_of_SomeD [OF that] by blast
  ultimately show ?thesis
    using a(1) row bs l(1) by (intro exI [of _ a] exI [of _ h] exI [of _ row]) (force simp: last_map tip_order_def)
qed

theorem active_chain_is_heaviest_witness:
  "\<exists>a h. fc_active_chain toy sample_fc store0 = Inr a \<and> block_hash toy (last (ac_blocks a)) = Inr h"
  using active_chain_is_heaviest [OF store0_branches store0_nonempty] by blast

text \<open>
  C28: the active chain does not depend on the order in which blocks arrived: two databases with
  the same rows choose the same chain and replay it to the same state.
\<close>

theorem fork_choice_order_independent:
  assumes "store_ok C s" and "store_ok C s'" and "set (fs_blocks s) = set (fs_blocks s')"
  shows "fc_active_chain C fc s = fc_active_chain C fc s'"
proof -
  have d: "dict_ok (fs_blocks s)" "dict_ok (fs_blocks s')" using assms by (auto simp: store_ok_def)
  then have dis: "distinct (fs_blocks s)" "distinct (fs_blocks s')" by (auto simp: distinct_map)
  have m: "map_of (fs_blocks s) = map_of (fs_blocks s')" using map_of_inject_set [OF d] assms(3) by simp
  have len: "length (fs_blocks s) = length (fs_blocks s')" using assms(3) dis by (metis distinct_card)
  have ms: "mset (fs_blocks s) = mset (fs_blocks s')" using assms(3) dis by (simp add: set_eq_iff_mset_eq_distinct)
  have "inj_on tip_order (set (fs_blocks s))" using d(1) by (auto simp: inj_on_def tip_order_def distinct_map)
  then have sort: "sort_key tip_order (fs_blocks s) = sort_key tip_order (fs_blocks s')"
    using ms by (intro sort_key_inj_key_eq) simp_all
  have g: "get_block C s = get_block C s'" by (simp add: get_block_def m fun_eq_iff)
  have w: "chain_walk C s = chain_walk C s'"
  proof -
    have "chain_walk C s k = chain_walk C s' k" for k by (induction k) (auto simp: fun_eq_iff g Let_def)
    then show ?thesis by blast
  qed
  have ct: "chain_to_tip C s = chain_to_tip C s'" by (simp add: chain_to_tip_def fun_eq_iff g w len)
  have bt: "best_tip C s = best_tip C s'" unfolding best_tip_def sort g ..
  have "stored_active_chain C s = stored_active_chain C s'"
    unfolding stored_active_chain_def bt ct ..
  then show ?thesis by (simp add: fc_active_chain_def)
qed

theorem fork_choice_order_independent_witness:
  "fc_active_chain toy sample_fc (store1\<lparr>fs_blocks := rev (fs_blocks store1)\<rparr>) = fc_active_chain toy sample_fc store1"
proof (rule fork_choice_order_independent)
  have ok: "store_ok toy store1" using put_block_ok(1) [OF store0_ok(1) sample_block_ok(2) sample_put1] .
  then show "store_ok toy store1" .
  have "map_of (rev (fs_blocks store1)) = map_of (fs_blocks store1)"
    using ok map_of_inject_set [of "rev (fs_blocks store1)" "fs_blocks store1"]
    by (simp add: store_ok_def rev_map [symmetric])
  then have "row_linked (store1\<lparr>fs_blocks := rev (fs_blocks store1)\<rparr>) = row_linked store1"
    by (simp add: row_linked_def fun_eq_iff)
  with ok show "store_ok toy (store1\<lparr>fs_blocks := rev (fs_blocks store1)\<rparr>)"
    by (simp add: store_ok_def rev_map [symmetric])
qed simp

section \<open>Indexes\<close>

text \<open>
  A snapshot of the unspent outputs saved under a tip reads back as the same coins, and the
  snapshots of every other tip are as before.
\<close>

lemma snapshot_round_trip:
  assumes "dict_ok u" and "snapshot_fits u" and "u \<noteq> []" and "dict_ok (ui_snapshots x)"
    and "save_tip_snapshot tip u x = (r, x')"
  shows "r = Inr () \<and> (\<exists>u'. load_tip_snapshot x' tip = Inr (Some u') \<and> map_of u' = map_of u \<and>
      utxo_entries u' = utxo_entries u) \<and>
    (\<forall>tip'. tip' \<noteq> tip \<longrightarrow> load_tip_snapshot x' tip' = load_tip_snapshot x tip')"
proof -
  note l = load_after_save_tip_snapshot [OF assms(1,2,4,3,5)]
  note p = sorted_utxos_props [OF assms(1)]
  have "sort_key (\<lambda>p. (op_txid (fst p), op_index (fst p))) (sorted_utxos u) = sorted_utxos u"
    unfolding sorted_utxos_sort by (simp add: sort_key_id_if_sorted)
  then have "utxo_entries (sorted_utxos u) = utxo_entries u"
    by (simp add: utxo_entries_def) (simp add: sorted_utxos_sort)
  with l p(3) show ?thesis by blast
qed

lemma snapshot_round_trip_witness:
  "\<exists>x'. \<exists>u'. load_tip_snapshot x' genesis_hash = Inr (Some u') \<and> map_of u' = map_of (cs_utxos genesis_state)"
proof -
  let ?x = "\<lparr>ui_schema_version = Some 1, ui_active_tip = None, ui_utxos = [], ui_snapshots = [], ui_spent = []\<rparr>"
  have f: "dict_ok (cs_utxos genesis_state)" "snapshot_fits (cs_utxos genesis_state)" "cs_utxos genesis_state \<noteq> []"
    by (simp_all add: genesis_state_def snapshot_fits_def int64_ok_def)
  from snapshot_round_trip [OF f _ prod.collapse [symmetric], of ?x genesis_hash] show ?thesis by auto
qed

text \<open>
  The transactions saved in the mempool store are read back, each exactly once; they come back
  sorted by identifier, so the order in which they depend on each other is not kept.
\<close>

lemma mempool_store_round_trip:
  assumes "ms_replace_all C txs x = (Inr u, x')" and "list_all (tx_ok True) txs"
  shows "\<exists>txs'. ms_transactions x' = Inr txs' \<and> mset txs' = mset txs \<and> ms_count x' = int (length txs) \<and>
    sorted (map fst (tbl_ordered (ms_rows x')))"
  using ms_transactions_replace_all [OF assms] sorted_tbl_ordered by blast

lemma mempool_store_round_trip_witness:
  "\<exists>x' txs'. ms_transactions x' = Inr txs' \<and> mset txs' = mset [spend_tx] \<and> ms_count x' = 1"
proof -
  obtain b where b: "tx_to_bytes True spend_tx = Inr b"
    using sample_blob_ok(2) by (auto split: sum.splits)
  let ?x = "\<lparr>ms_schema_version = Some 1, ms_rows = []\<rparr>"
  have "ms_replace_all toy [spend_tx] ?x = (Inr (), ?x\<lparr>ms_rows := [(spend_txid, hexlify b)]\<rparr>)"
    using sample_txids(2) b by (simp add: ms_replace_all_Inr mempool_row_def encode_transaction_def)
  from mempool_store_round_trip [OF this] sample_tx_ok(2) show ?thesis by fastforce
qed

end
