(* ===== verification/Node_Open_Laws.thy ===== *)
theory Node_Open_Laws
  imports Node_Laws
begin

text \<open>
  Creating a node and opening a stored one: both hand out a node whose state is the replay of the
  best stored branch, whatever the UTXO index contains.
\<close>

section \<open>The constructor\<close>

lemma new_node_Inr:
  assumes "new_node C files st difficulty fc = Inr n"
  shows "nd_store n = nf_store files" and "nd_state n = st" and "nd_fork_choice n = fc"
    and "nd_difficulty n = difficulty" and "0 \<le> difficulty"
  using assms by (auto simp: new_node_def Let_def split: if_splits)

lemma new_node_ok:
  assumes "new_node C files st difficulty fc = Inr n" and "branches_ok C fc (nf_store files)"
    and "fc_active_chain C fc (nf_store files) = Inr a" and "state_ok st"
    and "cs_block_subsidy st = fc_block_subsidy fc" and "cs_max_money st = fc_max_money fc"
    and "map_of (cs_utxos st) = map_of (cs_utxos (ac_state a))"
  shows "node_ok C n"
  using new_node_Inr [OF assms(1)] assms(2-) by (simp add: node_ok_def)

section \<open>Creating\<close>

lemma single_block_active:
  assumes "branches_ok C fc s" and "fs_blocks s = [(h, row)]" and "row_holds C (h, row) b" and "blk_height b = 0"
    and "rebuild_state_from_blocks C [b] (fc_block_subsidy fc) (fc_max_money fc) = Inr st"
    and "fc_active_chain C fc s = Inr a"
  shows "ac_state a = st"
proof -
  have st: "store_ok C s" using assms(1) by (simp add: branches_ok_def)
  have "get_block C s h = Inr \<lparr>sb_block = b, sb_cumulative_work = fr_cumulative_work row\<rparr>"
    using assms(2,3) by (simp add: get_block_def row_holds_def)
  from chain_to_tip_branch [OF st branch_genesis [OF this]] assms(4)
  have tip: "chain_to_tip C s h = Inr [\<lparr>sb_block = b, sb_cumulative_work = fr_cumulative_work row\<rparr>]" by simp
  have ne: "fs_blocks s \<noteq> []" using assms(2) by simp
  obtain a' p where a': "fc_active_chain C fc s = Inr a'" "p \<in> set (fs_blocks s)" "fc_chain_to_tip C fc s (fst p) = Inr a'"
    by (rule active_chain_best [OF assms(1) ne]) blast
  with assms(2,6) have "fc_chain_to_tip C fc s h = Inr a" by simp
  with tip assms(5) show ?thesis by (auto simp: fc_chain_to_tip_def validate_stored_chain_Inr)
qed

lemma store_ok_blocks: "fs_blocks s' = fs_blocks s \<Longrightarrow> store_ok C s \<Longrightarrow> store_ok C s'"
  unfolding store_ok_def row_linked_def by (erule ssubst)

lemma lift_Inr: "(case p of (r, s) \<Rightarrow> (r, f s)) = (Inr y, x) \<longleftrightarrow> (\<exists>s. p = (Inr y, s) \<and> x = f s)"
  by (cases p) auto

lemma on_store_Inr: "on_store f x = (Inr r, x') \<longleftrightarrow> (\<exists>s'. f (nf_store x) = (Inr r, s') \<and> x' = x\<lparr>nf_store := s'\<rparr>)"
  by (auto simp: on_store_def split: prod.splits)

lemma open_files_Inr:
  assumes "open_files x = (Inr u, x')"
  shows "fs_blocks (nf_store x') = fs_blocks (nf_store x)"
  using assms by (auto simp: open_files_def obind_Inr on_store_Inr lift_Inr sql_transaction_Inr fork_database.open_Inr)

lemma create_files_Inr:
  assumes "create_files C allocations d sub m now x = (Inr u, x')"
  obtains st0 g fees st s1 sb where "best_tip C (nf_store x) = Inr None"
    and "fs_blocks s1 = fs_blocks (nf_store x)" and "new_state None sub m = Inr st0"
    and "build_genesis_block C allocations d now = Inr g" and "apply_block C g 0 ZERO_HASH st0 = (Inr fees, st)"
    and "put_block C g s1 = (Inr sb, nf_store x')"
proof -
  from assms obtain st0 g s1 st sb s2 ms h i where
    c: "best_tip C (nf_store x) = Inr None"
      "save_chain_parameters C \<lparr>cp_difficulty = d, cp_block_subsidy = sub, cp_max_money = m\<rparr> (nf_store x) = (Inr (), s1)"
      "new_state None sub m = Inr st0" "build_genesis_block C allocations d now = Inr g"
      "(case apply_block C g 0 ZERO_HASH st0 of (Inl e, _) \<Rightarrow> Inl e | (Inr _, st) \<Rightarrow> Inr st) = (Inr st :: consensus_state result)"
      "put_block C g s1 = (Inr sb, s2)" "x' = x\<lparr>nf_store := s2, nf_mempool_store := ms, nf_utxo_index := i\<rparr>"
    by (auto simp: create_files_def obind_Inr on_store_Inr lift_Inr split: if_split_asm)
  from c(5) obtain fees where "apply_block C g 0 ZERO_HASH st0 = (Inr fees, st)"
    by (auto split: prod.splits sum.splits)
  moreover from c(2) have "fs_blocks s1 = fs_blocks (nf_store x)"
    by (auto simp: save_chain_parameters_def sql_transaction_def split: sum.splits)
  ultimately show ?thesis using that c by simp
qed

lemma genesis_shape:
  assumes "build_genesis_block C allocations d now = Inr g"
  shows "blk_height g = 0" and "output_total (hd (blk_transactions g)) = sum_list (map snd allocations)"
    and "tl (blk_transactions g) = []"
proof -
  have outs: "genesis_outputs ps outs acc = Inr (outs', t) \<Longrightarrow>
      sum_list (map out_amount outs') = sum_list (map out_amount outs) + sum_list (map snd ps)" for ps outs outs' acc t
    by (induction ps arbitrary: outs acc) (auto split: if_splits)
  from assms obtain outputs t b where o: "genesis_outputs allocations [] 0 = Inr (outputs, t)"
    and b: "new_block C \<lparr>blk_height = 0, blk_previous_hash = ZERO_HASH,
            blk_transactions = [\<lparr>tx_inputs = [unsigned_input (OutPoint COINBASE_PREV_TXID (- 1))],
                                 tx_outputs = outputs, tx_version = 1\<rparr>],
            blk_difficulty = d, blk_timestamp = now, blk_nonce = 0,
            blk_transaction_root = [], blk_version = 1\<rparr> = Inr b" and m: "mine C b = Inr g"
    by (auto simp: build_genesis_block_def split: if_splits)
  have "mine_loop C target b = Inr b' \<Longrightarrow> blk_height b' = blk_height b \<and> blk_transactions b' = blk_transactions b" for target b b'
  proof (induction C target b rule: mine_loop.induct)
    case (1 C target mined)
    from "1.prems" obtain h where h: "block_hash C mined = Inr h" by (subst (asm) mine_loop.simps) auto
    show ?case
    proof (cases "starts_with target h")
      case True
      with "1.prems" h show ?thesis by (subst (asm) mine_loop.simps) simp
    next
      case False
      with "1.prems" h obtain nxt where
        n: "new_block C (mined\<lparr>blk_nonce := blk_nonce mined + 1, blk_transaction_root := []\<rparr>) = Inr nxt"
          "mine_loop C target nxt = Inr b'" by (subst (asm) mine_loop.simps) auto
      from "1.IH" [OF h False n] new_block_fields [OF n(1)] show ?thesis by simp
    qed
  qed
  from this [OF m [unfolded mine_def]] new_block_fields [OF b] outs [OF o] show "blk_height g = 0"
    "output_total (hd (blk_transactions g)) = sum_list (map snd allocations)" "tl (blk_transactions g) = []"
    by (simp_all add: output_total_def)
qed

text \<open>A block that is stored for the first time was encoded.\<close>

lemma put_block_encodes:
  "put_block C b s = (Inr sb, s') \<Longrightarrow> fs_blocks s = [] \<or> s' \<noteq> s \<Longrightarrow> \<exists>p. encode_consensus_block b = Inr p"
  by (auto simp: put_block_def has_block_def split: sum.splits if_splits)

lemma create_node_ok:
  assumes "store_ok C (nf_store x)"
    and "\<And>g p. build_genesis_block C allocations d now = Inr g \<Longrightarrow> encode_consensus_block g = Inr p \<Longrightarrow> block_ok g"
    and "create_node C allocations d sub m now x = (Inr n, x')"
  shows "node_ok C n" and "utxo_total (cs_utxos (nd_state n)) = sum_list (map snd allocations)"
    and "nd_difficulty n = d" and "0 \<le> d"
proof -
  let ?fc = "\<lparr>fc_block_subsidy = sub, fc_max_money = m\<rparr>"
  from assms(3) obtain a x0 where opened: "open_files x = (Inr (), x0)" and files: "create_files C allocations d sub m now x0 = (Inr (), x')"
    and act: "fc_active_chain C ?fc (nf_store x') = Inr a" and n: "new_node C x' (ac_state a) d ?fc = Inr n"
    by (auto simp: create_node_def obind_Inr Let_def)
  have ok0: "store_ok C (nf_store x0)" by (rule store_ok_blocks [OF open_files_Inr [OF opened] assms(1)])
  obtain st0 g fees st s1 sb where c: "best_tip C (nf_store x0) = Inr None" "fs_blocks s1 = fs_blocks (nf_store x0)"
    "new_state None sub m = Inr st0" "build_genesis_block C allocations d now = Inr g"
    "apply_block C g 0 ZERO_HASH st0 = (Inr fees, st)" "put_block C g s1 = (Inr sb, nf_store x')"
    by (rule create_files_Inr [OF files])
  have empty: "fs_blocks s1 = []" using c(1,2) best_tip_least [OF ok0] by fastforce
  have pos: "0 \<le> sub" "0 < m" using c(3) by (auto simp: new_state_def split: if_splits)
  have s1: "branches_ok C ?fc s1" using empty pos by (simp add: branches_ok_def store_ok_def)
  note sh = genesis_shape [OF c(4)]
  have ext: "extends_valid_branch C ?fc s1 g" using sh(1) c(3,5) by (simp add: extends_valid_branch_def)
  have bok: "block_ok g" using put_block_encodes [OF c(6) disjI1 [OF empty]] assms(2) [OF c(4)] by blast
  have ok: "branches_ok C ?fc (nf_store x')" by (rule put_keeps_branches_ok [OF s1 bok c(6) ext])
  note a = active_state_ok [OF ok act]
  show "node_ok C n" using new_node_ok [OF n ok act] a by simp
  show "nd_difficulty n = d" "0 \<le> d" using new_node_Inr [OF n] by simp_all
  have st0: "state_ok st0" "cs_utxos st0 = []" using new_state_ok [OF c(3)] by auto
  have app: "block_applies C g 0 ZERO_HASH st0 fees st" using c(5) apply_block_Inr_iff [OF st0(1)] by blast
  obtain h where h: "block_hash C g = Inr h" using app by (auto simp: block_applies_def check_header_iff)
  have nh: "\<not> has_block s1 h" using empty by (simp add: has_block_def)
  obtain row where row: "fs_blocks (nf_store x') = [(h, row)]" and sb: "sb_block sb = g"
    by (rule put_block_new [OF h nh c(6)]) (use empty in auto)
  have "store_ok C (nf_store x')" using ok by (simp add: branches_ok_def)
  moreover have "get_block C (nf_store x') h = Inr sb"
    using put_block_ok(3) [OF _ bok c(6)] s1 h by (auto simp: branches_ok_def)
  ultimately have holds: "row_holds C (h, row) g"
    using row sb by (auto simp: store_ok_def get_block_def row_holds_def)
  have "rebuild_state_from_blocks C [g] sub m = Inr st"
    using c(3,5) h by (simp add: rebuild_state_from_blocks_def)
  with single_block_active [OF ok row holds sh(1) _ act] have "ac_state a = st" by simp
  moreover have "fees = 0 \<and> utxo_total (cs_utxos st) = output_total (hd (blk_transactions g))"
  proof -
    have "tl (blk_transactions g) = []" using sh(3) .
    with app block_effect(3) [OF st0(1) app] st0(2) show ?thesis
      by (auto simp: block_applies_def utxo_total_def)
  qed
  ultimately show "utxo_total (cs_utxos (nd_state n)) = sum_list (map snd allocations)"
    using new_node_Inr(2) [OF n] sh(2) by simp
qed

section \<open>Opening\<close>

lemma require_parameters_blocks:
  "require_chain_parameters C p s = (r, s') \<Longrightarrow> fs_blocks s' = fs_blocks s"
  by (auto simp: require_chain_parameters_def save_chain_parameters_def sql_transaction_def
      split: option.splits sum.splits if_splits)

lemma rfold_all: "rfold (\<lambda>p _. f p) xs () = Inr () \<Longrightarrow> x \<in> set xs \<Longrightarrow> f x = Inr ()"
  by (induction xs) auto

text \<open>The scan over all stored blocks establishes the invariant of the block database.\<close>

lemma validated_branches:
  assumes "store_ok C s" and "validate_all_known_branches C fc s = Inr ()" and "p \<in> set (fs_blocks s)"
  shows "branch_valid C fc s (fst p)"
proof -
  obtain h row where p: "p = (h, row)" by (cases p)
  have m: "map_of (fs_blocks s) h = Some row" using assms(1,3) p by (simp add: store_ok_def)
  obtain b where b: "row_holds C (h, row) b"
    "get_block C s h = Inr \<lparr>sb_block = b, sb_cumulative_work = fr_cumulative_work row\<rparr>"
    by (rule store_ok_row [OF assms(1) m])
  have "rbind (get_block C s (fst p)) (\<lambda>sb. rbind (block_hash C (sb_block sb)) (\<lambda>h.
        case fc_chain_to_tip C fc s h of
          Inl (StorageError m) \<Rightarrow> Inl (ForkChoiceError (ascii ''stored branch is disconnected''))
        | Inl e \<Rightarrow> Inl e
        | Inr _ \<Rightarrow> Inr ())) = Inr ()"
    by (rule rfold_all [OF assms(2) [unfolded validate_all_known_branches_def]]) (use assms(3) in simp)
  with b p show ?thesis by (auto simp: branch_valid_def row_holds_def split: sum.splits exn.splits)
qed

lemma active_chain_params:
  assumes "fc_active_chain C fc s = Inr a"
  shows "0 \<le> fc_block_subsidy fc" and "0 < fc_max_money fc"
proof -
  have "\<exists>st. new_state None (fc_block_subsidy fc) (fc_max_money fc) = Inr st"
    using assms
    by (auto simp: fc_active_chain_def validate_stored_chain_Inr rebuild_state_from_blocks_def
        split: sum.splits exn.splits if_splits)
  then show "0 \<le> fc_block_subsidy fc" "0 < fc_max_money fc" by (auto simp: new_state_def split: if_splits)
qed

text \<open>A loaded snapshot is used only if its entries are those of the replayed state.\<close>

lemma same_entries:
  assumes "dict_ok u" and "dict_ok u'" and "utxo_entries u = utxo_entries u'"
  shows "set u = set u'" and "map_of u = map_of u'" and "utxo_total u = utxo_total u'"
proof -
  have "inj (\<lambda>p :: outpoint \<times> tx_output. \<lparr>utxo_outpoint = fst p, utxo_output = snd p\<rparr>)" by (auto simp: inj_def)
  then show st: "set u = set u'" using arg_cong [OF assms(3), of set] by (simp add: set_utxo_entries inj_image_eq_iff)
  then show "map_of u = map_of u'" using map_of_inject_set [OF assms(1,2)] by simp
  show "utxo_total u = utxo_total u'" using assms(3) sum_utxo_entries by metis
qed

lemma utxo_new_dict: "utxo_new es = Inr u \<Longrightarrow> dict_ok u"
proof -
  assume "utxo_new es = Inr u"
  moreover have "rfold (\<lambda>(o1, out) s. utxo_add o1 out s) (map (\<lambda>e. (utxo_outpoint e, utxo_output e)) es) s =
      rfold (\<lambda>e. utxo_add (utxo_outpoint e) (utxo_output e)) es s" for s
    by (induction es arbitrary: s) (auto intro!: rbind_cong)
  ultimately have "rfold (\<lambda>(o1, out) s. utxo_add o1 out s) (map (\<lambda>e. (utxo_outpoint e, utxo_output e)) es) [] = Inr u"
    by (simp add: utxo_new_def)
  from utxo_store.add_list_Inr [OF this] show ?thesis by simp
qed

lemma load_snapshot_dict: "load_snapshot x h = Inr (Some u) \<Longrightarrow> dict_ok u"
  by (auto simp: load_snapshot_def load_tip_snapshot_def Let_def dest: utxo_new_dict split: if_splits option.splits)

lemma open_state_Inr:
  assumes "open_state C fc a x = (Inr st, x')" and "state_ok (ac_state a)"
    and "cs_block_subsidy (ac_state a) = fc_block_subsidy fc" and "cs_max_money (ac_state a) = fc_max_money fc"
  shows "nf_store x' = nf_store x" and "state_ok st" and "cs_block_subsidy st = fc_block_subsidy fc"
    and "cs_max_money st = fc_max_money fc" and "map_of (cs_utxos st) = map_of (cs_utxos (ac_state a))"
proof -
  have saved: "nf_store x1 = nf_store x \<and> st = ac_state a"
    if "(case save_snapshot h (cs_utxos (ac_state a)) (nf_utxo_index x) of
          (r, i') \<Rightarrow> (rbind r (\<lambda>_. Inr (ac_state a)), x\<lparr>nf_utxo_index := i'\<rparr>)) = (Inr st, x1)" for h x1
    using that by (auto split: prod.splits)
  have "nf_store x' = nf_store x \<and> (st = ac_state a \<or>
    (\<exists>u. dict_ok u \<and> utxo_entries u = utxo_entries (cs_utxos (ac_state a)) \<and>
       new_state (Some u) (fc_block_subsidy fc) (fc_max_money fc) = Inr st))"
  proof (cases "ac_tip a")
    case None
    with assms(1) show ?thesis by (simp add: open_state_def)
  next
    case (Some tip)
    with assms(1) obtain h ix where h: "load_snapshot (nf_utxo_index x) h = Inr ix"
      and run: "(case ix of
            Some u \<Rightarrow>
              if utxo_entries u = utxo_entries (cs_utxos (ac_state a))
              then oeval (\<lambda>x. new_state (Some u) (fc_block_subsidy fc) (fc_max_money fc))
              else (\<lambda>x. case save_snapshot h (cs_utxos (ac_state a)) (nf_utxo_index x) of
                      (r, i') \<Rightarrow> (rbind r (\<lambda>_. Inr (ac_state a)), x\<lparr>nf_utxo_index := i'\<rparr>))
          | None \<Rightarrow>
              (\<lambda>x. case save_snapshot h (cs_utxos (ac_state a)) (nf_utxo_index x) of
                 (r, i') \<Rightarrow> (rbind r (\<lambda>_. Inr (ac_state a)), x\<lparr>nf_utxo_index := i'\<rparr>))) x = (Inr st, x')"
      by (auto simp: open_state_def obind_Inr)
    show ?thesis
    proof (cases ix)
      case None
      with run saved show ?thesis by simp
    next
      case (Some u)
      with run saved load_snapshot_dict [OF h [unfolded Some]] show ?thesis
        by (cases "utxo_entries u = utxo_entries (cs_utxos (ac_state a))") auto
    qed
  qed
  then consider "nf_store x' = nf_store x" "st = ac_state a" |
    u where "nf_store x' = nf_store x" "dict_ok u" "utxo_entries u = utxo_entries (cs_utxos (ac_state a))"
      "new_state (Some u) (fc_block_subsidy fc) (fc_max_money fc) = Inr st" by blast
  then have "nf_store x' = nf_store x \<and> state_ok st \<and> cs_block_subsidy st = fc_block_subsidy fc \<and>
    cs_max_money st = fc_max_money fc \<and> map_of (cs_utxos st) = map_of (cs_utxos (ac_state a))"
  proof cases
    case 1
    with assms show ?thesis by simp
  next
    case 2
    note e = same_entries [OF 2(2) state_ok_dict [OF assms(2)] 2(3)]
    from 2(4) have st: "st = \<lparr>cs_utxos = u, cs_block_subsidy = fc_block_subsidy fc, cs_max_money = fc_max_money fc\<rparr>"
      by (auto simp: new_state_def split: if_splits)
    have "state_ok st" using assms(2-4) e 2(2) by (simp add: st state_ok_def list_all_iff)
    with st e(2) 2(1) show ?thesis by simp
  qed
  then show "nf_store x' = nf_store x" "state_ok st" "cs_block_subsidy st = fc_block_subsidy fc"
    "cs_max_money st = fc_max_money fc" "map_of (cs_utxos st) = map_of (cs_utxos (ac_state a))" by blast+
qed

lemma open_node_Inr:
  assumes "open_node C d sub m x = (Inr n, x')"
  obtains st x0 where "open_files x = (Inr (), x0)"
    "open_checks C d \<lparr>fc_block_subsidy = sub, fc_max_money = m\<rparr> x0 = (Inr st, x')"
    "new_node C x' st d \<lparr>fc_block_subsidy = sub, fc_max_money = m\<rparr> = Inr n"
proof -
  let ?fc = "\<lparr>fc_block_subsidy = sub, fc_max_money = m\<rparr>"
  from assms obtain u x0 where x0: "open_files x = (Inr u, x0)" "(case open_checks C d ?fc x0 of
      (Inl e, x') \<Rightarrow> (if e = Diverges then Inl Diverges else node_error ''stored consensus chain failed validation'', x')
    | (Inr st, x') \<Rightarrow> (new_node C x' st d ?fc, x')) = (Inr n, x')"
    by (auto simp: open_node_def obind_Inr Let_def)
  obtain r x1 where "open_checks C d ?fc x0 = (r, x1)" by (meson surj_pair)
  with x0 that show ?thesis by (cases r) (auto split: if_splits)
qed

lemma open_node_ok:
  assumes "store_ok C (nf_store x)" and "open_node C d sub m x = (Inr n, x')"
  shows "node_ok C n" and "fs_blocks (nd_store n) = fs_blocks (nf_store x)" and "0 \<le> nd_difficulty n"
proof -
  let ?fc = "\<lparr>fc_block_subsidy = sub, fc_max_money = m\<rparr>"
  obtain st x0 where opened: "open_files x = (Inr (), x0)" and chk: "open_checks C d ?fc x0 = (Inr st, x')"
    and n: "new_node C x' st d ?fc = Inr n" by (rule open_node_Inr [OF assms(2)])
  note same = open_files_Inr [OF opened]
  from chk obtain s1 a where s1: "require_chain_parameters C \<lparr>cp_difficulty = d, cp_block_subsidy = sub, cp_max_money = m\<rparr>
      (nf_store x0) = (Inr (), s1)" and act: "fc_active_chain C ?fc s1 = Inr a"
    and val: "validate_all_known_branches C ?fc s1 = Inr ()"
    and os: "open_state C ?fc a (x0\<lparr>nf_store := s1\<rparr>) = (Inr st, x')"
    by (auto simp: open_checks_def obind_Inr on_store_Inr)
  have blocks: "fs_blocks s1 = fs_blocks (nf_store x)" using require_parameters_blocks [OF s1] same by simp
  have ok1: "store_ok C s1" by (rule store_ok_blocks [OF blocks assms(1)])
  have br: "branches_ok C ?fc s1"
    using ok1 validated_branches [OF ok1 val] active_chain_params [OF act] by (auto simp: branches_ok_def)
  note a = active_state_ok [OF br act]
  note o = open_state_Inr [OF os a]
  have store: "nf_store x' = s1" using o(1) by simp
  show "node_ok C n" using new_node_ok [OF n, of a] o(2-) br act store by simp
  show "fs_blocks (nd_store n) = fs_blocks (nf_store x)" "0 \<le> nd_difficulty n"
    using new_node_Inr [OF n] store blocks by simp_all
qed

end
