(* ===== verification/Node_Properties.thy ===== *)
theory Node_Properties
  imports Node_Samples Node_Open_Laws
begin

text \<open>
  The properties of \<^verbatim>\<open>ConsensusNode\<close> (\<^verbatim>\<open>utxo_node.py\<close>): what importing, mining, admission, pruning,
  construction, creation and reopening guarantee.
\<close>

section \<open>Import\<close>

text \<open>
  Importing a block, whether it is accepted or raises at any point, leaves a node whose stored
  branches are all valid and whose active state is the replay of the best branch; no stored block
  is ever lost.
\<close>

lemma import_keeps_node_invariant:
  assumes "node_ok C n" and "block_ok b" and "import_block C rt b n = (r, n')"
  shows "node_ok C n' \<and> map_of (fs_blocks (nd_store n)) \<subseteq>\<^sub>m map_of (fs_blocks (nd_store n'))"
proof
  show "node_ok C n'" by (rule import_node_ok [OF assms])
  from import_block_cases [OF assms(3)] consider
    "n' = n" | h e where "validate_and_store C rt b h n = (Inl e, n')"
    | h old_tip stored n1 where "validate_and_store C rt b h n = (Inr stored, n1)"
        "after_store C old_tip b stored n1 = (r, n')" by blast
  then show "map_of (fs_blocks (nd_store n)) \<subseteq>\<^sub>m map_of (fs_blocks (nd_store n'))"
  proof cases
    case 2
    from validate_and_store_Inl [OF 2] show ?thesis by (simp add: chain_view_def)
  next
    case 3
    note e = import_stored_branches [OF assms(1,2) 3(1)]
    from e(2) after_store_node_ok(2) [OF e(1) 3(2)] show ?thesis by simp
  qed simp
qed

lemma import_keeps_node_invariant_witness:
  "node_ok toy (snd (import_block toy (\<lambda>_. []) block1 node0))"
  using import_keeps_node_invariant [OF node0_ok sample_block_ok(2) prod.collapse [symmetric]] by blast

text \<open>
  When an import returns, the block is in the database and the node stands on the active chain of
  the new database, whose work is at least that of the imported block.
\<close>

lemma import_activates_best:
  assumes "node_ok C n" and "block_ok b" and "import_block C rt b n = (Inr stored, n')"
  shows "\<exists>h a. block_hash C b = Inr h \<and> get_block C (nd_store n') h = Inr stored \<and>
    fc_active_chain C (nd_fork_choice n') (nd_store n') = Inr a \<and> nd_state n' = ac_state a \<and>
    sb_cumulative_work stored \<le> ac_cumulative_work a"
proof -
  from import_block_cases [OF assms(3)] obtain h old_tip stored1 n1 where
    h: "block_hash C b = Inr h" "validate_and_store C rt b h n = (Inr stored1, n1)"
      "after_store C old_tip b stored1 n1 = (Inr stored, n')" by auto
  note e = import_stored_branches [OF assms(1,2) h(2)]
  note f = after_store_node_ok [OF e(1) h(3)]
  have same: "stored1 = stored" using h(3) by (auto simp: after_store_def obind_Inr)
  obtain a where a: "fc_active_chain C (nd_fork_choice n1) (nd_store n1) = Inr a"
    using active_chain_total [OF e(1)] by blast
  have st: "store_ok C (nd_store n1)" using e(1) by (simp add: branches_ok_def)
  have got: "get_block C (nd_store n1) h = Inr stored" using e(3) h(1) same by simp
  have "sb_cumulative_work stored \<le> ac_cumulative_work a" by (rule active_work_max [OF e(1) a got])
  with h(1) got a f show ?thesis by auto
qed

lemma import_activates_best_witness:
  "\<exists>(n' :: consensus_node) a. fc_active_chain toy sample_fc (nd_store n') = Inr a \<and> nd_state n' = ac_state a \<and> 2 \<le> ac_cumulative_work a"
proof -
  obtain n' where run: "import_block toy (\<lambda>_. []) block1 node0 = (Inr \<lparr>sb_block = block1, sb_cumulative_work = 2\<rparr>, n')"
    and fc: "nd_fork_choice n' = sample_fc" using sample_import by blast
  from import_activates_best [OF node0_ok sample_block_ok(2) run] fc show ?thesis
    by (intro exI [of _ n']) auto
qed

text \<open>
  C25: the cache of rejected blocks is keyed by the header hash, which does not cover the
  transactions that were sent with the header: after a copy of a valid block with another body was
  rejected, the valid block itself is refused for good and nothing of the chain changes.
\<close>

theorem rejected_copy_blocks_genuine:
  assumes "node_ok C n" and "nd_invalid_blocks n = Some cache" and "\<not> is_invalid cache h"
    and "dict_ok (ic_rows cache)"
    and "block_hash C forged = Inr h" and "block_hash C b = Inr h"
    and "validate_import_candidate C n forged = Inl e" and "validate_import_candidate C n b = Inr ()"
    and "sql_text (exn_text rt e) = Inr reason"
    and "import_block C rt forged n = (r1, n1)" and "import_block C rt b n1 = (r2, n2)"
  shows "raises r1 \<and> raises r2 \<and> n2 = n1 \<and> chain_view n2 = chain_view n"
proof -
  let ?cache = "cache\<lparr>ic_rows := tbl_upsert h reason (ic_rows cache)\<rparr>"
  obtain tip where tip: "best_tip C (nd_store n) = Inr tip" using node_best_tip [OF assms(1)] by blast
  have n1: "r1 = Inl e" "n1 = n\<lparr>nd_invalid_blocks := Some ?cache\<rparr>"
    using assms(10) tip assms(2,3,5,7,9)
    by (auto simp: import_block_def obind_def validate_and_store_def mark_rejected_def mark_invalid_def
        sql_transaction_def)
  have "invalid_reason ?cache h \<noteq> None" by (simp add: invalid_reason_def map_of_upsert)
  then have inv: "is_invalid ?cache h" by (simp add: is_invalid_def invalid_reason_def)
  have "raises r2 \<and> n2 = n1"
    using assms(11) tip assms(6) inv by (auto simp: n1 import_block_def obind_def)
  with n1 show ?thesis by (simp add: chain_view_def)
qed

theorem rejected_copy_blocks_genuine_witness:
  "raises (fst (import_block toy (\<lambda>_. []) block1
      (snd (import_block toy (\<lambda>_. []) (block1\<lparr>blk_transactions := []\<rparr>) node0))))"
proof -
  let ?cache = "\<lparr>ic_schema_version = Some 1, ic_rows = []\<rparr>"
  have c: "nd_invalid_blocks node0 = Some ?cache" "\<not> is_invalid ?cache block1_hash" "dict_ok (ic_rows ?cache)"
    by (simp_all add: node0_def is_invalid_def)
  have fh: "block_hash toy (block1\<lparr>blk_transactions := []\<rparr>) = Inr block1_hash"
    using sample_hashes(2) by (simp add: block_hash_body)
  obtain e where e: "validate_import_candidate toy node0 (block1\<lparr>blk_transactions := []\<rparr>) = Inl e"
      "sql_text (exn_text (\<lambda>_. []) e) = Inr (exn_text (\<lambda>_. []) e)"
    using sample_forged by blast
  from rejected_copy_blocks_genuine [OF node0_ok c fh sample_hashes(2) e(1) sample_validates e(2)
      prod.collapse [symmetric] prod.collapse [symmetric]]
  show ?thesis by blast
qed

section \<open>Mempool\<close>

text \<open>
  C12: admission, with or without replacement and eviction, leaves a mempool that can be mined in its
  order from the active state, contains no coinbase and respects the transaction limit; the new
  transaction is last, nothing else was added, and neither database nor active state changed. When
  the checks raise, the node is exactly as before.
\<close>

theorem submit_keeps_mempool:
  assumes "state_ok (nd_state n)" and "mempool_ok C n" and "submit_transaction C tx n = (r, n')"
  shows "(\<forall>t. r = Inr t \<longrightarrow> mempool_ok C n' \<and> txid C tx = Inr t \<and> nd_mempool n' \<noteq> [] \<and> last (nd_mempool n') = tx \<and>
      set (nd_mempool n') \<subseteq> insert tx (set (nd_mempool n))) \<and>
    (\<forall>e. admit C n tx = Inl e \<longrightarrow> r = Inl e \<and> n' = n) \<and> chain_view n' = chain_view n"
  using submit_Inr_mempool_ok [OF assms(1,2)] submit_admit_fail [of C n tx]
    preservesD [OF submit_preserves assms(3)] assms(3)
  by auto

theorem submit_keeps_mempool_witness:
  "mempool_ok toy (snd (submit_transaction toy spend_tx node0))"
proof -
  obtain n' where run: "submit_transaction toy spend_tx node0 = (Inr spend_txid, n')" using sample_submit by blast
  have "state_ok (nd_state node0)" using sample_states(2) by (simp add: node0_def)
  from submit_keeps_mempool [OF this node0_mempool_ok run] run show ?thesis by simp
qed

text \<open>
  Pruning keeps a part of the mempool that can be mined in order, provided the policy refuses none
  of the transactions it already holds.
\<close>

lemma prune_leaves_applicable:
  assumes "state_ok (nd_state n)" and "prune_invalid_mempool C n = (r, n')"
    and "\<And>tx fee k. tx \<in> set (nd_mempool n) \<Longrightarrow> 0 \<le> fee \<Longrightarrow> k < length (nd_mempool n) \<Longrightarrow>
      policy_validate (nd_policy n) tx fee (int k) = Inr ()"
  shows "r = Inr () \<and> applicable C (nd_state n') (nd_mempool n') \<and> set (nd_mempool n') \<subseteq> set (nd_mempool n) \<and>
    (applicable C (nd_state n) (nd_mempool n) \<longrightarrow> nd_mempool n' = nd_mempool n)"
proof -
  have n': "r = Inr ()" "n' = n\<lparr>nd_mempool := prune_loop C (nd_policy n) (nd_mempool n) [] (nd_state n)\<rparr>"
    using assms(1,2) by (auto simp: prune_invalid_mempool_def obind_def)
  have "applicable C (nd_state n) (prune_loop C (nd_policy n) (nd_mempool n) [] (nd_state n))"
    by (rule prune_loop_applicable [OF assms(1)]) (use assms(3) in simp_all)
  moreover have "set (prune_loop C (nd_policy n) (nd_mempool n) [] (nd_state n)) \<subseteq> set (nd_mempool n)"
    using prune_loop_prefix [of C "nd_policy n" "nd_mempool n" "[]" "nd_state n"] by auto
  moreover have "prune_loop C (nd_policy n) (nd_mempool n) [] (nd_state n) = nd_mempool n"
    if "applicable C (nd_state n) (nd_mempool n)"
  proof -
    obtain fees c where "apply_transactions C (nd_mempool n) 0 (nd_state n) = (Inr fees, c)"
      using \<open>applicable C (nd_state n) (nd_mempool n)\<close> by (auto simp: applicable_def)
    from prune_loop_keeps [OF this assms(1), of "[]"] assms(3) show ?thesis by simp
  qed
  ultimately show ?thesis using n' by simp
qed

lemma prune_leaves_applicable_witness:
  "applicable toy genesis_state (nd_mempool (snd (prune_invalid_mempool toy (node0\<lparr>nd_mempool := [spend_tx]\<rparr>))))"
proof -
  let ?n = "node0\<lparr>nd_mempool := [spend_tx]\<rparr>"
  have st: "state_ok (nd_state ?n)" "nd_state ?n = genesis_state" using sample_states(2) by (simp_all add: node0_def)
  have "applicable toy (nd_state (snd (prune_invalid_mempool toy ?n))) (nd_mempool (snd (prune_invalid_mempool toy ?n)))"
    using prune_leaves_applicable [OF st(1) prod.collapse [symmetric]] sample_policy_any
    by (simp add: node0_def)
  moreover have "nd_state (snd (prune_invalid_mempool toy ?n)) = genesis_state"
    using preservesD [OF prune_preserves prod.collapse [symmetric], of toy ?n] st(2) by (simp add: chain_view_def)
  ultimately show ?thesis by simp
qed

end
