(* ===== verification/Mining_Properties.thy ===== *)
theory Mining_Properties
  imports Node_Samples Node_Open_Laws
begin

text \<open>
  The properties of \<^verbatim>\<open>ConsensusNode\<close> (\<^verbatim>\<open>utxo_node.py\<close>) on what it produces: transactions, candidate
  blocks, mined blocks, new chains and reopened nodes, and of the fee arithmetic of \<^verbatim>\<open>MempoolPolicy\<close>.
\<close>

section \<open>Mining\<close>

text \<open>
  C22: the nonce search always ends. It returns the block with the first nonce from the start whose
  header hash has the required leading zeros, with nothing else changed; or, when no nonce a header
  can carry meets the target, it raises \<^verbatim>\<open>struct.error\<close>.
\<close>

theorem mine_finds_first_nonce:
  assumes "rooted C b" and "header_ok (b\<lparr>blk_nonce := 0\<rparr>)" and "- (2 ^ 63) \<le> blk_nonce b"
  shows "case mine C b of
      Inr b' \<Rightarrow> \<exists>k \<ge> blk_nonce b. b' = b\<lparr>blk_nonce := k\<rparr> \<and>
        (\<exists>h. block_hash C b' = Inr h \<and> starts_with (replicate (nat (blk_difficulty b)) 48) h) \<and>
        (\<forall>j. blk_nonce b \<le> j \<and> j < k \<longrightarrow> \<not> meets C (replicate (nat (blk_difficulty b)) 48) b j)
    | Inl e \<Rightarrow> e = StructError \<and>
        (\<forall>j. blk_nonce b \<le> j \<and> j < 2 ^ 63 \<longrightarrow> \<not> meets C (replicate (nat (blk_difficulty b)) 48) b j)"
proof (cases "mine C b")
  case (Inl e)
  with mine_loop_Inl [OF Inl [unfolded mine_def] assms] show ?thesis by simp
next
  case (Inr b')
  from mine_loop_Inr [OF Inr [unfolded mine_def] assms(1)] Inr show ?thesis by (auto simp: meets_def)
qed

theorem mine_finds_first_nonce_witness:
  "case mine toy genesis_block of Inr b' \<Rightarrow> \<exists>k \<ge> 0. b' = genesis_block\<lparr>blk_nonce := k\<rparr> | Inl e \<Rightarrow> e = StructError"
proof -
  have r: "rooted toy genesis_block" using sample_root0 by (simp add: rooted_def genesis_block_def)
  have h: "header_ok (genesis_block\<lparr>blk_nonce := 0\<rparr>)"
    using sample_block_ok(1) by (simp add: block_ok_def header_ok_def int64_ok_def)
  have n: "- (2 ^ 63) \<le> blk_nonce genesis_block" "blk_nonce genesis_block = 0" by (simp_all add: genesis_block_def)
  from mine_finds_first_nonce [OF r h n(1)] n(2) show ?thesis by (auto split: sum.splits)
qed

text \<open>
  C24: a candidate block extends the node's tip and holds, after its coinbase, every transaction of the
  mempool exactly once, in an order in which all of them apply; the coinbase pays the subsidy and
  exactly the fees they leave.
\<close>

theorem candidate_block_contents:
  assumes "state_ok (nd_state n)" and "build_candidate_block C n addr now = Inr b"
  shows "\<exists>height tip fees st1. node_height C n = Inr height \<and> tip_hash C n = Inr tip \<and>
    blk_height b = height + 1 \<and> blk_previous_hash b = tip \<and>
    mset (tl (blk_transactions b)) = mset (nd_mempool n) \<and>
    apply_transactions C (tl (blk_transactions b)) 0 (nd_state n) = (Inr fees, st1) \<and>
    is_coinbase (hd (blk_transactions b)) \<and>
    output_total (hd (blk_transactions b)) = cs_block_subsidy (nd_state n) + fees"
proof -
  obtain txs fees st1 coinbase height tip where
    b: "apply_transactions C txs 0 (nd_state n) = (Inr fees, st1)" "mset txs = mset (nd_mempool n)"
    "node_height C n = Inr height" "tip_hash C n = Inr tip" "create_coinbase st1 addr fees (height + 1) = Inr coinbase"
    "blk_height b = height + 1" "blk_previous_hash b = tip" "blk_transactions b = coinbase # txs"
    by (rule build_candidate_Inr [OF assms])
  from b(5) have "is_coinbase coinbase" "output_total coinbase = cs_block_subsidy st1 + fees"
    by (auto simp: create_coinbase_def is_coinbase_def unsigned_input_def output_total_def split: if_splits)
  with b apply_transactions_params [OF b(1) assms(1)] show ?thesis by auto
qed

theorem candidate_block_contents_witness:
  "\<exists>b height. build_candidate_block toy node0 bob_address 0 = Inr b \<and> node_height toy node0 = Inr height \<and>
     blk_height b = height + 1"
proof -
  obtain b where b: "build_candidate_block toy node0 bob_address 0 = Inr b" by (rule sample_candidate)
  have "state_ok (nd_state node0)" using sample_states(2) by (simp add: node0_def)
  from candidate_block_contents [OF this b] b show ?thesis by blast
qed

text \<open>
  C23: the consensus rules accept the block a node mines, on the node's active state, exactly when its
  coinbase pays a positive amount, the coinbase's output is not spendable already, and the subsidy fits
  under the supply limit on top of everything spendable. The construction checks none of the three: it
  compares the limit with the total after fees were taken out, so it can spend its work on a block that
  it rejects.
\<close>

theorem mined_block_accepted_iff:
  assumes "state_ok (nd_state n)" and "list_all (\<lambda>tx. \<not> is_coinbase tx) (nd_mempool n)" and "0 \<le> nd_difficulty n"
    and "build_candidate_block C n addr now = Inr b" and "mine C b = Inr b'"
  shows "(\<exists>fees st'. apply_block C b' (blk_height b') (blk_previous_hash b') (nd_state n) = (Inr fees, st')) \<longleftrightarrow>
    0 < output_total (hd (blk_transactions b)) \<and> reward_fresh C (nd_state n) b \<and>
    utxo_total (cs_utxos (nd_state n)) + cs_block_subsidy (nd_state n) \<le> cs_max_money (nd_state n)"
  by (rule mined_block_accepted [OF assms])

theorem mined_block_accepted_iff_witness:
  "\<exists>b fees st'. build_candidate_block toy node0 bob_address 0 = Inr b \<and>
     apply_block toy b (blk_height b) (blk_previous_hash b) genesis_state = (Inr fees, st')"
proof -
  obtain b where b: "build_candidate_block toy node0 bob_address 0 = Inr b" "mine toy b = Inr b" "blk_transactions b = [reward1]"
    by (rule sample_candidate)
  have n: "state_ok (nd_state node0)" "list_all (\<lambda>tx. \<not> is_coinbase tx) (nd_mempool node0)" "0 \<le> nd_difficulty node0"
    "nd_state node0 = genesis_state" using sample_states(2) by (simp_all add: node0_def)
  have "reward_fresh toy (nd_state node0) b"
    using sample_reward(2) b(3) n(4) by (auto simp: reward_fresh_def split: sum.splits)
  moreover have "0 < output_total (hd (blk_transactions b))" using b(3) by (simp add: reward1_def output_total_def)
  moreover have "utxo_total (cs_utxos (nd_state node0)) + cs_block_subsidy (nd_state node0) \<le> cs_max_money (nd_state node0)"
    by (simp add: n(4)) (simp add: genesis_state_def utxo_total_def)
  ultimately show ?thesis using mined_block_accepted_iff [OF n(1-3) b(1,2)] b(1) n(4) by auto
qed

text \<open>With no subsidy and an empty mempool the candidate pays nothing, so mining it is in vain.\<close>

lemma empty_candidate_rejected:
  assumes "state_ok (nd_state n)" and "nd_mempool n = []" and "0 \<le> nd_difficulty n" and "cs_block_subsidy (nd_state n) = 0"
    and "build_candidate_block C n addr now = Inr b" and "mine C b = Inr b'"
  shows "\<not> (\<exists>fees st'. apply_block C b' (blk_height b') (blk_previous_hash b') (nd_state n) = (Inr fees, st'))"
proof -
  obtain txs fees st1 coinbase height where
    txs: "apply_transactions C txs 0 (nd_state n) = (Inr fees, st1)" "mset txs = mset (nd_mempool n)"
    and cb: "create_coinbase st1 addr fees (height + 1) = Inr coinbase" "blk_transactions b = coinbase # txs"
    by (rule build_candidate_Inr [OF assms(1,5)])
  have "output_total (hd (blk_transactions b)) = 0"
    using txs cb assms(2,4) by (auto simp: create_coinbase_def output_total_def split: if_splits)
  then show ?thesis using mined_block_accepted [OF assms(1) _ assms(3,5,6)] assms(2) by simp
qed

section \<open>Transactions\<close>

text \<open>
  A transaction built from a wallet is valid on the active state, pays the recipient the requested
  amount in its first output, and leaves exactly the requested fee; every input is signed by the
  wallet that owns the coin.
\<close>

lemma created_transaction_is_valid:
  assumes "ed25519_ok C" and "ed25519_secret_ok C raw" and "wallet_create C bits raw = Inr w"
    and "\<And>a. wallet_address C w = Inr a \<Longrightarrow> is_valid_address a" and "state_ok (nd_state n)"
    and "create_transaction C n w recipient amount fee = Inr tx"
  shows "transfer_valid C (nd_state n) tx \<and> input_value (nd_state n) tx - output_total tx = fee \<and>
    hd (tx_outputs tx) = \<lparr>out_amount = amount, out_address = recipient\<rparr>"
  using create_transaction_valid [OF assms] by blast

lemma created_transaction_is_valid_witness:
  "transfer_valid toy genesis_state spend_tx \<and> input_value genesis_state spend_tx - output_total spend_tx = 1 \<and>
    hd (tx_outputs spend_tx) = \<lparr>out_amount = 60, out_address = bob_address\<rparr>"
proof -
  have st: "nd_state bare_node = genesis_state" by (simp add: bare_node_def)
  have a: "\<And>a. wallet_address toy alice = Inr a \<Longrightarrow> is_valid_address a" using sample_addresses by simp
  from created_transaction_is_valid [OF toy_ed25519_ok sample_wallet a _ sample_create_transaction] st sample_states(2)
  show ?thesis by simp
qed

text \<open>
  The relay minimum is exact: a fee reaches it just when it reaches the flat minimum and pays the
  effective rate per thousand bytes in full, with no slack from rounding.
\<close>

lemma minimum_fee_exact:
  assumes "minimum_fee p sz pending = Inr m"
  shows "m \<le> fee \<longleftrightarrow> min_relay_fee p \<le> fee \<and>
    sz * (min_relay_fee_rate p + pending * dynamic_fee_rate_step p) \<le> 1000 * fee"
  by (rule minimum_fee_meets [OF assms])

lemma minimum_fee_exact_witness:
  "(0 :: int) \<le> 5 \<longleftrightarrow> min_relay_fee default_policy \<le> 5 \<and>
     300 * (min_relay_fee_rate default_policy + 2 * dynamic_fee_rate_step default_policy) \<le> 1000 * 5"
  by (rule minimum_fee_exact [of default_policy 300 2 0 5])
     (simp add: minimum_fee_def effective_min_relay_fee_rate_def default_policy_def)

section \<open>Creating and reopening\<close>

text \<open>
  A newly created node stands on a valid one-block chain and its spendable total is exactly the
  sum of the genesis allocations.
\<close>

lemma created_node_is_valid:
  assumes "store_ok C (nf_store x)" and "\<And>g. build_genesis_block C allocations d now = Inr g \<Longrightarrow> block_ok g"
    and "create_node C allocations d sub m now x = (Inr n, x')"
  shows "node_ok C n \<and> utxo_total (cs_utxos (nd_state n)) = sum_list (map snd allocations) \<and>
    nd_difficulty n = d \<and> 0 \<le> d"
  using create_node_ok [OF assms(1) _ assms(3)] assms(2) by blast

lemma created_node_is_valid_witness:
  "\<exists>n x'. create_node toy [(alice_address, 100)] 0 50 1000 0 empty_files = (Inr n, x') \<and>
     utxo_total (cs_utxos (nd_state n)) = 100"
proof -
  obtain n x' where run: "create_node toy [(alice_address, 100)] 0 50 1000 0 empty_files = (Inr n, x')"
    using sample_create_node by blast
  have st: "store_ok toy (nf_store empty_files)" using empty_store_ok(1) by (simp add: empty_files_def)
  have g: "\<And>g. build_genesis_block toy [(alice_address, 100)] 0 0 = Inr g \<Longrightarrow> block_ok g"
    using sample_genesis sample_block_ok(1) by simp
  from created_node_is_valid [OF st g run] run show ?thesis by auto
qed

text \<open>
  A node that opens from its files holds the replay of the best stored branch, with every stored
  branch checked, whatever the UTXO index file contains: an index that disagrees is overwritten, one
  that agrees changes nothing.
\<close>

lemma opened_node_is_replay:
  assumes "store_ok C (nf_store x)" and "open_node C d sub m x = (Inr n, x')"
  shows "node_ok C n \<and> fs_blocks (nd_store n) = fs_blocks (nf_store x) \<and>
    (\<exists>a. fc_active_chain C (nd_fork_choice n) (nd_store n) = Inr a \<and>
       map_of (cs_utxos (nd_state n)) = map_of (cs_utxos (ac_state a)))"
  using open_node_ok [OF assms] by (simp add: node_ok_def)

lemma opened_node_is_replay_witness:
  "\<exists>n x'. open_node toy 0 50 1000 empty_files = (Inr n, x') \<and> node_ok toy n"
proof -
  obtain n x' where run: "open_node toy 0 50 1000 empty_files = (Inr n, x')" using sample_open_node by blast
  have st: "store_ok toy (nf_store empty_files)" using empty_store_ok(1) by (simp add: empty_files_def)
  from opened_node_is_replay [OF st run] run show ?thesis by blast
qed

end
