(* ===== verification/Peers.thy ===== *)
theory Peers
  imports Python_Runtime
begin

text \<open>
  \<^verbatim>\<open>peers.py\<close>: the address book with connection limits, backoff and bans. A \<^verbatim>\<open>PeerRecord\<close> is mutable and
  shared between the dictionary and the caller; every method here writes it back to the dictionary
  and returns it.
\<close>

section \<open>Data\<close>

datatype connection_state = DISCONNECTED | CONNECTING | CONNECTED | BANNED

record peer_record =
  pr_address :: pystr
  pr_last_seen :: int
  pr_failures :: int
  pr_misbehavior_score :: int
  pr_state :: connection_state
  pr_next_retry_at :: int
  pr_banned_until :: int
  pr_inbound :: bool

definition new_record :: "pystr \<Rightarrow> int \<Rightarrow> bool \<Rightarrow> peer_record" where
  "new_record address now inbound =
     \<lparr>pr_address = address, pr_last_seen = now, pr_failures = 0, pr_misbehavior_score = 0,
      pr_state = DISCONNECTED, pr_next_retry_at = 0, pr_banned_until = 0, pr_inbound = inbound\<rparr>"

definition is_banned :: "peer_record \<Rightarrow> bool" where
  "is_banned r \<longleftrightarrow> pr_state r = BANNED"

record peer_manager =
  pm_max_outbound :: int
  pm_max_inbound :: int
  pm_ban_threshold :: int
  pm_base_backoff_seconds :: int
  pm_max_backoff_seconds :: int
  pm_ban_seconds :: int
  pm_peers :: "(pystr, peer_record) dict"

abbreviation peer_manager_error :: "string \<Rightarrow> 'a result" where
  "peer_manager_error s \<equiv> Inl (PeerManagerError (ascii s))"

section \<open>Operations\<close>

definition new_peer_manager ::
  "int \<Rightarrow> int \<Rightarrow> int \<Rightarrow> int \<Rightarrow> int \<Rightarrow> int \<Rightarrow> peer_manager result" where
  "new_peer_manager max_outbound max_inbound ban_threshold base_backoff max_backoff ban_seconds =
     (if max_outbound < 0 \<or> max_inbound < 0 then peer_manager_error ''connection limits cannot be negative''
      else if ban_threshold \<le> 0 then peer_manager_error ''ban threshold must be positive''
      else Inr \<lparr>pm_max_outbound = max_outbound, pm_max_inbound = max_inbound,
                pm_ban_threshold = ban_threshold, pm_base_backoff_seconds = base_backoff,
                pm_max_backoff_seconds = max_backoff, pm_ban_seconds = ban_seconds, pm_peers = []\<rparr>)"

definition validate_address :: "py_runtime \<Rightarrow> pystr \<Rightarrow> unit result" where
  "validate_address R address =
     (if address = [] \<or> py_isspace R address then peer_manager_error ''peer address is invalid''
      else if length address > 255 then peer_manager_error ''peer address is too long''
      else Inr ())"

text \<open>The write-back of a mutated record.\<close>

definition put_peer :: "pystr \<Rightarrow> peer_record \<Rightarrow> peer_manager \<Rightarrow> peer_manager" where
  "put_peer address r m = m\<lparr>pm_peers := AList.update address r (pm_peers m)\<rparr>"

definition save_peer :: "pystr \<Rightarrow> peer_record \<Rightarrow> (peer_manager, peer_record) op" where
  "save_peer address r m = (Inr r, put_peer address r m)"

definition add_peer :: "py_runtime \<Rightarrow> pystr \<Rightarrow> int \<Rightarrow> bool \<Rightarrow> (peer_manager, peer_record) op" where
  "add_peer R address now inbound =
     obind (oeval (\<lambda>_. validate_address R address)) (\<lambda>_.
     obind (oeval (\<lambda>m. Inr (map_of (pm_peers m) address))) (\<lambda>existing.
     case existing of
       Some r \<Rightarrow> save_peer address (r\<lparr>pr_last_seen := max (pr_last_seen r) now,
                                     pr_inbound := (pr_inbound r \<or> inbound)\<rparr>)
     | None \<Rightarrow> save_peer address (new_record address now inbound)))"

definition get_peer :: "peer_manager \<Rightarrow> pystr \<Rightarrow> peer_record result" where
  "get_peer m address =
     (case map_of (pm_peers m) address of
        None \<Rightarrow> peer_manager_error ''unknown peer''
      | Some r \<Rightarrow> Inr r)"

definition clear_expired_ban :: "int \<Rightarrow> peer_record \<Rightarrow> peer_record" where
  "clear_expired_ban now r =
     (if pr_state r = BANNED \<and> pr_banned_until r \<le> now
      then r\<lparr>pr_state := DISCONNECTED, pr_banned_until := 0\<rparr> else r)"

definition is_active :: "peer_record \<Rightarrow> bool" where
  "is_active r \<longleftrightarrow> pr_state r = CONNECTING \<or> pr_state r = CONNECTED"

definition outbound_count :: "peer_manager \<Rightarrow> int" where
  "outbound_count m = int (length (filter (\<lambda>(_, r). is_active r \<and> \<not> pr_inbound r) (pm_peers m)))"

definition inbound_count :: "peer_manager \<Rightarrow> int" where
  "inbound_count m = int (length (filter (\<lambda>(_, r). is_active r \<and> pr_inbound r) (pm_peers m)))"

text \<open>\<^verbatim>\<open>_clear_expired_ban\<close> on the shared record.\<close>

definition clear_ban :: "pystr \<Rightarrow> int \<Rightarrow> peer_record \<Rightarrow> (peer_manager, peer_record) op" where
  "clear_ban address now r = save_peer address (clear_expired_ban now r)"

definition mark_connecting :: "py_runtime \<Rightarrow> pystr \<Rightarrow> int \<Rightarrow> bool \<Rightarrow> (peer_manager, peer_record) op" where
  "mark_connecting R address now inbound =
     obind (add_peer R address now inbound) (\<lambda>r0.
     obind (clear_ban address now r0) (\<lambda>r.
     obind (oeval (\<lambda>m.
       if is_banned r then peer_manager_error ''peer is banned''
       else if inbound \<and> inbound_count m \<ge> pm_max_inbound m \<and> pr_state r \<noteq> CONNECTED
       then peer_manager_error ''inbound peer limit reached''
       else if \<not> inbound \<and> outbound_count m \<ge> pm_max_outbound m \<and> pr_state r \<noteq> CONNECTED
       then peer_manager_error ''outbound peer limit reached''
       else Inr ())) (\<lambda>_.
     save_peer address (r\<lparr>pr_state := CONNECTING, pr_inbound := inbound\<rparr>))))"

definition mark_connected :: "pystr \<Rightarrow> int \<Rightarrow> (peer_manager, peer_record) op" where
  "mark_connected address now =
     obind (oeval (\<lambda>m. get_peer m address)) (\<lambda>r0.
     obind (clear_ban address now r0) (\<lambda>r.
     if is_banned r then oeval (\<lambda>_. peer_manager_error ''peer is banned'')
     else save_peer address (r\<lparr>pr_state := CONNECTED, pr_last_seen := now, pr_failures := 0,
                               pr_next_retry_at := 0\<rparr>)))"

definition mark_disconnected :: "pystr \<Rightarrow> int \<Rightarrow> (peer_manager, peer_record) op" where
  "mark_disconnected address now =
     obind (oeval (\<lambda>m. get_peer m address)) (\<lambda>r.
     if is_banned r then oreturn r
     else save_peer address (r\<lparr>pr_state := DISCONNECTED, pr_next_retry_at := now\<rparr>))"

definition backoff_delay :: "peer_manager \<Rightarrow> int \<Rightarrow> int" where
  "backoff_delay m failures =
     min (pm_max_backoff_seconds m) (pm_base_backoff_seconds m * 2 ^ nat (failures - 1))"

definition mark_failure :: "pystr \<Rightarrow> int \<Rightarrow> (peer_manager, peer_record) op" where
  "mark_failure address now =
     obind (oeval (\<lambda>m. get_peer m address)) (\<lambda>r.
     if is_banned r then oreturn r
     else
       obind (oeval (\<lambda>m. Inr (backoff_delay m (pr_failures r + 1)))) (\<lambda>delay.
       save_peer address (r\<lparr>pr_failures := pr_failures r + 1, pr_state := DISCONNECTED,
                            pr_next_retry_at := now + delay\<rparr>)))"

definition ban_peer :: "pystr \<Rightarrow> int \<Rightarrow> (peer_manager, peer_record) op" where
  "ban_peer address now =
     obind (oeval (\<lambda>m. get_peer m address)) (\<lambda>r.
     obind (oeval (\<lambda>m. Inr (now + pm_ban_seconds m))) (\<lambda>until.
     save_peer address (r\<lparr>pr_state := BANNED, pr_banned_until := until, pr_next_retry_at := until\<rparr>)))"

definition report_misbehavior :: "pystr \<Rightarrow> int \<Rightarrow> int \<Rightarrow> (peer_manager, peer_record) op" where
  "report_misbehavior address score now =
     obind (oeval (\<lambda>m. if score < 0 then peer_manager_error ''misbehavior score cannot be negative''
                       else get_peer m address)) (\<lambda>r.
     obind (save_peer address (r\<lparr>pr_misbehavior_score := pr_misbehavior_score r + score\<rparr>)) (\<lambda>r'.
     obind (oeval (\<lambda>m. Inr (pm_ban_threshold m))) (\<lambda>threshold.
     if pr_misbehavior_score r' \<ge> threshold then ban_peer address now else oreturn r')))"

definition outbound_order :: "peer_record \<Rightarrow> int \<times> int \<times> pystr" where
  "outbound_order r = (- pr_last_seen r, pr_failures r, pr_address r)"

definition is_eligible :: "int \<Rightarrow> peer_record \<Rightarrow> bool" where
  "is_eligible now r \<longleftrightarrow> pr_state r = DISCONNECTED \<and> \<not> pr_inbound r \<and> pr_next_retry_at r \<le> now"

definition clear_bans :: "int \<Rightarrow> peer_manager \<Rightarrow> peer_manager" where
  "clear_bans now m = m\<lparr>pm_peers := map (map_prod id (clear_expired_ban now)) (pm_peers m)\<rparr>"

definition eligible_outbound :: "int \<Rightarrow> peer_manager \<Rightarrow> peer_record list \<times> peer_manager" where
  "eligible_outbound now m =
     (let m' = clear_bans now m
      in (sort_key outbound_order (filter (is_eligible now) (map snd (pm_peers m'))), m'))"

text \<open>\<^verbatim>\<open>xs[:n]\<close>: a negative bound counts from the end.\<close>

definition slice_upto :: "int \<Rightarrow> 'a list \<Rightarrow> 'a list" where
  "slice_upto n xs = (if 0 \<le> n then take (nat n) xs else take (length xs - nat (- n)) xs)"

definition select_outbound :: "int \<Rightarrow> int option \<Rightarrow> peer_manager \<Rightarrow> peer_record list \<times> peer_manager" where
  "select_outbound now limit m =
     (let remaining = max 0 (pm_max_outbound m - outbound_count m);
          n = (case limit of None \<Rightarrow> remaining | Some l \<Rightarrow> min l remaining);
          (eligible, m') = eligible_outbound now m
      in (slice_upto n eligible, m'))"

definition eviction_order :: "peer_record \<Rightarrow> int \<times> int \<times> pystr" where
  "eviction_order r = (pr_misbehavior_score r, pr_last_seen r, pr_address r)"

text \<open>\<^verbatim>\<open>sorted(.., reverse=True)\<close> keeps equal elements in their order.\<close>

definition eviction_candidates :: "peer_manager \<Rightarrow> peer_record list" where
  "eviction_candidates m =
     rev (sort_key eviction_order
       (rev (filter (\<lambda>r. pr_state r = CONNECTED) (map snd (pm_peers m)))))"

definition all_peers :: "peer_manager \<Rightarrow> peer_record list" where
  "all_peers m = sort_key pr_address (map snd (pm_peers m))"

end
