(* ===== verification/Peers_Laws.thy ===== *)
theory Peers_Laws
  imports Peers "HOL-Library.Multiset"
begin

text \<open>
  Lemmas on the address manager: every method rewrites one record, how a rewritten record moves the
  connection counts, and the limits as an invariant of disciplined callers.
\<close>

section \<open>One record at a time\<close>

lemma update_twice [simp]: "AList.update k v (AList.update k w d) = AList.update k v d"
  by (induction d) auto

lemma put_peer_simps [simp]:
  "put_peer a r (put_peer a r0 m) = put_peer a r m"
  "map_of (pm_peers (put_peer a r m)) = (map_of (pm_peers m))(a \<mapsto> r)"
  "pm_max_outbound (put_peer a r m) = pm_max_outbound m" "pm_max_inbound (put_peer a r m) = pm_max_inbound m"
  "pm_ban_threshold (put_peer a r m) = pm_ban_threshold m" "pm_ban_seconds (put_peer a r m) = pm_ban_seconds m"
  "pm_max_backoff_seconds (put_peer a r m) = pm_max_backoff_seconds m"
  "pm_base_backoff_seconds (put_peer a r m) = pm_base_backoff_seconds m"
  by (simp_all add: put_peer_def map_of_update_dict)

definition manager_ok :: "peer_manager \<Rightarrow> bool" where
  "manager_ok m \<longleftrightarrow> dict_ok (pm_peers m) \<and>
     (\<forall>a r. map_of (pm_peers m) a = Some r \<longrightarrow> pr_address r = a \<and> 0 \<le> pr_failures r)"

lemma manager_ok_put [intro]:
  "manager_ok m \<Longrightarrow> pr_address r = a \<Longrightarrow> 0 \<le> pr_failures r \<Longrightarrow> manager_ok (put_peer a r m)"
  by (auto simp: manager_ok_def put_peer_def map_of_update_dict distinct_update)

lemma manager_okD: "manager_ok m \<Longrightarrow> map_of (pm_peers m) a = Some r \<Longrightarrow> pr_address r = a \<and> 0 \<le> pr_failures r"
  by (simp add: manager_ok_def)

section \<open>Connection counts\<close>

abbreviation weight :: "(peer_record \<Rightarrow> bool) \<Rightarrow> peer_record option \<Rightarrow> int" where
  "weight P x \<equiv> (case x of None \<Rightarrow> 0 | Some r \<Rightarrow> of_bool (P r))"

lemma count_update:
  assumes "dict_ok d"
  shows "int (length (filter (\<lambda>(_, r). P r) (AList.update k v d))) =
    int (length (filter (\<lambda>(_, r). P r) d)) + of_bool (P v) - weight P (map_of d k)"
  using assms
proof (induction d)
  case Nil
  then show ?case by simp
next
  case (Cons p d)
  then show ?case by (cases p) (auto simp: map_of_eq_None_iff split: option.splits)
qed

lemma counts_put:
  assumes "manager_ok m"
  shows "outbound_count (put_peer a r m) = outbound_count m + of_bool (is_active r \<and> \<not> pr_inbound r) -
      weight (\<lambda>r. is_active r \<and> \<not> pr_inbound r) (map_of (pm_peers m) a)"
    and "inbound_count (put_peer a r m) = inbound_count m + of_bool (is_active r \<and> pr_inbound r) -
      weight (\<lambda>r. is_active r \<and> pr_inbound r) (map_of (pm_peers m) a)"
  using assms unfolding outbound_count_def inbound_count_def put_peer_def manager_ok_def
  by (simp_all add: count_update)

definition within_limits :: "peer_manager \<Rightarrow> bool" where
  "within_limits m \<longleftrightarrow> outbound_count m \<le> pm_max_outbound m \<and> inbound_count m \<le> pm_max_inbound m"

text \<open>A rewritten record that is no more active than before cannot break the limits.\<close>

definition no_new_connection :: "pystr \<Rightarrow> peer_manager \<Rightarrow> peer_record \<Rightarrow> bool" where
  "no_new_connection a m r \<longleftrightarrow> pr_address r = a \<and> 0 \<le> pr_failures r \<and>
     (is_active r \<longrightarrow> (\<exists>r0. map_of (pm_peers m) a = Some r0 \<and> is_active r0 \<and> pr_inbound r0 = pr_inbound r))"

lemma no_new_connection_limits:
  assumes "manager_ok m" and "within_limits m" and "no_new_connection a m r"
  shows "manager_ok (put_peer a r m) \<and> within_limits (put_peer a r m)"
  using assms manager_ok_put [of m r a]
  by (auto simp: within_limits_def counts_put no_new_connection_def split: option.splits)

inductive quiet :: "peer_manager \<Rightarrow> peer_manager \<Rightarrow> bool" where
  same [intro]: "quiet m m"
| put [intro]: "no_new_connection a m r \<Longrightarrow> quiet m (put_peer a r m)"

lemma quiet_limits: "quiet m m' \<Longrightarrow> manager_ok m \<Longrightarrow> within_limits m \<Longrightarrow> manager_ok m' \<and> within_limits m'"
  by (cases rule: quiet.cases) (auto simp: no_new_connection_limits)

section \<open>What each method writes\<close>

lemma clear_expired_ban_simps [simp]:
  "pr_address (clear_expired_ban now r) = pr_address r" "pr_failures (clear_expired_ban now r) = pr_failures r"
  "pr_inbound (clear_expired_ban now r) = pr_inbound r" "is_active (clear_expired_ban now r) = is_active r"
  "pr_misbehavior_score (clear_expired_ban now r) = pr_misbehavior_score r"
  by (auto simp: clear_expired_ban_def is_active_def)

lemma is_active_states [simp]:
  "\<not> is_active (r\<lparr>pr_state := DISCONNECTED\<rparr>)" "\<not> is_active (r\<lparr>pr_state := BANNED\<rparr>)"
  by (simp_all add: is_active_def)

lemmas peer_ops = add_peer_def mark_connected_def mark_disconnected_def mark_failure_def ban_peer_def
  report_misbehavior_def clear_ban_def get_peer_def save_peer_def obind_def

lemma add_peer_Inr:
  assumes "add_peer R a now inb m = (Inr r, m')"
  shows "m' = put_peer a r m \<and> validate_address R a = Inr () \<and>
    r = (case map_of (pm_peers m) a of None \<Rightarrow> new_record a now inb
         | Some r0 \<Rightarrow> r0\<lparr>pr_last_seen := max (pr_last_seen r0) now, pr_inbound := (pr_inbound r0 \<or> inb)\<rparr>)"
  using assms by (auto simp: add_peer_def obind_def save_peer_def split: sum.splits option.splits)

lemma add_peer_Inl: "add_peer R a now inb m = (Inl e, m') \<Longrightarrow> m' = m"
  by (auto simp: add_peer_def obind_def save_peer_def split: sum.splits option.splits)

lemma disconnecting_quiet:
  assumes "manager_ok m"
  shows "mark_disconnected a now m = (res, m') \<Longrightarrow> quiet m m'"
    and "mark_failure a now m = (res, m') \<Longrightarrow> quiet m m'"
    and "ban_peer a now m = (res, m') \<Longrightarrow> quiet m m'"
  using manager_okD [OF assms, of a]
  by (auto simp: peer_ops no_new_connection_def is_active_def intro!: quiet.put split: option.splits if_splits)

lemma report_quiet:
  assumes "manager_ok m" and "report_misbehavior a score now m = (res, m')"
  shows "quiet m m'"
  using manager_okD [OF assms(1), of a] assms(2)
  by (auto simp: peer_ops no_new_connection_def is_active_def intro!: quiet.put split: option.splits if_splits)

lemma connected_quiet:
  assumes "manager_ok m" and "map_of (pm_peers m) a = Some r0" and "is_active r0"
    and "mark_connected a now m = (res, m')"
  shows "quiet m m'"
  using manager_okD [OF assms(1,2)] assms
  by (auto simp: peer_ops no_new_connection_def is_active_def clear_expired_ban_def is_banned_def intro!: quiet.put split: option.splits if_splits)

lemma add_quiet:
  assumes "manager_ok m" and "\<not> inb \<or> (\<forall>r0. map_of (pm_peers m) a = Some r0 \<longrightarrow> \<not> is_active r0)"
    and "add_peer R a now inb m = (res, m')"
  shows "quiet m m'"
  using manager_okD [OF assms(1), of a] assms
  by (auto simp: add_peer_def obind_def save_peer_def new_record_def no_new_connection_def is_active_def
      intro!: quiet.put split: sum.splits option.splits)

lemma add_peer_idle:
  assumes "manager_ok m" and idle: "\<forall>r0. map_of (pm_peers m) a = Some r0 \<longrightarrow> \<not> is_active r0"
    and "add_peer R a now inb m = (Inr r, m')"
  shows "pr_address r = a \<and> 0 \<le> pr_failures r \<and> \<not> is_active r"
  using manager_okD [OF assms(1), of a] add_peer_Inr [OF assms(3)] idle
  by (auto simp: new_record_def is_active_def split: option.splits)

lemma connecting_limits:
  assumes ok: "manager_ok m" and lim: "within_limits m"
    and idle: "\<forall>r0. map_of (pm_peers m) a = Some r0 \<longrightarrow> \<not> is_active r0"
    and run: "mark_connecting R a now inb m = (res, m')"
  shows "manager_ok m' \<and> within_limits m'"
proof (cases "add_peer R a now inb m")
  case (Pair res0 m0)
  show ?thesis
  proof (cases res0)
    case (Inl e)
    with Pair run add_peer_Inl [of R a now inb m e m0] ok lim show ?thesis
      by (simp add: mark_connecting_def obind_def)
  next
    case (Inr r)
    with Pair have add: "add_peer R a now inb m = (Inr r, m0)" by simp
    note r = add_peer_idle [OF ok idle add] add_peer_Inr [OF add, THEN conjunct1]
    let ?r = "clear_expired_ban now r"
    have idle_r: "no_new_connection a m ?r" using r by (simp add: no_new_connection_def)
    note base = no_new_connection_limits [OF ok lim idle_r]
    have w: "weight (\<lambda>r. is_active r \<and> Q r) (map_of (pm_peers m) a) = 0" for Q
      using idle by (auto split: option.split)
    have w': "outbound_count (put_peer a ?r m) = outbound_count m" "inbound_count (put_peer a ?r m) = inbound_count m"
      using r ok w by (simp_all add: counts_put)
    have not_conn: "pr_state ?r \<noteq> CONNECTED" using r by (auto simp: is_active_def clear_expired_ban_def)
    let ?f = "?r\<lparr>pr_state := CONNECTING, pr_inbound := inb\<rparr>"
    consider "m' = put_peer a ?r m"
      | "m' = put_peer a ?f m" "inb \<Longrightarrow> inbound_count m < pm_max_inbound m" "\<not> inb \<Longrightarrow> outbound_count m < pm_max_outbound m"
      using run add r not_conn w'
      by (auto simp: mark_connecting_def obind_def clear_ban_def save_peer_def split: if_splits)
    then show ?thesis
    proof cases
      case 1
      with base show ?thesis by simp
    next
      case 2
      have "manager_ok m'" using 2(1) ok r by auto
      moreover have "within_limits m'"
        using 2 ok w lim by (cases inb) (auto simp: within_limits_def counts_put is_active_def)
      ultimately show ?thesis ..
    qed
  qed
qed

section \<open>Runs of the manager\<close>

text \<open>The calls a client makes, as a sequence of events; a call that raises keeps what it did.\<close>

datatype peer_event =
    AddPeer pystr int bool
  | MarkConnecting pystr int bool
  | MarkConnected pystr int
  | MarkDisconnected pystr int
  | MarkFailure pystr int
  | ReportMisbehavior pystr int int
  | BanPeer pystr int
  | SelectOutbound int "int option"

fun apply_event :: "py_runtime \<Rightarrow> peer_event \<Rightarrow> peer_manager \<Rightarrow> peer_manager" where
  "apply_event R (AddPeer a now inb) m = snd (add_peer R a now inb m)"
| "apply_event R (MarkConnecting a now inb) m = snd (mark_connecting R a now inb m)"
| "apply_event R (MarkConnected a now) m = snd (mark_connected a now m)"
| "apply_event R (MarkDisconnected a now) m = snd (mark_disconnected a now m)"
| "apply_event R (MarkFailure a now) m = snd (mark_failure a now m)"
| "apply_event R (ReportMisbehavior a score now) m = snd (report_misbehavior a score now m)"
| "apply_event R (BanPeer a now) m = snd (ban_peer a now m)"
| "apply_event R (SelectOutbound now limit) m = snd (select_outbound now limit m)"

definition idle :: "peer_manager \<Rightarrow> pystr \<Rightarrow> bool" where
  "idle m a \<longleftrightarrow> (case map_of (pm_peers m) a of None \<Rightarrow> True | Some r \<Rightarrow> \<not> is_active r)"

text \<open>
  A disciplined client opens a connection only to a peer it has none with, reports it established
  only after opening it, and does not turn the direction of a live connection.
\<close>

fun disciplined :: "peer_manager \<Rightarrow> peer_event \<Rightarrow> bool" where
  "disciplined m (AddPeer a now inb) \<longleftrightarrow> \<not> inb \<or> idle m a"
| "disciplined m (MarkConnecting a now inb) \<longleftrightarrow> idle m a"
| "disciplined m (MarkConnected a now) \<longleftrightarrow> \<not> idle m a"
| "disciplined m _ \<longleftrightarrow> True"

fun disciplined_run :: "py_runtime \<Rightarrow> peer_event list \<Rightarrow> peer_manager \<Rightarrow> bool" where
  "disciplined_run R [] m \<longleftrightarrow> True"
| "disciplined_run R (e # es) m \<longleftrightarrow> disciplined m e \<and> disciplined_run R es (apply_event R e m)"

lemma filter_clear_bans:
  "length (filter (\<lambda>(_, r). is_active r \<and> Q (pr_inbound r)) (map (map_prod id (clear_expired_ban now)) d)) =
   length (filter (\<lambda>(_, r). is_active r \<and> Q (pr_inbound r)) d)"
  by (induction d) auto

lemma map_of_clear_bans [simp]:
  "map_of (pm_peers (clear_bans now m)) = map_option (clear_expired_ban now) \<circ> map_of (pm_peers m)"
proof -
  have "map_of (map (map_prod id f) d) = map_option f \<circ> map_of d" for f :: "peer_record \<Rightarrow> peer_record" and d :: "(pystr, peer_record) dict"
    by (induction d) auto
  then show ?thesis by (simp add: clear_bans_def)
qed

lemma clear_bans_counts [simp]:
  "outbound_count (clear_bans now m) = outbound_count m" "inbound_count (clear_bans now m) = inbound_count m"
  using filter_clear_bans [of Not now "pm_peers m"] filter_clear_bans [of "\<lambda>b. b" now "pm_peers m"]
  by (simp_all add: outbound_count_def inbound_count_def clear_bans_def)

lemma clear_bans_limit_fields [simp]:
  "pm_max_outbound (clear_bans now m) = pm_max_outbound m" "pm_max_inbound (clear_bans now m) = pm_max_inbound m"
  by (simp_all add: clear_bans_def)

lemma clear_bans_limits:
  "manager_ok m \<Longrightarrow> within_limits m \<Longrightarrow> manager_ok (clear_bans now m) \<and> within_limits (clear_bans now m)"
  by (auto simp: manager_ok_def within_limits_def) (auto simp: clear_bans_def)

lemma snd_select_outbound: "snd (select_outbound now limit m) = clear_bans now m"
  by (simp add: select_outbound_def eligible_outbound_def Let_def)

lemma apply_event_limits:
  assumes "manager_ok m" and "within_limits m" and "disciplined m e"
  shows "manager_ok (apply_event R e m) \<and> within_limits (apply_event R e m)"
proof (cases e)
  case (AddPeer a now inb)
  with assms show ?thesis
    by (cases "add_peer R a now inb m") (auto dest!: add_quiet [rotated 2] quiet_limits simp: idle_def split: option.splits)
next
  case (MarkConnecting a now inb)
  with assms show ?thesis
    by (cases "mark_connecting R a now inb m") (auto dest!: connecting_limits [rotated 3] simp: idle_def split: option.splits)
next
  case (MarkConnected a now)
  with assms obtain r0 where "map_of (pm_peers m) a = Some r0" "is_active r0"
    by (auto simp: idle_def split: option.splits)
  with assms MarkConnected show ?thesis
    by (cases "mark_connected a now m") (auto dest!: connected_quiet [rotated 3] quiet_limits)
next
  case (MarkDisconnected a now)
  with assms show ?thesis
    by (cases "mark_disconnected a now m") (auto dest!: disconnecting_quiet(1) [rotated] quiet_limits)
next
  case (MarkFailure a now)
  with assms show ?thesis
    by (cases "mark_failure a now m") (auto dest!: disconnecting_quiet(2) [rotated] quiet_limits)
next
  case (ReportMisbehavior a score now)
  with assms show ?thesis
    by (cases "report_misbehavior a score now m") (auto dest!: report_quiet [rotated] quiet_limits)
next
  case (BanPeer a now)
  with assms show ?thesis
    by (cases "ban_peer a now m") (auto dest!: disconnecting_quiet(3) [rotated] quiet_limits)
next
  case (SelectOutbound now limit)
  with assms show ?thesis by (simp add: snd_select_outbound clear_bans_limits)
qed

lemma run_limits:
  assumes "manager_ok m" and "within_limits m" and "disciplined_run R es m"
  shows "manager_ok (fold (apply_event R) es m) \<and> within_limits (fold (apply_event R) es m)"
  using assms by (induction es arbitrary: m) (auto dest: apply_event_limits)

lemma new_manager_ok:
  "new_peer_manager mo mi bt bb mb bs = Inr m \<Longrightarrow> manager_ok m \<and> within_limits m"
  by (auto simp: new_peer_manager_def manager_ok_def within_limits_def outbound_count_def inbound_count_def
      split: if_splits)

section \<open>Bans\<close>

definition banned_until_at_least :: "int \<Rightarrow> pystr \<Rightarrow> peer_manager \<Rightarrow> bool" where
  "banned_until_at_least t a m \<longleftrightarrow>
     (case map_of (pm_peers m) a of None \<Rightarrow> False | Some r \<Rightarrow> is_banned r \<and> t \<le> pr_banned_until r)"

fun event_time :: "peer_event \<Rightarrow> int" where
  "event_time (AddPeer a now inb) = now"
| "event_time (MarkConnecting a now inb) = now"
| "event_time (MarkConnected a now) = now"
| "event_time (MarkDisconnected a now) = now"
| "event_time (MarkFailure a now) = now"
| "event_time (ReportMisbehavior a score now) = now"
| "event_time (BanPeer a now) = now"
| "event_time (SelectOutbound now limit) = now"

lemma banned_put [simp]:
  "banned_until_at_least t a (put_peer b r m) \<longleftrightarrow>
     (if a = b then is_banned r \<and> t \<le> pr_banned_until r else banned_until_at_least t a m)"
  by (simp add: banned_until_at_least_def)

lemma bannedD: "banned_until_at_least t a m \<Longrightarrow> map_of (pm_peers m) a = Some r \<Longrightarrow> is_banned r \<and> t \<le> pr_banned_until r"
  by (simp add: banned_until_at_least_def)

lemma banned_clear: "is_banned r \<Longrightarrow> now < pr_banned_until r \<Longrightarrow> clear_expired_ban now r = r"
  by (simp add: clear_expired_ban_def)

lemma banned_obtain:
  assumes "banned_until_at_least t a m"
  obtains r where "map_of (pm_peers m) a = Some r" "is_banned r" "t \<le> pr_banned_until r"
  using assms by (auto simp: banned_until_at_least_def split: option.splits)

text \<open>The calls that do not name the banned peer leave its record alone.\<close>

lemma banned_other:
  assumes "banned_until_at_least t a m" and "a \<noteq> b"
  shows "banned_until_at_least t a (snd (add_peer R b now inb m))"
    and "banned_until_at_least t a (snd (mark_connecting R b now inb m))"
    and "banned_until_at_least t a (snd (mark_connected b now m))"
    and "banned_until_at_least t a (snd (mark_disconnected b now m))"
    and "banned_until_at_least t a (snd (mark_failure b now m))"
    and "banned_until_at_least t a (snd (report_misbehavior b score now m))"
    and "banned_until_at_least t a (snd (ban_peer b now m))"
  using assms by (simp_all add: peer_ops mark_connecting_def split: option.split sum.split)

lemma banned_same:
  assumes "banned_until_at_least t a m" and "now < t"
  shows "banned_until_at_least t a (snd (add_peer R a now inb m))"
    and "banned_until_at_least t a (snd (mark_connecting R a now inb m))"
    and "banned_until_at_least t a (snd (mark_connected a now m))"
    and "banned_until_at_least t a (snd (mark_disconnected a now m))"
    and "banned_until_at_least t a (snd (mark_failure a now m))"
  by (rule banned_obtain [OF assms(1)], use assms in
      \<open>simp add: peer_ops mark_connecting_def is_banned_def clear_expired_ban_def split: sum.split\<close>)+

lemma banned_again:
  assumes "banned_until_at_least t a m" and "t \<le> now + pm_ban_seconds m"
  shows "banned_until_at_least t a (snd (report_misbehavior a score now m))"
    and "banned_until_at_least t a (snd (ban_peer a now m))"
  by (rule banned_obtain [OF assms(1)], use assms in \<open>simp add: peer_ops is_banned_def\<close>)+

lemma banned_clear_bans: "banned_until_at_least t a m \<Longrightarrow> now < t \<Longrightarrow> banned_until_at_least t a (clear_bans now m)"
  by (elim banned_obtain) (simp add: banned_until_at_least_def clear_expired_ban_def)

lemma ban_seconds_const: "pm_ban_seconds (apply_event R e m) = pm_ban_seconds m"
  by (cases e) (simp_all add: peer_ops mark_connecting_def snd_select_outbound clear_bans_def split: option.split sum.split)

lemma apply_event_banned:
  assumes "banned_until_at_least t a m" and "event_time e < t" and "t \<le> event_time e + pm_ban_seconds m"
  shows "banned_until_at_least t a (apply_event R e m)"
proof (cases e)
  case (AddPeer b now inb)
  with assms show ?thesis by (cases "a = b") (simp_all add: banned_same banned_other)
next
  case (MarkConnecting b now inb)
  with assms show ?thesis by (cases "a = b") (simp_all add: banned_same banned_other)
next
  case (MarkConnected b now)
  with assms show ?thesis by (cases "a = b") (simp_all add: banned_same banned_other)
next
  case (MarkDisconnected b now)
  with assms show ?thesis by (cases "a = b") (simp_all add: banned_same banned_other)
next
  case (MarkFailure b now)
  with assms show ?thesis by (cases "a = b") (simp_all add: banned_same banned_other)
next
  case (ReportMisbehavior b score now)
  with assms show ?thesis by (cases "a = b") (simp_all add: banned_again banned_other)
next
  case (BanPeer b now)
  with assms show ?thesis by (cases "a = b") (simp_all add: banned_again banned_other)
next
  case (SelectOutbound now limit)
  with assms show ?thesis by (simp add: snd_select_outbound banned_clear_bans)
qed

lemma run_banned:
  assumes "banned_until_at_least t a m" and "\<forall>e \<in> set es. event_time e < t \<and> t \<le> event_time e + pm_ban_seconds m"
  shows "banned_until_at_least t a (fold (apply_event R) es m)"
  using assms by (induction es arbitrary: m) (auto simp: apply_event_banned ban_seconds_const)

lemma banned_refuses:
  assumes "banned_until_at_least t a m" and "now < t" and "validate_address R a = Inr ()"
  shows "fst (mark_connecting R a now inb m) = peer_manager_error ''peer is banned''"
    and "fst (mark_connected a now m) = peer_manager_error ''peer is banned''"
  by (rule banned_obtain [OF assms(1)], use assms in
      \<open>simp add: peer_ops mark_connecting_def is_banned_def clear_expired_ban_def\<close>)+

lemma banned_not_eligible:
  assumes "banned_until_at_least t a m" and "now < t" and "manager_ok m"
  shows "a \<notin> pr_address ` set (fst (eligible_outbound now m))"
proof
  assume "a \<in> pr_address ` set (fst (eligible_outbound now m))"
  then obtain k r where "(k, r) \<in> set (pm_peers m)" "is_eligible now (clear_expired_ban now r)" "pr_address r = a"
    by (auto simp: eligible_outbound_def Let_def clear_bans_def)
  moreover from this(1) assms(3) have kr: "map_of (pm_peers m) k = Some r" by (simp add: manager_ok_def)
  ultimately show False
    using assms(2) bannedD [OF assms(1), of r] manager_okD [OF assms(3) kr]
    by (simp add: is_banned_def is_eligible_def clear_expired_ban_def)
qed

section \<open>Selection\<close>

lemma eligible_outbound_spec:
  assumes "manager_ok m" and "eligible_outbound now m = (es, m')"
  shows "m' = clear_bans now m" and "sorted (map outbound_order es)" and "distinct (map pr_address es)"
    and "set es = {r. is_eligible now r \<and> map_of (pm_peers m') (pr_address r) = Some r}"
proof -
  let ?c = "clear_bans now m"
  have es: "es = sort_key outbound_order (filter (is_eligible now) (map snd (pm_peers ?c)))" 
    using arg_cong [OF assms(2), of fst] by (simp add: eligible_outbound_def Let_def)
  have m': "m' = ?c" using arg_cong [OF assms(2), of snd] by (simp add: eligible_outbound_def Let_def)
  have ok: "dict_ok (pm_peers ?c)" "\<And>a r. (a, r) \<in> set (pm_peers ?c) \<Longrightarrow> pr_address r = a"
    using assms(1) by (auto simp: manager_ok_def clear_bans_def comp_def)
  then have "map pr_address (map snd (pm_peers ?c)) = map fst (pm_peers ?c)" by auto
  with ok(1) have "distinct (map pr_address (map snd (pm_peers ?c)))" by (simp only:)
  then have "distinct (map pr_address (filter (is_eligible now) (map snd (pm_peers ?c))))"
    by (rule distinct_map_filter)
  moreover have "mset (map pr_address es) = mset (map pr_address (filter (is_eligible now) (map snd (pm_peers ?c))))"
    unfolding es by simp
  ultimately show "distinct (map pr_address es)" using mset_eq_imp_distinct_iff by blast
  show "m' = ?c" by (rule m')
  show "sorted (map outbound_order es)" unfolding es by simp
  have "(pr_address r, r) \<in> set (pm_peers ?c) \<longleftrightarrow> r \<in> snd ` set (pm_peers ?c)" for r
  proof
    assume "r \<in> snd ` set (pm_peers ?c)"
    then obtain a where "(a, r) \<in> set (pm_peers ?c)" by auto
    with ok(2) [OF this] show "(pr_address r, r) \<in> set (pm_peers ?c)" by simp
  qed force
  moreover have "map_of (pm_peers ?c) a = Some r \<longleftrightarrow> (a, r) \<in> set (pm_peers ?c)" for a r
    using ok(1) by (rule map_of_eq_Some_iff)
  ultimately show "set es = {r. is_eligible now r \<and> map_of (pm_peers m') (pr_address r) = Some r}"
    unfolding es m' by (auto simp del: map_of_clear_bans)
qed

lemma connecting_one:
  assumes ok: "manager_ok m" and r: "map_of (pm_peers m) a = Some r" "pr_state r = DISCONNECTED" "\<not> pr_inbound r"
    and room: "outbound_count m < pm_max_outbound m" and "validate_address R a = Inr ()"
  obtains r' where "mark_connecting R a now False m = (Inr r', put_peer a r' m)"
    "outbound_count (put_peer a r' m) = outbound_count m + 1" "pr_address r' = a" "0 \<le> pr_failures r'"
proof -
  let ?r = "r\<lparr>pr_last_seen := max (pr_last_seen r) now\<rparr>"
  let ?f = "?r\<lparr>pr_state := CONNECTING, pr_inbound := False\<rparr>"
  have "outbound_count (put_peer a ?r m) = outbound_count m"
    using ok r by (simp add: counts_put is_active_def)
  then have "mark_connecting R a now False m = (Inr ?f, put_peer a ?f m)"
    using assms by (simp add: mark_connecting_def peer_ops is_banned_def clear_expired_ban_def)
  moreover have "outbound_count (put_peer a ?f m) = outbound_count m + 1"
    using ok r by (simp add: counts_put is_active_def)
  ultimately show ?thesis using manager_okD [OF ok r(1)] by (intro that [of ?f]) auto
qed

text \<open>A client that opens a connection to every address of a list.\<close>

primrec connect_all :: "py_runtime \<Rightarrow> int \<Rightarrow> pystr list \<Rightarrow> (peer_manager, unit) op" where
  "connect_all R now [] = oreturn ()"
| "connect_all R now (a # as) = obind (mark_connecting R a now False) (\<lambda>_. connect_all R now as)"

lemma connect_all_succeeds:
  assumes "manager_ok m" and "distinct as"
    and "\<forall>a \<in> set as. validate_address R a = Inr () \<and>
      (\<exists>r. map_of (pm_peers m) a = Some r \<and> pr_state r = DISCONNECTED \<and> \<not> pr_inbound r)"
    and "outbound_count m + int (length as) \<le> pm_max_outbound m"
  shows "\<exists>m'. connect_all R now as m = (Inr (), m') \<and> outbound_count m' = outbound_count m + int (length as)"
  using assms
proof (induction as arbitrary: m)
  case Nil
  then show ?case by simp
next
  case (Cons a as)
  from Cons.prems(3) obtain r where r: "map_of (pm_peers m) a = Some r" "pr_state r = DISCONNECTED" "\<not> pr_inbound r"
    by auto
  moreover have "outbound_count m < pm_max_outbound m" "validate_address R a = Inr ()"
    using Cons.prems(3,4) by auto
  ultimately obtain r' where r': "mark_connecting R a now False m = (Inr r', put_peer a r' m)"
      "outbound_count (put_peer a r' m) = outbound_count m + 1" "pr_address r' = a" "0 \<le> pr_failures r'"
    using Cons.prems(1) by (elim connecting_one) auto
  have "\<exists>m'. connect_all R now as (put_peer a r' m) = (Inr (), m') \<and>
      outbound_count m' = outbound_count (put_peer a r' m) + int (length as)"
  proof (rule Cons.IH)
    show "manager_ok (put_peer a r' m)" using Cons.prems(1) r'(3,4) by auto
    show "\<forall>x \<in> set as. validate_address R x = Inr () \<and> (\<exists>r. map_of (pm_peers (put_peer a r' m)) x = Some r \<and>
        pr_state r = DISCONNECTED \<and> \<not> pr_inbound r)" using Cons.prems(2,3) by auto
  qed (use Cons.prems r' in auto)
  with r' show ?case by (auto simp: obind_def)
qed

lemma outbound_count_nonneg: "0 \<le> outbound_count m"
  by (simp add: outbound_count_def)

end
