(* ===== verification/Peer_Properties.thy ===== *)
theory Peer_Properties
  imports Peers_Laws Samples
begin

text \<open>
  The properties of the address manager (\<^verbatim>\<open>peers.py\<close>): connection limits, bans and the selection of
  outbound peers.
\<close>

definition sample_manager :: peer_manager where
  "sample_manager = \<lparr>pm_max_outbound = 1, pm_max_inbound = 1, pm_ban_threshold = 100,
     pm_base_backoff_seconds = 30, pm_max_backoff_seconds = 3600, pm_ban_seconds = 60, pm_peers = []\<rparr>"

text \<open>
  C35: from a new address manager, any sequence of calls by a client that opens a connection only
  to peers it has none with, reports it established only after opening it and does not turn the
  direction of a live connection, keeps the numbers of outbound and inbound connections within
  their limits, whichever calls raise.
\<close>

theorem connection_limits_kept:
  assumes "new_peer_manager mo mi threshold base_backoff max_backoff ban_seconds = Inr m"
    and "disciplined_run R es m"
  shows "outbound_count (fold (apply_event R) es m) \<le> pm_max_outbound (fold (apply_event R) es m) \<and>
    inbound_count (fold (apply_event R) es m) \<le> pm_max_inbound (fold (apply_event R) es m)"
  using run_limits [OF _ _ assms(2)] new_manager_ok [OF assms(1)] by (simp add: within_limits_def)

theorem connection_limits_kept_witness:
  "outbound_count (fold (apply_event sample_runtime)
      [MarkConnecting (ascii ''a'') 0 False, MarkConnected (ascii ''a'') 1, MarkConnecting (ascii ''b'') 2 False]
      sample_manager) \<le> 1"
proof -
  let ?es = "[MarkConnecting (ascii ''a'') 0 False, MarkConnected (ascii ''a'') 1, MarkConnecting (ascii ''b'') 2 False]"
  have "new_peer_manager 1 1 100 30 3600 60 = Inr sample_manager" by code_simp
  moreover have "disciplined_run sample_runtime ?es sample_manager" by code_simp
  moreover have "pm_max_outbound (fold (apply_event sample_runtime) ?es sample_manager) = 1" by code_simp
  ultimately show ?thesis using connection_limits_kept [of 1 1 100 30 3600 60 sample_manager sample_runtime ?es] by simp
qed

text \<open>
  Each of the three conditions is needed. The limit is not compared for a peer that is connected
  already, so opening such a peer again in the other direction exceeds it; establishing a connection
  that was not opened, and adding a connected peer as inbound, compare no limit at all.
\<close>

lemma undisciplined_clients_exceed_limits:
  "inbound_count (fold (apply_event sample_runtime)
     [MarkConnecting (ascii ''a'') 0 True, MarkConnecting (ascii ''b'') 1 False, MarkConnected (ascii ''b'') 2,
      MarkConnecting (ascii ''b'') 3 True] sample_manager) = 2"
  "outbound_count (fold (apply_event sample_runtime)
     [AddPeer (ascii ''a'') 0 False, AddPeer (ascii ''b'') 0 False, MarkConnected (ascii ''a'') 1, MarkConnected (ascii ''b'') 1]
     sample_manager) = 2"
  "inbound_count (fold (apply_event sample_runtime)
     [MarkConnecting (ascii ''a'') 0 True, MarkConnecting (ascii ''b'') 1 False, AddPeer (ascii ''b'') 2 True] sample_manager) = 2"
  by code_simp+

text \<open>
  A ban holds for its whole length: after a peer was banned at time \<open>t\<close>, whatever calls follow at
  times before it ends, further bans among them, opening or establishing a connection to the peer
  raises and the peer is not offered for an outbound connection.
\<close>

lemma ban_holds_until_expiry:
  assumes "ban_peer a t m = (Inr r, m1)" and "validate_address R a = Inr ()"
    and "\<forall>e \<in> set es. t \<le> event_time e \<and> event_time e < t + pm_ban_seconds m"
    and "m2 = fold (apply_event R) es m1" and "now < t + pm_ban_seconds m" and "manager_ok m2"
  shows "fst (mark_connecting R a now inbound m2) = Inl (PeerManagerError (ascii ''peer is banned'')) \<and>
    fst (mark_connected a now m2) = Inl (PeerManagerError (ascii ''peer is banned'')) \<and>
    a \<notin> pr_address ` set (fst (eligible_outbound now m2))"
proof -
  have "banned_until_at_least (t + pm_ban_seconds m) a m1" and "pm_ban_seconds m1 = pm_ban_seconds m"
    using assms(1) by (auto simp: peer_ops is_banned_def split: option.splits)
  then have "banned_until_at_least (t + pm_ban_seconds m) a m2"
    unfolding assms(4) using assms(3) by (intro run_banned) auto
  then show ?thesis using banned_refuses [OF _ assms(5,2)] banned_not_eligible [OF _ assms(5,6)] by blast
qed

lemma ban_holds_until_expiry_witness:
  "fst (mark_connected (ascii ''a'') 59
     (fold (apply_event sample_runtime) [MarkFailure (ascii ''a'') 10, SelectOutbound 20 None]
       (snd (ban_peer (ascii ''a'') 0 (snd (add_peer sample_runtime (ascii ''a'') 0 False sample_manager)))))) =
   Inl (PeerManagerError (ascii ''peer is banned''))"
proof -
  let ?m = "snd (add_peer sample_runtime (ascii ''a'') 0 False sample_manager)"
  let ?es = "[MarkFailure (ascii ''a'') 10, SelectOutbound 20 None]"
  let ?m1 = "snd (ban_peer (ascii ''a'') 0 ?m)"
  obtain r where "ban_peer (ascii ''a'') 0 ?m = (Inr r, ?m1)"
    by (simp add: peer_ops sample_manager_def validate_address_def py_isspace_def sample_runtime_def ascii_def put_peer_def)
  moreover have "validate_address sample_runtime (ascii ''a'') = Inr ()" by code_simp
  moreover have "manager_ok (fold (apply_event sample_runtime) ?es ?m1)"
    by (rule conjunct1 [OF run_limits]) (auto simp: manager_ok_def within_limits_def peer_ops sample_manager_def
        validate_address_def py_isspace_def sample_runtime_def ascii_def put_peer_def outbound_count_def
        inbound_count_def new_record_def is_active_def)
  moreover have "pm_ban_seconds ?m = 60" by code_simp
  ultimately show ?thesis
    using ban_holds_until_expiry [of "ascii ''a''" 0 ?m r ?m1 sample_runtime ?es _ 59] by simp
qed

text \<open>
  The peers selected for outbound connections are eligible ones, in the order of preference,
  as many as there are and as the limit leaves room for, and opening a connection to all of them in
  turn succeeds.
\<close>

lemma selected_peers_can_connect:
  assumes "manager_ok m" and "\<forall>a \<in> set (dict_keys (pm_peers m)). validate_address R a = Inr ()"
    and "select_outbound now None m = (sel, m')"
  shows "sorted (map outbound_order sel) \<and> distinct (map pr_address sel) \<and>
    (\<forall>r \<in> set sel. is_eligible now r \<and> get_peer m' (pr_address r) = Inr r) \<and>
    int (length sel) = min (max 0 (pm_max_outbound m - outbound_count m)) (int (length (fst (eligible_outbound now m)))) \<and>
    (\<exists>m''. connect_all R now (map pr_address sel) m' = (Inr (), m''))"
proof -
  obtain es where es: "eligible_outbound now m = (es, m')" and sel: "sel = take (nat (max 0 (pm_max_outbound m - outbound_count m))) es"
    using assms(3) by (auto simp: select_outbound_def slice_upto_def Let_def split: prod.splits)
  note spec = eligible_outbound_spec [OF assms(1) es]
  have sub: "set sel \<subseteq> set es" unfolding sel by (rule set_take_subset)
  have sorted: "sorted (map outbound_order sel)" unfolding sel take_map [symmetric] using spec(2) by (rule sorted_wrt_take)
  have dist: "distinct (map pr_address sel)" unfolding sel take_map [symmetric] using spec(3) by (rule distinct_take)
  have ok: "manager_ok m'" using assms(1) spec(1) by (auto simp: manager_ok_def) (auto simp: clear_bans_def comp_def)
  have each: "is_eligible now r \<and> map_of (pm_peers m') (pr_address r) = Some r" if "r \<in> set sel" for r
    using that sub spec(4) by auto
  have len: "int (length sel) = min (max 0 (pm_max_outbound m - outbound_count m)) (int (length es))"
    unfolding sel by auto
  have "\<exists>m''. connect_all R now (map pr_address sel) m' = (Inr (), m'') \<and>
      outbound_count m'' = outbound_count m' + int (length (map pr_address sel))"
  proof (cases "sel = []")
    case False
    then have "outbound_count m' + int (length (map pr_address sel)) \<le> pm_max_outbound m'"
      using len spec(1) by (auto simp: min_def max_def split: if_splits)
    moreover have "validate_address R (pr_address r) = Inr ()" if "r \<in> set sel" for r
      using assms(2) each [OF that] spec(1) by (force dest: map_of_SomeD)
    ultimately show ?thesis
      using each by (intro connect_all_succeeds [OF ok dist]) (auto simp: is_eligible_def)
  qed simp
  then show ?thesis using sorted dist len each es by (auto simp: get_peer_def)
qed

lemma selected_peers_can_connect_witness:
  "\<exists>m''. connect_all sample_runtime 5 [ascii ''a'']
     (snd (select_outbound 5 None (snd (add_peer sample_runtime (ascii ''a'') 0 False sample_manager)))) = (Inr (), m'')"
proof -
  let ?m = "snd (add_peer sample_runtime (ascii ''a'') 0 False sample_manager)"
  have "manager_ok ?m"
    by (auto simp: manager_ok_def peer_ops sample_manager_def validate_address_def py_isspace_def sample_runtime_def
        ascii_def put_peer_def new_record_def)
  moreover have "\<forall>a \<in> set (dict_keys (pm_peers ?m)). validate_address sample_runtime a = Inr ()" by code_simp
  moreover have "map pr_address (fst (select_outbound 5 None ?m)) = [ascii ''a'']" by code_simp
  ultimately show ?thesis
    using selected_peers_can_connect [of ?m sample_runtime 5 "fst (select_outbound 5 None ?m)" "snd (select_outbound 5 None ?m)"]
    by simp
qed

end
