(* ===== verification/Json_Parse.thy ===== *)
theory Json_Parse
  imports Python_Runtime
begin

text \<open>
  \<^verbatim>\<open>json.loads\<close> of a text, as the standard library scans it: blanks, strings with escapes and surrogate
  pairs, numbers (an integer literal of more than 4300 digits raises a plain \<^verbatim>\<open>ValueError\<close>, which is
  not a \<^verbatim>\<open>JSONDecodeError\<close>), the constants including \<^verbatim>\<open>NaN\<close> and the infinities, arrays and objects (a
  repeated key keeps the last value). The interpreter's limit on nesting depth is not modelled.

  The scanner takes a unit of fuel per value, member and element; \<open>loads_not_diverges\<close> shows that two
  units per character are enough.
\<close>

section \<open>Tokens\<close>

definition is_ws :: "int \<Rightarrow> bool" where
  "is_ws c \<longleftrightarrow> c = 32 \<or> c = 9 \<or> c = 10 \<or> c = 13"

definition skip_ws :: "pystr \<Rightarrow> pystr" where
  "skip_ws s = dropWhile is_ws s"

text \<open>The text behind an expected character or word.\<close>

definition next_is :: "int \<Rightarrow> pystr \<Rightarrow> pystr option" where
  "next_is c s = (case s of [] \<Rightarrow> None | d # r \<Rightarrow> if d = c then Some r else None)"

definition next_word :: "string \<Rightarrow> pystr \<Rightarrow> pystr option" where
  "next_word w s = (if take (length w) s = ascii w then Some (drop (length w) s) else None)"

definition json_error :: "'a result" where
  "json_error = Inl JSONDecodeError"

text \<open>Four hexadecimal digits.\<close>

definition scan_hex4 :: "pystr \<Rightarrow> (int \<times> pystr) option" where
  "scan_hex4 s =
     (case s of
        a # b # c # d # r \<Rightarrow>
          (case (hex_value a, hex_value b, hex_value c, hex_value d) of
             (Some w, Some x, Some y, Some z) \<Rightarrow> Some (w * 4096 + x * 256 + y * 16 + z, r)
           | _ \<Rightarrow> None)
      | _ \<Rightarrow> None)"

definition simple_escape :: "int \<Rightarrow> int option" where
  "simple_escape c =
     (if c = 34 \<or> c = 92 \<or> c = 47 then Some c
      else if c = 98 then Some 8 else if c = 102 then Some 12 else if c = 110 then Some 10
      else if c = 114 then Some 13 else if c = 116 then Some 9 else None)"

text \<open>
  The character behind \<^verbatim>\<open>\u\<close>: a high surrogate followed by an escaped low surrogate is one
  character, otherwise it stays alone.
\<close>

definition scan_unicode :: "pystr \<Rightarrow> (int \<times> pystr) option" where
  "scan_unicode s =
     (case scan_hex4 s of
        None \<Rightarrow> None
      | Some (c, r) \<Rightarrow>
          if 0xD800 \<le> c \<and> c \<le> 0xDBFF \<and> take 2 r = [92, 117] then
            (case scan_hex4 (drop 2 r) of
               None \<Rightarrow> None
             | Some (c2, r2) \<Rightarrow>
                 if 0xDC00 \<le> c2 \<and> c2 \<le> 0xDFFF
                 then Some (0x10000 + (c - 0xD800) * 1024 + (c2 - 0xDC00), r2)
                 else Some (c, r))
          else Some (c, r))"

lemma scan_hex4_length: "scan_hex4 s = Some (c, r) \<Longrightarrow> length r < length s"
  by (auto simp: scan_hex4_def split: list.splits option.splits)

lemma scan_unicode_length: "scan_unicode s = Some (c, r) \<Longrightarrow> length r < length s"
  by (auto simp: scan_unicode_def split: option.splits if_splits dest!: scan_hex4_length)

text \<open>One character of a string behind its opening quote, or its end (\<open>None\<close>).\<close>

definition scan_char :: "pystr \<Rightarrow> (int option \<times> pystr) result" where
  "scan_char s =
     (case s of
        [] \<Rightarrow> json_error
      | c # cs \<Rightarrow>
          if c = 34 then Inr (None, cs)
          else if c = 92 then
            (case cs of
               [] \<Rightarrow> json_error
             | e # r \<Rightarrow>
                 if e = 117
                 then (case scan_unicode r of None \<Rightarrow> json_error | Some (u, r') \<Rightarrow> Inr (Some u, r'))
                 else (case simple_escape e of None \<Rightarrow> json_error | Some u \<Rightarrow> Inr (Some u, r)))
          else if c < 32 then json_error
          else Inr (Some c, cs))"

lemma scan_char_length: "scan_char s = Inr (c, r) \<Longrightarrow> length r < length s"
  by (auto simp: scan_char_def json_error_def split: list.splits if_splits option.splits dest!: scan_unicode_length)

function scan_string :: "pystr \<Rightarrow> (pystr \<times> pystr) result" where
  "scan_string s =
     (case scan_char s of
        Inl e \<Rightarrow> Inl e
      | Inr (None, r) \<Rightarrow> Inr ([], r)
      | Inr (Some c, r) \<Rightarrow> rbind (scan_string r) (\<lambda>(t, r'). Inr (c # t, r')))"
  by pat_completeness auto

termination
  by (relation "measure length") (auto dest!: scan_char_length)

declare scan_string.simps [simp del]

definition is_digit :: "int \<Rightarrow> bool" where
  "is_digit c \<longleftrightarrow> 48 \<le> c \<and> c \<le> 57"

text \<open>The integer, fraction and exponent part of a number, and the text behind it.\<close>

definition scan_int_part :: "pystr \<Rightarrow> (pystr \<times> pystr) option" where
  "scan_int_part s =
     (let (sign, r) = (case next_is 45 s of None \<Rightarrow> ([], s) | Some r \<Rightarrow> ([45], r))
      in case r of
           [] \<Rightarrow> None
         | c # cs \<Rightarrow>
             if c = 48 then Some (sign @ [48], cs)
             else if is_digit c then Some (sign @ takeWhile is_digit r, dropWhile is_digit r)
             else None)"

definition scan_fraction :: "pystr \<Rightarrow> pystr \<times> pystr" where
  "scan_fraction s =
     (case s of
        p # d # r \<Rightarrow>
          if p = 46 \<and> is_digit d then (46 # takeWhile is_digit (d # r), dropWhile is_digit (d # r)) else ([], s)
      | _ \<Rightarrow> ([], s))"

definition scan_exponent :: "pystr \<Rightarrow> pystr \<times> pystr" where
  "scan_exponent s =
     (case s of
        e # r \<Rightarrow>
          if e = 101 \<or> e = 69 then
            (let (sign, r1) = (case r of c # r' \<Rightarrow> if c = 43 \<or> c = 45 then ([c], r') else ([], r) | [] \<Rightarrow> ([], r));
                 ds = takeWhile is_digit r1
             in if ds = [] then ([], s) else (e # sign @ ds, dropWhile is_digit r1))
          else ([], s)
      | [] \<Rightarrow> ([], s))"

definition int_of_literal :: "pystr \<Rightarrow> int result" where
  "int_of_literal t =
     (let ds = (if t \<noteq> [] \<and> hd t = 45 then tl t else t);
          v = foldl (\<lambda>acc c. acc * 10 + (c - 48)) 0 ds
      in if length ds > INT_MAX_STR_DIGITS
         then value_error ''Exceeds the limit (4300 digits) for integer string conversion''
         else Inr (if t \<noteq> [] \<and> hd t = 45 then - v else v))"

text \<open>The JSON text of a \<^verbatim>\<open>float\<close>.\<close>

definition float_json :: "py_runtime \<Rightarrow> 64 word \<Rightarrow> pystr" where
  "float_json R w =
     (if is_nan w then ascii ''NaN''
      else if w = 0x7FF0000000000000 then ascii ''Infinity''
      else if w = 0xFFF0000000000000 then ascii ''-Infinity''
      else float_repr R w)"

definition scan_number :: "py_runtime \<Rightarrow> pystr \<Rightarrow> (json \<times> pystr) result" where
  "scan_number R s =
     (case scan_int_part s of
        None \<Rightarrow> json_error
      | Some (t, s1) \<Rightarrow>
          (let (f, s2) = scan_fraction s1; (e, s3) = scan_exponent s2
           in if f = [] \<and> e = [] then rbind (int_of_literal t) (\<lambda>i. Inr (JInt i, s3))
              else rbind (float_value R (t @ f @ e)) (\<lambda>w. Inr (JFloat (float_json R w), s3))))"

definition scan_constant :: "pystr \<Rightarrow> (json \<times> pystr) option" where
  "scan_constant s =
     (case next_word ''null'' s of Some r \<Rightarrow> Some (JNull, r) | None \<Rightarrow>
     (case next_word ''true'' s of Some r \<Rightarrow> Some (JBool True, r) | None \<Rightarrow>
     (case next_word ''false'' s of Some r \<Rightarrow> Some (JBool False, r) | None \<Rightarrow>
     (case next_word ''NaN'' s of Some r \<Rightarrow> Some (JFloat (ascii ''NaN''), r) | None \<Rightarrow>
     (case next_word ''Infinity'' s of Some r \<Rightarrow> Some (JFloat (ascii ''Infinity''), r) | None \<Rightarrow>
     (case next_word ''-Infinity'' s of Some r \<Rightarrow> Some (JFloat (ascii ''-Infinity''), r) | None \<Rightarrow> None))))))"

section \<open>Values\<close>

fun scan_once :: "py_runtime \<Rightarrow> nat \<Rightarrow> pystr \<Rightarrow> (json \<times> pystr) result"
and scan_members :: "py_runtime \<Rightarrow> nat \<Rightarrow> (pystr, json) dict \<Rightarrow> pystr \<Rightarrow> (json \<times> pystr) result"
and scan_elements :: "py_runtime \<Rightarrow> nat \<Rightarrow> json list \<Rightarrow> pystr \<Rightarrow> (json \<times> pystr) result"
where
  "scan_once R 0 s = Inl Diverges"
| "scan_once R (Suc n) s =
     (case next_is 34 s of Some r \<Rightarrow> rbind (scan_string r) (\<lambda>(t, r'). Inr (JStr t, r')) | None \<Rightarrow>
     (case next_is 123 s of Some r \<Rightarrow>
        (case next_is 125 (skip_ws r) of Some r' \<Rightarrow> Inr (JObj [], r') | None \<Rightarrow> scan_members R n [] (skip_ws r)) | None \<Rightarrow>
     (case next_is 91 s of Some r \<Rightarrow>
        (case next_is 93 (skip_ws r) of Some r' \<Rightarrow> Inr (JList [], r') | None \<Rightarrow> scan_elements R n [] (skip_ws r)) | None \<Rightarrow>
     (case scan_constant s of Some p \<Rightarrow> Inr p | None \<Rightarrow> scan_number R s))))"
| "scan_members R 0 d s = Inl Diverges"
| "scan_members R (Suc n) d s =
     (case next_is 34 s of None \<Rightarrow> json_error | Some s1 \<Rightarrow>
      rbind (scan_string s1) (\<lambda>(k, s2).
     (case next_is 58 (skip_ws s2) of None \<Rightarrow> json_error | Some s3 \<Rightarrow>
      rbind (scan_once R n (skip_ws s3)) (\<lambda>(v, s4).
     (case next_is 125 (skip_ws s4) of Some r \<Rightarrow> Inr (JObj (AList.update k v d), r) | None \<Rightarrow>
     (case next_is 44 (skip_ws s4) of None \<Rightarrow> json_error | Some s5 \<Rightarrow>
        scan_members R n (AList.update k v d) (skip_ws s5)))))))"
| "scan_elements R 0 vs s = Inl Diverges"
| "scan_elements R (Suc n) vs s =
     rbind (scan_once R n s) (\<lambda>(v, s1).
     (case next_is 93 (skip_ws s1) of Some r \<Rightarrow> Inr (JList (vs @ [v]), r) | None \<Rightarrow>
     (case next_is 44 (skip_ws s1) of None \<Rightarrow> json_error | Some s2 \<Rightarrow> scan_elements R n (vs @ [v]) (skip_ws s2))))"

definition loads :: "py_runtime \<Rightarrow> pystr \<Rightarrow> json result" where
  "loads R s =
     (if s \<noteq> [] \<and> hd s = 0xFEFF then json_error
      else rbind (scan_once R (Suc (2 * length s)) (skip_ws s)) (\<lambda>(v, r).
        if skip_ws r = [] then Inr v else json_error))"

section \<open>The scanner ends\<close>

lemma skip_ws_length [simp]: "length (skip_ws s) \<le> length s"
  by (simp add: skip_ws_def length_dropWhile_le)

lemma next_is_Some: "next_is c s = Some r \<longleftrightarrow> s = c # r"
  by (auto simp: next_is_def split: list.splits)

lemma next_word_length: "next_word w s = Some r \<Longrightarrow> length r \<le> length s"
  by (auto simp: next_word_def split: if_splits)

lemma scan_string_length: "scan_string s = Inr (t, r) \<Longrightarrow> length r < length s"
proof (induction s arbitrary: t r rule: scan_string.induct)
  case (1 s)
  show ?case
  proof (cases "scan_char s")
    case (Inl e)
    with 1 show ?thesis by (simp add: scan_string.simps)
  next
    case (Inr p)
    obtain c r0 where p: "p = (c, r0)" by (cases p)
    note len = scan_char_length [OF Inr [unfolded p]]
    show ?thesis
    proof (cases c)
      case None
      with 1(2) Inr p len show ?thesis by (simp add: scan_string.simps [of s])
    next
      case (Some u)
      with 1(2) Inr p obtain t' where "scan_string r0 = Inr (t', r)" by (auto simp: scan_string.simps [of s])
      then have "length r < length r0" using 1(1) [OF Inr p [symmetric] Some] by simp
      with len show ?thesis by simp
    qed
  qed
qed

lemma scan_string_not_diverges: "scan_string s \<noteq> Inl Diverges"
proof (induction s rule: scan_string.induct)
  case (1 s)
  have "scan_char s \<noteq> Inl Diverges"
    by (auto simp: scan_char_def json_error_def split: list.splits option.splits)
  with 1 show ?case by (auto simp: scan_string.simps [of s] rbind_eq_Inl split: sum.splits option.splits)
qed

lemma scan_constant_length: "scan_constant s = Some (v, r) \<Longrightarrow> length r \<le> length s"
  by (auto simp: scan_constant_def split: option.splits dest: next_word_length)

lemma dropWhile_le [simp]: "length (dropWhile P xs) \<le> length xs"
  by (rule length_dropWhile_le)

lemma scan_number_length: "scan_number R s = Inr (v, r) \<Longrightarrow> length r \<le> length s"
proof -
  have i: "length b \<le> length s" if "scan_int_part s = Some (a, b)" for a b
    using that by (auto simp: scan_int_part_def next_is_def Let_def split: list.splits if_splits option.splits)
      (meson dropWhile_le le_SucI)+
  have f: "length (snd (scan_fraction x)) \<le> length x" for x
    by (auto simp: scan_fraction_def intro!: le_SucI split: list.splits)
  have e: "length (snd (scan_exponent x)) \<le> length x" for x
    by (auto simp: scan_exponent_def Let_def intro!: le_SucI split: list.splits)
  assume "scan_number R s = Inr (v, r)"
  then obtain a b where ab: "scan_int_part s = Some (a, b)" and "r = snd (scan_exponent (snd (scan_fraction b)))"
    by (auto simp: scan_number_def json_error_def Let_def case_prod_unfold split: option.splits if_splits)
  with i [OF ab] f [of b] e [of "snd (scan_fraction b)"] show ?thesis by simp
qed

lemma scan_number_not_diverges: "scan_number R s \<noteq> Inl Diverges"
  by (auto simp: scan_number_def json_error_def int_of_literal_def float_value_def value_error_def rbind_eq_Inl
      Let_def case_prod_unfold split: option.splits if_splits)

text \<open>With more fuel than characters the scanner does not run out, and it consumes what it reads.\<close>

definition scans :: "pystr \<Rightarrow> (json \<times> pystr) result \<Rightarrow> bool" where
  "scans s r \<longleftrightarrow> (case r of Inl e \<Rightarrow> e \<noteq> Diverges | Inr (v, rest) \<Rightarrow> length rest \<le> length s)"

lemma scansI:
  "r \<noteq> Inl Diverges \<Longrightarrow> (\<And>v rest. r = Inr (v, rest) \<Longrightarrow> length rest \<le> length s) \<Longrightarrow> scans s r"
  by (auto simp: scans_def split: sum.split)

lemma scans_simps [simp]: "scans s (Inr (v, r)) \<longleftrightarrow> length r \<le> length s" "scans s json_error"
  by (simp_all add: scans_def json_error_def)

lemma scans_mono: "scans s r \<Longrightarrow> length s \<le> length s' \<Longrightarrow> scans s' r"
  by (auto simp: scans_def split: sum.splits)

lemma scans_rbind:
  assumes "scans s m" and "\<And>v r. length r \<le> length s \<Longrightarrow> scans s' (f (v, r))"
  shows "scans s' (rbind m f)"
  using assms by (cases m) (auto simp: scans_def)

lemma scans_string:
  assumes "\<And>t r. length r < length s \<Longrightarrow> scans s' (f (t, r))"
  shows "scans s' (rbind (scan_string s) f)"
  using assms scan_string_length [of s] scan_string_not_diverges [of s]
  by (cases "scan_string s") (auto simp: scans_def)

lemma skip_ws_ConsD: "skip_ws s = c # r \<Longrightarrow> length r < length s"
  using skip_ws_length [of s] by simp

text \<open>What follows a member or an element: a closing bracket, or a comma and more.\<close>

lemma scans_tail:
  assumes "length s4 \<le> length s" and "\<And>s5. length s5 < length s4 \<Longrightarrow> scans s (g (skip_ws s5))"
  shows "scans s (case next_is q (skip_ws s4) of Some r \<Rightarrow> Inr (x, r) | None \<Rightarrow>
    (case next_is 44 (skip_ws s4) of None \<Rightarrow> json_error | Some s5 \<Rightarrow> g (skip_ws s5)))"
  using assms by (auto simp: next_is_Some split: option.split dest!: skip_ws_ConsD)

lemma scan_ends:
  "(2 * length s < n \<longrightarrow> scans s (scan_once R n s)) \<and> (2 * length s < n \<longrightarrow> scans s (scan_members R n d s)) \<and>
   (2 * length s + 1 < n \<longrightarrow> scans s (scan_elements R n vs s))"
proof (induction n arbitrary: s d vs)
  case 0
  then show ?case by simp
next
  case (Suc n)
  have once: "scans s' (scan_once R n (skip_ws s))" if "2 * length s < n" "length s \<le> length s'" for s s'
    using that skip_ws_length [of s] by (intro scans_mono [OF Suc [THEN conjunct1, rule_format]]) linarith+
  have members: "scans s' (scan_members R n d (skip_ws s))" if "2 * length s < n" "length s \<le> length s'" for s s' d
    using that skip_ws_length [of s] by (intro scans_mono [OF Suc [THEN conjunct2, THEN conjunct1, rule_format]]) linarith+
  have elements: "scans s' (scan_elements R n vs (skip_ws s))" if "2 * length s + 1 < n" "length s \<le> length s'" for s s' vs
    using that skip_ws_length [of s] by (intro scans_mono [OF Suc [THEN conjunct2, THEN conjunct2, rule_format]]) linarith+
  have a: "scans s (scan_once R (Suc n) s)" if len: "2 * length s < Suc n"
  proof -
    have "scans s (rbind (scan_string r) (\<lambda>(t, r'). Inr (JStr t, r')))" if "s = c # r" for c r
      using that by (intro scans_string) simp
    moreover have "scans s (scan_members R n [] (skip_ws r))" "scans s (scan_elements R n [] (skip_ws r))" if "s = c # r" for c r
      using that len by (intro members elements; simp)+
    moreover have "scans s (scan_number R s)"
      by (rule scansI [OF scan_number_not_diverges scan_number_length])
    ultimately show ?thesis
      by (auto simp: next_is_Some split: option.split dest!: scan_constant_length skip_ws_ConsD)
  qed
  have b: "scans s (scan_members R (Suc n) d s)" if len: "2 * length s < Suc n"
  proof (cases "next_is 34 s")
    case (Some s1)
    then have s: "s = 34 # s1" by (simp add: next_is_Some)
    have "scans s (scan_members R n d' (skip_ws s5))" if "length s5 < length s" for d' s5
      using that len by (intro members) auto
    then have "scans s (rbind (scan_once R n (skip_ws s3)) (\<lambda>(v, s4).
        (case next_is 125 (skip_ws s4) of Some r \<Rightarrow> Inr (JObj (AList.update k v d), r) | None \<Rightarrow>
        (case next_is 44 (skip_ws s4) of None \<Rightarrow> json_error | Some s5 \<Rightarrow>
          scan_members R n (AList.update k v d) (skip_ws s5)))))" if "length s3 < length s" for s3 k
      using that len by (intro scans_rbind [OF once [of s3 s3]]) (auto intro!: scans_tail)
    then show ?thesis
      unfolding s by (auto simp: next_is_Some split: option.split intro!: scans_string dest!: skip_ws_ConsD)
  qed simp
  have c: "scans s (scan_elements R (Suc n) vs s)" if len: "2 * length s + 1 < Suc n"
  proof -
    have "scans s (scan_elements R n vs' (skip_ws s5))" if "length s5 < length s" for vs' s5
      using that len by (intro elements) auto
    moreover have "scans s (scan_once R n s)" using Suc [of s] len by simp
    ultimately show ?thesis by (auto intro!: scans_rbind scans_tail)
  qed
  from a b c show ?case by blast
qed

lemma loads_not_diverges: "loads R s \<noteq> Inl Diverges"
proof -
  have "2 * length (skip_ws s) < Suc (2 * length s)" using skip_ws_length [of s] by linarith
  then have "scans (skip_ws s) (scan_once R (Suc (2 * length s)) (skip_ws s))" using scan_ends by blast
  then show ?thesis by (auto simp: loads_def json_error_def scans_def rbind_eq_Inl split: sum.splits)
qed

end
