(* ===== verification/Network.thy ===== *)
theory Network
  imports Json_Parse Block_Processor
begin

text \<open>
  \<^verbatim>\<open>network.py\<close>: message types, authenticated frames, inventory vectors, block headers and the
  validation of message payloads.

  A payload is whatever JSON value the peer sent: \<^verbatim>\<open>PeerMessage.from_dict\<close> only casts it, so the methods
  that call \<^verbatim>\<open>payload.get\<close> raise \<^verbatim>\<open>AttributeError\<close> on anything but an object.
\<close>

section \<open>Constants and message types\<close>

definition NETWORK_MAGIC :: bytes where
  "NETWORK_MAGIC = map word_of_int (ascii ''BCCN'')"

definition PROTOCOL_VERSION :: int where "PROTOCOL_VERSION = 1"
definition MAX_MESSAGE_SIZE :: int where "MAX_MESSAGE_SIZE = 2000000"
definition MAX_INVENTORY_ITEMS :: int where "MAX_INVENTORY_ITEMS = 2000"
definition HEADER_SIZE :: nat where "HEADER_SIZE = 8"
definition AUTH_TAG_SIZE :: nat where "AUTH_TAG_SIZE = 32"

abbreviation network_error :: "string \<Rightarrow> 'a result" where
  "network_error s \<equiv> Inl (NetworkError (ascii s))"

datatype message_type =
  VERSION | VERACK | PING | PONG | INV | GETDATA | GETHEADERS | HEADERS | TX | BLOCK | REJECT

primrec type_text :: "message_type \<Rightarrow> string" where
  "type_text VERSION = ''version''"
| "type_text VERACK = ''verack''"
| "type_text PING = ''ping''"
| "type_text PONG = ''pong''"
| "type_text INV = ''inv''"
| "type_text GETDATA = ''getdata''"
| "type_text GETHEADERS = ''getheaders''"
| "type_text HEADERS = ''headers''"
| "type_text TX = ''tx''"
| "type_text BLOCK = ''block''"
| "type_text REJECT = ''reject''"

definition message_types :: "message_type list" where
  "message_types = [VERSION, VERACK, PING, PONG, INV, GETDATA, GETHEADERS, HEADERS, TX, BLOCK, REJECT]"

text \<open>\<^verbatim>\<open>MessageType(text)\<close>.\<close>

definition message_type_of :: "pystr \<Rightarrow> message_type result" where
  "message_type_of s =
     (case find (\<lambda>t. ascii (type_text t) = s) message_types of
        None \<Rightarrow> value_error ''is not a valid MessageType''
      | Some t \<Rightarrow> Inr t)"

section \<open>Frame authentication\<close>

text \<open>HMAC over SHA-256, whose block size is 64 bytes.\<close>

definition hmac_key :: "crypto \<Rightarrow> bytes \<Rightarrow> bytes" where
  "hmac_key C key =
     (let k = (if length key > 64 then sha256_digest C key else key) in k @ replicate (64 - length k) 0)"

definition hmac_sha256 :: "crypto \<Rightarrow> bytes \<Rightarrow> bytes \<Rightarrow> bytes" where
  "hmac_sha256 C key msg =
     (let k = hmac_key C key
      in sha256_digest C (map (Bit_Operations.xor 0x5C) k @ sha256_digest C (map (Bit_Operations.xor 0x36) k @ msg)))"

definition authenticator :: "bytes \<Rightarrow> bytes result" where
  "authenticator key = (if key = [] then network_error ''frame authentication key is required'' else Inr key)"

definition frame_tag :: "crypto \<Rightarrow> bytes \<Rightarrow> bytes \<Rightarrow> bytes" where
  "frame_tag C key header_and_payload = hmac_sha256 C key header_and_payload"

definition frame_verify :: "crypto \<Rightarrow> bytes \<Rightarrow> bytes \<Rightarrow> bytes \<Rightarrow> unit result" where
  "frame_verify C key header_and_payload tag =
     (if length tag \<noteq> AUTH_TAG_SIZE then network_error ''frame authentication tag is invalid''
      else if frame_tag C key header_and_payload \<noteq> tag then network_error ''frame authentication failed''
      else Inr ())"

section \<open>Inventory vectors\<close>

definition is_hash_value :: "json \<Rightarrow> bool" where
  "is_hash_value v = (case v of JStr s \<Rightarrow> is_hash s | _ \<Rightarrow> False)"

record inventory_vector =
  iv_kind :: pystr
  iv_hash :: pystr

definition iv_to_dict :: "inventory_vector \<Rightarrow> json" where
  "iv_to_dict i = JObj [(ascii ''kind'', JStr (iv_kind i)), (ascii ''hash'', JStr (iv_hash i))]"

definition iv_from_dict :: "py_runtime \<Rightarrow> (pystr, json) dict \<Rightarrow> inventory_vector result" where
  "iv_from_dict R d =
     rbind (py_getitem d ''kind'') (\<lambda>k.
     rbind (py_getitem d ''hash'') (\<lambda>h.
     let kind = py_str R k; item_hash = py_str R h in
     if kind \<notin> {ascii ''tx'', ascii ''block''} then network_error ''inventory kind is invalid''
     else if \<not> is_hash item_hash then network_error ''inventory hash is invalid''
     else Inr \<lparr>iv_kind = kind, iv_hash = item_hash\<rparr>))"

text \<open>\<^verbatim>\<open>InventoryVector.from_dict\<close> of a raw item: subscripting anything but an object by text raises.\<close>

definition iv_from_value :: "py_runtime \<Rightarrow> json \<Rightarrow> inventory_vector result" where
  "iv_from_value R v = (case v of JObj d \<Rightarrow> iv_from_dict R d | _ \<Rightarrow> Inl TypeError)"

section \<open>Block headers\<close>

record block_header =
  bh_height :: int
  bh_previous_hash :: pystr
  bh_transaction_root :: pystr
  bh_difficulty :: int
  bh_timestamp :: "64 word"
  bh_nonce :: int
  bh_version :: int

definition header_of_block :: "consensus_block \<Rightarrow> block_header" where
  "header_of_block b =
     \<lparr>bh_height = blk_height b, bh_previous_hash = blk_previous_hash b,
      bh_transaction_root = blk_transaction_root b, bh_difficulty = blk_difficulty b,
      bh_timestamp = blk_timestamp b, bh_nonce = blk_nonce b, bh_version = blk_version b\<rparr>"

definition header_hash :: "crypto \<Rightarrow> block_header \<Rightarrow> pystr result" where
  "header_hash C h =
     rbind (new_block C \<lparr>blk_height = bh_height h, blk_previous_hash = bh_previous_hash h,
       blk_transactions = [], blk_difficulty = bh_difficulty h, blk_timestamp = bh_timestamp h,
       blk_nonce = bh_nonce h, blk_transaction_root = bh_transaction_root h, blk_version = bh_version h\<rparr>)
     (block_hash C)"

definition header_to_dict :: "crypto \<Rightarrow> py_runtime \<Rightarrow> block_header \<Rightarrow> json result" where
  "header_to_dict C R h =
     rbind (header_hash C h) (\<lambda>hh. Inr (JObj
       [(ascii ''difficulty'', JInt (bh_difficulty h)),
        (ascii ''hash'', JStr hh),
        (ascii ''height'', JInt (bh_height h)),
        (ascii ''nonce'', JInt (bh_nonce h)),
        (ascii ''previous_hash'', JStr (bh_previous_hash h)),
        (ascii ''timestamp'', JFloat (float_json R (bh_timestamp h))),
        (ascii ''transaction_root'', JStr (bh_transaction_root h)),
        (ascii ''version'', JInt (bh_version h))]))"

definition header_fields :: "py_runtime \<Rightarrow> (pystr, json) dict \<Rightarrow> block_header result" where
  "header_fields R d =
     rbind (py_getitem d ''height'') (\<lambda>v. rbind (py_int R v) (\<lambda>height.
     rbind (py_getitem d ''previous_hash'') (\<lambda>prev.
     rbind (py_getitem d ''transaction_root'') (\<lambda>root.
     rbind (py_getitem d ''difficulty'') (\<lambda>v. rbind (py_int R v) (\<lambda>difficulty.
     rbind (py_getitem d ''timestamp'') (\<lambda>v. rbind (py_float R v) (\<lambda>timestamp.
     rbind (py_getitem d ''nonce'') (\<lambda>v. rbind (py_int R v) (\<lambda>nonce.
     rbind (case map_of d (ascii ''version'') of None \<Rightarrow> Inr 1 | Some v \<Rightarrow> py_int R v) (\<lambda>version.
       Inr \<lparr>bh_height = height, bh_previous_hash = py_str R prev, bh_transaction_root = py_str R root,
            bh_difficulty = difficulty, bh_timestamp = timestamp, bh_nonce = nonce,
            bh_version = version\<rparr>)))))))))))"

text \<open>\<^verbatim>\<open>except (KeyError, TypeError, ValueError)\<close>: an \<^verbatim>\<open>OverflowError\<close> is none of these.\<close>

definition malformed :: "string \<Rightarrow> 'a result \<Rightarrow> 'a result" where
  "malformed msg r =
     (case r of
        Inl e \<Rightarrow> if e = KeyError \<or> e = TypeError \<or> is_value_error e then network_error msg else Inl e
      | Inr x \<Rightarrow> Inr x)"

definition header_from_dict :: "crypto \<Rightarrow> py_runtime \<Rightarrow> (pystr, json) dict \<Rightarrow> block_header result" where
  "header_from_dict C R d =
     rbind (malformed ''block header is malformed'' (header_fields R d)) (\<lambda>h.
     let claimed = py_get d ''hash'' in
     if bh_height h < 0 then network_error ''block header height is invalid''
     else if bh_difficulty h < 0 then network_error ''block header difficulty is invalid''
     else if bh_version h \<notin> set SUPPORTED_BLOCK_VERSIONS then network_error ''block header version is unsupported''
     else if \<not> is_hash (bh_previous_hash h) then network_error ''block header previous hash is invalid''
     else if \<not> is_hash (bh_transaction_root h) then network_error ''block header transaction root is invalid''
     else if claimed = JNull then Inr h
     else rbind (header_hash C h) (\<lambda>hh.
       if claimed \<noteq> JStr hh then network_error ''block header hash is invalid'' else Inr h))"

text \<open>The loop of \<^verbatim>\<open>validate_header_chain\<close>, with the hash and height of the header before.\<close>

fun check_header_chain :: "crypto \<Rightarrow> pystr option \<Rightarrow> int option \<Rightarrow> block_header list \<Rightarrow> unit result" where
  "check_header_chain C prior_hash prior_height [] = Inr ()"
| "check_header_chain C prior_hash prior_height (h # hs) =
     rbind (header_hash C h) (\<lambda>hh.
     if \<not> starts_with (replicate (nat (bh_difficulty h)) 48) hh
     then network_error ''block header proof of work is invalid''
     else if prior_hash \<noteq> None \<and> Some (bh_previous_hash h) \<noteq> prior_hash
     then network_error ''block headers are disconnected''
     else if prior_height \<noteq> None \<and> prior_height \<noteq> Some (bh_height h - 1)
     then network_error ''block header height is not sequential''
     else check_header_chain C (Some hh) (Some (bh_height h)) hs)"

definition validate_header_chain :: "crypto \<Rightarrow> block_header list \<Rightarrow> pystr option \<Rightarrow> block_header list result" where
  "validate_header_chain C headers previous_hash =
     (if (case previous_hash of None \<Rightarrow> False | Some p \<Rightarrow> \<not> is_hash p)
      then network_error ''header chain anchor is invalid''
      else rbind (check_header_chain C previous_hash None headers) (\<lambda>_. Inr headers))"

section \<open>Messages\<close>

record peer_message =
  msg_type :: message_type
  msg_payload :: json
  msg_version :: int

definition mk_message :: "message_type \<Rightarrow> (pystr, json) dict \<Rightarrow> peer_message" where
  "mk_message t d = \<lparr>msg_type = t, msg_payload = JObj d, msg_version = PROTOCOL_VERSION\<rparr>"

definition message_to_dict :: "peer_message \<Rightarrow> json" where
  "message_to_dict m =
     JObj [(ascii ''type'', JStr (ascii (type_text (msg_type m)))),
           (ascii ''version'', JInt (msg_version m)),
           (ascii ''payload'', msg_payload m)]"

definition message_checksum :: "crypto \<Rightarrow> peer_message \<Rightarrow> pystr result" where
  "message_checksum C m = sha256_hex_text C (canonical_json (message_to_dict m))"

definition encode_payload :: "peer_message \<Rightarrow> bytes result" where
  "encode_payload m = utf8_encode (canonical_json (message_to_dict m))"

definition to_frame :: "crypto \<Rightarrow> peer_message \<Rightarrow> bytes \<Rightarrow> bytes result" where
  "to_frame C m auth_key =
     rbind (encode_payload m) (\<lambda>payload.
     if int (length payload) > MAX_MESSAGE_SIZE then network_error ''message exceeds maximum size''
     else
       rbind (pack_I (int (length payload))) (\<lambda>n.
       let frame = NETWORK_MAGIC @ n @ payload in
       rbind (authenticator auth_key) (\<lambda>key. Inr (frame @ frame_tag C key frame))))"

section \<open>Payload validation\<close>

definition payload_dict :: "json \<Rightarrow> (pystr, json) dict result" where
  "payload_dict v = (case v of JObj d \<Rightarrow> Inr d | _ \<Rightarrow> Inl AttributeError)"

text \<open>The truth value of a JSON value.\<close>

definition truthy :: "json \<Rightarrow> bool" where
  "truthy v =
     (case v of JNull \<Rightarrow> False | JBool b \<Rightarrow> b | JInt i \<Rightarrow> i \<noteq> 0
      | JFloat t \<Rightarrow> t \<noteq> ascii ''0.0'' \<and> t \<noteq> ascii ''-0.0''
      | JStr s \<Rightarrow> s \<noteq> [] | JList vs \<Rightarrow> vs \<noteq> [] | JObj d \<Rightarrow> d \<noteq> [])"

definition nonempty_text :: "json \<Rightarrow> bool" where
  "nonempty_text v = (case v of JStr s \<Rightarrow> s \<noteq> [] | _ \<Rightarrow> False)"

definition int_at_least :: "int \<Rightarrow> json \<Rightarrow> bool" where
  "int_at_least n v = (case as_int v of Some i \<Rightarrow> n \<le> i | None \<Rightarrow> False)"

definition validate_empty :: "json \<Rightarrow> unit result" where
  "validate_empty v = (if truthy v then network_error ''message payload must be empty'' else Inr ())"

definition validate_version :: "(pystr, json) dict \<Rightarrow> unit result" where
  "validate_version d =
     (if \<not> nonempty_text (py_get d ''network'') then network_error ''version network is invalid''
      else if \<not> int_at_least (-1) (py_get d ''height'') then network_error ''version height is invalid''
      else if \<not> nonempty_text (py_get d ''node_id'') then network_error ''version node id is invalid''
      else Inr ())"

definition validate_nonce :: "(pystr, json) dict \<Rightarrow> unit result" where
  "validate_nonce d = (if \<not> int_at_least 0 (py_get d ''nonce'') then network_error ''nonce is invalid'' else Inr ())"

definition validate_inventory :: "py_runtime \<Rightarrow> (pystr, json) dict \<Rightarrow> unit result" where
  "validate_inventory R d =
     (case py_get d ''items'' of
        JList items \<Rightarrow>
          if int (length items) > MAX_INVENTORY_ITEMS
          then network_error ''inventory items exceed maximum count''
          else rbind (rmap (\<lambda>item. rbind (py_dict item) (iv_from_dict R)) items) (\<lambda>_. Inr ())
      | _ \<Rightarrow> network_error ''inventory items are invalid'')"

definition validate_getheaders :: "(pystr, json) dict \<Rightarrow> unit result" where
  "validate_getheaders d =
     (case py_get d ''locator'' of
        JList locator \<Rightarrow>
          if (case as_int (py_get d ''limit'') of None \<Rightarrow> True | Some n \<Rightarrow> n < 0 \<or> n > 2000)
          then network_error ''header limit is invalid''
          else if py_get d ''stop_hash'' \<noteq> JNull \<and> \<not> is_hash_value (py_get d ''stop_hash'')
          then network_error ''header stop hash is invalid''
          else if \<not> list_all is_hash_value locator then network_error ''header locator hash is invalid''
          else Inr ()
      | _ \<Rightarrow> network_error ''header locator is invalid'')"

definition headers_from_payload :: "crypto \<Rightarrow> py_runtime \<Rightarrow> (pystr, json) dict \<Rightarrow> block_header list result" where
  "headers_from_payload C R d =
     (case py_get d ''headers'' of
        JList headers \<Rightarrow>
          if length headers > 2000 then network_error ''headers payload is too large''
          else rbind (rmap (\<lambda>h. rbind (py_dict h) (header_from_dict C R)) headers) (\<lambda>hs.
            validate_header_chain C hs None)
      | _ \<Rightarrow> network_error ''headers payload is invalid'')"

definition validate_headers :: "crypto \<Rightarrow> py_runtime \<Rightarrow> (pystr, json) dict \<Rightarrow> unit result" where
  "validate_headers C R d = rbind (headers_from_payload C R d) (\<lambda>_. Inr ())"

text \<open>\<^verbatim>\<open>except (ConsensusError, ValueError)\<close>.\<close>

definition binary_payload :: "string \<Rightarrow> 'a result \<Rightarrow> 'a result" where
  "binary_payload msg r =
     (case r of Inl e \<Rightarrow> if is_value_error e then network_error msg else Inl e | Inr x \<Rightarrow> Inr x)"

definition transaction_from_payload :: "(pystr, json) dict \<Rightarrow> consensus_transaction result" where
  "transaction_from_payload d =
     (case py_get d ''transaction_bytes'' of
        JStr raw \<Rightarrow>
          binary_payload ''transaction binary payload is invalid'' (rbind (fromhex raw) (tx_from_bytes True))
      | _ \<Rightarrow> network_error ''transaction payload is invalid'')"

definition block_from_payload :: "crypto \<Rightarrow> (pystr, json) dict \<Rightarrow> consensus_block result" where
  "block_from_payload C d =
     (case py_get d ''block_bytes'' of
        JStr raw \<Rightarrow> binary_payload ''block binary payload is invalid'' (rbind (fromhex raw) (block_from_bytes C))
      | _ \<Rightarrow> network_error ''block payload is invalid'')"

definition validate_reject :: "(pystr, json) dict \<Rightarrow> unit result" where
  "validate_reject d = (if \<not> nonempty_text (py_get d ''reason'') then network_error ''reject reason is invalid'' else Inr ())"

definition validate_payload :: "crypto \<Rightarrow> py_runtime \<Rightarrow> peer_message \<Rightarrow> unit result" where
  "validate_payload C R m =
     (if msg_type m = VERACK then validate_empty (msg_payload m)
      else rbind (payload_dict (msg_payload m)) (\<lambda>d.
        case msg_type m of
          VERSION \<Rightarrow> validate_version d
        | VERACK \<Rightarrow> Inr ()
        | PING \<Rightarrow> validate_nonce d
        | PONG \<Rightarrow> validate_nonce d
        | INV \<Rightarrow> validate_inventory R d
        | GETDATA \<Rightarrow> validate_inventory R d
        | GETHEADERS \<Rightarrow> validate_getheaders d
        | HEADERS \<Rightarrow> validate_headers C R d
        | TX \<Rightarrow> rbind (transaction_from_payload d) (\<lambda>_. Inr ())
        | BLOCK \<Rightarrow> rbind (block_from_payload C d) (\<lambda>_. Inr ())
        | REJECT \<Rightarrow> validate_reject d))"

section \<open>Reading messages\<close>

definition message_from_dict :: "crypto \<Rightarrow> py_runtime \<Rightarrow> (pystr, json) dict \<Rightarrow> peer_message result" where
  "message_from_dict C R d =
     rbind (malformed ''message is malformed''
       (rbind (py_getitem d ''type'') (\<lambda>t. rbind (message_type_of (py_str R t)) (\<lambda>mt.
        rbind (py_getitem d ''version'') (\<lambda>v. rbind (py_int R v) (\<lambda>version.
        rbind (py_getitem d ''payload'') (\<lambda>payload.
          Inr \<lparr>msg_type = mt, msg_payload = payload, msg_version = version\<rparr>)))))))
     (\<lambda>m.
     if msg_version m \<noteq> PROTOCOL_VERSION then network_error ''protocol version is unsupported''
     else rbind (validate_payload C R m) (\<lambda>_. Inr m))"

definition loads_bytes :: "py_runtime \<Rightarrow> bytes \<Rightarrow> json result" where
  "loads_bytes R payload =
     (case utf8_decode payload of
        None \<Rightarrow> network_error ''frame payload is not valid JSON''
      | Some text \<Rightarrow>
          (case loads R text of
             Inl JSONDecodeError \<Rightarrow> network_error ''frame payload is not valid JSON''
           | r \<Rightarrow> r))"

definition from_frame :: "crypto \<Rightarrow> py_runtime \<Rightarrow> bytes \<Rightarrow> bytes \<Rightarrow> peer_message result" where
  "from_frame C R frame auth_key =
     (if length frame < HEADER_SIZE then network_error ''frame is too short''
      else if take 4 frame \<noteq> NETWORK_MAGIC then network_error ''network magic is invalid''
      else
        let size = be_decode (drop 4 (take HEADER_SIZE frame)) in
        if size > MAX_MESSAGE_SIZE then network_error ''message exceeds maximum size''
        else
          let end = HEADER_SIZE + nat size; expected_size = end + AUTH_TAG_SIZE in
          if length frame \<noteq> expected_size then network_error ''frame payload length mismatch''
          else
            rbind (authenticator auth_key) (\<lambda>key.
            rbind (frame_verify C key (take end frame) (drop end (take expected_size frame))) (\<lambda>_.
            rbind (loads_bytes R (drop HEADER_SIZE (take end frame))) (\<lambda>decoded.
            case decoded of
              JObj d \<Rightarrow> message_from_dict C R d
            | _ \<Rightarrow> network_error ''message payload must be an object''))))"

definition read_frame :: "crypto \<Rightarrow> py_runtime \<Rightarrow> bytes \<Rightarrow> bytes \<Rightarrow> (peer_message \<times> bytes) result" where
  "read_frame C R buffer auth_key =
     (if length buffer < HEADER_SIZE then network_error ''buffer does not contain a complete header''
      else if take 4 buffer \<noteq> NETWORK_MAGIC then network_error ''network magic is invalid''
      else
        let size = be_decode (drop 4 (take HEADER_SIZE buffer)) in
        if size > MAX_MESSAGE_SIZE then network_error ''message exceeds maximum size''
        else
          let end = HEADER_SIZE + nat size + AUTH_TAG_SIZE in
          if length buffer < end then network_error ''buffer does not contain a complete frame''
          else rbind (from_frame C R (take end buffer) auth_key) (\<lambda>m. Inr (m, drop end buffer)))"

section \<open>Building messages\<close>

definition version_message :: "pystr \<Rightarrow> int \<Rightarrow> pystr \<Rightarrow> peer_message" where
  "version_message network height node_id =
     mk_message VERSION [(ascii ''network'', JStr network), (ascii ''height'', JInt height),
                         (ascii ''node_id'', JStr node_id)]"

definition inventory_message :: "message_type \<Rightarrow> inventory_vector list \<Rightarrow> peer_message result" where
  "inventory_message t items =
     (if t \<notin> {INV, GETDATA} then network_error ''inventory message type is invalid''
      else Inr (mk_message t [(ascii ''items'', JList (map iv_to_dict items))]))"

definition getheaders_message :: "pystr list \<Rightarrow> pystr option \<Rightarrow> int \<Rightarrow> peer_message" where
  "getheaders_message locator stop_hash limit =
     mk_message GETHEADERS [(ascii ''limit'', JInt limit), (ascii ''locator'', JList (map JStr locator)),
       (ascii ''stop_hash'', (case stop_hash of None \<Rightarrow> JNull | Some h \<Rightarrow> JStr h))]"

definition headers_message :: "crypto \<Rightarrow> py_runtime \<Rightarrow> block_header list \<Rightarrow> peer_message result" where
  "headers_message C R headers =
     rbind (rmap (header_to_dict C R) headers) (\<lambda>hs. Inr (mk_message HEADERS [(ascii ''headers'', JList hs)]))"

definition transaction_message :: "consensus_transaction \<Rightarrow> peer_message result" where
  "transaction_message tx =
     rbind (tx_to_bytes True tx) (\<lambda>bs. Inr (mk_message TX [(ascii ''transaction_bytes'', JStr (hexlify bs))]))"

definition block_message :: "consensus_block \<Rightarrow> peer_message result" where
  "block_message b =
     rbind (block_to_bytes b) (\<lambda>bs. Inr (mk_message BLOCK [(ascii ''block_bytes'', JStr (hexlify bs))]))"

end
