(* ===== verification/Json_Round_Trip.thy ===== *)
theory Json_Round_Trip
  imports Json_Parse
begin

text \<open>
  \<^verbatim>\<open>json.loads\<close> inverts \<^verbatim>\<open>canonical_json\<close> on the values the node sends, up to the order of keys: what
  comes back has its objects in key order.
\<close>

section \<open>Values that survive\<close>

primrec json_sort :: "json \<Rightarrow> json" where
  "json_sort JNull = JNull"
| "json_sort (JBool b) = JBool b"
| "json_sort (JInt i) = JInt i"
| "json_sort (JFloat t) = JFloat t"
| "json_sort (JStr s) = JStr s"
| "json_sort (JList vs) = JList (map json_sort vs)"
| "json_sort (JObj kvs) = JObj (sort_key fst (map (map_prod id json_sort) kvs))"

definition is_float_text :: "py_runtime \<Rightarrow> pystr \<Rightarrow> bool" where
  "is_float_text R t \<longleftrightarrow> t = ascii ''NaN'' \<or> t = ascii ''Infinity'' \<or> t = ascii ''-Infinity'' \<or>
     scan_number R t = Inr (JFloat t, [])"

primrec json_wf :: "py_runtime \<Rightarrow> json \<Rightarrow> bool" where
  "json_wf R JNull = True"
| "json_wf R (JBool b) = True"
| "json_wf R (JInt i) = (length (nat_repr (nat \<bar>i\<bar>)) \<le> INT_MAX_STR_DIGITS)"
| "json_wf R (JFloat t) = is_float_text R t"
| "json_wf R (JStr s) = list_all is_scalar s"
| "json_wf R (JList vs) = list_all id (map (json_wf R) vs)"
| "json_wf R (JObj kvs) =
     (distinct (map fst kvs) \<and> list_all (\<lambda>p. list_all is_scalar (fst p)) kvs \<and>
      list_all snd (map (map_prod id (json_wf R)) kvs))"

section \<open>Strings\<close>

lemma hex4_sum: "0 \<le> (c :: int) \<Longrightarrow> c < 65536 \<Longrightarrow>
    c div 4096 mod 16 * 4096 + c div 256 mod 16 * 256 + c div 16 mod 16 * 16 + c mod 16 = c"
proof -
  assume "0 \<le> c" "c < 65536"
  then have "c div 4096 mod 16 = c div 4096" by auto
  moreover have "c div 4096 = c div 16 div 16 div 16" "c div 256 = c div 16 div 16"
    using zdiv_zmult2_eq [of 16 c 16] zdiv_zmult2_eq [of 16 c 256] zdiv_zmult2_eq [of 16 "c div 16" 16] by simp_all
  ultimately show ?thesis
    using div_mult_mod_eq [of c 16] div_mult_mod_eq [of "c div 16" 16] div_mult_mod_eq [of "c div 16 div 16" 16]
    by presburger
qed

lemma hex4_split: "hex4 c = 92 # 117 #
    [hex_digit (c div 4096 mod 16), hex_digit (c div 256 mod 16), hex_digit (c div 16 mod 16), hex_digit (c mod 16)]"
  by (simp add: hex4_def ascii_def)

lemma scan_hex4_digits:
  assumes "0 \<le> w" "w < 16" "0 \<le> x" "x < 16" "0 \<le> y" "y < 16" "0 \<le> z" "z < 16"
  shows "scan_hex4 (hex_digit w # hex_digit x # hex_digit y # hex_digit z # rest) =
    Some (w * 4096 + x * 256 + y * 16 + z, rest)"
  using assms by (simp add: scan_hex4_def hex_digit_props)

lemma scan_hex4_hex4:
  assumes "0 \<le> c" and "c < 65536"
  shows "scan_hex4 (drop 2 (hex4 c) @ rest) = Some (c, rest)"
proof -
  have "drop 2 (hex4 c) @ rest = hex_digit (c div 4096 mod 16) # hex_digit (c div 256 mod 16) #
      hex_digit (c div 16 mod 16) # hex_digit (c mod 16) # rest"
    unfolding hex4_split by simp
  moreover have "scan_hex4 \<dots> = Some (c div 4096 mod 16 * 4096 + c div 256 mod 16 * 256 + c div 16 mod 16 * 16 + c mod 16, rest)"
    by (rule scan_hex4_digits) simp_all
  ultimately show ?thesis unfolding hex4_sum [OF assms] by simp
qed

lemma scan_unicode_plain:
  assumes "0 \<le> c" and "c < 65536" and "\<not> (0xD800 \<le> c \<and> c \<le> 0xDBFF)"
  shows "scan_unicode (drop 2 (hex4 c) @ rest) = Some (c, rest)"
  using assms(3) by (auto simp: scan_unicode_def scan_hex4_hex4 [OF assms(1,2)])

lemma scan_unicode_pair:
  assumes "0 \<le> a" and "a < 1024" and "0 \<le> b" and "b < 1024"
  shows "scan_unicode (drop 2 (hex4 (0xD800 + a)) @ hex4 (0xDC00 + b) @ rest) = Some (0x10000 + a * 1024 + b, rest)"
proof -
  have "take 2 (hex4 (0xDC00 + b) @ rest) = [92, 117]" "drop 2 (hex4 (0xDC00 + b) @ rest) = drop 2 (hex4 (0xDC00 + b)) @ rest"
    by (simp_all add: hex4_split)
  then show ?thesis
    using assms scan_hex4_hex4 [of "0xD800 + a" "hex4 (0xDC00 + b) @ rest"] scan_hex4_hex4 [of "0xDC00 + b" rest]
    by (simp add: scan_unicode_def)
qed

lemma scan_char_escape: "scan_char (hex4 c @ rest) =
    (case scan_unicode (drop 2 (hex4 c) @ rest) of None \<Rightarrow> json_error | Some (u, r') \<Rightarrow> Inr (Some u, r'))"
  by (simp add: scan_char_def hex4_split)

lemma scan_char_json_char:
  assumes "is_scalar c"
  shows "scan_char (json_char c @ rest) = Inr (Some c, rest)"
proof -
  let ?a = "(c - 0x10000) div 1024" and ?b = "(c - 0x10000) mod 1024"
  from assms have c: "0 \<le> c" "c \<le> 0x10FFFF" "\<not> (0xD800 \<le> c \<and> c \<le> 0xDFFF)" by (auto simp: is_scalar_def)
  consider "c \<in> {34, 92, 10, 13, 9, 12, 8}" | "c \<notin> {34, 92}" "32 \<le> c" "c \<le> 126"
    | "c \<notin> {34, 92, 10, 13, 9, 12, 8}" "\<not> (32 \<le> c \<and> c \<le> 126)" "c < 0x10000"
    | "0x10000 \<le> c" by fastforce
  then show ?thesis
  proof cases
    case 1
    then show ?thesis by (auto simp: json_char_def scan_char_def simple_escape_def)
  next
    case 2
    then show ?thesis by (auto simp: json_char_def scan_char_def)
  next
    case 3
    then have "json_char c = hex4 c" by (auto simp: json_char_def)
    moreover have "scan_unicode (drop 2 (hex4 c) @ rest) = Some (c, rest)"
      using 3 c by (intro scan_unicode_plain) auto
    ultimately show ?thesis by (simp add: scan_char_escape)
  next
    case 4
    then have "json_char c = hex4 (0xD800 + ?a) @ hex4 (0xDC00 + ?b)" by (simp add: json_char_def)
    moreover have "0 \<le> ?a" "?a < 1024" using 4 c by auto
    moreover have "0x10000 + ?a * 1024 + ?b = c" using div_mult_mod_eq [of "c - 0x10000" 1024] by linarith
    ultimately show ?thesis using scan_unicode_pair [of ?a ?b rest] by (simp add: scan_char_escape)
  qed
qed

lemma scan_string_chars:
  "list_all is_scalar s \<Longrightarrow> scan_string (concat (map json_char s) @ 34 # rest) = Inr (s, rest)"
proof (induction s)
  case Nil
  then show ?case by (simp add: scan_string.simps scan_char_def)
next
  case (Cons c s)
  then show ?case by (simp add: scan_string.simps [of "json_char c @ _"] scan_char_json_char)
qed

lemma json_string_Cons: "json_string s @ rest = 34 # concat (map json_char s) @ 34 # rest"
  by (simp add: json_string_def)

section \<open>Numbers\<close>

text \<open>What follows a value inside a text: nothing, a comma, a closing bracket or a blank.\<close>

definition is_delim :: "pystr \<Rightarrow> bool" where
  "is_delim r \<longleftrightarrow> r = [] \<or> hd r \<in> {44, 93, 125} \<or> is_ws (hd r)"

lemma digits_append:
  assumes "is_delim rest"
  shows "takeWhile is_digit (xs @ rest) = takeWhile is_digit xs" "dropWhile is_digit (xs @ rest) = dropWhile is_digit xs @ rest"
proof -
  have "rest = [] \<or> \<not> is_digit (hd rest)" using assms by (auto simp: is_delim_def is_digit_def is_ws_def)
  then show "takeWhile is_digit (xs @ rest) = takeWhile is_digit xs"
    "dropWhile is_digit (xs @ rest) = dropWhile is_digit xs @ rest"
    by (induction xs) (cases rest; auto)+
qed

lemma scan_int_part_append:
  assumes "scan_int_part t = Some (a, b)" and "is_delim rest"
  shows "scan_int_part (t @ rest) = Some (a, b @ rest)"
proof -
  obtain c t' where t: "t = c # t'" using assms(1) by (cases t) (auto simp: scan_int_part_def next_is_def)
  show ?thesis
    using assms(1) digits_append [OF assms(2)]
    by (auto simp: t scan_int_part_def next_is_def Let_def split: list.splits if_splits)
qed

lemma scan_fraction_append:
  assumes "is_delim rest"
  shows "scan_fraction (b @ rest) = (fst (scan_fraction b), snd (scan_fraction b) @ rest)"
proof (cases b)
  case Nil
  with assms show ?thesis by (auto simp: scan_fraction_def is_delim_def is_ws_def split: list.splits)
next
  case (Cons p r)
  show ?thesis
  proof (cases r)
    case Nil
    with Cons assms show ?thesis by (auto simp: scan_fraction_def is_delim_def is_digit_def is_ws_def split: list.splits)
  next
    case (Cons d r')
    with \<open>b = p # r\<close> digits_append [OF assms] show ?thesis by (simp add: scan_fraction_def)
  qed
qed

lemma scan_exponent_append:
  assumes "is_delim rest" and "snd (scan_exponent b) = []"
  shows "scan_exponent (b @ rest) = (fst (scan_exponent b), rest)"
proof (cases b)
  case Nil
  with assms show ?thesis by (cases rest) (auto simp: scan_exponent_def is_delim_def is_ws_def)
next
  case (Cons e r)
  with assms digits_append [OF assms(1)] show ?thesis
    by (cases r) (auto simp: scan_exponent_def Let_def split: if_splits list.splits)
qed

lemma scan_number_append:
  assumes "scan_number R t = Inr (v, [])" and "is_delim rest"
  shows "scan_number R (t @ rest) = Inr (v, rest)"
  using assms
  by (auto simp: scan_number_def json_error_def scan_int_part_append scan_fraction_append scan_exponent_append
      Let_def case_prod_unfold split: option.splits if_splits)

lemma nat_repr_digits: "list_all is_digit (nat_repr n) \<and> nat_repr n \<noteq> []"
proof (induction n rule: nat_repr.induct)
  case (1 n)
  then show ?case by (cases "n < 10") (auto simp: nat_repr.simps [of n] is_digit_def)
qed

lemma nat_repr_value: "foldl (\<lambda>acc c. acc * 10 + (c - 48)) 0 (nat_repr n) = int n"
proof (induction n rule: nat_repr.induct)
  case (1 n)
  have "int (n div 10) * 10 + int (n mod 10) = int n" by presburger
  with 1 show ?case by (cases "n < 10") (auto simp: nat_repr.simps [of n])
qed

lemma nat_repr_lead: "hd (nat_repr n) = 48 \<longleftrightarrow> n = 0"
proof (induction n rule: nat_repr.induct)
  case (1 n)
  show ?case
  proof (cases "n < 10")
    case False
    then show ?thesis using 1 nat_repr_digits [of "n div 10"] by (simp add: nat_repr.simps [of n])
  qed (simp add: nat_repr.simps)
qed

lemma nat_repr_0 [simp]: "nat_repr 0 = [48]"
  by (simp add: nat_repr.simps)

lemma scan_int_part_nat: "scan_int_part (nat_repr n) = Some (nat_repr n, [])"
proof (cases "n = 0")
  case False
  obtain c cs where r: "nat_repr n = c # cs" using nat_repr_digits [of n] by (cases "nat_repr n") auto
  with False nat_repr_digits [of n] nat_repr_lead [of n] have "c \<noteq> 48" "is_digit c" "list_all is_digit cs" by auto
  moreover from this have "takeWhile is_digit (c # cs) = c # cs" "dropWhile is_digit (c # cs) = []"
    by (auto simp: takeWhile_eq_all_conv list_all_iff)
  ultimately show ?thesis by (auto simp: r scan_int_part_def next_is_def is_digit_def)
qed (simp add: scan_int_part_def next_is_def)

lemma scan_int_part_neg: "scan_int_part s = Some (t, r) \<Longrightarrow> is_digit (hd s) \<Longrightarrow> scan_int_part (45 # s) = Some (45 # t, r)"
  by (auto simp: scan_int_part_def next_is_def is_digit_def split: list.splits if_splits)

lemma hd_nat_repr: "is_digit (hd (nat_repr n))"
  using nat_repr_digits [of n] by (cases "nat_repr n") auto

lemma scan_number_int:
  assumes "length (nat_repr (nat \<bar>i\<bar>)) \<le> INT_MAX_STR_DIGITS"
  shows "scan_number R (int_repr i) = Inr (JInt i, [])"
proof -
  have fe: "scan_fraction [] = ([], [])" "scan_exponent [] = ([], [])" by (simp_all add: scan_fraction_def scan_exponent_def)
  show ?thesis
  proof (cases "i < 0")
    case True
    with assms scan_int_part_neg [OF scan_int_part_nat hd_nat_repr] show ?thesis
      by (simp add: scan_number_def int_repr_def fe int_of_literal_def nat_repr_value Let_def)
  next
    case False
    have "hd (nat_repr (nat i)) \<noteq> 45" using hd_nat_repr [of "nat i"] by (auto simp: is_digit_def)
    with False assms show ?thesis
      by (simp add: scan_number_def int_repr_def fe int_of_literal_def nat_repr_value Let_def scan_int_part_nat)
  qed
qed

text \<open>A number starts with a digit or a minus sign and a digit, so it is none of the constants.\<close>

definition number_start :: "pystr \<Rightarrow> bool" where
  "number_start t \<longleftrightarrow> t \<noteq> [] \<and> (is_digit (hd t) \<or> (hd t = 45 \<and> tl t \<noteq> [] \<and> is_digit (hd (tl t))))"

lemma scan_number_start: "scan_number R t = Inr p \<Longrightarrow> number_start t"
  by (auto simp: scan_number_def json_error_def scan_int_part_def next_is_def number_start_def is_digit_def
      split: option.splits list.splits if_splits)

lemma number_start_scan:
  assumes "number_start t"
  shows "scan_once R (Suc n) (t @ rest) = scan_number R (t @ rest)"
proof -
  obtain c t' where t: "t = c # t'" using assms by (cases t) (auto simp: number_start_def)
  have "next_word w (t @ rest) = None" if "w \<in> {''null'', ''true'', ''false'', ''NaN'', ''Infinity'', ''-Infinity''}" for w
    using assms that by (cases t') (auto simp: t number_start_def is_digit_def next_word_def ascii_def)
  then have "scan_constant (t @ rest) = None" by (simp add: scan_constant_def)
  moreover have "next_is c (t @ rest) = None" if "c \<in> {34, 123, 91}" for c
    using assms that by (auto simp: t next_is_def number_start_def is_digit_def)
  ultimately show ?thesis by simp
qed

section \<open>Values\<close>

text \<open>A text that the scanner reads as a value, whatever may follow a value behind it.\<close>

definition reads_as :: "py_runtime \<Rightarrow> pystr \<Rightarrow> json \<Rightarrow> bool" where
  "reads_as R t v \<longleftrightarrow> (\<forall>n rest. is_delim rest \<longrightarrow> 2 * length (t @ rest) < n \<longrightarrow>
     scan_once R n (t @ rest) = Inr (v, rest))"

lemma reads_asD:
  "reads_as R t v \<Longrightarrow> is_delim rest \<Longrightarrow> 2 * length (t @ rest) < n \<Longrightarrow> scan_once R n (t @ rest) = Inr (v, rest)"
  by (simp add: reads_as_def)

lemma reads_asI:
  assumes "\<And>m rest. is_delim rest \<Longrightarrow> 2 * length (t @ rest) \<le> m \<Longrightarrow>
    scan_once R (Suc m) (t @ rest) = Inr (v, rest)"
  shows "reads_as R t v"
  unfolding reads_as_def
proof (intro allI impI)
  fix n rest assume "is_delim rest" "2 * length (t @ rest) < n"
  with assms [of rest "n - 1"] show "scan_once R n (t @ rest) = Inr (v, rest)" by simp
qed

lemma reads_as_number:
  assumes "scan_number R t = Inr (v, [])"
  shows "reads_as R t v"
proof (rule reads_asI)
  fix m rest assume "is_delim rest"
  then show "scan_once R (Suc m) (t @ rest) = Inr (v, rest)"
    using number_start_scan [OF scan_number_start [OF assms]] scan_number_append [OF assms]
    by (simp del: scan_once.simps)
qed

text \<open>The first character of a value is ASCII, no blank and no closing bracket.\<close>

definition value_start :: "pystr \<Rightarrow> bool" where
  "value_start s \<longleftrightarrow> s \<noteq> [] \<and> hd s < 128 \<and> \<not> is_ws (hd s) \<and> hd s \<noteq> 93 \<and> hd s \<noteq> 125"

lemma number_value_start: "number_start t \<Longrightarrow> value_start t"
  by (auto simp: number_start_def value_start_def is_ws_def is_digit_def)

lemma value_start_append: "value_start s \<Longrightarrow> value_start (s @ t)"
  by (auto simp: value_start_def)

lemma skip_ws_start: "value_start s \<Longrightarrow> skip_ws s = s"
  by (cases s) (auto simp: value_start_def skip_ws_def)

lemma skip_ws_gap: "list_all is_ws g \<Longrightarrow> skip_ws (g @ s) = skip_ws s"
  by (induction g) (auto simp: skip_ws_def)

lemma skip_ws_other [simp]: "\<not> is_ws c \<Longrightarrow> skip_ws (c # s) = c # s"
  by (simp add: skip_ws_def)

lemma is_ws_numerals [simp]: "\<not> is_ws 34" "\<not> is_ws 44" "\<not> is_ws 58" "\<not> is_ws 93" "\<not> is_ws 125"
  by (simp_all add: is_ws_def)

lemma is_delim_numerals [simp]: "is_delim (44 # r)" "is_delim (93 # r)" "is_delim (125 # r)" "is_delim []"
  by (simp_all add: is_delim_def)

lemma is_delim_gap: "list_all is_ws g \<Longrightarrow> is_delim r \<Longrightarrow> is_delim (g @ r)"
  by (cases g) (simp_all add: is_delim_def)

lemma next_is_Cons [simp]: "next_is c (d # r) = (if d = c then Some r else None)" "next_is c [] = None"
  by (simp_all add: next_is_def)

text \<open>
  Elements and members with a gap of blanks before each and another before the closing bracket. An
  element is the text printed for it and the value it stands for; a member has its key as well.
\<close>

lemma scan_elements_text:
  assumes "\<And>q. q \<in> set (p # ps) \<Longrightarrow> value_start (fst q) \<and> reads_as R (fst q) (snd q)"
    and ws: "list_all is_ws g" "list_all is_ws g'"
    and "2 * length (join_comma (map ((@) g \<circ> fst) (p # ps)) @ g' @ 93 # rest) + 1 < n"
  shows "scan_elements R n acc (skip_ws (join_comma (map ((@) g \<circ> fst) (p # ps)) @ g' @ 93 # rest)) =
    Inr (JList (acc @ map snd (p # ps)), rest)"
  using assms(1,4)
proof (induction ps arbitrary: p acc n)
  case Nil
  then obtain m where n: "n = Suc m" by (cases n) auto
  have "skip_ws (g @ fst p @ g' @ 93 # rest) = fst p @ g' @ 93 # rest"
    using Nil.prems(1) ws by (simp add: skip_ws_gap skip_ws_start value_start_append)
  moreover have "scan_once R m (fst p @ g' @ 93 # rest) = Inr (snd p, g' @ 93 # rest)"
    using Nil n ws by (intro reads_asD) (auto intro: is_delim_gap)
  ultimately show ?case using n ws by (simp add: skip_ws_gap)
next
  case (Cons p' ps)
  then obtain m where n: "n = Suc m" by (cases n) auto
  let ?rest = "join_comma (map ((@) g \<circ> fst) (p' # ps)) @ g' @ 93 # rest"
  have "skip_ws (g @ fst p @ 44 # ?rest) = fst p @ 44 # ?rest"
    using Cons.prems(1) ws by (simp add: skip_ws_gap skip_ws_start value_start_append del: join_comma.simps)
  moreover have "scan_once R m (fst p @ 44 # ?rest) = Inr (snd p, 44 # ?rest)"
    using Cons.prems n by (intro reads_asD) (auto simp: comp_def)
  moreover have "scan_elements R m (acc @ [snd p]) (skip_ws ?rest) = Inr (JList ((acc @ [snd p]) @ map snd (p' # ps)), rest)"
    using Cons.prems n by (intro Cons.IH) (auto simp: comp_def)
  ultimately show ?case using n by (simp add: comp_def)
qed

definition member_text :: "pystr \<Rightarrow> pystr \<Rightarrow> pystr \<times> pystr \<times> json \<Rightarrow> pystr" where
  "member_text g c p = g @ json_string (fst p) @ 58 # c @ fst (snd p)"

lemma skip_ws_member:
  "list_all is_ws g \<Longrightarrow> skip_ws (member_text g c p @ rest) =
     34 # concat (map json_char (fst p)) @ 34 # 58 # c @ fst (snd p) @ rest"
  by (simp add: member_text_def json_string_def skip_ws_gap)

lemma scan_member:
  assumes "list_all is_scalar (fst p)" and "value_start (fst (snd p))" and "reads_as R (fst (snd p)) (snd (snd p))"
    and "list_all is_ws g" and "list_all is_ws c" and "is_delim rest"
    and "2 * length (member_text g c p @ rest) < Suc m"
  shows "scan_members R (Suc m) d (skip_ws (member_text g c p @ rest)) =
    (case next_is 125 (skip_ws rest) of Some r \<Rightarrow> Inr (JObj (AList.update (fst p) (snd (snd p)) d), r) | None \<Rightarrow>
     (case next_is 44 (skip_ws rest) of None \<Rightarrow> json_error | Some s5 \<Rightarrow>
        scan_members R m (AList.update (fst p) (snd (snd p)) d) (skip_ws s5)))"
proof -
  let ?t = "fst (snd p)"
  have "scan_once R m (?t @ rest) = Inr (snd (snd p), rest)"
    using assms by (intro reads_asD) (auto simp: member_text_def json_string_def)
  moreover have "skip_ws (c @ ?t @ rest) = ?t @ rest"
    using assms by (simp add: skip_ws_gap skip_ws_start value_start_append)
  ultimately show ?thesis
    using scan_string_chars [OF assms(1), of "58 # c @ ?t @ rest"] skip_ws_member [OF assms(4), of c p rest]
    by (simp split: option.split)
qed

lemma scan_members_text:
  assumes "\<And>q. q \<in> set (p # ps) \<Longrightarrow> list_all is_scalar (fst q) \<and> value_start (fst (snd q)) \<and> reads_as R (fst (snd q)) (snd (snd q))"
    and ws: "list_all is_ws g" "list_all is_ws c" "list_all is_ws g'"
    and "distinct (map fst d @ map fst (p # ps))"
    and "2 * length (join_comma (map (member_text g c) (p # ps)) @ g' @ 125 # rest) < n"
  shows "scan_members R n d (skip_ws (join_comma (map (member_text g c) (p # ps)) @ g' @ 125 # rest)) =
    Inr (JObj (d @ map (map_prod id snd) (p # ps)), rest)"
  using assms(1,5,6)
proof (induction ps arbitrary: p d n)
  case Nil
  then obtain m where n: "n = Suc m" by (cases n) auto
  have "fst p \<notin> fst ` set d" using Nil.prems(2) by auto
  with Nil n ws scan_member [of p R g c "g' @ 125 # rest" m d] show ?case
    by (cases p) (auto simp: update_fresh skip_ws_gap is_delim_gap simp del: scan_members.simps)
next
  case (Cons p' ps)
  then obtain m where n: "n = Suc m" by (cases n) auto
  let ?d = "d @ [(fst p, snd (snd p))]"
  let ?rest = "join_comma (map (member_text g c) (p' # ps)) @ g' @ 125 # rest"
  have "fst p \<notin> fst ` set d" using Cons.prems(2) by auto
  moreover have "scan_members R m ?d (skip_ws ?rest) = Inr (JObj (?d @ map (map_prod id snd) (p' # ps)), rest)"
    using Cons.prems n by (intro Cons.IH) (auto simp: member_text_def)
  ultimately show ?case
    using Cons.prems(1) [of p] Cons.prems(3) n ws scan_member [of p R g c "44 # ?rest" m d]
    by (cases p) (simp add: update_fresh id_def del: scan_members.simps)
qed

lemma reads_as_list:
  assumes "\<And>q. q \<in> set ps \<Longrightarrow> value_start (fst q) \<and> reads_as R (fst q) (snd q)"
    and "list_all is_ws g" and "list_all is_ws g'"
  shows "reads_as R (91 # join_comma (map ((@) g \<circ> fst) ps) @ (if ps = [] then [] else g') @ [93]) (JList (map snd ps))"
proof (cases ps)
  case Nil
  then show ?thesis by (auto intro!: reads_asI)
next
  case (Cons p qs)
  show ?thesis
  proof (rule reads_asI)
    fix m rest
    let ?t = "join_comma (map ((@) g \<circ> fst) ps) @ g' @ 93 # rest"
    assume len: "2 * length ((91 # join_comma (map ((@) g \<circ> fst) ps) @ (if ps = [] then [] else g') @ [93]) @ rest) \<le> m"
    obtain s where s: "skip_ws ?t = fst p @ s"
      using assms Cons by (cases qs) (simp_all add: skip_ws_gap skip_ws_start value_start_append)
    moreover have "value_start (fst p)" using assms Cons by simp
    ultimately have "next_is 93 (skip_ws ?t) = None" by (cases "fst p") (auto simp: value_start_def)
    moreover have "scan_elements R m [] (skip_ws ?t) = Inr (JList ([] @ map snd (p # qs)), rest)"
      using assms len unfolding Cons by (intro scan_elements_text) auto
    ultimately show "scan_once R (Suc m) ((91 # join_comma (map ((@) g \<circ> fst) ps) @ (if ps = [] then [] else g') @ [93]) @ rest) =
        Inr (JList (map snd ps), rest)"
      using Cons by simp
  qed
qed

lemma reads_as_object:
  assumes "\<And>q. q \<in> set ps \<Longrightarrow> list_all is_scalar (fst q) \<and> value_start (fst (snd q)) \<and> reads_as R (fst (snd q)) (snd (snd q))"
    and "list_all is_ws g" and "list_all is_ws c" and "list_all is_ws g'" and "distinct (map fst ps)"
  shows "reads_as R (123 # join_comma (map (member_text g c) ps) @ (if ps = [] then [] else g') @ [125])
    (JObj (map (map_prod id snd) ps))"
proof (cases ps)
  case Nil
  then show ?thesis by (auto intro!: reads_asI)
next
  case (Cons p qs)
  show ?thesis
  proof (rule reads_asI)
    fix m rest
    let ?t = "join_comma (map (member_text g c) ps) @ g' @ 125 # rest"
    assume len: "2 * length ((123 # join_comma (map (member_text g c) ps) @ (if ps = [] then [] else g') @ [125]) @ rest) \<le> m"
    have "next_is 125 (skip_ws ?t) = None"
      using assms Cons by (cases qs) (simp_all add: skip_ws_member)
    moreover have "scan_members R m [] (skip_ws ?t) = Inr (JObj ([] @ map (map_prod id snd) (p # qs)), rest)"
      using assms len unfolding Cons by (intro scan_members_text) auto
    ultimately show "scan_once R (Suc m)
        ((123 # join_comma (map (member_text g c) ps) @ (if ps = [] then [] else g') @ [125]) @ rest) =
        Inr (JObj (map (map_prod id snd) ps), rest)"
      using Cons by simp
  qed
qed

section \<open>Layouts\<close>

text \<open>
  \<^verbatim>\<open>json.dumps(value, sort_keys=True)\<close> with a layout: the blanks \<open>g l\<close> that start a line at depth \<open>l\<close>
  and the blanks \<open>c\<close> behind a colon. Without blanks it is \<open>dumps\<close>; \<^verbatim>\<open>indent=2\<close> starts a line for every
  element and member and puts one blank behind a colon.
\<close>

primrec dumps_layout :: "(nat \<Rightarrow> pystr) \<Rightarrow> pystr \<Rightarrow> json \<Rightarrow> nat \<Rightarrow> pystr" where
  "dumps_layout g c JNull = (\<lambda>l. ascii ''null'')"
| "dumps_layout g c (JBool b) = (\<lambda>l. if b then ascii ''true'' else ascii ''false'')"
| "dumps_layout g c (JInt i) = (\<lambda>l. int_repr i)"
| "dumps_layout g c (JFloat t) = (\<lambda>l. t)"
| "dumps_layout g c (JStr s) = (\<lambda>l. json_string s)"
| "dumps_layout g c (JList vs) = (\<lambda>l.
     91 # join_comma (map (\<lambda>f. g (Suc l) @ f (Suc l)) (map (dumps_layout g c) vs)) @ (if vs = [] then [] else g l) @ [93])"
| "dumps_layout g c (JObj kvs) = (\<lambda>l.
     123 # join_comma (map (\<lambda>(k, t). g (Suc l) @ json_string k @ 58 # c @ t)
                           (sort_key fst (map (\<lambda>(k, f). (k, f (Suc l))) (map (map_prod id (dumps_layout g c)) kvs)))) @
       (if kvs = [] then [] else g l) @ [125])"

definition newline_indent :: "nat \<Rightarrow> pystr" where
  "newline_indent l = 10 # replicate (2 * l) 32"

definition dumps_indent :: "json \<Rightarrow> pystr" where
  "dumps_indent v = dumps_layout newline_indent [32] v 0"

lemma insort_key_map: "insort_key f (g x) (map g xs) = map g (insort_key (\<lambda>y. f (g y)) x xs)"
  by (induction xs) auto

lemma sort_key_map: "sort_key f (map g xs) = map g (sort_key (\<lambda>y. f (g y)) xs)"
  by (induction xs) (auto simp: insort_key_map)

lemma sort_key_values: "sort_key fst (map (map_prod id g) kvs) = map (map_prod id g) (sort_key fst kvs)"
  by (simp add: sort_key_map)

lemma sort_key_empty: "sort_key f kvs = [] \<longleftrightarrow> kvs = []"
  by (metis length_0_conv length_sort)

lemma dumps_layout_compact: "dumps_layout (\<lambda>l. []) [] v l = dumps v"
proof (induction v arbitrary: l)
  case (JList vs)
  then show ?case by (simp add: comp_def cong: map_cong)
next
  case (JObj kvs)
  have "map (\<lambda>(k, f). (k, f (Suc l))) (map (map_prod id (dumps_layout (\<lambda>l. []) [])) kvs) = map (map_prod id dumps) kvs"
    using JObj by (auto simp: snds.simps)
  then show ?case by (simp del: map_map)
qed simp_all

text \<open>The printed elements and members, with the values they are read as.\<close>

lemma dumps_layout_list:
  "dumps_layout g c (JList vs) l =
     91 # join_comma (map ((@) (g (Suc l)) \<circ> fst) (map (\<lambda>v. (dumps_layout g c v (Suc l), json_sort v)) vs)) @
       (if vs = [] then [] else g l) @ [93]"
  by (simp add: comp_def)

definition layout_member :: "(nat \<Rightarrow> pystr) \<Rightarrow> pystr \<Rightarrow> nat \<Rightarrow> pystr \<times> json \<Rightarrow> pystr \<times> pystr \<times> json" where
  "layout_member g c l p = (fst p, dumps_layout g c (snd p) l, json_sort (snd p))"

lemma dumps_layout_object:
  "dumps_layout g c (JObj kvs) l =
     123 # join_comma (map (member_text (g (Suc l)) c) (map (layout_member g c (Suc l)) (sort_key fst kvs))) @
       (if kvs = [] then [] else g l) @ [125]"
  by (simp add: sort_key_map member_text_def layout_member_def comp_def case_prod_unfold)

locale json_layout =
  fixes g :: "nat \<Rightarrow> pystr" and c :: pystr
  assumes gap_blank: "list_all is_ws (g l)" and colon_blank: "list_all is_ws c"
begin

lemma layout_start: "json_wf R v \<Longrightarrow> value_start (dumps_layout g c v l)"
proof (cases v)
  case (JInt i)
  assume "json_wf R v"
  with JInt show ?thesis using number_value_start [OF scan_number_start [OF scan_number_int [of i R]]] by simp
next
  case (JFloat t)
  assume "json_wf R v"
  with JFloat consider "t \<in> {ascii ''NaN'', ascii ''Infinity'', ascii ''-Infinity''}" | "number_start t"
    by (auto simp: is_float_text_def dest: scan_number_start)
  then show ?thesis by cases (auto simp: JFloat number_value_start, auto simp: value_start_def is_ws_def ascii_def)
qed (auto simp: value_start_def is_ws_def ascii_def json_string_def)

lemma layout_reads_back: "json_wf R v \<Longrightarrow> reads_as R (dumps_layout g c v l) (json_sort v)"
proof (induction v arbitrary: l)
  case JNull
  show ?case by (auto intro!: reads_asI simp: scan_constant_def next_word_def ascii_def)
next
  case (JBool b)
  show ?case by (cases b) (auto intro!: reads_asI simp: scan_constant_def next_word_def ascii_def)
next
  case (JInt i)
  then show ?case by (simp add: reads_as_number [OF scan_number_int])
next
  case (JFloat t)
  then consider "t \<in> {ascii ''NaN'', ascii ''Infinity'', ascii ''-Infinity''}" | "scan_number R t = Inr (JFloat t, [])"
    by (auto simp: is_float_text_def)
  then show ?case
  proof cases
    case 1
    then show ?thesis by (auto intro!: reads_asI simp: scan_constant_def next_word_def ascii_def)
  next
    case 2
    then show ?thesis by (simp add: reads_as_number)
  qed
next
  case (JStr s)
  then show ?case by (auto intro!: reads_asI simp: json_string_def scan_string_chars)
next
  case (JList vs)
  let ?ps = "map (\<lambda>v. (dumps_layout g c v (Suc l), json_sort v)) vs"
  have "reads_as R (91 # join_comma (map ((@) (g (Suc l)) \<circ> fst) ?ps) @ (if ?ps = [] then [] else g l) @ [93]) (JList (map snd ?ps))"
    using JList gap_blank by (intro reads_as_list) (auto simp: list_all_iff layout_start)
  then show ?case by (simp add: comp_def cong: if_cong)
next
  case (JObj kvs)
  let ?ps = "map (layout_member g c (Suc l)) (sort_key fst kvs)"
  have each: "list_all is_scalar (fst p) \<and> value_start (dumps_layout g c (snd p) (Suc l)) \<and>
      reads_as R (dumps_layout g c (snd p) (Suc l)) (json_sort (snd p))"
    if "p \<in> set kvs" for p
    using JObj.IH [of p "snd p"] JObj.prems that
    by (cases p) (auto simp: list_all_iff snds.simps intro!: layout_start [of R])
  have fst: "map fst ?ps = map fst (sort_key fst kvs)" by (simp add: layout_member_def comp_def)
  have "distinct (map fst ?ps)" using JObj.prems unfolding fst by (simp add: distinct_map)
  then have "reads_as R (123 # join_comma (map (member_text (g (Suc l)) c) ?ps) @ (if ?ps = [] then [] else g l) @ [125])
      (JObj (map (map_prod id snd) ?ps))"
    using each gap_blank colon_blank by (intro reads_as_object) (auto simp: layout_member_def)
  moreover have "map (map_prod id snd) ?ps = map (map_prod id json_sort) (sort_key fst kvs)"
    by (simp add: layout_member_def comp_def map_prod_def case_prod_unfold)
  ultimately show ?case
    by (simp add: dumps_layout_object sort_key_values sort_key_empty del: dumps_layout.simps map_map)
qed

text \<open>Blanks behind the text, the newline at the end of a file among them, do not matter.\<close>

lemma loads_layout:
  assumes "json_wf R v" and "list_all is_ws e"
  shows "loads R (dumps_layout g c v l @ e) = Inr (json_sort v)"
proof -
  let ?t = "dumps_layout g c v l @ e"
  have start: "value_start ?t" by (rule value_start_append [OF layout_start [OF assms(1)]])
  have "scan_once R (Suc (2 * length ?t)) ?t = Inr (json_sort v, e)"
    using reads_asD [OF layout_reads_back [OF assms(1)] is_delim_gap [OF assms(2) is_delim_numerals(4)]]
    by (simp del: scan_once.simps)
  moreover have "hd ?t \<noteq> 0xFEFF" using start by (auto simp: value_start_def)
  moreover have "skip_ws e = []" using skip_ws_gap [OF assms(2), of "[]"] by (simp add: skip_ws_def)
  ultimately show ?thesis by (simp add: loads_def skip_ws_start [OF start] del: scan_once.simps)
qed

end

interpretation compact: json_layout "\<lambda>l. []" "[]"
  by unfold_locales simp_all

interpretation indented: json_layout newline_indent "[32]"
  by unfold_locales (simp_all add: newline_indent_def is_ws_def list_all_iff)

lemma loads_dumps: "json_wf R v \<Longrightarrow> loads R (dumps v) = Inr (json_sort v)"
  using compact.loads_layout [of R v "[]"] by (simp add: dumps_layout_compact)

lemma loads_dumps_indent: "json_wf R v \<Longrightarrow> list_all is_ws e \<Longrightarrow> loads R (dumps_indent v @ e) = Inr (json_sort v)"
  unfolding dumps_indent_def by (rule indented.loads_layout)

section \<open>Objects in key order\<close>

lemma map_of_sort: "distinct (map fst kvs) \<Longrightarrow> map_of (sort_key fst kvs) = map_of kvs"
proof -
  assume d: "distinct (map fst kvs)"
  then have "distinct (map fst (sort_key fst kvs))" by (simp add: distinct_map)
  with d show ?thesis by (intro map_of_inject_set [THEN iffD2]) auto
qed

lemma sorted_object:
  assumes "distinct (map fst kvs)"
  obtains d where "json_sort (JObj kvs) = JObj d" "map_of d = map_option json_sort \<circ> map_of kvs"
proof -
  have "distinct (map fst (map (map_prod id json_sort) kvs))" using assms by (simp add: comp_def)
  moreover have "map_of (map (map_prod id json_sort) kvs) = map_option json_sort \<circ> map_of kvs"
    by (induction kvs) auto
  ultimately show ?thesis using that map_of_sort by (metis json_sort.simps(7))
qed

lemma map_of_json_sort:
  assumes "json_sort (JObj kvs) = JObj d" and "distinct (map fst kvs)"
  shows "map_of d = map_option json_sort \<circ> map_of kvs"
proof -
  obtain d' where "json_sort (JObj kvs) = JObj d'" "map_of d' = map_option json_sort \<circ> map_of kvs"
    using assms(2) by (rule sorted_object)
  with assms(1) show ?thesis by simp
qed

lemma ascii_eq: "ascii s = ascii t \<longleftrightarrow> s = t"
  by (auto simp: ascii_def inj_def intro: map_injective)

lemma ascii_scalar: "list_all is_scalar (ascii s)"
proof -
  have "(of_char c :: int) = of_char c mod 256" for c
    using of_char_of [of "of_char c :: int"] unfolding char_of_char .
  then have "0 \<le> (of_char c :: int) \<and> (of_char c :: int) < 256" for c
    using pos_mod_bound [of 256 "of_char c :: int"] pos_mod_sign [of 256 "of_char c :: int"] by simp
  moreover have "is_scalar x" if "0 \<le> x \<and> x < 256" for x using that by (auto simp: is_scalar_def)
  ultimately have "is_scalar (of_char c)" for c by blast
  then show ?thesis by (simp add: ascii_def list_all_iff)
qed

lemma json_wf_object: "json_wf R (JObj kvs) \<longleftrightarrow> distinct (map fst kvs) \<and>
    (\<forall>p \<in> set kvs. list_all is_scalar (fst p) \<and> json_wf R (snd p))"
  by (auto simp: list_all_iff)

section \<open>The indented text is printable ASCII and newlines\<close>

definition is_plain :: "int \<Rightarrow> bool" where
  "is_plain c \<longleftrightarrow> c = 10 \<or> 32 \<le> c \<and> c < 127"

lemma is_plain_numerals [simp]: "is_plain 91" "is_plain 93" "is_plain 123" "is_plain 125" "is_plain 58" "is_plain 32"
  by (simp_all add: is_plain_def)

lemma is_plain_digits: "list_all is_plain (takeWhile is_digit s)"
  by (induction s) (auto simp: is_plain_def is_digit_def)

lemma scan_number_plain:
  assumes "scan_number R t = Inr (v, [])"
  shows "list_all is_plain t"
proof -
  have i: "t = a @ b \<and> list_all is_plain a" if "scan_int_part t = Some (a, b)" for a b
    using that is_plain_digits
    by (auto simp: scan_int_part_def next_is_def Let_def is_plain_def is_digit_def split: list.splits if_splits)
  have f: "x = fst (scan_fraction x) @ snd (scan_fraction x) \<and> list_all is_plain (fst (scan_fraction x))" for x
    using is_plain_digits by (auto simp: scan_fraction_def is_plain_def is_digit_def split: list.splits)
  have e: "x = fst (scan_exponent x) @ snd (scan_exponent x) \<and> list_all is_plain (fst (scan_exponent x))" for x
    using is_plain_digits by (auto simp: scan_exponent_def Let_def is_plain_def is_digit_def split: list.splits)
  from assms obtain a b where ab: "scan_int_part t = Some (a, b)" and "snd (scan_exponent (snd (scan_fraction b))) = []"
    by (auto simp: scan_number_def json_error_def Let_def case_prod_unfold split: option.splits if_splits)
  then show ?thesis using i [OF ab] f [of b] e [of "snd (scan_fraction b)"] by (metis append_Nil2 list_all_append)
qed

lemma is_plain_json_string: "list_all is_plain (json_string s)"
proof -
  have "0 \<le> hex_digit (k mod 16) \<and> is_plain (hex_digit (k mod 16))" for k
    using hex_digit_props(3) [of "k mod 16"] by (auto simp: is_lower_hex_iff is_plain_def)
  then have "list_all is_plain (hex4 n)" for n by (simp add: hex4_split is_plain_def)
  then have "list_all is_plain (json_char c)" for c by (auto simp: json_char_def is_plain_def)
  then show ?thesis by (induction s) (auto simp: json_string_def is_plain_def)
qed

lemma is_plain_join_comma: "(\<And>x. x \<in> set xs \<Longrightarrow> list_all is_plain x) \<Longrightarrow> list_all is_plain (join_comma xs)"
  by (induction xs rule: join_comma.induct) (auto simp: is_plain_def)

lemma is_plain_blank: "list_all is_plain (newline_indent l)"
  by (simp add: newline_indent_def is_plain_def list_all_iff)

text \<open>This holds of every value whose floats are printed so, the values of the codec among them.\<close>

primrec floats_plain :: "json \<Rightarrow> bool" where
  "floats_plain JNull = True"
| "floats_plain (JBool b) = True"
| "floats_plain (JInt i) = True"
| "floats_plain (JFloat t) = list_all is_plain t"
| "floats_plain (JStr s) = True"
| "floats_plain (JList vs) = list_all id (map floats_plain vs)"
| "floats_plain (JObj kvs) = list_all snd (map (map_prod id floats_plain) kvs)"

lemma json_wf_floats_plain: "json_wf R v \<Longrightarrow> floats_plain v"
proof (induction v)
  case (JFloat t)
  then show ?case by (auto simp: is_float_text_def scan_number_plain) (auto simp: ascii_def is_plain_def)
next
  case (JObj kvs)
  have "floats_plain (snd p)" if "p \<in> set kvs" for p
    using that JObj.IH [of p "snd p"] JObj.prems by (cases p) (auto simp: snds.simps list_all_iff)
  then show ?case by (simp add: list_all_iff)
qed (auto simp: list_all_iff)

lemma is_plain_int_repr: "list_all is_plain (int_repr i)"
proof -
  have "is_plain c" if "is_digit c" for c using that by (auto simp: is_plain_def is_digit_def)
  then show ?thesis using nat_repr_digits by (auto simp: int_repr_def list_all_iff is_plain_def [of 45])
qed

lemma dumps_layout_plain: "floats_plain v \<Longrightarrow> list_all is_plain (dumps_layout newline_indent [32] v l)"
proof (induction v arbitrary: l)
  case (JList vs)
  have "list_all is_plain (dumps_layout newline_indent [32] v l)" if "v \<in> set vs" for v l
    using that JList by (simp add: list_all_iff)
  then have "list_all is_plain (join_comma (map (\<lambda>f. newline_indent (Suc l) @ f (Suc l)) (map (dumps_layout newline_indent [32]) vs)))"
    using is_plain_blank by (intro is_plain_join_comma) auto
  then show ?case using is_plain_blank [of l] by simp
next
  case (JObj kvs)
  have "list_all is_plain (dumps_layout newline_indent [32] t l)" if "(k, t) \<in> set kvs" for k t l
    using that JObj.IH [of "(k, t)" t] JObj.prems by (auto simp: snds.simps list_all_iff)
  then have "list_all is_plain (join_comma (map (member_text (newline_indent (Suc l)) [32])
      (map (layout_member newline_indent [32] (Suc l)) (sort_key fst kvs))))"
    using is_plain_blank is_plain_json_string
    by (intro is_plain_join_comma) (auto simp: member_text_def layout_member_def)
  then show ?case using is_plain_blank [of l] by (simp only: dumps_layout_object) simp
qed (auto simp: is_plain_json_string is_plain_int_repr ascii_def is_plain_def)

lemma dumps_indent_plain: "floats_plain v \<Longrightarrow> list_all is_plain (dumps_indent v)"
  unfolding dumps_indent_def by (rule dumps_layout_plain)

lemma is_ascii_plain: "list_all is_plain s \<Longrightarrow> is_ascii s"
  by (auto simp: is_ascii_def is_plain_def list_all_iff)

end
