(* ===== verification/Network_Laws.thy ===== *)
theory Network_Laws
  imports Network Json_Round_Trip
begin

text \<open>
  Lemmas on frames, messages and headers: the layout of a frame, which byte strings are accepted as
  a frame, that a frame read back gives its message, and what a validated header chain is.
\<close>

section \<open>Frames\<close>

definition frame_head :: "bytes \<Rightarrow> bytes" where
  "frame_head p = NETWORK_MAGIC @ be_encode 4 (int (length p)) @ p"

lemma length_magic [simp]: "length NETWORK_MAGIC = 4"
  by (simp add: NETWORK_MAGIC_def)

lemma size_field: "int (length p) \<le> MAX_MESSAGE_SIZE \<Longrightarrow> be_decode (be_encode 4 (int (length p))) = int (length p)"
  by (simp add: be_decode_encode MAX_MESSAGE_SIZE_def)

lemma frame_fields:
  assumes "int (length p) \<le> MAX_MESSAGE_SIZE"
  shows "take 4 (frame_head p @ t) = NETWORK_MAGIC"
    and "be_decode (drop 4 (take HEADER_SIZE (frame_head p @ t))) = int (length p)"
    and "take (HEADER_SIZE + length p) (frame_head p @ t) = frame_head p"
    and "drop (HEADER_SIZE + length p) (frame_head p @ t) = t"
    and "drop HEADER_SIZE (frame_head p) = p"
  using size_field [OF assms] by (simp_all add: HEADER_SIZE_def frame_head_def)

lemma length_frame_head [simp]: "length (frame_head p) = HEADER_SIZE + length p"
  by (simp add: frame_head_def HEADER_SIZE_def)

text \<open>Every byte string that is long enough and starts with the magic is such a frame.\<close>

lemma frame_decompose:
  assumes "HEADER_SIZE \<le> length f" and "take 4 f = NETWORK_MAGIC"
    and "be_decode (drop 4 (take HEADER_SIZE f)) = int n" and "HEADER_SIZE + n \<le> length f"
  obtains p t where "f = frame_head p @ t" "length p = n"
proof -
  let ?p = "take n (drop HEADER_SIZE f)" and ?t = "drop (HEADER_SIZE + n) f"
  have "length ?p = n" using assms(4) by simp
  have "take HEADER_SIZE f = take 4 f @ drop 4 (take HEADER_SIZE f)"
    using append_take_drop_id [of 4 "take HEADER_SIZE f"] by (simp add: HEADER_SIZE_def)
  then have "f = take 4 f @ drop 4 (take HEADER_SIZE f) @ drop HEADER_SIZE f"
    by (metis append.assoc append_take_drop_id)
  moreover have "drop HEADER_SIZE f = ?p @ ?t"
    using append_take_drop_id [of n "drop HEADER_SIZE f"] by (simp add: add.commute)
  moreover have "drop 4 (take HEADER_SIZE f) = be_encode 4 (int n)"
    using assms(1,3) be_encode_decode [of "drop 4 (take HEADER_SIZE f)" 4] by (simp add: HEADER_SIZE_def)
  ultimately have "f = frame_head ?p @ ?t" using assms(2) \<open>length ?p = n\<close> by (simp add: frame_head_def)
  with \<open>length ?p = n\<close> that show ?thesis by blast
qed

lemma from_frame_head:
  assumes "int (length p) \<le> MAX_MESSAGE_SIZE" and "length t = AUTH_TAG_SIZE"
  shows "from_frame C R (frame_head p @ t) key =
    rbind (authenticator key) (\<lambda>key. rbind (frame_verify C key (frame_head p) t) (\<lambda>_.
    rbind (loads_bytes R p) (\<lambda>decoded.
      case decoded of JObj d \<Rightarrow> message_from_dict C R d
      | _ \<Rightarrow> network_error ''message payload must be an object'')))"
  using assms(2) frame_fields(1-4) [OF assms(1), of t] frame_fields(5) [OF assms(1)] assms(1)
  by (simp add: from_frame_def)

text \<open>Whatever else happens, bytes that are not rejected have the shape of a frame.\<close>

lemma from_frame_shape:
  assumes "\<forall>msg. from_frame C R f key \<noteq> Inl (NetworkError msg)"
  obtains p t where "f = frame_head p @ t" "int (length p) \<le> MAX_MESSAGE_SIZE" "length t = AUTH_TAG_SIZE"
proof -
  let ?size = "be_decode (drop 4 (take HEADER_SIZE f))"
  have a: "HEADER_SIZE \<le> length f" by (rule ccontr) (use assms in \<open>simp add: from_frame_def\<close>)
  have b: "take 4 f = NETWORK_MAGIC" by (rule ccontr) (use assms a in \<open>simp add: from_frame_def\<close>)
  have c: "?size \<le> MAX_MESSAGE_SIZE" by (rule ccontr) (use assms a b in \<open>simp add: from_frame_def\<close>)
  have "length f = HEADER_SIZE + nat ?size + AUTH_TAG_SIZE"
    by (rule ccontr) (use assms a b c in \<open>simp add: from_frame_def Let_def\<close>)
  moreover obtain n where n: "?size = int n" using nonneg_int_cases be_decode_bounds by blast
  ultimately have len: "length f = HEADER_SIZE + n + AUTH_TAG_SIZE" by (metis nat_int)
  then have "HEADER_SIZE + n \<le> length f" by linarith
  then obtain p t where "f = frame_head p @ t" "length p = n" by (rule frame_decompose [OF a b n])
  with c n len show ?thesis by (intro that [of p t]) auto
qed

lemma frame_verify_Inr:
  "frame_verify C key x t = Inr u \<longleftrightarrow> length t = AUTH_TAG_SIZE \<and> t = hmac_sha256 C key x"
  by (auto simp: frame_verify_def frame_tag_def)

lemma from_frame_iff:
  "from_frame C R f key = Inr m \<longleftrightarrow> key \<noteq> [] \<and>
     (\<exists>p d. f = frame_head p @ hmac_sha256 C key (frame_head p) \<and> int (length p) \<le> MAX_MESSAGE_SIZE \<and>
       length (hmac_sha256 C key (frame_head p)) = AUTH_TAG_SIZE \<and>
       loads_bytes R p = Inr (JObj d) \<and> message_from_dict C R d = Inr m)"
    (is "?l \<longleftrightarrow> ?r")
proof
  assume l: ?l
  then obtain p t where f: "f = frame_head p @ t" "int (length p) \<le> MAX_MESSAGE_SIZE" "length t = AUTH_TAG_SIZE"
    using from_frame_shape [of C R f key] by auto
  with l obtain v where v: "key \<noteq> []" "t = hmac_sha256 C key (frame_head p)" "loads_bytes R p = Inr v"
      "(case v of JObj d \<Rightarrow> message_from_dict C R d | _ \<Rightarrow> network_error ''message payload must be an object'') = Inr m"
    by (auto simp: from_frame_head authenticator_def frame_verify_Inr split: if_splits)
  moreover from v(4) obtain d where "v = JObj d" by (cases v) auto
  ultimately show ?r using f by auto
next
  assume ?r
  then show ?l by (auto simp: from_frame_head authenticator_def frame_verify_Inr)
qed

lemma from_frame_authentic:
  assumes "\<forall>msg. from_frame C R f key \<noteq> Inl (NetworkError msg)"
  obtains p where "f = frame_head p @ hmac_sha256 C key (frame_head p)" "int (length p) \<le> MAX_MESSAGE_SIZE"
proof -
  obtain p t where f: "f = frame_head p @ t" "int (length p) \<le> MAX_MESSAGE_SIZE" "length t = AUTH_TAG_SIZE"
    using from_frame_shape [OF assms] .
  then have "t = hmac_sha256 C key (frame_head p)"
    using assms by (simp add: from_frame_head authenticator_def frame_verify_def frame_tag_def split: if_splits)
  with f that show ?thesis by blast
qed

lemma length_hmac: "digest_ok C \<Longrightarrow> length (hmac_sha256 C key x) = AUTH_TAG_SIZE"
  by (simp add: hmac_sha256_def Let_def digest_ok_def AUTH_TAG_SIZE_def)

lemma to_frame_Inr:
  "to_frame C m key = Inr f \<longleftrightarrow> key \<noteq> [] \<and>
     (\<exists>p. encode_payload m = Inr p \<and> int (length p) \<le> MAX_MESSAGE_SIZE \<and>
       f = frame_head p @ hmac_sha256 C key (frame_head p))"
proof (cases "encode_payload m")
  case (Inr p)
  then show ?thesis
    by (auto simp: to_frame_def pack_I_def authenticator_def frame_tag_def frame_head_def Let_def MAX_MESSAGE_SIZE_def)
qed (simp add: to_frame_def)

section \<open>Messages\<close>

lemma message_type_of_text [simp]: "message_type_of (ascii (type_text t)) = Inr t"
  by (cases t) (simp_all add: message_type_of_def message_types_def ascii_def)

text \<open>The message as it is read back: the objects of its payload in key order.\<close>

definition sorted_message :: "peer_message \<Rightarrow> peer_message" where
  "sorted_message m = m\<lparr>msg_payload := json_sort (msg_payload m)\<rparr>"

lemma message_from_dict_eq:
  assumes "map_of d (ascii ''type'') = Some (JStr (ascii (type_text (msg_type m))))"
    and "map_of d (ascii ''version'') = Some (JInt (msg_version m))"
    and "map_of d (ascii ''payload'') = Some (msg_payload m)" and "msg_version m = PROTOCOL_VERSION"
  shows "message_from_dict C R d = rbind (validate_payload C R m) (\<lambda>_. Inr m)"
  using assms by (cases m) (simp add: message_from_dict_def py_getitem_def py_str_def py_int_def malformed_def)

lemma message_keys [simp]: "distinct [ascii ''type'', ascii ''version'', ascii ''payload'']"
  by (simp add: ascii_def)

lemma message_wf: "json_wf R (msg_payload m) \<Longrightarrow> msg_version m = PROTOCOL_VERSION \<Longrightarrow> json_wf R (message_to_dict m)"
  using message_keys by (simp add: message_to_dict_def ascii_scalar PROTOCOL_VERSION_def INT_MAX_STR_DIGITS_def nat_repr.simps del: message_keys)

lemma frame_reads_back:
  assumes "digest_ok C" and "json_wf R (msg_payload m)" and "msg_version m = PROTOCOL_VERSION"
    and "to_frame C m key = Inr f"
  shows "from_frame C R f key = rbind (validate_payload C R (sorted_message m)) (\<lambda>_. Inr (sorted_message m))"
proof -
  from assms(4) obtain p where p: "key \<noteq> []" "encode_payload m = Inr p" "int (length p) \<le> MAX_MESSAGE_SIZE"
      "f = frame_head p @ hmac_sha256 C key (frame_head p)" by (auto simp: to_frame_Inr)
  from p(2) have "utf8_decode p = Some (dumps (message_to_dict m))"
    by (auto simp: encode_payload_def canonical_json_def intro: utf8_decode_encode)
  moreover let ?kvs = "[(ascii ''type'', JStr (ascii (type_text (msg_type m)))), (ascii ''version'', JInt (msg_version m)),
        (ascii ''payload'', msg_payload m)]"
  have "distinct (map fst ?kvs)" by (simp add: ascii_def)
  then obtain d where d: "json_sort (message_to_dict m) = JObj d" "map_of d = map_option json_sort \<circ> map_of ?kvs"
    unfolding message_to_dict_def by (rule sorted_object)
  ultimately have "loads_bytes R p = Inr (JObj d)"
    using loads_dumps [OF message_wf [OF assms(2,3)]] by (simp add: loads_bytes_def)
  moreover have "message_from_dict C R d = rbind (validate_payload C R (sorted_message m)) (\<lambda>_. Inr (sorted_message m))"
    using d(2) assms(3) by (intro message_from_dict_eq) (auto simp: sorted_message_def ascii_def)
  ultimately show ?thesis
    using p length_hmac [OF assms(1), of key "frame_head p"]
    by (simp add: from_frame_head authenticator_def frame_verify_def frame_tag_def)
qed

section \<open>Headers\<close>

lemma header_hash_block:
  assumes "bh_transaction_root h \<noteq> []"
  shows "header_hash C h = block_hash C \<lparr>blk_height = bh_height h, blk_previous_hash = bh_previous_hash h,
       blk_transactions = txs, blk_difficulty = bh_difficulty h, blk_timestamp = bh_timestamp h,
       blk_nonce = bh_nonce h, blk_transaction_root = bh_transaction_root h, blk_version = bh_version h\<rparr>"
  using assms by (simp add: header_hash_def new_block_def block_hash_def header_bytes_def)

lemma header_of_block_hash:
  "blk_transaction_root b \<noteq> [] \<Longrightarrow> header_hash C (header_of_block b) = block_hash C (b :: consensus_block)"
  using header_hash_block [of "header_of_block b" C "blk_transactions b"] by (cases b) (simp add: header_of_block_def)

definition header_valid :: "block_header \<Rightarrow> bool" where
  "header_valid h \<longleftrightarrow> 0 \<le> bh_height h \<and> 0 \<le> bh_difficulty h \<and> bh_version h \<in> set SUPPORTED_BLOCK_VERSIONS \<and>
     is_hash (bh_previous_hash h) \<and> is_hash (bh_transaction_root h)"

lemma header_round_trip:
  assumes "header_to_dict C R h = Inr (JObj d)" and "header_valid h"
    and "float_of_text R (float_json R (bh_timestamp h)) = Some (bh_timestamp h)"
  shows "header_from_dict C R d = Inr h"
proof -
  obtain hh where hh: "header_hash C h = Inr hh" using assms(1) by (auto simp: header_to_dict_def)
  have "header_fields R d = Inr h"
    using assms(1,3) hh by (auto simp: header_to_dict_def header_fields_def py_getitem_def py_int_def py_float_def
        float_value_def py_str_def ascii_def)
  moreover have "py_get d ''hash'' = JStr hh"
    using assms(1) hh by (auto simp: header_to_dict_def py_get_def ascii_def)
  ultimately show ?thesis using assms(2) hh by (simp add: header_from_dict_def malformed_def header_valid_def)
qed

lemma header_from_dict_valid: "header_from_dict C R d = Inr h \<Longrightarrow> header_valid h"
  by (auto simp: header_from_dict_def header_valid_def Let_def split: if_splits)

text \<open>Proof of work of one header, and what links it to the next.\<close>

definition header_meets :: "crypto \<Rightarrow> block_header \<Rightarrow> bool" where
  "header_meets C h \<longleftrightarrow> (\<exists>hh. header_hash C h = Inr hh \<and> starts_with (replicate (nat (bh_difficulty h)) 48) hh)"

definition follows :: "crypto \<Rightarrow> block_header \<Rightarrow> block_header \<Rightarrow> bool" where
  "follows C h h' \<longleftrightarrow> header_hash C h = Inr (bh_previous_hash h') \<and> bh_height h' = bh_height h + 1"

lemma check_header_chain_iff:
  "check_header_chain C ph pn hs = Inr () \<longleftrightarrow>
     list_all (header_meets C) hs \<and> successively (follows C) hs \<and>
     (hs \<noteq> [] \<longrightarrow> (case ph of None \<Rightarrow> True | Some p \<Rightarrow> bh_previous_hash (hd hs) = p) \<and>
       (case pn of None \<Rightarrow> True | Some n \<Rightarrow> bh_height (hd hs) = n + 1))"
proof (induction hs arbitrary: ph pn)
  case Nil
  then show ?case by simp
next
  case (Cons h hs)
  show ?case
  proof (cases "header_hash C h")
    case (Inl e)
    then show ?thesis by (simp add: header_meets_def)
  next
    case (Inr hh)
    let ?p = "case ph of None \<Rightarrow> True | Some p \<Rightarrow> bh_previous_hash h = p"
    let ?n = "case pn of None \<Rightarrow> True | Some n \<Rightarrow> bh_height h = n + 1"
    have "(ph \<noteq> None \<and> Some (bh_previous_hash h) \<noteq> ph) = (\<not> ?p)" by (cases ph) auto
    moreover have "(pn \<noteq> None \<and> pn \<noteq> Some (bh_height h - 1)) = (\<not> ?n)" by (cases pn) auto
    ultimately have step: "check_header_chain C ph pn (h # hs) = Inr () \<longleftrightarrow>
        header_meets C h \<and> ?p \<and> ?n \<and> check_header_chain C (Some hh) (Some (bh_height h)) hs = Inr ()"
      unfolding check_header_chain.simps Inr rbind_simps by (simp add: Inr header_meets_def)
    have fol: "follows C h h' \<longleftrightarrow> bh_previous_hash h' = hh \<and> bh_height h' = bh_height h + 1" for h'
      using Inr by (auto simp: follows_def)
    show ?thesis unfolding step Cons.IH successively_Cons list.sel by (auto simp: fol)
  qed
qed

lemma validate_header_chain_iff:
  "validate_header_chain C hs prev = Inr hs' \<longleftrightarrow> hs' = hs \<and>
     list_all (header_meets C) hs \<and> successively (follows C) hs \<and>
     (case prev of None \<Rightarrow> True | Some p \<Rightarrow> is_hash p \<and> (hs \<noteq> [] \<longrightarrow> bh_previous_hash (hd hs) = p))"
  by (auto simp: validate_header_chain_def check_header_chain_iff split: option.splits)

end
