(* ===== verification/Connection_Buffer.thy ===== *)
theory Connection_Buffer
  imports Network_Laws
begin

text \<open>
  \<^verbatim>\<open>ConnectionBuffer\<close> of \<^verbatim>\<open>transport.py\<close>: the bytes of a TCP connection are collected until they hold
  complete frames. What is delivered does not depend on how the stream was cut into chunks.
\<close>

record connection_buffer =
  cb_auth_key :: bytes
  cb_data :: bytes

definition has_complete_frame :: "bytes \<Rightarrow> bool result" where
  "has_complete_frame data =
     (if length data < HEADER_SIZE then Inr False
      else if take 4 data \<noteq> NETWORK_MAGIC then network_error ''network magic is invalid''
      else
        let size = be_decode (drop 4 (take HEADER_SIZE data)) in
        if size > MAX_MESSAGE_SIZE then network_error ''message exceeds maximum size''
        else Inr (length data \<ge> HEADER_SIZE + nat size + AUTH_TAG_SIZE))"

lemma read_frame_length: "read_frame C R buf key = Inr (m, rest) \<Longrightarrow> length rest < length buf"
  by (auto simp: read_frame_def HEADER_SIZE_def Let_def split: if_splits)

text \<open>The \<^verbatim>\<open>while\<close> loop: each round consumes a frame, so it ends.\<close>

function feed_loop ::
  "crypto \<Rightarrow> py_runtime \<Rightarrow> bytes \<Rightarrow> peer_message list \<Rightarrow> bytes \<Rightarrow> peer_message list result \<times> bytes" where
  "feed_loop C R key messages data =
     (case has_complete_frame data of
        Inl e \<Rightarrow> (Inl e, data)
      | Inr complete \<Rightarrow>
          if complete then
            (case read_frame C R data key of
               Inl e \<Rightarrow> (Inl e, data)
             | Inr (m, rest) \<Rightarrow> feed_loop C R key (messages @ [m]) rest)
          else (Inr messages, data))"
  by pat_completeness auto

termination
  by (relation "measure (\<lambda>(C, R, key, messages, data). length data)") (auto dest: read_frame_length)

declare feed_loop.simps [simp del]

definition feed :: "crypto \<Rightarrow> py_runtime \<Rightarrow> bytes \<Rightarrow> (connection_buffer, peer_message list) op" where
  "feed C R chunk b =
     (if chunk = [] \<and> cb_data b = [] then (Inr [], b)
      else
        let (r, data) = feed_loop C R (cb_auth_key b) [] (cb_data b @ chunk)
        in (r, b\<lparr>cb_data := data\<rparr>))"

section \<open>Chunks do not matter\<close>

lemma complete_append:
  "has_complete_frame d = Inr True \<Longrightarrow> has_complete_frame (d @ c) = Inr True"
  "has_complete_frame d = Inl e \<Longrightarrow> has_complete_frame (d @ c) = Inl e"
  by (auto simp: has_complete_frame_def HEADER_SIZE_def Let_def split: if_splits)

lemma read_frame_append:
  assumes "has_complete_frame d = Inr True"
  shows "read_frame C R (d @ c) key =
    (case read_frame C R d key of Inl e \<Rightarrow> Inl e | Inr (m, rest) \<Rightarrow> Inr (m, rest @ c))"
proof -
  let ?size = "be_decode (drop 4 (take HEADER_SIZE d))"
  let ?n = "HEADER_SIZE + nat ?size + AUTH_TAG_SIZE"
  have h: "HEADER_SIZE \<le> length d" "take 4 d = NETWORK_MAGIC" "\<not> ?size > MAX_MESSAGE_SIZE" "?n \<le> length d"
    using assms by (simp_all add: has_complete_frame_def Let_def split: if_splits)
  have e: "read_frame C R x key = rbind (from_frame C R (take ?n x) key) (\<lambda>m. Inr (m, drop ?n x))"
    if "take HEADER_SIZE x = take HEADER_SIZE d" "?n \<le> length x" "HEADER_SIZE \<le> length x" "take 4 x = NETWORK_MAGIC" for x
    using that h(3) by (simp add: read_frame_def Let_def)
  obtain n where n: "n = ?n" by simp
  have a: "read_frame C R d key = rbind (from_frame C R (take n d) key) (\<lambda>m. Inr (m, drop n d))"
    unfolding n using h by (intro e) auto
  have b: "read_frame C R (d @ c) key = rbind (from_frame C R (take n (d @ c)) key) (\<lambda>m. Inr (m, drop n (d @ c)))"
    unfolding n using h by (intro e) (auto simp: HEADER_SIZE_def)
  have "n \<le> length d" using h(4) n by simp
  then have "take n (d @ c) = take n d" "drop n (d @ c) = drop n d @ c" by auto
  with a b show ?thesis by (cases "from_frame C R (take n d) key") auto
qed

lemma feed_loop_append:
  "feed_loop C R key ms d = (Inr ms1, d1) \<Longrightarrow> feed_loop C R key ms (d @ c) = feed_loop C R key ms1 (d1 @ c)"
proof (induction C R key ms d rule: feed_loop.induct)
  case (1 C R key ms d)
  from 1(2) consider "has_complete_frame d = Inr False" "ms1 = ms" "d1 = d"
    | m rest where "has_complete_frame d = Inr True" "read_frame C R d key = Inr (m, rest)"
      "feed_loop C R key (ms @ [m]) rest = (Inr ms1, d1)"
    by (subst (asm) feed_loop.simps) (auto split: sum.splits if_splits)
  then show ?case
  proof cases
    case 2
    with 1(1) have "feed_loop C R key (ms @ [m]) (rest @ c) = feed_loop C R key ms1 (d1 @ c)" by simp
    with 2 show ?thesis
      by (simp add: feed_loop.simps [of C R key ms "d @ c"] complete_append read_frame_append)
  qed simp
qed

lemma feed_loop_error:
  "feed_loop C R key ms d = (Inl e, d1) \<Longrightarrow> feed_loop C R key ms (d @ c) = (Inl e, d1 @ c)"
proof (induction C R key ms d rule: feed_loop.induct)
  case (1 C R key ms d)
  from 1(2) consider "has_complete_frame d = Inl e" "d1 = d"
    | "has_complete_frame d = Inr True" "read_frame C R d key = Inl e" "d1 = d"
    | m rest where "has_complete_frame d = Inr True" "read_frame C R d key = Inr (m, rest)"
      "feed_loop C R key (ms @ [m]) rest = (Inl e, d1)"
    by (subst (asm) feed_loop.simps) (auto split: sum.splits if_splits)
  then show ?case
  proof cases
    case 3
    with 1(1) have "feed_loop C R key (ms @ [m]) (rest @ c) = (Inl e, d1 @ c)" by simp
    with 3 show ?thesis
      by (simp add: feed_loop.simps [of C R key ms "d @ c"] complete_append read_frame_append)
  qed (simp_all add: feed_loop.simps [of C R key ms "d @ c"] complete_append read_frame_append)
qed

lemma feed_loop_messages:
  "feed_loop C R key (xs @ ms) d = map_prod (map_sum id ((@) xs)) id (feed_loop C R key ms d)"
proof (induction C R key ms d arbitrary: xs rule: feed_loop.induct)
  case (1 C R key ms d)
  show ?case
    using 1 by (simp add: feed_loop.simps [of C R key "xs @ ms" d] feed_loop.simps [of C R key ms d]
        split: sum.split prod.split)
qed

text \<open>The chunks a connection receives one after the other; the first error ends it.\<close>

primrec feed_all :: "crypto \<Rightarrow> py_runtime \<Rightarrow> bytes list \<Rightarrow> (connection_buffer, peer_message list) op" where
  "feed_all C R [] = oreturn []"
| "feed_all C R (c # cs) =
     obind (feed C R c) (\<lambda>ms. obind (feed_all C R cs) (\<lambda>ms'. oreturn (ms @ ms')))"

lemma feed_eq_loop: "feed C R c b = (fst (feed_loop C R (cb_auth_key b) [] (cb_data b @ c)),
    b\<lparr>cb_data := snd (feed_loop C R (cb_auth_key b) [] (cb_data b @ c))\<rparr>)"
proof (cases "c = [] \<and> cb_data b = []")
  case True
  then have "feed_loop C R (cb_auth_key b) [] (cb_data b @ c) = (Inr [], [])"
    by (simp add: feed_loop.simps has_complete_frame_def HEADER_SIZE_def)
  with True show ?thesis by (simp add: feed_def)
qed (auto simp: feed_def split: prod.split)

lemma feed_all_chunks:
  assumes "feed_loop C R (cb_auth_key b) [] (cb_data b @ concat cs) = (Inr ms, rest)" and "cs \<noteq> []"
  shows "feed_all C R cs b = (Inr ms, b\<lparr>cb_data := rest\<rparr>)"
  using assms
proof (induction cs arbitrary: b ms)
  case Nil
  then show ?case by simp
next
  case (Cons c cs)
  let ?k = "cb_auth_key b"
  obtain r d where first: "feed_loop C R ?k [] (cb_data b @ c) = (r, d)" by (cases "feed_loop C R ?k [] (cb_data b @ c)")
  then obtain m1 where r: "r = Inr m1"
    using Cons.prems(1) feed_loop_error [of C R ?k "[]" "cb_data b @ c" _ d "concat cs"] by (cases r) auto
  let ?b = "b\<lparr>cb_data := d\<rparr>"
  have f: "feed C R c b = (Inr m1, ?b)" using first r by (simp add: feed_eq_loop)
  have rest: "feed_loop C R ?k (m1 @ []) (d @ concat cs) = (Inr ms, rest)"
    using Cons.prems(1) feed_loop_append [OF first [unfolded r], of "concat cs"] by simp
  show ?case
  proof (cases "cs = []")
    case True
    have "feed_loop C R ?k [] (cb_data b @ c) = (Inr ms, rest)" using Cons.prems(1) True by simp
    with first r True f show ?thesis by (simp add: obind_def)
  next
    case False
    from rest [unfolded feed_loop_messages] obtain m2 where m2: "feed_loop C R ?k [] (d @ concat cs) = (Inr m2, rest)" "ms = m1 @ m2"
      by (cases "feed_loop C R ?k [] (d @ concat cs)") (auto simp: map_sum_def split: sum.splits)
    have "feed_all C R cs ?b = (Inr m2, ?b\<lparr>cb_data := rest\<rparr>)" using m2(1) False by (intro Cons.IH) auto
    with f m2(2) show ?thesis by (simp add: obind_def)
  qed
qed

text \<open>A stream of frames.\<close>

lemma read_frame_first:
  assumes "f = frame_head p @ t" and "int (length p) \<le> MAX_MESSAGE_SIZE" and "length t = AUTH_TAG_SIZE"
  shows "has_complete_frame (f @ d) = Inr True"
    and "read_frame C R (f @ d) key = rbind (from_frame C R f key) (\<lambda>m. Inr (m, d))"
  using assms frame_fields(1,2) [OF assms(2), of "t @ d"] by (simp_all add: has_complete_frame_def read_frame_def)

lemma read_frame_frame:
  assumes "from_frame C R f key = Inr m"
  shows "has_complete_frame (f @ d) = Inr True" and "read_frame C R (f @ d) key = Inr (m, d)"
proof -
  obtain p t where "f = frame_head p @ t" "int (length p) \<le> MAX_MESSAGE_SIZE" "length t = AUTH_TAG_SIZE"
    using from_frame_shape [of C R f key] assms by auto
  from read_frame_first [OF this] assms show "has_complete_frame (f @ d) = Inr True" "read_frame C R (f @ d) key = Inr (m, d)"
    by simp_all
qed

text \<open>A complete frame that raises stays in the buffer.\<close>

lemma feed_bad_frame:
  assumes "f = frame_head p @ t" and "int (length p) \<le> MAX_MESSAGE_SIZE" and "length t = AUTH_TAG_SIZE"
    and "from_frame C R f (cb_auth_key b) = Inl e" and "cb_data b = []"
  shows "feed C R f b = (Inl e, b\<lparr>cb_data := f\<rparr>)"
  using read_frame_first [OF assms(1-3), where d = "[]"] assms(4,5) by (simp add: feed_eq_loop feed_loop.simps)

lemma feed_loop_frames:
  assumes "list_all2 (\<lambda>f m. from_frame C R f key = Inr m) fs ms"
  shows "feed_loop C R key acc (concat fs) = (Inr (acc @ ms), [])"
  using assms
proof (induction arbitrary: acc rule: list_all2_induct)
  case Nil
  then show ?case by (simp add: feed_loop.simps has_complete_frame_def HEADER_SIZE_def)
next
  case (Cons f fs m ms)
  then show ?case using read_frame_frame [OF Cons(1)] by (simp add: feed_loop.simps [of C R key acc])
qed

end
