(* ===== verification/Network_Properties.thy ===== *)
theory Network_Properties
  imports Connection_Buffer Peer_Properties Samples
begin

text \<open>
  The properties of the wire protocol (\<^verbatim>\<open>network.py\<close> and \<^verbatim>\<open>ConnectionBuffer\<close> of \<^verbatim>\<open>transport.py\<close>): frames,
  streams of frames, header chains, the transport of blocks and transactions, and the exceptions that
  malformed messages raise.
\<close>

section \<open>Frames\<close>

text \<open>
  C8: a frame is accepted exactly when it is the magic, the length and the payload followed by their
  HMAC under the shared key, the payload is within the size limit and is the JSON text of an object,
  and that object passes the validation of its message type. A changed byte of header, payload or tag
  is accepted only if the HMAC agrees with it.
\<close>

theorem accepted_frame_is_authentic:
  "from_frame C R f key = Inr m \<longleftrightarrow> key \<noteq> [] \<and>
     (\<exists>p d. f = NETWORK_MAGIC @ be_encode 4 (int (length p)) @ p @
          hmac_sha256 C key (NETWORK_MAGIC @ be_encode 4 (int (length p)) @ p) \<and>
        int (length p) \<le> MAX_MESSAGE_SIZE \<and>
        length (hmac_sha256 C key (NETWORK_MAGIC @ be_encode 4 (int (length p)) @ p)) = AUTH_TAG_SIZE \<and>
        loads_bytes R p = Inr (JObj d) \<and> message_from_dict C R d = Inr m)"
  by (simp add: from_frame_iff frame_head_def)

text \<open>
  C9: the messages of a connection arrive as they were sent, in order, however the stream of their
  frames is cut into chunks: the receiving buffer delivers each message with the objects of its
  payload in key order, and keeps no bytes back.
\<close>

theorem stream_delivers_messages:
  assumes "digest_ok C" and "list_all2 (\<lambda>m f. to_frame C m key = Inr f) ms fs"
    and "\<forall>m \<in> set ms. json_wf R (msg_payload m) \<and> msg_version m = PROTOCOL_VERSION \<and>
      validate_payload C R (sorted_message m) = Inr ()"
    and "concat chunks = concat fs" and "chunks \<noteq> []"
  shows "feed_all C R chunks \<lparr>cb_auth_key = key, cb_data = []\<rparr> =
    (Inr (map sorted_message ms), \<lparr>cb_auth_key = key, cb_data = []\<rparr>)"
proof -
  have "from_frame C R f key = Inr (sorted_message m)" if "to_frame C m key = Inr f" "m \<in> set ms" for m f
    using that assms(3) frame_reads_back [OF assms(1) _ _ that(1), of R] by simp
  with assms(2) have "list_all2 (\<lambda>f m. from_frame C R f key = Inr m) fs (map sorted_message ms)"
    by (auto simp: list_all2_conv_all_nth)
  from feed_loop_frames [OF this, of "[]"] show ?thesis
    using feed_all_chunks [of C R "\<lparr>cb_auth_key = key, cb_data = []\<rparr>" chunks] assms(4,5) by simp
qed

definition sample_version :: peer_message where
  "sample_version = version_message (ascii ''main'') 3 (ascii ''n1'')"

theorem stream_delivers_messages_witness:
  "\<exists>f. to_frame toy sample_version [1] = Inr f \<and>
     feed_all toy sample_runtime [take 10 f, drop 10 f] \<lparr>cb_auth_key = [1], cb_data = []\<rparr> =
       (Inr [sorted_message sample_version], \<lparr>cb_auth_key = [1], cb_data = []\<rparr>)"
proof -
  have "\<exists>f. to_frame toy sample_version [1] = Inr f"
    by (rule exI [of _ "projr (to_frame toy sample_version [1])"]) code_simp
  then obtain f where f: "to_frame toy sample_version [1] = Inr f" ..
  have "json_wf sample_runtime (msg_payload sample_version) \<and> msg_version sample_version = PROTOCOL_VERSION \<and>
      validate_payload toy sample_runtime (sorted_message sample_version) = Inr ()" by code_simp
  then show ?thesis
    using stream_delivers_messages [of toy "[1]" "[sample_version]" "[f]" sample_runtime "[take 10 f, drop 10 f]"]
      toy_digest_ok f by simp
qed

section \<open>Blocks and transactions on the wire\<close>

text \<open>
  A block or transaction that has an encoding reaches the other side unchanged: the message built
  for it passes validation there, also with its keys sorted, and its payload decodes to it.
\<close>

lemma relayed_objects_unchanged:
  assumes "block_ok b" and "tx_ok True tx"
  shows "\<exists>mb dt db mt. block_message b = Inr mb \<and> msg_payload (sorted_message mb) = JObj db \<and>
      validate_payload C R (sorted_message mb) = Inr () \<and> block_from_payload C db = Inr b \<and>
    transaction_message tx = Inr mt \<and> msg_payload (sorted_message mt) = JObj dt \<and>
      validate_payload C R (sorted_message mt) = Inr () \<and> transaction_from_payload dt = Inr tx"
proof -
  obtain bb where bb: "block_to_bytes b = Inr bb" using full_block.enc_total [OF assms(1)] by blast
  then have "block_from_bytes C bb = Inr b" using block_from_to_bytes [OF assms(1)] by blast
  moreover obtain tb where tb: "tx_to_bytes True tx = Inr tb" using full_tx.enc_total [OF assms(2)] by blast
  moreover have "tx_from_bytes True tb = Inr tx"
    using full_tx.all_dec_enc [OF assms(2) tb] by (simp add: tx_from_bytes_def)
  ultimately show ?thesis using bb
    by (simp add: block_message_def transaction_message_def mk_message_def sorted_message_def validate_payload_def
        payload_dict_def block_from_payload_def transaction_from_payload_def py_get_def binary_payload_def)
qed

lemma relayed_objects_unchanged_witness:
  "\<exists>m d. block_message block1 = Inr m \<and> msg_payload (sorted_message m) = JObj d \<and>
     block_from_payload toy d = Inr block1"
proof -
  have "tx_ok True spend_tx" using sample_block_ok(2) by (simp add: block_ok_def block1_def tx_item_ok_def)
  from relayed_objects_unchanged [OF sample_block_ok(2) this, of toy sample_runtime] show ?thesis by blast
qed

section \<open>Header chains\<close>

text \<open>
  C17: a list of headers is accepted as a chain exactly when every header hashes below its claimed
  difficulty, each names the hash of the one before and is one higher, and the first follows the given
  anchor, which must be a hash.
\<close>

theorem header_chain_accepted_iff:
  "validate_header_chain C hs prev = Inr hs' \<longleftrightarrow> hs' = hs \<and>
     (\<forall>h \<in> set hs. \<exists>hh. header_hash C h = Inr hh \<and> starts_with (replicate (nat (bh_difficulty h)) 48) hh) \<and>
     (\<forall>i. Suc i < length hs \<longrightarrow> header_hash C (hs ! i) = Inr (bh_previous_hash (hs ! Suc i)) \<and>
        bh_height (hs ! Suc i) = bh_height (hs ! i) + 1) \<and>
     (\<forall>p. prev = Some p \<longrightarrow> is_hash p \<and> (hs \<noteq> [] \<longrightarrow> bh_previous_hash (hs ! 0) = p))"
proof -
  have "list_all (header_meets C) hs \<longleftrightarrow>
      (\<forall>h \<in> set hs. \<exists>hh. header_hash C h = Inr hh \<and> starts_with (replicate (nat (bh_difficulty h)) 48) hh)"
    unfolding list_all_iff header_meets_def ..
  moreover have "successively (follows C) hs \<longleftrightarrow>
      (\<forall>i. Suc i < length hs \<longrightarrow> header_hash C (hs ! i) = Inr (bh_previous_hash (hs ! Suc i)) \<and>
        bh_height (hs ! Suc i) = bh_height (hs ! i) + 1)"
    unfolding successively_conv_nth follows_def ..
  ultimately show ?thesis unfolding validate_header_chain_iff by (cases prev; cases "hs = []") (auto simp: hd_conv_nth)
qed

theorem header_chain_accepted_iff_witness:
  "header_hash toy (header_of_block genesis_block) = Inr (bh_previous_hash (header_of_block block1))"
proof -
  let ?hs = "[header_of_block genesis_block, header_of_block block1]"
  have "validate_header_chain toy ?hs (Some ZERO_HASH) = Inr ?hs" by code_simp
  from header_chain_accepted_iff [THEN iffD1, OF this] show ?thesis by (auto dest: spec [of _ 0])
qed

section \<open>Malformed messages\<close>

text \<open>
  C37: an inventory message with an item that lacks its kind or its hash raises \<^verbatim>\<open>KeyError\<close>, not
  \<^verbatim>\<open>NetworkError\<close>: reading such an authentic frame ends the connection's buffer with that exception and
  leaves the frame in it.
\<close>

theorem incomplete_item_raises_key_error:
  assumes "digest_ok C" and "msg_type m \<in> {INV, GETDATA}" and "msg_version m = PROTOCOL_VERSION"
    and "msg_payload m = JObj [(ascii ''items'', JList [JObj d])]" and "json_wf R (msg_payload m)"
    and "map_of d (ascii ''kind'') = None \<or> map_of d (ascii ''hash'') = None"
    and "to_frame C m key = Inr f"
  shows "feed C R f \<lparr>cb_auth_key = key, cb_data = []\<rparr> = (Inl KeyError, \<lparr>cb_auth_key = key, cb_data = f\<rparr>)"
proof -
  have dist: "distinct (map fst d)" using assms(4,5) by simp
  then obtain d' where d': "json_sort (JObj d) = JObj d'" "map_of d' = map_option json_sort \<circ> map_of d"
    by (rule sorted_object)
  have "iv_from_dict R d' = Inl KeyError"
    using assms(6) d'(2) by (auto simp: iv_from_dict_def py_getitem_def split: option.split)
  moreover have "msg_payload (sorted_message m) = JObj [(ascii ''items'', JList [JObj d'])]"
    using assms(4) d'(1) by (simp add: sorted_message_def)
  moreover have "msg_type (sorted_message m) = msg_type m" by (simp add: sorted_message_def)
  ultimately have "validate_payload C R (sorted_message m) = Inl KeyError"
    using assms(2) by (auto simp: validate_payload_def payload_dict_def validate_inventory_def py_get_def py_dict_def
        MAX_INVENTORY_ITEMS_def)
  then have err: "from_frame C R f key = Inl KeyError" using frame_reads_back [OF assms(1,5,3,7)] by simp
  obtain p where "f = frame_head p @ hmac_sha256 C key (frame_head p)" "int (length p) \<le> MAX_MESSAGE_SIZE"
    using assms(7) by (auto simp: to_frame_Inr)
  from feed_bad_frame [OF this length_hmac [OF assms(1)]] err show ?thesis by simp
qed

theorem incomplete_item_raises_key_error_witness:
  "\<exists>f. to_frame toy (mk_message INV [(ascii ''items'', JList [JObj []])]) [1] = Inr f \<and>
     fst (feed toy sample_runtime f \<lparr>cb_auth_key = [1], cb_data = []\<rparr>) = Inl KeyError"
proof -
  let ?m = "mk_message INV [(ascii ''items'', JList [JObj []])]"
  have "\<exists>f. to_frame toy ?m [1] = Inr f" by (rule exI [of _ "projr (to_frame toy ?m [1])"]) code_simp
  then obtain f where f: "to_frame toy ?m [1] = Inr f" ..
  have "json_wf sample_runtime (msg_payload ?m)" "msg_payload ?m = JObj [(ascii ''items'', JList [JObj []])]"
    "msg_version ?m = PROTOCOL_VERSION" "msg_type ?m = INV" by code_simp+
  from incomplete_item_raises_key_error [OF toy_digest_ok _ this(3,2,1) _ f] this(4) f show ?thesis by auto
qed

end
