(* ===== verification/Encodable_Blocks.thy ===== *)
theory Encodable_Blocks
  imports Mining_Laws Node_Open_Laws
begin

text \<open>
  The blocks a node makes itself have an encoding that reads back: a genesis block that can be encoded at
  all, and every block mined on a mempool whose transactions were decoded from bytes and admitted by the
  policy.
\<close>

section \<open>Headers\<close>

lemma encode_int_ok: "encode_int v = Inr bs \<Longrightarrow> int64_ok v"
  by (auto simp: encode_int_def pack_q_def int64_ok_def split: if_splits)

lemma encode_uint_ok: "encode_uint v = Inr bs \<Longrightarrow> uint64_ok v"
  by (auto simp: encode_uint_def pack_Q_def uint64_ok_def split: if_splits)

lemma ZERO_HASH_is_hash: "is_hash ZERO_HASH"
  by (simp add: is_hash_def ZERO_HASH_def is_lower_hex_iff list_all_iff)

lemma COINBASE_is_hash: "is_hash COINBASE_PREV_TXID"
  by (simp add: is_hash_def COINBASE_PREV_TXID_def is_lower_hex_iff list_all_iff)

lemma block_hash_is_hash: "digest_ok C \<Longrightarrow> block_hash C b = Inr h \<Longrightarrow> is_hash h"
  by (auto simp: block_hash_def is_hash_sha256_hex)

lemma header_ok_hashed:
  assumes "block_hash C b = Inr h" and "is_hash (blk_previous_hash b)" and "is_hash (blk_transaction_root b)"
  shows "header_ok b"
  using assms by (auto simp: block_hash_def header_bytes_def header_ok_def dest!: encode_int_ok)

lemma merkle_root_length:
  assumes "digest_ok C" and "layer \<noteq> []" and "\<forall>x \<in> set layer. length x = 32"
  shows "length (merkle_root C layer) = 32"
  using assms
proof (induction C layer rule: merkle_root.induct)
  case (1 C layer)
  show ?case
  proof (cases "1 < length layer")
    case True
    have "hash_pairs C (pad_layer layer) \<noteq> []"
    proof -
      have "1 < length (pad_layer layer)" using True by (auto simp: length_pad_layer)
      then have "0 < length (hash_pairs C (pad_layer layer))" by simp
      then show ?thesis by blast
    qed
    moreover have "\<forall>x \<in> set (hash_pairs C (pad_layer layer)). length x = 32"
      using 1(2) by (auto simp: hash_pairs_inputs digest_ok_def)
    ultimately show ?thesis using 1(1) [OF True 1(2)] True by (simp add: merkle_root.simps [of C layer])
  next
    case False
    then have "merkle_root C layer = hd layer" by (simp add: merkle_root.simps [of C layer])
    with 1(3,4) show ?thesis by simp
  qed
qed

lemma root_is_hash:
  assumes "digest_ok C" and "calculate_transaction_root C txs = Inr root"
  shows "is_hash root" and "\<forall>tx \<in> set txs. \<exists>bs. tx_to_bytes True tx = Inr bs"
proof -
  show "is_hash root"
  proof (cases "txs = []")
    case True
    with assms show ?thesis by (auto simp: calculate_transaction_root_def is_hash_sha256_hex)
  next
    case False
    with assms(2) obtain layer where l: "rmap (\<lambda>tx. rbind (txid C tx) fromhex) txs = Inr layer" "root = hexlify (merkle_root C layer)"
      by (auto simp: calculate_transaction_root_def)
    have "layer \<noteq> []" using rmap_length [OF l(1)] False by auto
    with txid_layer_props(1) [OF assms(1) l(1)] merkle_root_length [OF assms(1)] l(2) show ?thesis
      by (simp add: is_hash_hexlify)
  qed
  show "\<forall>tx \<in> set txs. \<exists>bs. tx_to_bytes True tx = Inr bs"
  proof
    fix tx assume tx: "tx \<in> set txs"
    then obtain layer where "rmap (\<lambda>tx. rbind (txid C tx) fromhex) txs = Inr layer"
      using assms(2) by (auto simp: calculate_transaction_root_def split: if_splits)
    with tx obtain y where "rbind (txid C tx) fromhex = Inr y"
      by (auto simp: rmap_eq_Inr list_all2_conv_all_nth in_set_conv_nth)
    then show "\<exists>bs. tx_to_bytes True tx = Inr bs" by (auto simp: txid_def)
  qed
qed

section \<open>Transactions without signatures\<close>

lemma valid_address_ascii: "is_valid_address a \<Longrightarrow> is_ascii a \<and> length a = 44"
proof -
  assume a: "is_valid_address a"
  let ?s = "drop (length ADDRESS_PREFIX) a"
  have parts: "take (length ADDRESS_PREFIX) a = ADDRESS_PREFIX" "length ?s = 40" "list_all is_lower_hex ?s"
    using a by (simp_all add: is_valid_address_def Let_def)
  have split: "a = ADDRESS_PREFIX @ ?s" using append_take_drop_id [of "length ADDRESS_PREFIX" a] parts(1) by simp
  have "is_ascii ?s" using parts(3) by (auto simp: is_ascii_def is_lower_hex_iff list_all_iff)
  moreover have "is_ascii ADDRESS_PREFIX" "length ADDRESS_PREFIX = 4" by (simp_all add: ADDRESS_PREFIX_def ascii_def)
  ultimately show ?thesis using parts(2) by (subst (1 2) split) simp
qed

lemma valid_address_text:
  assumes "is_valid_address a"
  obtains bs where "utf8_encode a = Inr bs" "length bs = 44" "text_ok a"
  using valid_address_ascii [OF assms] utf8_encode_ascii [of a] that [of "map word_of_int a"]
  by (simp add: text_ok_def blob_ok_def)

text \<open>A coinbase that pays to addresses, if it can be encoded at all.\<close>

definition coinbase_with :: "int \<Rightarrow> tx_output list \<Rightarrow> consensus_transaction" where
  "coinbase_with i outs = \<lparr>tx_inputs = [unsigned_input (OutPoint COINBASE_PREV_TXID i)], tx_outputs = outs, tx_version = 1\<rparr>"

lemma encode_list_each: "encode_list e xs = Inr bs \<Longrightarrow> x \<in> set xs \<Longrightarrow> \<exists>b. e x = Inr b"
  by (induction xs arbitrary: bs) auto

lemma encode_length:
  "encode_int v = Inr bs \<Longrightarrow> length bs = 8" "encode_uint v = Inr bs \<Longrightarrow> length bs = 8" "encode_hash s = Inr bs \<Longrightarrow> length bs = 32"
  "encode_text s = Inr bs \<Longrightarrow> utf8_encode s = Inr cs \<Longrightarrow> length bs = 4 + length cs" "pack_H k = Inr bs \<Longrightarrow> length bs = 2"
  by (auto simp: encode_int_def pack_q_def encode_uint_def pack_Q_def encode_hash_def encode_text_def encode_bytes_def pack_I_def
      pack_H_def split: if_splits sum.splits)

lemma address_output_ok:
  assumes "is_valid_address (out_address out)" and "output_to_bytes out = Inr bs"
  shows "output_ok out" and "length bs = 56"
proof -
  obtain cs where cs: "utf8_encode (out_address out) = Inr cs" "length cs = 44" "text_ok (out_address out)"
    using assms(1) by (rule valid_address_text)
  obtain am t where enc: "encode_uint (out_amount out) = Inr am" "encode_text (out_address out) = Inr t" "bs = am @ t"
    using assms(2) by (auto simp: output_to_bytes_def)
  show "output_ok out" using encode_uint_ok [OF enc(1)] cs(3) by (simp add: output_ok_def)
  show "length bs = 56" using encode_length(2) [OF enc(1)] encode_length(4) [OF enc(2) cs(1)] cs(2) enc(3) by simp
qed

lemma coinbase_bytes:
  assumes "tx_to_bytes True (coinbase_with i outs) = Inr bs"
  obtains b where "encode_list output_to_bytes outs = Inr b" and "length bs = 73 + length b" and "int64_ok i"
    and "uint64_ok (int (length outs))"
proof -
  obtain cv v ni h ix no b where enc: "pack_H BINARY_CODEC_VERSION = Inr cv" "encode_int 1 = Inr v" "encode_uint 1 = Inr ni"
      "encode_hash COINBASE_PREV_TXID = Inr h" "encode_int i = Inr ix" "encode_uint (int (length outs)) = Inr no"
      "encode_list output_to_bytes outs = Inr b" and bs: "bs = TX_MAGIC @ cv @ v @ ni @ (h @ ix @ [0] @ [0]) @ no @ b"
    using assms by (auto simp: tx_to_bytes_def coinbase_with_def input_to_bytes_def outpoint_to_bytes_def unsigned_input_def)
  have "length bs = 73 + length b"
    using enc(1) [THEN encode_length(5)] enc(2,5) [THEN encode_length(1)] enc(3,6) [THEN encode_length(2)]
      enc(4) [THEN encode_length(3)] by (simp add: bs TX_MAGIC_def)
  then show ?thesis by (rule that [OF enc(7) _ encode_int_ok [OF enc(5)] encode_uint_ok [OF enc(6)]])
qed

lemma coinbase_item_ok:
  assumes "\<forall>out \<in> set outs. is_valid_address (out_address out)" and "tx_to_bytes True (coinbase_with i outs) = Inr bs"
    and "blob_ok bs"
  shows "tx_item_ok (coinbase_with i outs)"
proof -
  obtain b where b: "encode_list output_to_bytes outs = Inr b" "int64_ok i" "uint64_ok (int (length outs))"
    using assms(2) by (rule coinbase_bytes)
  then have "list_all output_ok outs"
    using assms(1) encode_list_each address_output_ok(1) by (fastforce simp: list_all_iff)
  then have "tx_ok True (coinbase_with i outs)"
    using b COINBASE_is_hash
    by (simp add: tx_ok_def coinbase_with_def input_ok_def unsigned_input_def outpoint_ok_def uint64_ok_def int64_ok_def)
  with assms(2,3) show ?thesis by (simp add: tx_item_ok_def)
qed

lemma coinbase_one_output:
  assumes "is_valid_address (out_address out)" and "tx_to_bytes True (coinbase_with i [out]) = Inr bs"
  shows "tx_item_ok (coinbase_with i [out])"
proof -
  obtain b where b: "encode_list output_to_bytes [out] = Inr b" "length bs = 73 + length b"
    using assms(2) by (rule coinbase_bytes)
  then have "blob_ok bs" using address_output_ok(2) [OF assms(1)] by (auto simp: blob_ok_def)
  then show ?thesis using coinbase_item_ok [OF _ assms(2)] assms(1) by simp
qed

section \<open>A mempool whose transactions can be encoded\<close>

text \<open>The policy of every node is the default one, with room for 5,000 transactions of at most 100,000 bytes.\<close>

definition pool_ok :: "consensus_node \<Rightarrow> bool" where
  "pool_ok n \<longleftrightarrow> nd_policy n = default_policy \<and> list_all tx_item_ok (nd_mempool n) \<and> length (nd_mempool n) \<le> 5000"

lemma prune_loop_admitted:
  assumes "int (length valid) \<le> max_transactions p"
    and "\<forall>tx \<in> set valid. \<exists>bs. tx_to_bytes True tx = Inr bs \<and> int (length bs) \<le> max_transaction_bytes p"
  shows "int (length (prune_loop C p txs valid c)) \<le> max_transactions p"
    and "\<forall>tx \<in> set (prune_loop C p txs valid c). \<exists>bs. tx_to_bytes True tx = Inr bs \<and> int (length bs) \<le> max_transaction_bytes p"
    and "set (prune_loop C p txs valid c) \<subseteq> set valid \<union> set txs"
proof -
  have "int (length (prune_loop C p txs valid c)) \<le> max_transactions p \<and>
      (\<forall>tx \<in> set (prune_loop C p txs valid c). \<exists>bs. tx_to_bytes True tx = Inr bs \<and> int (length bs) \<le> max_transaction_bytes p) \<and>
      set (prune_loop C p txs valid c) \<subseteq> set valid \<union> set txs"
    using assms
  proof (induction txs arbitrary: valid c)
    case (Cons tx txs)
    obtain r c' where run: "apply_transaction C tx c = (r, c')" by (meson surj_pair)
    have skip: ?case if "prune_loop C p (tx # txs) valid c = prune_loop C p txs valid c'"
      using Cons.IH [of valid c'] Cons.prems that by auto
    show ?case
    proof (cases "\<exists>fee u. r = Inr fee \<and> policy_validate p tx fee (int (length valid)) = Inr u")
      case True
      then obtain fee u where t: "r = Inr fee" "policy_validate p tx fee (int (length valid)) = Inr u" by blast
      have "prune_loop C p (tx # txs) valid c = prune_loop C p txs (valid @ [tx]) c'" using run t by simp
      with Cons.IH [of "valid @ [tx]" c'] Cons.prems t(2) [unfolded policy_validate_Inr] show ?thesis by auto
    next
      case False
      with run have "prune_loop C p (tx # txs) valid c = prune_loop C p txs valid c'"
        by (auto split: sum.split)
      then show ?thesis by (rule skip)
    qed
  qed simp
  then show "int (length (prune_loop C p txs valid c)) \<le> max_transactions p"
    "\<forall>tx \<in> set (prune_loop C p txs valid c). \<exists>bs. tx_to_bytes True tx = Inr bs \<and> int (length bs) \<le> max_transaction_bytes p"
    "set (prune_loop C p txs valid c) \<subseteq> set valid \<union> set txs" by blast+
qed

lemma decoded_tx_ok: "decode_transaction d = Inr tx \<Longrightarrow> tx_ok True tx"
  by (auto simp: decode_transaction_def tx_from_bytes_def decode_all_def dest!: full_tx.enc_dec)

lemma admitted_pool:
  assumes "\<forall>tx \<in> set txs. tx_ok True tx"
  shows "list_all tx_item_ok (prune_loop C default_policy txs [] c)" and "length (prune_loop C default_policy txs [] c) \<le> 5000"
proof -
  note adm = prune_loop_admitted [of "[]" default_policy C txs c]
  have "tx_item_ok tx" if "tx \<in> set (prune_loop C default_policy txs [] c)" for tx
    using adm(2,3) that assms by (fastforce simp: default_policy_def tx_item_ok_def blob_ok_def)
  then show "list_all tx_item_ok (prune_loop C default_policy txs [] c)" by (simp add: list_all_iff)
  show "length (prune_loop C default_policy txs [] c) \<le> 5000" using adm(1) by (simp add: default_policy_def)
qed

lemma new_node_pool:
  assumes "new_node C files st difficulty fc = Inr n"
  shows "pool_ok n"
proof -
  from assms obtain txs c where txs: "ms_transactions (nf_mempool_store files) = Inr txs"
    and pool: "nd_mempool n = prune_loop C default_policy txs [] c" "nd_policy n = default_policy"
    by (auto simp: new_node_def load_mempool_def Let_def split: if_splits prod.splits sum.splits)
  have "tx_ok True tx" if "tx \<in> set txs" for tx
    using txs that decoded_tx_ok by (auto simp: ms_transactions_def rmap_eq_Inr list_all2_conv_all_nth in_set_conv_nth)
  then have "\<forall>tx \<in> set txs. tx_ok True tx" by blast
  from admitted_pool [OF this] pool show ?thesis by (simp add: pool_ok_def)
qed

section \<open>Blocks the node makes\<close>

lemma tip_hash_is_hash: "digest_ok C \<Longrightarrow> tip_hash C n = Inr h \<Longrightarrow> is_hash h"
  by (auto simp: tip_hash_def ZERO_HASH_is_hash block_hash_is_hash split: option.splits)

lemma rooted_block_ok:
  assumes "digest_ok C" and "rooted C b" and "block_hash C b = Inr h" and "is_hash (blk_previous_hash b)"
    and "blk_transactions b = cb # txs" and "\<And>bs. tx_to_bytes True cb = Inr bs \<Longrightarrow> tx_item_ok cb"
    and "list_all tx_item_ok txs" and "length txs \<le> 5000"
  shows "block_ok b"
proof -
  note root = root_is_hash [OF assms(1) assms(2) [unfolded rooted_def]]
  have "header_ok b" by (rule header_ok_hashed [OF assms(3,4) root(1)])
  moreover have "tx_item_ok cb" using root(2) assms(5,6) by auto
  ultimately show ?thesis using assms(5,7,8) by (simp add: block_ok_def uint64_ok_def)
qed

lemma mined_rooted:
  assumes "mine C b = Inr b'" and "rooted C b"
  shows "rooted C b'" and "\<exists>h. block_hash C b' = Inr h" and "blk_previous_hash b' = blk_previous_hash b"
    and "blk_transactions b' = blk_transactions b"
proof -
  obtain k where k: "b' = b\<lparr>blk_nonce := k\<rparr>" "meets C (replicate (nat (blk_difficulty b)) 48) b k"
    using mine_loop_Inr [OF assms(1) [unfolded mine_def] assms(2)] by blast
  then show "rooted C b'" "\<exists>h. block_hash C b' = Inr h" "blk_previous_hash b' = blk_previous_hash b"
      "blk_transactions b' = blk_transactions b"
    using assms(2) by (auto simp: rooted_def meets_def)
qed

text \<open>Mining on a pool whose transactions can be encoded.\<close>

lemma pool_mines_ok:
  assumes "digest_ok C" and "state_ok (nd_state n)" and "pool_ok n"
    and "rbind (build_candidate_block C n addr now) (mine C) = Inr b"
  shows "block_ok b"
proof -
  from assms(4) obtain b0 where b0: "build_candidate_block C n addr now = Inr b0" "mine C b0 = Inr b" by auto
  obtain txs fees st1 coinbase height tip where c: "mset txs = mset (nd_mempool n)" "tip_hash C n = Inr tip"
    "create_coinbase st1 addr fees (height + 1) = Inr coinbase" "blk_previous_hash b0 = tip"
    "blk_transactions b0 = coinbase # txs" "rooted C b0"
    using build_candidate_Inr [OF assms(2) b0(1)] by metis
  obtain out i where cb: "coinbase = coinbase_with i [out]" and addr: "is_valid_address (out_address out)"
    using c(3) by (auto simp: create_coinbase_def coinbase_with_def split: if_splits)
  note m = mined_rooted [OF b0(2) c(6)]
  obtain h where h: "block_hash C b = Inr h" using m(2) by blast
  have "list_all tx_item_ok txs" "length txs \<le> 5000"
    using assms(3) mset_eq_setD [OF c(1)] mset_eq_length [OF c(1)] by (simp_all add: pool_ok_def list_all_iff)
  with m c tip_hash_is_hash [OF assms(1) c(2)] coinbase_one_output [OF addr] show ?thesis
    by (intro rooted_block_ok [OF assms(1) m(1) h]) (simp_all add: cb)
qed

lemma genesis_outputs_addresses:
  "genesis_outputs ps outs acc = Inr (outs', t) \<Longrightarrow> \<forall>out \<in> set outs. is_valid_address (out_address out) \<Longrightarrow>
     \<forall>out \<in> set outs'. is_valid_address (out_address out)"
  by (induction ps arbitrary: outs acc) (auto split: if_splits)

lemma genesis_block_ok:
  assumes "digest_ok C" and "build_genesis_block C allocations difficulty now = Inr g" and "encode_consensus_block g = Inr p"
  shows "block_ok g"
proof -
  from assms(2) obtain outs t b0 where outs: "genesis_outputs allocations [] 0 = Inr (outs, t)" and m: "mine C b0 = Inr g"
    and b0: "new_block C \<lparr>blk_height = 0, blk_previous_hash = ZERO_HASH, blk_transactions = [coinbase_with (- 1) outs],
      blk_difficulty = difficulty, blk_timestamp = now, blk_nonce = 0, blk_transaction_root = [], blk_version = 1\<rparr> = Inr b0"
    by (auto simp: build_genesis_block_def coinbase_with_def split: if_splits)
  have r: "rooted C b0" using new_block_no_root(1) [OF b0] by simp
  note g = mined_rooted [OF m r]
  have txs: "blk_transactions g = [coinbase_with (- 1) outs]" using g(4) new_block_fields(4) [OF b0] by simp
  then have "tx_item_ok (coinbase_with (- 1) outs)" if "tx_to_bytes True (coinbase_with (- 1) outs) = Inr bs" for bs
    using coinbase_item_ok [OF _ that] genesis_outputs_addresses [OF outs] assms(3) that
    by (auto simp: encode_consensus_block_def block_to_bytes_def encode_bytes_def blob_ok_def split: if_splits)
  moreover obtain h where "block_hash C g = Inr h" using g(2) by blast
  ultimately show ?thesis using g txs new_block_fields(3) [OF b0] ZERO_HASH_is_hash
    by (intro rooted_block_ok [OF assms(1) g(1), where txs = "[]" and cb = "coinbase_with (- 1) outs"]) simp_all
qed

end
