(* ===== verification/Peer_Session.thy ===== *)
theory Peer_Session
  imports Network_Laws
begin

text \<open>
  \<^verbatim>\<open>peer.py\<close>: the state machine of one peer connection. A handler that raises keeps what it changed
  before; \<^verbatim>\<open>receive\<close> turns \<^verbatim>\<open>NetworkError\<close> and \<^verbatim>\<open>PeerError\<close> into a reject message and a point of
  misbehaviour, and lets every other exception through.
\<close>

record peer_session =
  se_network :: pystr
  se_node_id :: pystr
  se_height :: int
  se_remote_node_id :: "pystr option"
  se_remote_height :: int
  se_version_sent :: bool
  se_version_received :: bool
  se_verack_sent :: bool
  se_verack_received :: bool
  se_pending_pings :: "int set"
  se_known_inventory :: "(pystr \<times> pystr) set"
  se_requested_inventory :: "(pystr \<times> pystr) set"
  se_misbehavior_score :: int
  se_max_inventory_items :: int

definition new_session :: "pystr \<Rightarrow> pystr \<Rightarrow> int \<Rightarrow> peer_session" where
  "new_session network node_id height =
     \<lparr>se_network = network, se_node_id = node_id, se_height = height, se_remote_node_id = None,
      se_remote_height = -1, se_version_sent = False, se_version_received = False, se_verack_sent = False,
      se_verack_received = False, se_pending_pings = {}, se_known_inventory = {},
      se_requested_inventory = {}, se_misbehavior_score = 0, se_max_inventory_items = 10000\<rparr>"

definition handshake_complete :: "peer_session \<Rightarrow> bool" where
  "handshake_complete s \<longleftrightarrow> se_version_sent s \<and> se_version_received s \<and> se_verack_sent s \<and> se_verack_received s"

type_synonym 'a session_op = "(peer_session, 'a) op"

abbreviation peer_error :: "string \<Rightarrow> 'a result" where
  "peer_error s \<equiv> Inl (PeerError (ascii s))"

definition reject_message :: "string \<Rightarrow> peer_message" where
  "reject_message reason = mk_message REJECT [(ascii ''reason'', JStr (ascii reason))]"

section \<open>Sending\<close>

definition start_handshake :: "peer_message session_op" where
  "start_handshake =
     obind (omodify (\<lambda>s. s\<lparr>se_version_sent := True\<rparr>)) (\<lambda>_.
     oeval (\<lambda>s. Inr (version_message (se_network s) (se_height s) (se_node_id s))))"

definition send_verack :: "peer_message session_op" where
  "send_verack =
     obind (oeval (\<lambda>s. if \<not> se_version_received s then peer_error ''cannot verack before receiving version'' else Inr ()))
     (\<lambda>_. obind (omodify (\<lambda>s. s\<lparr>se_verack_sent := True\<rparr>)) (\<lambda>_. oreturn (mk_message VERACK [])))"

definition send_ping :: "int \<Rightarrow> peer_message session_op" where
  "send_ping nonce =
     obind (oeval (\<lambda>_. if nonce < 0 then peer_error ''ping nonce cannot be negative'' else Inr ())) (\<lambda>_.
     obind (omodify (\<lambda>s. s\<lparr>se_pending_pings := insert nonce (se_pending_pings s)\<rparr>)) (\<lambda>_.
     oreturn (mk_message PING [(ascii ''nonce'', JInt nonce)])))"

definition item_keys :: "inventory_vector list \<Rightarrow> (pystr \<times> pystr) set" where
  "item_keys items = (\<lambda>i. (iv_kind i, iv_hash i)) ` set items"

definition session_announce :: "inventory_vector list \<Rightarrow> peer_message session_op" where
  "session_announce items =
     obind (omodify (\<lambda>s. s\<lparr>se_known_inventory := se_known_inventory s \<union> item_keys items\<rparr>)) (\<lambda>_.
     oeval (\<lambda>_. inventory_message INV items))"

definition session_request :: "inventory_vector list \<Rightarrow> peer_message session_op" where
  "session_request items =
     obind (omodify (\<lambda>s. s\<lparr>se_requested_inventory := se_requested_inventory s \<union> item_keys items\<rparr>)) (\<lambda>_.
     oeval (\<lambda>_. inventory_message GETDATA items))"

section \<open>Handlers\<close>

definition handle_version :: "py_runtime \<Rightarrow> (pystr, json) dict \<Rightarrow> peer_message list session_op" where
  "handle_version R d =
     obind (oeval (\<lambda>_. py_getitem d ''network'')) (\<lambda>network.
     obind (oeval (\<lambda>s. if py_str R network \<noteq> se_network s then peer_error ''peer is on a different network'' else Inr ())) (\<lambda>_.
     obind (oeval (\<lambda>_. py_getitem d ''node_id'')) (\<lambda>node_id.
     obind (omodify (\<lambda>s. s\<lparr>se_remote_node_id := Some (py_str R node_id)\<rparr>)) (\<lambda>_.
     obind (oeval (\<lambda>s. if se_remote_node_id s = Some (se_node_id s) then peer_error ''peer has the same node id'' else Inr ())) (\<lambda>_.
     obind (oeval (\<lambda>_. rbind (py_getitem d ''height'') (py_int R))) (\<lambda>height.
     obind (omodify (\<lambda>s. s\<lparr>se_remote_height := height, se_version_received := True\<rparr>)) (\<lambda>_.
     obind (oeval (\<lambda>s. Inr (se_version_sent s))) (\<lambda>sent.
     obind (if sent then oreturn [] else obind start_handshake (\<lambda>m. oreturn [m])) (\<lambda>r1.
     obind (oeval (\<lambda>s. Inr (se_verack_sent s))) (\<lambda>acked.
     obind (if acked then oreturn [] else obind send_verack (\<lambda>m. oreturn [m])) (\<lambda>r2.
     oreturn (r1 @ r2))))))))))))"

definition handle_verack :: "peer_message list session_op" where
  "handle_verack =
     obind (oeval (\<lambda>s. if \<not> se_version_sent s then peer_error ''received verack before sending version'' else Inr ()))
     (\<lambda>_. obind (omodify (\<lambda>s. s\<lparr>se_verack_received := True\<rparr>)) (\<lambda>_. oreturn []))"

definition handle_ping :: "(pystr, json) dict \<Rightarrow> peer_message list session_op" where
  "handle_ping d =
     obind (oeval (\<lambda>_. py_getitem d ''nonce'')) (\<lambda>nonce. oreturn [mk_message PONG [(ascii ''nonce'', nonce)]])"

definition handle_pong :: "py_runtime \<Rightarrow> (pystr, json) dict \<Rightarrow> peer_message list session_op" where
  "handle_pong R d =
     obind (oeval (\<lambda>_. rbind (py_getitem d ''nonce'') (py_int R))) (\<lambda>nonce.
     obind (oeval (\<lambda>s. if nonce \<notin> se_pending_pings s then peer_error ''pong nonce was not pending'' else Inr ())) (\<lambda>_.
     obind (omodify (\<lambda>s. s\<lparr>se_pending_pings := se_pending_pings s - {nonce}\<rparr>)) (\<lambda>_.
     oreturn [])))"

definition know :: "pystr \<times> pystr \<Rightarrow> unit session_op" where
  "know k = omodify (\<lambda>s. s\<lparr>se_known_inventory := insert k (se_known_inventory s)\<rparr>)"

definition require_known_room :: "unit session_op" where
  "require_known_room =
     oeval (\<lambda>s. if int (card (se_known_inventory s)) \<ge> se_max_inventory_items s
                then peer_error ''known inventory limit reached'' else Inr ())"

primrec inv_loop :: "py_runtime \<Rightarrow> json list \<Rightarrow> inventory_vector list \<Rightarrow> inventory_vector list session_op" where
  "inv_loop R [] wanted = oreturn wanted"
| "inv_loop R (raw # raws) wanted =
     obind (oeval (\<lambda>_. iv_from_value R raw)) (\<lambda>item.
     obind (oeval (\<lambda>s. Inr ((iv_kind item, iv_hash item) \<in> se_known_inventory s))) (\<lambda>known.
     if known then inv_loop R raws wanted
     else
       obind require_known_room (\<lambda>_.
       obind (know (iv_kind item, iv_hash item)) (\<lambda>_.
       inv_loop R raws (wanted @ [item])))))"

definition handle_inv :: "py_runtime \<Rightarrow> (pystr, json) dict \<Rightarrow> peer_message list session_op" where
  "handle_inv R d =
     obind (oeval (\<lambda>_. rbind (py_getitem d ''items'') py_items)) (\<lambda>raws.
     obind (inv_loop R raws []) (\<lambda>wanted.
     if wanted \<noteq> [] then obind (session_request wanted) (\<lambda>m. oreturn [m]) else oreturn []))"

primrec getdata_loop :: "py_runtime \<Rightarrow> json list \<Rightarrow> unit session_op" where
  "getdata_loop R [] = oreturn ()"
| "getdata_loop R (raw # raws) =
     obind (oeval (\<lambda>_. iv_from_value R raw)) (\<lambda>item.
     obind (oeval (\<lambda>s. if int (card (se_requested_inventory s)) \<ge> se_max_inventory_items s
                       then peer_error ''requested inventory limit reached'' else Inr ())) (\<lambda>_.
     obind (omodify (\<lambda>s. s\<lparr>se_requested_inventory := insert (iv_kind item, iv_hash item) (se_requested_inventory s)\<rparr>)) (\<lambda>_.
     getdata_loop R raws)))"

definition session_getdata :: "py_runtime \<Rightarrow> (pystr, json) dict \<Rightarrow> peer_message list session_op" where
  "session_getdata R d =
     obind (oeval (\<lambda>_. rbind (py_getitem d ''items'') py_items)) (\<lambda>raws.
     obind (getdata_loop R raws) (\<lambda>_. oreturn []))"

definition session_getheaders :: "py_runtime \<Rightarrow> (pystr, json) dict \<Rightarrow> peer_message list session_op" where
  "session_getheaders R d =
     obind (oeval (\<lambda>_. rbind (py_getitem d ''locator'') py_items)) (\<lambda>hashes.
     obind (omodify (\<lambda>s. s\<lparr>se_requested_inventory := se_requested_inventory s \<union>
              (\<lambda>h. (ascii ''block_header'', py_str R h)) ` set hashes\<rparr>)) (\<lambda>_. oreturn []))"

primrec headers_loop :: "crypto \<Rightarrow> block_header list \<Rightarrow> unit session_op" where
  "headers_loop C [] = oreturn ()"
| "headers_loop C (h # hs) =
     obind require_known_room (\<lambda>_.
     obind (oeval (\<lambda>_. header_hash C h)) (\<lambda>hh.
     obind (know (ascii ''block_header'', hh)) (\<lambda>_. headers_loop C hs)))"

definition session_headers :: "crypto \<Rightarrow> py_runtime \<Rightarrow> (pystr, json) dict \<Rightarrow> peer_message list session_op" where
  "session_headers C R d =
     obind (oeval (\<lambda>_. headers_from_payload C R d)) (\<lambda>hs. obind (headers_loop C hs) (\<lambda>_. oreturn []))"

text \<open>\<^verbatim>\<open>_handle_payload\<close> for its two message types.\<close>

definition session_tx :: "crypto \<Rightarrow> (pystr, json) dict \<Rightarrow> peer_message list session_op" where
  "session_tx C d =
     obind (oeval (\<lambda>_. rbind (transaction_from_payload d) (txid C))) (\<lambda>t.
     obind (know (ascii ''tx'', t)) (\<lambda>_. oreturn []))"

definition session_block :: "crypto \<Rightarrow> (pystr, json) dict \<Rightarrow> peer_message list session_op" where
  "session_block C d =
     obind (oeval (\<lambda>_. rbind (block_from_payload C d) (block_hash C))) (\<lambda>h.
     obind (know (ascii ''block'', h)) (\<lambda>_. oreturn []))"

definition add_misbehavior :: "unit session_op" where
  "add_misbehavior = omodify (\<lambda>s. s\<lparr>se_misbehavior_score := se_misbehavior_score s + 1\<rparr>)"

definition handle_reject :: "peer_message list session_op" where
  "handle_reject = obind add_misbehavior (\<lambda>_. oreturn [])"

definition dispatch :: "crypto \<Rightarrow> py_runtime \<Rightarrow> peer_message \<Rightarrow> peer_message list session_op" where
  "dispatch C R m =
     (if msg_type m = VERACK then handle_verack
      else if msg_type m = REJECT then handle_reject
      else
        obind (oeval (\<lambda>_. payload_dict (msg_payload m))) (\<lambda>d.
        case msg_type m of
          VERSION \<Rightarrow> handle_version R d
        | PING \<Rightarrow> handle_ping d
        | PONG \<Rightarrow> handle_pong R d
        | INV \<Rightarrow> handle_inv R d
        | GETDATA \<Rightarrow> session_getdata R d
        | GETHEADERS \<Rightarrow> session_getheaders R d
        | HEADERS \<Rightarrow> session_headers C R d
        | TX \<Rightarrow> session_tx C d
        | BLOCK \<Rightarrow> session_block C d
        | _ \<Rightarrow> oreturn []))"

definition is_session_error :: "exn \<Rightarrow> bool" where
  "is_session_error e = (case e of NetworkError _ \<Rightarrow> True | PeerError _ \<Rightarrow> True | _ \<Rightarrow> False)"

definition session_receive :: "crypto \<Rightarrow> py_runtime \<Rightarrow> peer_message \<Rightarrow> peer_message list session_op" where
  "session_receive C R m s =
     (case obind (oeval (\<lambda>_. validate_payload C R m)) (\<lambda>_. dispatch C R m) s of
        (Inl e, s') \<Rightarrow>
          if is_session_error e
          then obind add_misbehavior (\<lambda>_. oreturn [reject_message ''invalid message'']) s'
          else (Inl e, s')
      | (Inr r, s') \<Rightarrow> (Inr r, s'))"

end
