(* ===== verification/Service.thy ===== *)
theory Service
  imports Peer_Session Peers Index_Stores Node_Chain
begin

text \<open>
  \<^verbatim>\<open>service.py\<close>: the node service routes peer messages to sessions, the address manager and the node,
  schedules block downloads and accounts for the behaviour of peers. Session, peer and progress
  objects are shared with the dictionaries that hold them; here they are written back.
\<close>

section \<open>Data\<close>

record service_result =
  sr_direct :: "peer_message list"
  sr_direct_to :: "(pystr, peer_message list) dict"
  sr_relay :: "peer_message list"
  sr_disconnect :: bool

definition service_result_of :: "peer_message list \<Rightarrow> peer_message list \<Rightarrow> service_result" where
  "service_result_of direct relay = \<lparr>sr_direct = direct, sr_direct_to = [], sr_relay = relay, sr_disconnect = False\<rparr>"

record block_download =
  bd_block_hash :: pystr
  bd_peer :: pystr
  bd_requested_at :: int

definition no_progress :: sync_counters where
  "no_progress = \<lparr>requested_blocks = 0, completed_blocks = 0, timed_out_blocks = 0, failed_blocks = 0\<rparr>"

definition quality_score :: "sync_counters \<Rightarrow> int" where
  "quality_score p =
     max 0 (failed_blocks p * 100 + timed_out_blocks p * 20 + requested_blocks p - completed_blocks p * 10)"

record node_service =
  sv_node :: consensus_node
  sv_network :: pystr
  sv_node_id :: pystr
  sv_peers :: peer_manager
  sv_block_download_timeout :: int
  sv_max_block_download_batch :: int
  sv_max_block_downloads_per_peer :: int
  sv_peer_sync_store :: "peer_sync_store option"
  sv_sessions :: "(pystr, peer_session) dict"
  sv_transactions :: "(pystr, consensus_transaction) dict"
  sv_blocks :: "(pystr, consensus_block) dict"
  sv_in_flight :: "(pystr, block_download) dict"
  sv_peer_sync :: "(pystr, sync_counters) dict"

type_synonym 'a service_op = "(node_service, 'a) op"

abbreviation service_error :: "string \<Rightarrow> 'a result" where
  "service_error s \<equiv> Inl (NodeServiceError (ascii s))"

definition default_peer_manager :: peer_manager where
  "default_peer_manager =
     \<lparr>pm_max_outbound = 8, pm_max_inbound = 32, pm_ban_threshold = 100, pm_base_backoff_seconds = 30,
      pm_max_backoff_seconds = 3600, pm_ban_seconds = 24 * 60 * 60, pm_peers = []\<rparr>"

definition new_service ::
  "consensus_node \<Rightarrow> pystr \<Rightarrow> pystr \<Rightarrow> peer_manager option \<Rightarrow> int \<Rightarrow> int \<Rightarrow> int \<Rightarrow> peer_sync_store option \<Rightarrow>
   node_service result" where
  "new_service node network node_id peers timeout batch per_peer store =
     (if network = [] then service_error ''network name is required''
      else if node_id = [] then service_error ''node id is required''
      else if timeout < 0 then service_error ''block download timeout cannot be negative''
      else if batch \<le> 0 then service_error ''block download batch size must be positive''
      else if per_peer \<le> 0 then service_error ''block downloads per peer must be positive''
      else Inr \<lparr>sv_node = node, sv_network = network, sv_node_id = node_id,
                sv_peers = (case peers of None \<Rightarrow> default_peer_manager | Some p \<Rightarrow> p),
                sv_block_download_timeout = timeout, sv_max_block_download_batch = batch,
                sv_max_block_downloads_per_peer = per_peer, sv_peer_sync_store = store, sv_sessions = [],
                sv_transactions = [], sv_blocks = [], sv_in_flight = [], sv_peer_sync = []\<rparr>)"

definition on_node :: "(consensus_node, 'a) op \<Rightarrow> 'a service_op" where
  "on_node f sv = (let (r, n) = f (sv_node sv) in (r, sv\<lparr>sv_node := n\<rparr>))"

definition on_peers :: "(peer_manager, 'a) op \<Rightarrow> 'a service_op" where
  "on_peers f sv = (let (r, p) = f (sv_peers sv) in (r, sv\<lparr>sv_peers := p\<rparr>))"

section \<open>Progress accounting\<close>

definition progress_for :: "pystr \<Rightarrow> sync_counters service_op" where
  "progress_for address sv =
     (case map_of (sv_peer_sync sv) address of
        Some p \<Rightarrow> (Inr p, sv)
      | None \<Rightarrow>
          let p = (case sv_peer_sync_store sv of
                     None \<Rightarrow> no_progress
                   | Some store \<Rightarrow> (case load_progress store address of None \<Rightarrow> no_progress | Some q \<Rightarrow> q))
          in (Inr p, sv\<lparr>sv_peer_sync := AList.update address p (sv_peer_sync sv)\<rparr>))"

definition store_progress :: "pystr \<Rightarrow> sync_counters \<Rightarrow> unit service_op" where
  "store_progress address p sv =
     (case sv_peer_sync_store sv of
        None \<Rightarrow> (Inr (), sv)
      | Some store \<Rightarrow>
          let (r, store') = save_progress address p store in (r, sv\<lparr>sv_peer_sync_store := Some store'\<rparr>))"

definition record_progress :: "pystr \<Rightarrow> (sync_counters \<Rightarrow> sync_counters) \<Rightarrow> unit service_op" where
  "record_progress address f =
     obind (progress_for address) (\<lambda>p.
     obind (omodify (\<lambda>sv. sv\<lparr>sv_peer_sync := AList.update address (f p) (sv_peer_sync sv)\<rparr>)) (\<lambda>_.
     store_progress address (f p)))"

definition in_flight_count :: "node_service \<Rightarrow> pystr \<Rightarrow> int" where
  "in_flight_count sv address = int (length (filter (\<lambda>(_, d). bd_peer d = address) (sv_in_flight sv)))"

definition clear_peer_downloads :: "pystr \<Rightarrow> bool \<Rightarrow> unit service_op" where
  "clear_peer_downloads address failed =
     obind (oeval (\<lambda>sv. Inr (in_flight_count sv address))) (\<lambda>failed_count.
     obind (omodify (\<lambda>sv. sv\<lparr>sv_in_flight := filter (\<lambda>(_, d). bd_peer d \<noteq> address) (sv_in_flight sv)\<rparr>)) (\<lambda>_.
     if failed \<and> failed_count \<noteq> 0
     then record_progress address (\<lambda>p. p\<lparr>failed_blocks := failed_blocks p + failed_count\<rparr>)
     else oreturn ()))"

section \<open>Peers\<close>

definition open_session :: "crypto \<Rightarrow> pystr \<Rightarrow> peer_session service_op" where
  "open_session C address =
     obind (oeval (\<lambda>sv. rbind (node_height C (sv_node sv)) (\<lambda>h. Inr (new_session (sv_network sv) (sv_node_id sv) h)))) (\<lambda>s.
     obind (omodify (\<lambda>sv. sv\<lparr>sv_sessions := AList.update address s (sv_sessions sv)\<rparr>)) (\<lambda>_.
     oreturn s))"

text \<open>A call of a session's method; the session is the object in the dictionary.\<close>

definition on_session :: "pystr \<Rightarrow> peer_session \<Rightarrow> 'a session_op \<Rightarrow> 'a service_op" where
  "on_session address s f sv =
     (let (r, s') = f s in (r, sv\<lparr>sv_sessions := AList.update address s' (sv_sessions sv)\<rparr>))"

definition connect_peer :: "crypto \<Rightarrow> py_runtime \<Rightarrow> pystr \<Rightarrow> int \<Rightarrow> bool \<Rightarrow> peer_message service_op" where
  "connect_peer C R address now inbound =
     obind (on_peers (mark_connecting R address now inbound)) (\<lambda>_.
     obind (on_peers (mark_connected address now)) (\<lambda>_.
     obind (open_session C address) (\<lambda>s. on_session address s start_handshake)))"

definition disconnect_peer :: "pystr \<Rightarrow> int \<Rightarrow> unit service_op" where
  "disconnect_peer address now =
     obind (on_peers (mark_disconnected address now)) (\<lambda>_.
     obind (omodify (\<lambda>sv. sv\<lparr>sv_sessions := AList.delete address (sv_sessions sv)\<rparr>)) (\<lambda>_.
     clear_peer_downloads address True))"

definition accept_inbound_peer :: "crypto \<Rightarrow> py_runtime \<Rightarrow> pystr \<Rightarrow> int \<Rightarrow> unit service_op" where
  "accept_inbound_peer C R address now =
     obind (on_peers (mark_connecting R address now True)) (\<lambda>_.
     obind (on_peers (mark_connected address now)) (\<lambda>_.
     obind (open_session C address) (\<lambda>_. oreturn ())))"

text \<open>The \<^verbatim>\<open>try\<close> of \<^verbatim>\<open>_session_for\<close>: any \<^verbatim>\<open>PeerManagerError\<close>, a ban among them, leads to the second attempt.\<close>

definition reconnect :: "py_runtime \<Rightarrow> pystr \<Rightarrow> int \<Rightarrow> unit service_op" where
  "reconnect R address now sv =
     (case on_peers (mark_connected address now) sv of
        (Inl (PeerManagerError m), sv') \<Rightarrow>
          obind (on_peers (add_peer R address now False)) (\<lambda>_.
          obind (on_peers (mark_connected address now)) (\<lambda>_. oreturn ())) sv'
      | (Inl e, sv') \<Rightarrow> (Inl e, sv')
      | (Inr _, sv') \<Rightarrow> (Inr (), sv'))"

definition session_for :: "crypto \<Rightarrow> py_runtime \<Rightarrow> pystr \<Rightarrow> int \<Rightarrow> peer_session service_op" where
  "session_for C R address now =
     obind (oeval (\<lambda>sv. Inr (map_of (sv_sessions sv) address))) (\<lambda>s.
     case s of
       Some session \<Rightarrow> oreturn session
     | None \<Rightarrow> obind (reconnect R address now) (\<lambda>_. open_session C address))"

definition penalize_peer :: "pystr \<Rightarrow> int \<Rightarrow> int \<Rightarrow> bool service_op" where
  "penalize_peer address score now =
     obind (on_peers (report_misbehavior address score now)) (\<lambda>r.
     if \<not> is_banned r then oreturn False
     else
       obind (omodify (\<lambda>sv. sv\<lparr>sv_sessions := AList.delete address (sv_sessions sv)\<rparr>)) (\<lambda>_.
       obind (clear_peer_downloads address True) (\<lambda>_. oreturn True)))"

section \<open>Block downloads\<close>

definition should_request_block :: "node_service \<Rightarrow> pystr \<Rightarrow> bool" where
  "should_request_block sv h \<longleftrightarrow>
     map_of (sv_blocks sv) h = None \<and> map_of (sv_in_flight sv) h = None \<and> \<not> has_block (nd_store (sv_node sv)) h"

primrec expire_loop :: "block_download list \<Rightarrow> unit service_op" where
  "expire_loop [] = oreturn ()"
| "expire_loop (d # ds) =
     obind (omodify (\<lambda>sv. sv\<lparr>sv_in_flight := AList.delete (bd_block_hash d) (sv_in_flight sv)\<rparr>)) (\<lambda>_.
     obind (record_progress (bd_peer d) (\<lambda>p. p\<lparr>timed_out_blocks := timed_out_blocks p + 1\<rparr>)) (\<lambda>_.
     expire_loop ds))"

definition expire_block_downloads :: "int \<Rightarrow> block_download list service_op" where
  "expire_block_downloads now =
     obind (oeval (\<lambda>sv. Inr (filter (\<lambda>d. now - bd_requested_at d \<ge> sv_block_download_timeout sv)
                                    (map snd (sv_in_flight sv))))) (\<lambda>expired.
     obind (expire_loop expired) (\<lambda>_. oreturn expired))"

type_synonym peer_rank = "int \<times> int \<times> int \<times> bool \<times> pystr"

text \<open>The keys of \<^verbatim>\<open>min\<close>, computed for each candidate in turn; looking at progress may load it.\<close>

primrec rank_peers :: "pystr \<Rightarrow> pystr list \<Rightarrow> (peer_rank \<times> pystr) list service_op" where
  "rank_peers source [] = oreturn []"
| "rank_peers source (a # as) =
     obind (oeval (\<lambda>sv. Inr (in_flight_count sv a))) (\<lambda>n.
     obind (progress_for a) (\<lambda>p.
     obind (oeval (\<lambda>sv. get_peer (sv_peers sv) a)) (\<lambda>r.
     obind (rank_peers source as) (\<lambda>ks.
     oreturn (((n, quality_score p, pr_misbehavior_score r, a \<noteq> source, a), a) # ks)))))"

definition download_candidates :: "node_service \<Rightarrow> pystr \<Rightarrow> pystr \<Rightarrow> pystr option \<Rightarrow> pystr list" where
  "download_candidates sv source h avoid =
     (let candidates = map fst (filter (\<lambda>(a, s). a = source \<or> (ascii ''block_header'', h) \<in> se_known_inventory s)
                                       (sv_sessions sv));
          alternatives = filter (\<lambda>a. Some a \<noteq> avoid) candidates
      in if alternatives \<noteq> [] then alternatives else candidates)"

definition select_block_download_peer :: "pystr \<Rightarrow> pystr \<Rightarrow> pystr option \<Rightarrow> pystr option service_op" where
  "select_block_download_peer source h avoid =
     obind (oeval (\<lambda>sv. Inr (download_candidates sv source h avoid))) (\<lambda>candidates.
     if candidates = [] then oreturn (Some source)
     else
       obind (oeval (\<lambda>sv. Inr (filter (\<lambda>a. in_flight_count sv a < sv_max_block_downloads_per_peer sv) candidates))) (\<lambda>below.
       if below = [] then oreturn None
       else obind (rank_peers source below) (\<lambda>ks. oreturn (Some (snd (hd (sort_key fst ks)))))))"

text \<open>\<^verbatim>\<open>items[start : start + batch]\<close> for \<^verbatim>\<open>start\<close> in steps of the batch size, which is positive.\<close>

function chunk_inventory :: "nat \<Rightarrow> 'a list \<Rightarrow> 'a list list" where
  "chunk_inventory n items =
     (if items = [] then [] else if n = 0 then [] else take n items # chunk_inventory n (drop n items))"
  by pat_completeness auto

termination
  by (relation "measure (\<lambda>(n, items). length items)") auto

declare chunk_inventory.simps [simp del]

type_synonym requests = "(pystr, inventory_vector list) dict"

definition add_request :: "pystr \<Rightarrow> inventory_vector \<Rightarrow> requests \<Rightarrow> requests" where
  "add_request peer item rs =
     AList.update peer ((case map_of rs peer of None \<Rightarrow> [] | Some items \<Rightarrow> items) @ [item]) rs"

text \<open>The body of the two request loops: one block hash, the peer that offered it, and whom to avoid.\<close>

definition request_block :: "pystr \<Rightarrow> pystr \<Rightarrow> pystr option \<Rightarrow> int \<Rightarrow> requests \<Rightarrow> requests service_op" where
  "request_block source h avoid now rs =
     obind (oeval (\<lambda>sv. Inr (should_request_block sv h))) (\<lambda>wanted.
     if \<not> wanted then oreturn rs
     else
       obind (select_block_download_peer source h avoid) (\<lambda>peer.
       case peer of
         None \<Rightarrow> oreturn rs
       | Some p \<Rightarrow>
           obind (omodify (\<lambda>sv. sv\<lparr>sv_in_flight := AList.update h
                    \<lparr>bd_block_hash = h, bd_peer = p, bd_requested_at = now\<rparr> (sv_in_flight sv)\<rparr>)) (\<lambda>_.
           obind (record_progress p (\<lambda>q. q\<lparr>requested_blocks := requested_blocks q + 1\<rparr>)) (\<lambda>_.
           oreturn (add_request p \<lparr>iv_kind = ascii ''block'', iv_hash = h\<rparr> rs)))))"

primrec request_headers :: "crypto \<Rightarrow> pystr \<Rightarrow> int \<Rightarrow> block_header list \<Rightarrow> requests \<Rightarrow> requests service_op" where
  "request_headers C address now [] rs = oreturn rs"
| "request_headers C address now (header # hs) rs =
     obind (oeval (\<lambda>_. header_hash C header)) (\<lambda>h.
     obind (request_block address h None now rs) (\<lambda>rs'. request_headers C address now hs rs'))"

primrec request_again :: "int \<Rightarrow> block_download list \<Rightarrow> requests \<Rightarrow> requests service_op" where
  "request_again now [] rs = oreturn rs"
| "request_again now (d # ds) rs =
     obind (request_block (bd_peer d) (bd_block_hash d) (Some (bd_peer d)) now rs) (\<lambda>rs'. request_again now ds rs')"

definition request_messages :: "int \<Rightarrow> requests \<Rightarrow> (pystr, peer_message list) dict result" where
  "request_messages batch rs =
     rmap (\<lambda>(peer, items). rbind (rmap (inventory_message GETDATA) (chunk_inventory (nat batch) items))
       (\<lambda>ms. Inr (peer, ms))) rs"

definition retry_expired_block_downloads :: "int \<Rightarrow> (pystr, peer_message list) dict service_op" where
  "retry_expired_block_downloads now =
     obind (expire_block_downloads now) (\<lambda>expired.
     obind (request_again now expired []) (\<lambda>rs.
     oeval (\<lambda>sv. request_messages (sv_max_block_download_batch sv) rs)))"

section \<open>Message handlers\<close>

definition service_payload :: "peer_message \<Rightarrow> (pystr, json) dict service_op" where
  "service_payload m = oeval (\<lambda>_. payload_dict (msg_payload m))"

definition announce_one :: "string \<Rightarrow> pystr \<Rightarrow> peer_message list result" where
  "announce_one kind h =
     rbind (inventory_message INV [\<lparr>iv_kind = ascii kind, iv_hash = h\<rparr>]) (\<lambda>m. Inr [m])"

definition handle_transaction :: "crypto \<Rightarrow> (pystr, json) dict \<Rightarrow> peer_message list service_op" where
  "handle_transaction C d =
     obind (oeval (\<lambda>_. transaction_from_payload d)) (\<lambda>tx.
     obind (oeval (\<lambda>_. txid C tx)) (\<lambda>t.
     obind (oeval (\<lambda>sv. Inr (map_of (sv_transactions sv) t \<noteq> None))) (\<lambda>known.
     if known then oreturn []
     else
       obind (on_node (submit_transaction C tx)) (\<lambda>_.
       obind (omodify (\<lambda>sv. sv\<lparr>sv_transactions := AList.update t tx (sv_transactions sv)\<rparr>)) (\<lambda>_.
       oeval (\<lambda>_. announce_one ''tx'' t))))))"

primrec index_transactions :: "crypto \<Rightarrow> consensus_transaction list \<Rightarrow> unit service_op" where
  "index_transactions C [] = oreturn ()"
| "index_transactions C (tx # txs) =
     obind (oeval (\<lambda>_. txid C tx)) (\<lambda>t.
     obind (omodify (\<lambda>sv. sv\<lparr>sv_transactions := AList.update t tx (sv_transactions sv)\<rparr>)) (\<lambda>_.
     index_transactions C txs))"

definition finish_download :: "pystr \<Rightarrow> unit service_op" where
  "finish_download h =
     obind (oeval (\<lambda>sv. Inr (map_of (sv_in_flight sv) h))) (\<lambda>download.
     obind (omodify (\<lambda>sv. sv\<lparr>sv_in_flight := AList.delete h (sv_in_flight sv)\<rparr>)) (\<lambda>_.
     case download of
       None \<Rightarrow> oreturn ()
     | Some d \<Rightarrow> record_progress (bd_peer d) (\<lambda>p. p\<lparr>completed_blocks := completed_blocks p + 1\<rparr>)))"

definition handle_block :: "crypto \<Rightarrow> (exn \<Rightarrow> pystr) \<Rightarrow> (pystr, json) dict \<Rightarrow> peer_message list service_op" where
  "handle_block C rt d =
     obind (oeval (\<lambda>_. block_from_payload C d)) (\<lambda>b.
     obind (oeval (\<lambda>_. block_hash C b)) (\<lambda>h.
     obind (oeval (\<lambda>sv. Inr (map_of (sv_blocks sv) h \<noteq> None))) (\<lambda>known.
     if known then oreturn []
     else
       obind (on_node (import_block C rt b)) (\<lambda>_.
       obind (omodify (\<lambda>sv. sv\<lparr>sv_blocks := AList.update h b (sv_blocks sv)\<rparr>)) (\<lambda>_.
       obind (finish_download h) (\<lambda>_.
       obind (index_transactions C (blk_transactions b)) (\<lambda>_.
       oeval (\<lambda>_. announce_one ''block'' h))))))))"

primrec getdata_responses :: "py_runtime \<Rightarrow> json list \<Rightarrow> node_service \<Rightarrow> peer_message list result" where
  "getdata_responses R [] sv = Inr []"
| "getdata_responses R (raw # raws) sv =
     rbind (iv_from_value R raw) (\<lambda>item.
     rbind (if iv_kind item = ascii ''tx'' then
              (case map_of (sv_transactions sv) (iv_hash item) of
                 Some tx \<Rightarrow> transaction_message tx
               | None \<Rightarrow> service_error ''requested inventory is unknown'')
            else if iv_kind item = ascii ''block'' then
              (case map_of (sv_blocks sv) (iv_hash item) of
                 Some b \<Rightarrow> block_message b
               | None \<Rightarrow> service_error ''requested inventory is unknown'')
            else service_error ''requested inventory is unknown'') (\<lambda>m.
     rbind (getdata_responses R raws sv) (\<lambda>ms. Inr (m # ms))))"

definition handle_getdata :: "py_runtime \<Rightarrow> (pystr, json) dict \<Rightarrow> peer_message list service_op" where
  "handle_getdata R d =
     obind (oeval (\<lambda>_. rbind (py_getitem d ''items'') py_items)) (\<lambda>raws. oeval (getdata_responses R raws))"

text \<open>
  \<^verbatim>\<open>_handle_getheaders\<close>: the position behind the first known locator, then headers up to the stop hash
  or the limit, whichever comes first; the header that reaches either is included.
\<close>

definition locator_start :: "pystr list \<Rightarrow> pystr list \<Rightarrow> nat" where
  "locator_start hashes locator =
     (case find (\<lambda>h. h \<in> set hashes) locator of
        None \<Rightarrow> 0
      | Some h \<Rightarrow> Suc (the (map_of (rev (zip hashes [0..<length hashes])) h)))"

fun collect_headers :: "json \<Rightarrow> int \<Rightarrow> nat \<Rightarrow> (pystr \<times> stored_block) list \<Rightarrow> block_header list" where
  "collect_headers stop_hash limit n [] = []"
| "collect_headers stop_hash limit n ((h, sb) # rest) =
     header_of_block (sb_block sb) #
     (if JStr h = stop_hash \<or> int (Suc n) \<ge> limit then [] else collect_headers stop_hash limit (Suc n) rest)"

definition handle_getheaders :: "crypto \<Rightarrow> py_runtime \<Rightarrow> (pystr, json) dict \<Rightarrow> peer_message service_op" where
  "handle_getheaders C R d =
     oeval (\<lambda>sv.
       rbind (stored_active_chain C (nd_store (sv_node sv))) (\<lambda>chain.
       rbind (rbind (py_getitem d ''locator'') py_items) (\<lambda>locator.
       rbind (rbind (py_getitem d ''limit'') (py_int R)) (\<lambda>limit.
       rbind (rmap (\<lambda>sb. block_hash C (sb_block sb)) chain) (\<lambda>hashes.
         headers_message C R
           (collect_headers (py_get d ''stop_hash'') limit 0
             (drop (locator_start hashes (map (py_str R) locator)) (zip hashes chain))))))))"

definition handle_headers :: "crypto \<Rightarrow> py_runtime \<Rightarrow> pystr \<Rightarrow> (pystr, json) dict \<Rightarrow> int \<Rightarrow>
    (pystr, peer_message list) dict service_op" where
  "handle_headers C R address d now =
     obind (expire_block_downloads now) (\<lambda>_.
     obind (oeval (\<lambda>_. headers_from_payload C R d)) (\<lambda>headers.
     obind (oeval (\<lambda>sv.
       if headers = [] then Inr ()
       else
         rbind (tip_hash C (sv_node sv)) (\<lambda>tip.
         if bh_previous_hash (hd headers) \<noteq> tip \<and> \<not> has_block (nd_store (sv_node sv)) (bh_previous_hash (hd headers))
         then service_error ''headers do not connect to a known block'' else Inr ()))) (\<lambda>_.
     obind (request_headers C address now headers []) (\<lambda>rs.
     oeval (\<lambda>sv. request_messages (sv_max_block_download_batch sv) rs)))))"

section \<open>Receiving\<close>

text \<open>What a handler adds to the result: direct answers, messages for other peers, and relayed ones.\<close>

type_synonym routed = "peer_message list \<times> (pystr, peer_message list) dict \<times> peer_message list"

definition route_targeted :: "pystr \<Rightarrow> (pystr, peer_message list) dict \<Rightarrow> routed" where
  "route_targeted address targeted =
     (concat (map snd (filter (\<lambda>(p, _). p = address) targeted)), filter (\<lambda>(p, _). p \<noteq> address) targeted, [])"

definition route :: "crypto \<Rightarrow> py_runtime \<Rightarrow> (exn \<Rightarrow> pystr) \<Rightarrow> pystr \<Rightarrow> peer_message \<Rightarrow> int \<Rightarrow> routed service_op" where
  "route C R rt address m now =
     (case msg_type m of
        TX \<Rightarrow> obind (service_payload m) (\<lambda>d. obind (handle_transaction C d) (\<lambda>ms. oreturn ([], [], ms)))
      | BLOCK \<Rightarrow> obind (service_payload m) (\<lambda>d. obind (handle_block C rt d) (\<lambda>ms. oreturn ([], [], ms)))
      | GETDATA \<Rightarrow> obind (service_payload m) (\<lambda>d. obind (handle_getdata R d) (\<lambda>ms. oreturn (ms, [], [])))
      | GETHEADERS \<Rightarrow> obind (service_payload m) (\<lambda>d. obind (handle_getheaders C R d) (\<lambda>r. oreturn ([r], [], [])))
      | HEADERS \<Rightarrow> obind (service_payload m) (\<lambda>d.
          obind (handle_headers C R address d now) (\<lambda>targeted. oreturn (route_targeted address targeted)))
      | _ \<Rightarrow> oreturn ([], [], []))"

definition is_payload_error :: "exn \<Rightarrow> bool" where
  "is_payload_error e =
     (case e of ConsensusError _ \<Rightarrow> True | ConsensusNodeError _ \<Rightarrow> True | NodeServiceError _ \<Rightarrow> True | _ \<Rightarrow> False)"

definition is_reject :: "peer_message list \<Rightarrow> bool" where
  "is_reject ms = (case ms of [] \<Rightarrow> False | m # _ \<Rightarrow> msg_type m = REJECT)"

text \<open>The second \<^verbatim>\<open>try\<close> of \<^verbatim>\<open>receive\<close>, after the session accepted the message and answered \<open>direct\<close>.\<close>

definition route_result :: "crypto \<Rightarrow> py_runtime \<Rightarrow> (exn \<Rightarrow> pystr) \<Rightarrow> pystr \<Rightarrow> peer_message \<Rightarrow> int \<Rightarrow>
    peer_message list \<Rightarrow> service_result service_op" where
  "route_result C R rt address m now direct sv =
     (case route C R rt address m now sv of
        (Inr (answers, direct_to, relay), sv') \<Rightarrow>
          (Inr \<lparr>sr_direct = direct @ answers, sr_direct_to = direct_to, sr_relay = relay, sr_disconnect = False\<rparr>, sv')
      | (Inl e, sv') \<Rightarrow>
          (case e of
             MempoolPolicyError _ \<Rightarrow> (Inr (service_result_of (direct @ [reject_message ''policy rejected'']) []), sv')
           | _ \<Rightarrow>
               if is_payload_error e
               then obind (penalize_peer address 10 now) (\<lambda>disconnect.
                      oreturn \<lparr>sr_direct = direct @ [reject_message ''invalid payload''], sr_direct_to = [],
                               sr_relay = [], sr_disconnect = disconnect\<rparr>) sv'
               else (Inl e, sv')))"

definition banned_result :: service_result where
  "banned_result =
     \<lparr>sr_direct = [reject_message ''peer banned''], sr_direct_to = [], sr_relay = [], sr_disconnect = True\<rparr>"

definition service_receive ::
  "crypto \<Rightarrow> py_runtime \<Rightarrow> (exn \<Rightarrow> pystr) \<Rightarrow> pystr \<Rightarrow> peer_message \<Rightarrow> int \<Rightarrow> service_result service_op" where
  "service_receive C R rt address m now sv =
     (case session_for C R address now sv of
        (Inl (PeerManagerError _), sv') \<Rightarrow> (Inr banned_result, sv')
      | (Inl e, sv') \<Rightarrow> (Inl e, sv')
      | (Inr session, sv') \<Rightarrow>
          obind (on_session address session (session_receive C R m)) (\<lambda>direct.
          if is_reject direct
          then obind (penalize_peer address 10 now) (\<lambda>disconnect.
                 oreturn \<lparr>sr_direct = direct, sr_direct_to = [], sr_relay = [], sr_disconnect = disconnect\<rparr>)
          else route_result C R rt address m now direct) sv')"

section \<open>Local operations\<close>

definition submit_local_transaction :: "crypto \<Rightarrow> consensus_transaction \<Rightarrow> service_result service_op" where
  "submit_local_transaction C tx =
     obind (on_node (submit_transaction C tx)) (\<lambda>t.
     obind (omodify (\<lambda>sv. sv\<lparr>sv_transactions := AList.update t tx (sv_transactions sv)\<rparr>)) (\<lambda>_.
     obind (oeval (\<lambda>_. announce_one ''tx'' t)) (\<lambda>relay. oreturn (service_result_of [] relay))))"

definition mine_local_block :: "crypto \<Rightarrow> (exn \<Rightarrow> pystr) \<Rightarrow> pystr \<Rightarrow> 64 word \<Rightarrow> service_result service_op" where
  "mine_local_block C rt miner_address clock =
     obind (on_node (mine_block C rt miner_address clock)) (\<lambda>stored.
     obind (oeval (\<lambda>_. block_hash C (sb_block stored))) (\<lambda>h.
     obind (omodify (\<lambda>sv. sv\<lparr>sv_blocks := AList.update h (sb_block stored) (sv_blocks sv)\<rparr>)) (\<lambda>_.
     obind (index_transactions C (blk_transactions (sb_block stored))) (\<lambda>_.
     obind (oeval (\<lambda>_. announce_one ''block'' h)) (\<lambda>relay. oreturn (service_result_of [] relay))))))"

end
