(* ===== verification/Transport.thy ===== *)
theory Transport
  imports Service Connection_Buffer
begin

text \<open>
  \<^verbatim>\<open>transport.py\<close> above \<^verbatim>\<open>ConnectionBuffer\<close>: the TCP server adapter, its connection handler and the client.

  Sockets are objects that the handler and the table of connections share: they live in a store, and
  the table and the handlers hold their numbers. A socket remembers what was sent on it; on a broken
  one \<^verbatim>\<open>sendall\<close> raises. What \<^verbatim>\<open>recv\<close> returns is an argument. Here a call of a handler runs to its
  end; \<open>Handler_Threads\<close> runs it as a thread among others.
\<close>

section \<open>Sockets\<close>

record socket =
  so_sent :: "bytes list"
  so_broken :: bool

definition socket_sendall :: "bytes \<Rightarrow> (socket, unit) op" where
  "socket_sendall data s = (if so_broken s then (Inl OSError, s) else (Inr (), s\<lparr>so_sent := so_sent s @ [data]\<rparr>))"

definition is_os_error :: "exn \<Rightarrow> bool" where
  "is_os_error e \<longleftrightarrow> e = OSError \<or> e = ConnectionResetError"

definition is_network_error :: "exn \<Rightarrow> bool" where
  "is_network_error e = (case e of NetworkError _ \<Rightarrow> True | _ \<Rightarrow> False)"

definition is_peer_manager_error :: "exn \<Rightarrow> bool" where
  "is_peer_manager_error e = (case e of PeerManagerError _ \<Rightarrow> True | _ \<Rightarrow> False)"

section \<open>The server adapter\<close>

text \<open>\<open>ta_thread\<close> is \<open>None\<close> before the first start, then whether the thread is alive.\<close>

record tcp_adapter =
  ta_service :: node_service
  ta_auth_key :: bytes
  ta_thread :: "bool option"
  ta_closed :: bool
  ta_connections :: "(pystr, nat) dict"
  ta_sockets :: "nat \<Rightarrow> socket"

type_synonym 'a adapter_op = "(tcp_adapter, 'a) op"

abbreviation transport_error :: "string \<Rightarrow> 'a result" where
  "transport_error s \<equiv> Inl (TransportError (ascii s))"

text \<open>\<^verbatim>\<open>__init__\<close>; \<open>bind\<close> is the outcome of binding the listening socket.\<close>

definition new_adapter :: "unit result \<Rightarrow> node_service \<Rightarrow> bytes \<Rightarrow> tcp_adapter result" where
  "new_adapter bind service auth_key =
     (if auth_key = [] then transport_error ''peer auth key is required''
      else rbind bind (\<lambda>_. Inr \<lparr>ta_service = service, ta_auth_key = auth_key, ta_thread = None, ta_closed = False,
              ta_connections = [], ta_sockets = (\<lambda>_. \<lparr>so_sent = [], so_broken = False\<rparr>)\<rparr>))"

text \<open>A thread that serves a closed socket ends at once.\<close>

definition adapter_start :: "unit adapter_op" where
  "adapter_start =
     obind (oeval (\<lambda>ta. if ta_thread ta = Some True then transport_error ''server is already running'' else Inr ())) (\<lambda>_.
     omodify (\<lambda>ta. ta\<lparr>ta_thread := Some (\<not> ta_closed ta)\<rparr>))"

definition adapter_stop :: "unit adapter_op" where
  "adapter_stop =
     omodify (\<lambda>ta. if ta_thread ta = None then ta\<lparr>ta_closed := True\<rparr>
                   else ta\<lparr>ta_thread := Some False, ta_closed := True\<rparr>)"

definition register_connection :: "pystr \<Rightarrow> nat \<Rightarrow> tcp_adapter \<Rightarrow> tcp_adapter" where
  "register_connection address i ta = ta\<lparr>ta_connections := AList.update address i (ta_connections ta)\<rparr>"

definition unregister_connection :: "pystr \<Rightarrow> tcp_adapter \<Rightarrow> tcp_adapter" where
  "unregister_connection address ta = ta\<lparr>ta_connections := AList.delete address (ta_connections ta)\<rparr>"

definition on_service :: "'a service_op \<Rightarrow> 'a adapter_op" where
  "on_service f ta = (let (r, sv) = f (ta_service ta) in (r, ta\<lparr>ta_service := sv\<rparr>))"

definition adapter_sendall :: "nat \<Rightarrow> bytes \<Rightarrow> unit adapter_op" where
  "adapter_sendall i data ta =
     (let (r, s) = socket_sendall data (ta_sockets ta i) in (r, ta\<lparr>ta_sockets := (ta_sockets ta)(i := s)\<rparr>))"

text \<open>\<^verbatim>\<open>for message in messages: connection.sendall(message.to_frame(self.auth_key))\<close>.\<close>

primrec send_messages :: "crypto \<Rightarrow> nat \<Rightarrow> peer_message list \<Rightarrow> unit adapter_op" where
  "send_messages C i [] = oreturn ()"
| "send_messages C i (m # ms) =
     obind (oeval (\<lambda>ta. to_frame C m (ta_auth_key ta))) (\<lambda>f.
     obind (adapter_sendall i f) (\<lambda>_. send_messages C i ms))"

primrec broadcast_loop :: "crypto \<Rightarrow> peer_message list \<Rightarrow> (pystr \<times> nat) list \<Rightarrow> pystr list \<Rightarrow> pystr list adapter_op" where
  "broadcast_loop C messages [] stale = oreturn stale"
| "broadcast_loop C messages (p # ps) stale = (\<lambda>ta.
     case send_messages C (snd p) messages ta of
       (Inl e, ta') \<Rightarrow> if is_os_error e then broadcast_loop C messages ps (stale @ [fst p]) ta' else (Inl e, ta')
     | (Inr _, ta') \<Rightarrow> broadcast_loop C messages ps stale ta')"

definition broadcast :: "crypto \<Rightarrow> peer_message list \<Rightarrow> pystr option \<Rightarrow> unit adapter_op" where
  "broadcast C messages exclude =
     (if messages = [] then oreturn ()
      else
        obind (oeval (\<lambda>ta. Inr (filter (\<lambda>p. Some (fst p) \<noteq> exclude) (ta_connections ta)))) (\<lambda>recipients.
        obind (broadcast_loop C messages recipients []) (\<lambda>stale.
        omodify (fold unregister_connection stale))))"

definition send_to :: "crypto \<Rightarrow> pystr \<Rightarrow> peer_message list \<Rightarrow> unit adapter_op" where
  "send_to C address messages ta =
     (if messages = [] then (Inr (), ta)
      else case map_of (ta_connections ta) address of
        None \<Rightarrow> (Inr (), ta)
      | Some i \<Rightarrow>
          (case send_messages C i messages ta of
             (Inl e, ta') \<Rightarrow> if is_os_error e then (Inr (), unregister_connection address ta') else (Inl e, ta')
           | (Inr _, ta') \<Rightarrow> (Inr (), ta')))"

primrec send_to_all :: "crypto \<Rightarrow> (pystr, peer_message list) dict \<Rightarrow> unit adapter_op" where
  "send_to_all C [] = oreturn ()"
| "send_to_all C (p # ps) = obind (send_to C (fst p) (snd p)) (\<lambda>_. send_to_all C ps)"

section \<open>The connection handler\<close>

text \<open>
  \<^verbatim>\<open>NodeTCPHandler.handle\<close>. One message; the result tells whether the handler returns. The service is
  called without a time, which is 0 by default.
\<close>

definition handle_message :: "crypto \<Rightarrow> py_runtime \<Rightarrow> (exn \<Rightarrow> pystr) \<Rightarrow> pystr \<Rightarrow> nat \<Rightarrow> peer_message \<Rightarrow> bool adapter_op" where
  "handle_message C R rt address i m =
     obind (on_service (service_receive C R rt address m 0)) (\<lambda>result.
     obind (send_messages C i (sr_direct result)) (\<lambda>_.
     obind (send_to_all C (sr_direct_to result)) (\<lambda>_.
     obind (broadcast C (sr_relay result) (Some address)) (\<lambda>_.
     oreturn (sr_disconnect result)))))"

primrec handle_messages :: "crypto \<Rightarrow> py_runtime \<Rightarrow> (exn \<Rightarrow> pystr) \<Rightarrow> pystr \<Rightarrow> nat \<Rightarrow> peer_message list \<Rightarrow> bool adapter_op" where
  "handle_messages C R rt address i [] = oreturn False"
| "handle_messages C R rt address i (m # ms) =
     obind (handle_message C R rt address i m) (\<lambda>stop.
     if stop then oreturn True else handle_messages C R rt address i ms)"

text \<open>The loop over the outcomes of \<^verbatim>\<open>recv\<close>; after the last one the peer has closed the connection.\<close>

primrec handle_loop :: "crypto \<Rightarrow> py_runtime \<Rightarrow> (exn \<Rightarrow> pystr) \<Rightarrow> pystr \<Rightarrow> nat \<Rightarrow> bytes result list \<Rightarrow> connection_buffer \<Rightarrow>
    unit adapter_op" where
  "handle_loop C R rt address i [] buffer = oreturn ()"
| "handle_loop C R rt address i (received # rest) buffer =
     (case received of
        Inl e \<Rightarrow> oeval (\<lambda>_. Inl e)
      | Inr chunk \<Rightarrow>
          if chunk = [] then oreturn ()
          else
            (case feed C R chunk buffer of
               (Inl e, buffer') \<Rightarrow> if is_network_error e then oreturn () else oeval (\<lambda>_. Inl e)
             | (Inr messages, buffer') \<Rightarrow>
                 obind (handle_messages C R rt address i messages) (\<lambda>stop.
                 if stop then oreturn () else handle_loop C R rt address i rest buffer')))"

definition handle :: "crypto \<Rightarrow> py_runtime \<Rightarrow> (exn \<Rightarrow> pystr) \<Rightarrow> pystr \<Rightarrow> nat \<Rightarrow> bytes result list \<Rightarrow> unit adapter_op" where
  "handle C R rt address i received ta =
     (case on_service (accept_inbound_peer C R address 0) ta of
        (Inl e, ta1) \<Rightarrow> if is_peer_manager_error e then (Inr (), ta1) else (Inl e, ta1)
      | (Inr _, ta1) \<Rightarrow>
          let (r, ta2) = handle_loop C R rt address i received \<lparr>cb_auth_key = ta_auth_key ta, cb_data = []\<rparr>
                           (register_connection address i ta1)
          in (r, unregister_connection address ta2))"

section \<open>The client\<close>

record tcp_client =
  tc_host :: pystr
  tc_port :: int
  tc_auth_key :: bytes
  tc_socket :: "socket option"
  tc_buffer :: connection_buffer

type_synonym 'a client_op = "(tcp_client, 'a) op"

definition new_client :: "pystr \<Rightarrow> int \<Rightarrow> bytes \<Rightarrow> tcp_client result" where
  "new_client host port auth_key =
     (if auth_key = [] then transport_error ''peer auth key is required''
      else Inr \<lparr>tc_host = host, tc_port = port, tc_auth_key = auth_key, tc_socket = None,
                tc_buffer = \<lparr>cb_auth_key = auth_key, cb_data = []\<rparr>\<rparr>)"

text \<open>\<open>factory\<close> is what the socket factory makes of host and port.\<close>

definition client_connect :: "(pystr \<Rightarrow> int \<Rightarrow> socket result) \<Rightarrow> unit client_op" where
  "client_connect factory =
     obind (oeval (\<lambda>c. if tc_socket c \<noteq> None then transport_error ''client is already connected''
                       else factory (tc_host c) (tc_port c))) (\<lambda>s.
     omodify (\<lambda>c. c\<lparr>tc_socket := Some s\<rparr>))"

definition client_close :: "unit client_op" where
  "client_close = omodify (\<lambda>c. c\<lparr>tc_socket := None\<rparr>)"

definition connected_socket :: "tcp_client \<Rightarrow> socket result" where
  "connected_socket c =
     (case tc_socket c of None \<Rightarrow> transport_error ''client is not connected'' | Some s \<Rightarrow> Inr s)"

definition client_send :: "crypto \<Rightarrow> peer_message \<Rightarrow> unit client_op" where
  "client_send C m =
     obind (oeval connected_socket) (\<lambda>s.
     obind (oeval (\<lambda>c. to_frame C m (tc_auth_key c))) (\<lambda>f.
     \<lambda>c. let (r, s') = socket_sendall f s in (r, c\<lparr>tc_socket := Some s'\<rparr>)))"

definition on_buffer :: "(connection_buffer, 'a) op \<Rightarrow> 'a client_op" where
  "on_buffer f c = (let (r, b) = f (tc_buffer c) in (r, c\<lparr>tc_buffer := b\<rparr>))"

definition recv_messages :: "crypto \<Rightarrow> py_runtime \<Rightarrow> bytes result \<Rightarrow> peer_message list client_op" where
  "recv_messages C R received =
     obind (oeval connected_socket) (\<lambda>_.
     case received of
       Inl e \<Rightarrow> if e = ConnectionResetError then obind client_close (\<lambda>_. oreturn []) else oeval (\<lambda>_. Inl e)
     | Inr chunk \<Rightarrow> if chunk = [] then oreturn [] else on_buffer (feed C R chunk))"

definition client_request :: "crypto \<Rightarrow> py_runtime \<Rightarrow> peer_message \<Rightarrow> bytes result \<Rightarrow> peer_message list client_op" where
  "client_request C R m received = obind (client_send C m) (\<lambda>_. recv_messages C R received)"

end
