(* ===== verification/Peer_Session_Laws.thy ===== *)
theory Peer_Session_Laws
  imports Peer_Session
begin

text \<open>
  Lemmas on the session state machine. What survives every handler is stated once, in the locale
  \<open>session_invariant\<close>, and used for the handshake flags and for the identity of the session.
\<close>

section \<open>Statements that keep a predicate\<close>

definition keeps :: "('s \<Rightarrow> bool) \<Rightarrow> ('s, 'a) op \<Rightarrow> bool" where
  "keeps P m \<longleftrightarrow> (\<forall>s. P s \<longrightarrow> P (snd (m s)))"

named_theorems keeping \<open>operations that keep a predicate of the state\<close>

lemma keepsD: "keeps P m \<Longrightarrow> P s \<Longrightarrow> m s = (r, s') \<Longrightarrow> P s'"
  unfolding keeps_def by (metis snd_conv)

lemma keeps_obind [keeping]: "keeps P m \<Longrightarrow> (\<And>x. keeps P (f x)) \<Longrightarrow> keeps P (obind m f)"
  by (simp add: keeps_def obind_def split: prod.split sum.split) (metis snd_conv)

lemma keeps_basic [keeping]: "keeps P (oreturn x)" "keeps P (oeval g)" "keeps P (Pair r)"
  by (simp_all add: keeps_def)

lemma keeps_omodify: "(\<And>s. P s \<Longrightarrow> P (f s)) \<Longrightarrow> keeps P (omodify f)"
  by (simp add: keeps_def)

lemma keeps_if [keeping]: "(b \<Longrightarrow> keeps P m) \<Longrightarrow> (\<not> b \<Longrightarrow> keeps P m') \<Longrightarrow> keeps P (if b then m else m')"
  by simp

text \<open>An operation that runs only in states where a check passed.\<close>

lemma keeps_guarded:
  assumes "\<And>s. P s \<Longrightarrow> Q s \<Longrightarrow> P (snd (m s))"
  shows "keeps P (obind (oeval (\<lambda>s. if \<not> Q s then Inl e else Inr ())) (\<lambda>_. m))"
  using assms by (simp add: keeps_def obind_def)

section \<open>Reachable sessions\<close>

inductive session_reach :: "crypto \<Rightarrow> py_runtime \<Rightarrow> peer_session \<Rightarrow> peer_session \<Rightarrow> bool" for C R where
  start: "session_reach C R s s"
| receive: "session_reach C R s t \<Longrightarrow> session_receive C R m t = (r, t') \<Longrightarrow> session_reach C R s t'"
| handshake: "session_reach C R s t \<Longrightarrow> start_handshake t = (r, t') \<Longrightarrow> session_reach C R s t'"
| verack: "session_reach C R s t \<Longrightarrow> send_verack t = (r, t') \<Longrightarrow> session_reach C R s t'"
| ping: "session_reach C R s t \<Longrightarrow> send_ping n t = (r, t') \<Longrightarrow> session_reach C R s t'"
| announce: "session_reach C R s t \<Longrightarrow> session_announce items t = (r, t') \<Longrightarrow> session_reach C R s t'"
| request: "session_reach C R s t \<Longrightarrow> session_request items t = (r, t') \<Longrightarrow> session_reach C R s t'"

locale session_invariant =
  fixes P :: "peer_session \<Rightarrow> bool"
  assumes known: "P s \<Longrightarrow> P (s\<lparr>se_known_inventory := K\<rparr>)"
    and requested: "P s \<Longrightarrow> P (s\<lparr>se_requested_inventory := K\<rparr>)"
    and pings: "P s \<Longrightarrow> P (s\<lparr>se_pending_pings := N\<rparr>)"
    and score: "P s \<Longrightarrow> P (s\<lparr>se_misbehavior_score := k\<rparr>)"
    and version_sent: "P s \<Longrightarrow> P (s\<lparr>se_version_sent := True\<rparr>)"
    and remote: "P s \<Longrightarrow> P (s\<lparr>se_remote_node_id := Some i\<rparr>)"
    and version_received: "P s \<Longrightarrow> se_remote_node_id s \<noteq> None \<Longrightarrow>
      P (s\<lparr>se_remote_height := h, se_version_received := True\<rparr>)"
    and verack_sent: "P s \<Longrightarrow> se_version_received s \<Longrightarrow> P (s\<lparr>se_verack_sent := True\<rparr>)"
    and verack_received: "P s \<Longrightarrow> se_version_sent s \<Longrightarrow> P (s\<lparr>se_verack_received := True\<rparr>)"
begin

lemma keeps_statements:
  "keeps P (know k)" "keeps P require_known_room" "keeps P add_misbehavior" "keeps P (session_request items)"
  "keeps P (session_announce items)" "keeps P start_handshake" "keeps P send_verack" "keeps P (send_ping n)"
  by (auto simp: keeps_def know_def require_known_room_def add_misbehavior_def session_request_def session_announce_def
      start_handshake_def send_verack_def send_ping_def obind_def known requested pings score version_sent verack_sent)

lemma keeps_inv_loop: "keeps P (inv_loop R raws wanted)"
  by (induction raws arbitrary: wanted) (auto intro!: keeping keeps_statements)

lemma keeps_getdata_loop: "keeps P (getdata_loop R raws)"
  by (induction raws) (auto intro!: keeping keeps_omodify requested)

lemma keeps_headers_loop: "keeps P (headers_loop C hs)"
  by (induction hs) (auto intro!: keeping keeps_statements)

lemma keeps_handle_version: "keeps P (handle_version R d)"
  by (auto simp: keeps_def handle_version_def obind_def start_handshake_def send_verack_def
      split: sum.split intro!: remote version_received version_sent verack_sent)

lemma keeps_dispatch: "keeps P (dispatch C R m)"
proof -
  have "keeps P (handle_verack)"
    unfolding handle_verack_def by (rule keeps_guarded) (simp add: obind_def verack_received)
  moreover have "keeps P (handle_reject)" "keeps P (handle_ping d)" "keeps P (handle_inv R d)" "keeps P (session_getdata R d)"
      "keeps P (session_getheaders R d)" "keeps P (session_headers C R d)" "keeps P (session_tx C d)"
      "keeps P (session_block C d)" "keeps P (handle_pong R d)" for d
    unfolding handle_reject_def handle_ping_def handle_inv_def session_getdata_def session_getheaders_def session_headers_def
      session_tx_def session_block_def handle_pong_def
    by (auto intro!: keeping keeps_statements keeps_inv_loop keeps_getdata_loop keeps_headers_loop keeps_omodify requested pings)
  ultimately show ?thesis
    unfolding dispatch_def by (auto intro!: keeping keeps_handle_version split: message_type.split)
qed

lemma keeps_receive: "keeps P (session_receive C R m)"
proof -
  have "keeps P (obind (oeval (\<lambda>_. validate_payload C R m)) (\<lambda>_. dispatch C R m))"
    by (intro keeping keeps_dispatch)
  moreover have "keeps P (obind add_misbehavior (\<lambda>_. oreturn [reject_message ''invalid message'']))"
    by (intro keeping keeps_statements)
  ultimately show ?thesis
    unfolding keeps_def session_receive_def by (auto split: prod.split sum.split)
qed

lemma reach_keeps: "session_reach C R s t \<Longrightarrow> P s \<Longrightarrow> P t"
  by (induction rule: session_reach.induct) (metis keepsD keeps_receive keeps_statements)+

end

text \<open>The order of the handshake, and what the code never changes.\<close>

definition session_ok :: "peer_session \<Rightarrow> bool" where
  "session_ok s \<longleftrightarrow> (se_verack_sent s \<longrightarrow> se_version_received s) \<and> (se_verack_received s \<longrightarrow> se_version_sent s) \<and>
     (se_version_received s \<longrightarrow> se_remote_node_id s \<noteq> None)"

definition session_is :: "pystr \<Rightarrow> pystr \<Rightarrow> int \<Rightarrow> peer_session \<Rightarrow> bool" where
  "session_is network node_id height s \<longleftrightarrow> se_network s = network \<and> se_node_id s = node_id \<and> se_height s = height"

interpretation handshake: session_invariant session_ok
  by unfold_locales (auto simp: session_ok_def)

interpretation identity: session_invariant "session_is network node_id height" for network node_id height
  by unfold_locales (auto simp: session_is_def)

section \<open>The handshake\<close>

lemma validate_version_message:
  "network \<noteq> [] \<Longrightarrow> node_id \<noteq> [] \<Longrightarrow> -1 \<le> height \<Longrightarrow>
     validate_payload C R (version_message network height node_id) = Inr ()"
  by (simp add: validate_payload_def version_message_def mk_message_def payload_dict_def validate_version_def
      py_get_def nonempty_text_def int_at_least_def as_int_def ascii_def)

lemma receive_version:
  assumes "network \<noteq> []" and "node_id \<noteq> []" and "-1 \<le> height" and "se_network s = network" and "se_node_id s \<noteq> node_id"
  shows "session_receive C R (version_message network height node_id) s =
    (Inr ((if se_version_sent s then [] else [version_message (se_network s) (se_height s) (se_node_id s)]) @
          (if se_verack_sent s then [] else [mk_message VERACK []])),
     s\<lparr>se_remote_node_id := Some node_id, se_remote_height := height, se_version_sent := True,
       se_version_received := True, se_verack_sent := True\<rparr>)"
proof -
  let ?d = "[(ascii ''network'', JStr network), (ascii ''height'', JInt height), (ascii ''node_id'', JStr node_id)]"
  have g: "py_getitem ?d ''network'' = Inr (JStr network)" "py_getitem ?d ''node_id'' = Inr (JStr node_id)"
      "py_getitem ?d ''height'' = Inr (JInt height)"
    by (simp_all add: py_getitem_def ascii_def)
  have "handle_version R ?d s =
    (Inr ((if se_version_sent s then [] else [version_message (se_network s) (se_height s) (se_node_id s)]) @
          (if se_verack_sent s then [] else [mk_message VERACK []])),
     s\<lparr>se_remote_node_id := Some node_id, se_remote_height := height, se_version_sent := True,
       se_version_received := True, se_verack_sent := True\<rparr>)"
    using assms(4,5)
    by (cases s) (auto simp: handle_version_def obind_def g py_str_def py_int_def start_handshake_def send_verack_def)
  moreover have "dispatch C R (version_message network height node_id) s = handle_version R ?d s"
    by (simp add: dispatch_def version_message_def mk_message_def payload_dict_def obind_def)
  ultimately show ?thesis
    using validate_version_message [OF assms(1-3)] by (simp add: session_receive_def obind_def)
qed

lemma receive_verack:
  assumes "se_version_sent s"
  shows "session_receive C R (mk_message VERACK []) s = (Inr [], s\<lparr>se_verack_received := True\<rparr>)"
  using assms by (simp add: session_receive_def obind_def validate_payload_def mk_message_def validate_empty_def truthy_def
      dispatch_def handle_verack_def)

text \<open>A peer that handles a list of messages in turn and collects its answers.\<close>

primrec receive_all :: "crypto \<Rightarrow> py_runtime \<Rightarrow> peer_message list \<Rightarrow> peer_message list session_op" where
  "receive_all C R [] = oreturn []"
| "receive_all C R (m # ms) =
     obind (session_receive C R m) (\<lambda>r. obind (receive_all C R ms) (\<lambda>rs. oreturn (r @ rs)))"

lemma handshake_exchange:
  fixes a b :: peer_session
  assumes "se_network a = se_network b" and "se_network a \<noteq> []" and "se_node_id a \<noteq> []" and "se_node_id b \<noteq> []"
    and "se_node_id a \<noteq> se_node_id b" and "-1 \<le> se_height a" and "-1 \<le> se_height b"
    and "\<not> se_version_sent b" and "\<not> se_verack_sent a" and "\<not> se_verack_sent b"
    and "start_handshake a = (Inr v, a1)"
  shows "\<exists>b1 a2 b2 replies acks.
    session_receive C R v b = (Inr replies, b1) \<and> receive_all C R replies a1 = (Inr acks, a2) \<and>
    receive_all C R acks b1 = (Inr [], b2) \<and> handshake_complete a2 \<and> handshake_complete b2 \<and>
    se_remote_node_id a2 = Some (se_node_id b) \<and> se_remote_node_id b2 = Some (se_node_id a) \<and>
    se_remote_height a2 = se_height b \<and> se_remote_height b2 = se_height a \<and>
    se_misbehavior_score a2 = se_misbehavior_score a \<and> se_misbehavior_score b2 = se_misbehavior_score b"
proof -
  have v: "v = version_message (se_network b) (se_height a) (se_node_id a)" "a1 = a\<lparr>se_version_sent := True\<rparr>"
    using assms(1,11) by (auto simp: start_handshake_def obind_def)
  let ?b1 = "b\<lparr>se_remote_node_id := Some (se_node_id a), se_remote_height := se_height a, se_version_sent := True,
       se_version_received := True, se_verack_sent := True\<rparr>"
  let ?vb = "version_message (se_network b) (se_height b) (se_node_id b)"
  have first: "session_receive C R v b = (Inr [?vb, mk_message VERACK []], ?b1)"
    unfolding v using assms by (subst receive_version) auto
  let ?a2 = "a1\<lparr>se_remote_node_id := Some (se_node_id b), se_remote_height := se_height b, se_version_sent := True,
       se_version_received := True, se_verack_sent := True\<rparr>"
  have second: "session_receive C R ?vb a1 = (Inr [mk_message VERACK []], ?a2)"
    using assms by (subst receive_version) (auto simp: v(2))
  have third: "session_receive C R (mk_message VERACK []) x = (Inr [], x\<lparr>se_verack_received := True\<rparr>)" if "se_version_sent x" for x
    using that by (rule receive_verack)
  have "receive_all C R [?vb, mk_message VERACK []] a1 = (Inr [mk_message VERACK []], ?a2\<lparr>se_verack_received := True\<rparr>)"
    by (simp add: obind_def second third)
  moreover have "receive_all C R [mk_message VERACK []] ?b1 = (Inr [], ?b1\<lparr>se_verack_received := True\<rparr>)"
    by (simp add: obind_def third)
  ultimately show ?thesis using first by (auto simp: handshake_complete_def v(2))
qed

section \<open>Inventory\<close>

abbreviation iv_key :: "inventory_vector \<Rightarrow> pystr \<times> pystr" where
  "iv_key i \<equiv> (iv_kind i, iv_hash i)"

text \<open>The items that are new, each once, in order.\<close>

primrec fresh_items :: "(pystr \<times> pystr) set \<Rightarrow> inventory_vector list \<Rightarrow> inventory_vector list" where
  "fresh_items K [] = []"
| "fresh_items K (i # is) =
     (if iv_key i \<in> K then fresh_items K is else i # fresh_items (insert (iv_key i) K) is)"

definition iv_ok :: "inventory_vector \<Rightarrow> bool" where
  "iv_ok i \<longleftrightarrow> iv_kind i \<in> {ascii ''tx'', ascii ''block''} \<and> is_hash (iv_hash i)"

lemma iv_from_dict_to_dict:
  assumes "iv_ok i"
  shows "iv_from_value R (iv_to_dict i) = Inr i" and "rbind (py_dict (iv_to_dict i)) (iv_from_dict R) = Inr i"
  using assms by (cases i; auto simp: iv_from_value_def iv_to_dict_def iv_from_dict_def py_getitem_def py_str_def py_dict_def
      iv_ok_def Let_def ascii_def)+

lemma fresh_items_spec:
  "iv_key ` set (fresh_items K is) = iv_key ` set is - K \<and> distinct (map iv_key (fresh_items K is))"
  by (induction "is" arbitrary: K) auto

lemma fresh_items_length: "length (fresh_items K is) \<le> length is"
  by (induction "is" arbitrary: K) (auto intro: le_SucI)

lemma inv_loop_fresh:
  assumes "list_all iv_ok is" and "finite (se_known_inventory s)"
    and "int (card (se_known_inventory s) + length (fresh_items (se_known_inventory s) is)) \<le> se_max_inventory_items s"
  shows "inv_loop R (map iv_to_dict is) wanted s =
    (Inr (wanted @ fresh_items (se_known_inventory s) is),
     s\<lparr>se_known_inventory := se_known_inventory s \<union> iv_key ` set is\<rparr>)"
  using assms
proof (induction "is" arbitrary: wanted s)
  case Nil
  then show ?case by simp
next
  case (Cons i "is")
  have i: "iv_from_value R (iv_to_dict i) = Inr i" using Cons.prems(1) by (simp add: iv_from_dict_to_dict)
  show ?case
  proof (cases "iv_key i \<in> se_known_inventory s")
    case True
    with Cons show ?thesis by (simp add: obind_def i insert_absorb Un_insert_left [symmetric] del: Un_insert_left)
  next
    case False
    let ?s = "s\<lparr>se_known_inventory := insert (iv_key i) (se_known_inventory s)\<rparr>"
    have "inv_loop R (map iv_to_dict is) (wanted @ [i]) ?s =
      (Inr ((wanted @ [i]) @ fresh_items (se_known_inventory ?s) is), ?s\<lparr>se_known_inventory := se_known_inventory ?s \<union> iv_key ` set is\<rparr>)"
      using Cons.prems False by (intro Cons.IH) auto
    with False Cons.prems(3) show ?thesis by (simp add: obind_def i require_known_room_def know_def)
  qed
qed

lemma receive_inv:
  assumes "list_all iv_ok is" and "length is \<le> 2000" and "finite (se_known_inventory s)"
    and "int (card (se_known_inventory s) + length (fresh_items (se_known_inventory s) is)) \<le> se_max_inventory_items s"
    and "inventory_message INV is = Inr m"
  defines "new \<equiv> fresh_items (se_known_inventory s) is"
  shows "session_receive C R m s =
    (Inr (if new = [] then [] else [mk_message GETDATA [(ascii ''items'', JList (map iv_to_dict new))]]),
     s\<lparr>se_known_inventory := se_known_inventory s \<union> iv_key ` set is,
       se_requested_inventory := se_requested_inventory s \<union> iv_key ` set new\<rparr>)"
proof -
  let ?d = "[(ascii ''items'', JList (map iv_to_dict is))]"
  have m: "m = mk_message INV ?d" using assms(5) by (simp add: inventory_message_def)
  have "rmap (\<lambda>item. rbind (py_dict item) (iv_from_dict R)) (map iv_to_dict is) = Inr is"
    using assms(1) by (induction "is") (auto simp: iv_from_dict_to_dict)
  then have "validate_payload C R m = Inr ()"
    using assms(2) by (simp add: m validate_payload_def mk_message_def payload_dict_def validate_inventory_def
        py_get_def MAX_INVENTORY_ITEMS_def)
  moreover have "dispatch C R m s = handle_inv R ?d s"
    by (simp add: dispatch_def m mk_message_def payload_dict_def obind_def)
  moreover have "handle_inv R ?d s =
    (Inr (if new = [] then [] else [mk_message GETDATA [(ascii ''items'', JList (map iv_to_dict new))]]),
     s\<lparr>se_known_inventory := se_known_inventory s \<union> iv_key ` set is,
       se_requested_inventory := se_requested_inventory s \<union> iv_key ` set new\<rparr>)"
    using inv_loop_fresh [OF assms(1,3,4)] unfolding new_def [symmetric]
    by (simp add: handle_inv_def obind_def py_getitem_def py_items_def session_request_def item_keys_def
        inventory_message_def)
  ultimately show ?thesis by (simp add: session_receive_def obind_def)
qed

end
