(* ===== verification/Service_Laws.thy ===== *)
theory Service_Laws
  imports Service Node_Laws Peer_Session_Laws Peers_Laws
begin

text \<open>
  Lemmas on the node service: which operations leave the node alone, that every message keeps the
  node invariant, the limits of block downloads, and what the answers contain.
\<close>

section \<open>Operations that do not touch the node or the address manager\<close>

definition core :: "node_service \<Rightarrow> consensus_node \<times> peer_manager" where
  "core sv = (sv_node sv, sv_peers sv)"

lemma core_node: "preserves core m \<Longrightarrow> preserves sv_node m"
  by (simp add: preserves_def core_def)

lemma core_peers: "preserves core m \<Longrightarrow> preserves sv_peers m"
  by (simp add: preserves_def core_def)

lemma preserves_service [preserving]:
  "preserves core (progress_for a)" "preserves core (store_progress a p)" "preserves core (on_session a s g)"
  by (simp_all add: preserves_def core_def progress_for_def store_progress_def on_session_def Let_def
      split: prod.split option.split)

lemma on_peers_preserves [preserving]: "preserves sv_node (on_peers f)"
  by (simp add: preserves_def on_peers_def split: prod.split)

lemma on_node_preserves [preserving]: "preserves sv_peers (on_node f)"
  by (simp add: preserves_def on_node_def split: prod.split)

lemma preserves_if [preserving]: "(b \<Longrightarrow> preserves v m) \<Longrightarrow> (\<not> b \<Longrightarrow> preserves v m') \<Longrightarrow> preserves v (if b then m else m')"
  by simp

lemma preserves_option [preserving]:
  "(x = None \<Longrightarrow> preserves v m) \<Longrightarrow> (\<And>y. x = Some y \<Longrightarrow> preserves v (f y)) \<Longrightarrow>
     preserves v (case x of None \<Rightarrow> m | Some y \<Rightarrow> f y)"
  by (simp split: option.split)

lemma preserves_Pair [preserving]: "preserves v (Pair r)"
  by (simp add: preserves_def)

lemma preserves_update [preserving]:
  "preserves core (omodify (\<lambda>sv. sv\<lparr>sv_in_flight := F sv\<rparr>))" "preserves core (omodify (\<lambda>sv. sv\<lparr>sv_transactions := T sv\<rparr>))"
  "preserves core (omodify (\<lambda>sv. sv\<lparr>sv_sessions := S sv\<rparr>))" "preserves core (omodify (\<lambda>sv. sv\<lparr>sv_peer_sync := Y sv\<rparr>))"
  "preserves core (omodify (\<lambda>sv. sv\<lparr>sv_blocks := B sv\<rparr>))"
  by (simp_all add: preserves_def core_def)

lemma progress_preserves [preserving]: "preserves core (record_progress a f)" "preserves core (clear_peer_downloads a b)"
  unfolding record_progress_def clear_peer_downloads_def by (intro preserving)+ (simp_all add: core_def record_progress_def, intro preserving)

lemma open_session_preserves [preserving]: "preserves core (open_session C a)"
  unfolding open_session_def by (intro preserving)

lemma expire_preserves [preserving]: "preserves core (expire_loop ds)" "preserves core (expire_block_downloads now)"
proof -
  show loop: "preserves core (expire_loop ds)" for ds
    by (induction ds) (simp_all only: expire_loop.simps, (intro preserving; assumption?)+)
  show "preserves core (expire_block_downloads now)"
    unfolding expire_block_downloads_def by (intro preserving loop)
qed

lemma rank_preserves [preserving]: "preserves core (rank_peers source as)"
  by (induction as) (simp_all only: rank_peers.simps, (intro preserving; assumption?)+)

lemma select_preserves [preserving]: "preserves core (select_block_download_peer source h avoid)"
  unfolding select_block_download_peer_def by (intro preserving)

lemma request_block_preserves [preserving]: "preserves core (request_block source h avoid now rs)"
  unfolding request_block_def by (intro preserving)

lemma request_loops_preserve [preserving]:
  "preserves core (request_headers C a now hs rs)" "preserves core (request_again now ds rs)"
proof -
  show "preserves core (request_headers C a now hs rs)"
    by (induction hs arbitrary: rs) (simp_all only: request_headers.simps, (intro preserving; assumption?)+)
  show "preserves core (request_again now ds rs)"
    by (induction ds arbitrary: rs) (simp_all only: request_again.simps, (intro preserving; assumption?)+)
qed

lemma index_preserves [preserving]: "preserves core (index_transactions C txs)"
  by (induction txs) (simp_all only: index_transactions.simps, (intro preserving; assumption?)+)

lemma finish_preserves [preserving]: "preserves core (finish_download h)"
  unfolding finish_download_def by (intro preserving)

lemma handlers_preserve [preserving]:
  "preserves core (handle_getdata R d)" "preserves core (handle_getheaders C R d)"
  "preserves core (handle_headers C R a d now)" "preserves core (service_payload m)"
  unfolding handle_getdata_def handle_getheaders_def handle_headers_def service_payload_def by (intro preserving)+

section \<open>Operations that change one of the two\<close>

lemma reconnect_preserves [preserving]: "preserves sv_node (reconnect R a now)"
proof -
  have "preserves sv_node (obind (on_peers (add_peer R a now False)) (\<lambda>_.
          obind (on_peers (mark_connected a now)) (\<lambda>_. oreturn ())))" by (intro preserving)
  moreover have "preserves sv_node (on_peers (mark_connected a now))" by (intro preserving)
  ultimately show ?thesis
    unfolding preserves_def reconnect_def by (auto split: prod.split sum.split exn.split) (metis snd_conv)+
qed

lemma session_for_preserves: "preserves sv_node (session_for C R a now)"
  unfolding session_for_def by (intro preserving core_node [OF open_session_preserves])

lemma penalize_preserves: "preserves sv_node (penalize_peer a score now)"
  unfolding penalize_peer_def by (intro preserving core_node [OF progress_preserves(2)]) simp

lemma handle_transaction_peers: "preserves sv_peers (handle_transaction C d)"
  unfolding handle_transaction_def by (intro preserving) simp

lemma handle_block_peers: "preserves sv_peers (handle_block C rt d)"
  unfolding handle_block_def
  by (intro preserving core_peers [OF finish_preserves] core_peers [OF index_preserves]) simp

lemma route_peers: "preserves sv_peers (route C R rt a m now)"
  unfolding route_def
  by (cases "msg_type m")
    (simp_all only: message_type.case,
     (intro preserving handle_transaction_peers handle_block_peers core_peers [OF handlers_preserve(1)]
      core_peers [OF handlers_preserve(2)] core_peers [OF handlers_preserve(3)] core_peers [OF handlers_preserve(4)])+)

section \<open>Invariants of the node\<close>

lemma keeps_check: "(\<And>s x. g s = Inr x \<Longrightarrow> keeps P (f x)) \<Longrightarrow> keeps P (obind (oeval g) f)"
  by (auto simp: keeps_def obind_def split: sum.split)

lemma keeps_on_node: "keeps N f \<Longrightarrow> keeps (\<lambda>sv. N (sv_node sv)) (on_node f)"
  by (simp add: keeps_def on_node_def split: prod.split) (metis snd_conv)

lemma keeps_preserves: "preserves sv_node m \<Longrightarrow> keeps (\<lambda>sv. N (sv_node sv)) m"
  by (simp add: preserves_def keeps_def)

lemma keeps_core: "preserves core m \<Longrightarrow> keeps (\<lambda>sv. N (sv_node sv)) m"
  by (intro keeps_preserves core_node)

lemma block_from_payload_ok: "block_from_payload C d = Inr b \<Longrightarrow> block_ok b"
  by (auto simp: block_from_payload_def binary_payload_def split: json.splits sum.splits if_splits dest!: block_to_from_bytes(1))

lemma transaction_from_payload_ok: "transaction_from_payload d = Inr tx \<Longrightarrow> tx_ok True tx"
  by (auto simp: transaction_from_payload_def binary_payload_def tx_from_bytes_def decode_all_def
      split: json.splits sum.splits if_splits dest!: full_tx.enc_dec)

text \<open>
  What the node promises for the transactions and blocks that were decoded from bytes; the service
  keeps it for every message.
\<close>

locale node_invariant =
  fixes C :: crypto and rt :: "exn \<Rightarrow> pystr" and N :: "consensus_node \<Rightarrow> bool"
  assumes submits: "tx_ok True tx \<Longrightarrow> keeps N (submit_transaction C tx)"
    and imports_block: "block_ok b \<Longrightarrow> keeps N (import_block C rt b)"
begin

lemma keeps_handle_transaction: "keeps (\<lambda>sv. N (sv_node sv)) (handle_transaction C d)"
  unfolding handle_transaction_def
  by (intro keeping keeps_check keeps_on_node submits keeps_preserves [OF preserves_omodify])
    (auto dest: transaction_from_payload_ok)

lemma keeps_handle_block: "keeps (\<lambda>sv. N (sv_node sv)) (handle_block C rt d)"
proof -
  have "keeps (\<lambda>sv. N (sv_node sv)) (obind (on_node (import_block C rt b)) (\<lambda>_.
       obind (omodify (\<lambda>sv. sv\<lparr>sv_blocks := AList.update h b (sv_blocks sv)\<rparr>)) (\<lambda>_.
       obind (finish_download h) (\<lambda>_.
       obind (index_transactions C (blk_transactions b)) (\<lambda>_.
       oeval (\<lambda>_. announce_one ''block'' h))))))" if "block_ok b" for b h
    by (intro keeping keeps_on_node imports_block [OF that] keeps_core [OF finish_preserves] keeps_core [OF index_preserves]
        keeps_preserves [OF preserves_omodify]) simp
  then show ?thesis
    unfolding handle_block_def by (intro keeps_check keeps_if keeps_basic) (auto dest: block_from_payload_ok)
qed

lemma keeps_route: "keeps (\<lambda>sv. N (sv_node sv)) (route C R rt a m now)"
proof -
  have "keeps (\<lambda>sv. N (sv_node sv)) (obind (service_payload m) f)" if "\<And>d. keeps (\<lambda>sv. N (sv_node sv)) (f d)"
    for f :: "(pystr, json) dict \<Rightarrow> routed service_op"
    using that by (intro keeping keeps_core [OF handlers_preserve(4)])
  then show ?thesis
    unfolding route_def
    by (cases "msg_type m")
      (simp_all, (intro keeping keeps_handle_transaction keeps_handle_block handlers_preserve keeps_core | simp)+)
qed

lemma keeps_route_result: "keeps (\<lambda>sv. N (sv_node sv)) (route_result C R rt a m now direct)"
proof -
  have pen: "keeps (\<lambda>sv. N (sv_node sv)) (obind (penalize_peer a 10 now) (\<lambda>d. oreturn (g d)))" for g :: "bool \<Rightarrow> service_result"
    by (intro keeping keeps_preserves [OF penalize_preserves])
  show ?thesis
    unfolding keeps_def
  proof (intro allI impI)
    fix sv :: node_service assume ok: "N (sv_node sv)"
    obtain r sv' where run: "route C R rt a m now sv = (r, sv')" by (cases "route C R rt a m now sv")
    have "N (sv_node sv')" by (rule keepsD [OF keeps_route ok run])
    then show "N (sv_node (snd (route_result C R rt a m now direct sv)))"
      using pen unfolding route_result_def run keeps_def by (auto split: sum.split exn.split)
  qed
qed

lemma keeps_receive: "keeps (\<lambda>sv. N (sv_node sv)) (service_receive C R rt a m now)"
  unfolding keeps_def
proof (intro allI impI)
  fix sv :: node_service assume ok: "N (sv_node sv)"
  obtain x sv1 where run: "session_for C R a now sv = (x, sv1)" by (cases "session_for C R a now sv")
  have ok1: "N (sv_node sv1)" using preservesD [OF session_for_preserves run] ok by simp
  have "keeps (\<lambda>sv. N (sv_node sv)) (obind (on_session a s (session_receive C R m)) (\<lambda>direct.
          if is_reject direct
          then obind (penalize_peer a 10 now) (\<lambda>disconnect.
                 oreturn \<lparr>sr_direct = direct, sr_direct_to = [], sr_relay = [], sr_disconnect = disconnect\<rparr>)
          else route_result C R rt a m now direct))" for s
    by (intro keeping keeps_route_result keeps_core [OF preserves_service(3)] keeps_preserves [OF penalize_preserves])
  then show "N (sv_node (snd (service_receive C R rt a m now sv)))"
    using ok1 run unfolding keeps_def service_receive_def by (auto split: sum.split exn.split)
qed

end

text \<open>The validity of the node is such an invariant.\<close>

lemma submit_node_ok: "keeps (node_ok C) (submit_transaction C tx)"
  using submit_preserves [of C tx] node_ok_view by (auto simp: keeps_def preserves_def)

interpretation valid_node: node_invariant C rt "node_ok C" for C rt
  by unfold_locales (auto simp: keeps_def intro: submit_node_ok [unfolded keeps_def, rule_format] import_node_ok prod.collapse [symmetric])

section \<open>Banned peers\<close>

definition not_banned :: "node_service \<Rightarrow> pystr \<Rightarrow> bool" where
  "not_banned sv a \<longleftrightarrow> (\<forall>r. map_of (pm_peers (sv_peers sv)) a = Some r \<longrightarrow> \<not> is_banned r)"

text \<open>A peer that was cut off: no session, no downloads, and a ban that lasts.\<close>

definition cut_off :: "int \<Rightarrow> pystr \<Rightarrow> node_service \<Rightarrow> bool" where
  "cut_off t a sv \<longleftrightarrow> map_of (sv_sessions sv) a = None \<and> in_flight_count sv a = 0 \<and>
     banned_until_at_least t a (sv_peers sv)"

lemma report_bans:
  assumes "report_misbehavior a score now m = (Inr r, m')" and "is_banned r"
    and "\<And>r0. map_of (pm_peers m) a = Some r0 \<Longrightarrow> \<not> is_banned r0"
  shows "banned_until_at_least (now + pm_ban_seconds m) a m'"
  using assms by (auto simp: peer_ops is_banned_def split: option.splits if_splits)

lemma record_progress_fields:
  assumes "record_progress a f sv = (r, sv')"
  shows "sv_sessions sv' = sv_sessions sv \<and> sv_in_flight sv' = sv_in_flight sv \<and>
    sv_max_block_downloads_per_peer sv' = sv_max_block_downloads_per_peer sv \<and> sv_peers sv' = sv_peers sv"
  using assms by (auto simp: record_progress_def obind_def progress_for_def store_progress_def Let_def
      split: option.splits prod.splits)

lemma clear_downloads_effect:
  assumes "clear_peer_downloads a failed sv = (r, sv')"
  shows "sv_in_flight sv' = filter (\<lambda>(_, d). bd_peer d \<noteq> a) (sv_in_flight sv) \<and> sv_sessions sv' = sv_sessions sv \<and>
    sv_max_block_downloads_per_peer sv' = sv_max_block_downloads_per_peer sv \<and> sv_peers sv' = sv_peers sv"
  using assms record_progress_fields
  by (fastforce simp: clear_peer_downloads_def obind_def split: if_splits)

lemma penalize_cuts_off:
  assumes "penalize_peer a score now sv = (Inr True, sv')" and "not_banned sv a"
  shows "cut_off (now + pm_ban_seconds (sv_peers sv)) a sv'"
proof -
  obtain r p where rep: "report_misbehavior a score now (sv_peers sv) = (Inr r, p)" "is_banned r"
      and run: "clear_peer_downloads a True (sv\<lparr>sv_peers := p, sv_sessions := AList.delete a (sv_sessions sv)\<rparr>) = (Inr (), sv')"
    using assms(1)
    by (auto simp: penalize_peer_def obind_def on_peers_def split: prod.splits sum.splits if_splits)
  from clear_downloads_effect [OF run] report_bans [OF rep] assms(2) show ?thesis
    by (auto simp: cut_off_def not_banned_def in_flight_count_def map_of_delete_dict filter_empty_conv)
qed

lemma disconnect_cuts_off:
  assumes "service_receive C R rt a m now sv = (Inr res, sv')" and "sr_disconnect res"
    and "map_of (sv_sessions sv) a = Some s" and "not_banned sv a"
  shows "cut_off (now + pm_ban_seconds (sv_peers sv)) a sv'"
proof -
  obtain d sv1 where sess: "on_session a s (session_receive C R m) sv = (Inr d, sv1)"
      and rest: "(if is_reject d then obind (penalize_peer a 10 now) (\<lambda>disconnect.
                 oreturn \<lparr>sr_direct = d, sr_direct_to = [], sr_relay = [], sr_disconnect = disconnect\<rparr>)
          else route_result C R rt a m now d) sv1 = (Inr res, sv')"
    using assms(1,3) by (auto simp: service_receive_def session_for_def obind_def split: sum.splits prod.splits)
  have p1: "sv_peers sv1 = sv_peers sv" by (rule preservesD [OF core_peers [OF preserves_service(3)] sess])
  have "\<exists>sv2. sv_peers sv2 = sv_peers sv \<and> penalize_peer a 10 now sv2 = (Inr True, sv')"
  proof (cases "is_reject d")
    case True
    with rest assms(2) p1 show ?thesis by (auto simp: obind_def split: prod.splits sum.splits)
  next
    case False
    obtain x sv2 where run: "route C R rt a m now sv1 = (x, sv2)" by (cases "route C R rt a m now sv1")
    have "sv_peers sv2 = sv_peers sv" using preservesD [OF route_peers run] p1 by simp
    moreover have "penalize_peer a 10 now sv2 = (Inr True, sv')"
    proof (cases x)
      case (Inl e)
      with False rest run assms(2) show ?thesis
        by (cases e) (auto simp: route_result_def service_result_of_def is_payload_error_def obind_def split: prod.splits sum.splits)
    next
      case (Inr y)
      with False rest run assms(2) show ?thesis by (cases y) (auto simp: route_result_def)
    qed
    ultimately show ?thesis by blast
  qed
  then obtain sv2 where sv2: "sv_peers sv2 = sv_peers sv" "penalize_peer a 10 now sv2 = (Inr True, sv')" by blast
  have "not_banned sv2 a" using assms(4) sv2(1) by (simp add: not_banned_def)
  from penalize_cuts_off [OF sv2(2) this] sv2(1) show ?thesis by simp
qed

section \<open>Block downloads\<close>

text \<open>
  Every download is filed under its hash, its peer has a session, and no peer has more than its
  share.
\<close>

definition downloads_ok :: "node_service \<Rightarrow> bool" where
  "downloads_ok sv \<longleftrightarrow> dict_ok (sv_in_flight sv) \<and>
     (\<forall>h d. map_of (sv_in_flight sv) h = Some d \<longrightarrow> bd_block_hash d = h \<and> bd_peer d \<in> fst ` set (sv_sessions sv)) \<and>
     (\<forall>a. in_flight_count sv a \<le> sv_max_block_downloads_per_peer sv)"

text \<open>The part of the service the invariant looks at; sessions may only be added.\<close>

definition download_frame :: "node_service \<Rightarrow> node_service \<Rightarrow> bool" where
  "download_frame sv sv' \<longleftrightarrow> sv_in_flight sv' = sv_in_flight sv \<and> fst ` set (sv_sessions sv) \<subseteq> fst ` set (sv_sessions sv') \<and>
     sv_max_block_downloads_per_peer sv' = sv_max_block_downloads_per_peer sv"

definition framed :: "'a service_op \<Rightarrow> bool" where
  "framed m \<longleftrightarrow> (\<forall>sv. download_frame sv (snd (m sv)))"

lemma download_frame_refl: "download_frame sv sv"
  by (simp add: download_frame_def)

lemma download_frame_trans: "download_frame a b \<Longrightarrow> download_frame b c \<Longrightarrow> download_frame a c"
  by (auto simp: download_frame_def)

lemma framed_ok: "download_frame sv sv' \<Longrightarrow> downloads_ok sv \<Longrightarrow> downloads_ok sv'"
  by (auto simp: download_frame_def downloads_ok_def in_flight_count_def)

lemma framed_keeps: "framed m \<Longrightarrow> keeps downloads_ok m"
  using framed_ok by (auto simp: framed_def keeps_def)

named_theorems framing \<open>operations that leave downloads alone\<close>

lemma framed_obind [framing]: "framed m \<Longrightarrow> (\<And>x. framed (f x)) \<Longrightarrow> framed (obind m f)"
  unfolding framed_def obind_def by (auto split: prod.split sum.split) (metis download_frame_trans snd_conv)+

lemma framed_basic [framing]: "framed (oreturn x)" "framed (oeval g)" "framed (Pair r)"
  by (simp_all add: framed_def download_frame_refl)

lemma framed_if [framing]: "(b \<Longrightarrow> framed m) \<Longrightarrow> (\<not> b \<Longrightarrow> framed m') \<Longrightarrow> framed (if b then m else m')"
  by simp

lemma framed_service [framing]:
  "framed (on_node g)" "framed (on_peers k)" "framed (progress_for a)" "framed (store_progress a p)" "framed (on_session a s l)"
  "framed (omodify (\<lambda>sv. sv\<lparr>sv_transactions := T sv\<rparr>))" "framed (omodify (\<lambda>sv. sv\<lparr>sv_blocks := B sv\<rparr>))"
  "framed (omodify (\<lambda>sv. sv\<lparr>sv_peer_sync := Y sv\<rparr>))"
  "framed (omodify (\<lambda>sv. sv\<lparr>sv_sessions := AList.update a s (sv_sessions sv)\<rparr>))"
  by (auto simp: framed_def download_frame_def on_node_def on_peers_def progress_for_def store_progress_def on_session_def
      Let_def dom_update split: prod.split option.split)

lemma framed_record [framing]: "framed (record_progress a f)"
  unfolding record_progress_def by (intro framing)

lemma framed_open [framing]: "framed (open_session C a)"
  unfolding open_session_def by (intro framing)

lemma framed_index [framing]: "framed (index_transactions C txs)"
  by (induction txs) (simp_all only: index_transactions.simps, (intro framing; assumption?)+)

lemma framed_rank [framing]: "framed (rank_peers source as)"
  by (induction as) (simp_all only: rank_peers.simps, (intro framing; assumption?)+)

lemma framed_select [framing]: "framed (select_block_download_peer source h avoid)"
  unfolding select_block_download_peer_def by (intro framing)

lemma framed_transaction [framing]: "framed (handle_transaction C d)"
  unfolding handle_transaction_def by (intro framing)

lemma framed_reads [framing]: "framed (handle_getdata R d)" "framed (handle_getheaders C R d)" "framed (service_payload m)"
  unfolding handle_getdata_def handle_getheaders_def service_payload_def by (intro framing)+

lemma framed_reconnect [framing]: "framed (reconnect R a now)"
proof -
  have again: "framed (obind (on_peers (add_peer R a now False)) (\<lambda>_.
          obind (on_peers (mark_connected a now)) (\<lambda>_. oreturn ())))" by (intro framing)
  show ?thesis
    unfolding framed_def
  proof
    fix sv
    obtain x sv1 where run: "on_peers (mark_connected a now) sv = (x, sv1)" by (cases "on_peers (mark_connected a now) sv")
    have one: "download_frame sv sv1" using framed_service(2) [of "mark_connected a now"] run unfolding framed_def by (metis snd_conv)
    have two: "download_frame sv (snd (obind (on_peers (add_peer R a now False)) (\<lambda>_.
          obind (on_peers (mark_connected a now)) (\<lambda>_. oreturn ())) sv1))"
      using download_frame_trans [OF one] again unfolding framed_def by blast
    show "download_frame sv (snd (reconnect R a now sv))"
    proof (cases x)
      case (Inl e)
      with one two show ?thesis unfolding reconnect_def run by (cases e) simp_all
    qed (use one in \<open>simp add: reconnect_def run\<close>)
  qed
qed

lemma framed_option [framing]:
  "(x = None \<Longrightarrow> framed m) \<Longrightarrow> (\<And>y. x = Some y \<Longrightarrow> framed (f y)) \<Longrightarrow> framed (case x of None \<Rightarrow> m | Some y \<Rightarrow> f y)"
  by (simp split: option.split)

lemma framed_session_for: "framed (session_for C R a now)"
  unfolding session_for_def by (intro framing)

text \<open>Removing downloads keeps the invariant.\<close>

lemma count_filter_le:
  "int (length (filter (\<lambda>(_, d). bd_peer d = a) (filter Q xs))) \<le> int (length (filter (\<lambda>(_, d). bd_peer d = a) xs))"
  by (induction xs) auto

lemma downloads_filter:
  assumes "downloads_ok sv" and "sv_in_flight sv' = filter Q (sv_in_flight sv)"
    and "sv_max_block_downloads_per_peer sv' = sv_max_block_downloads_per_peer sv"
    and "\<And>p. p \<in> set (sv_in_flight sv) \<Longrightarrow> Q p \<Longrightarrow> bd_peer (snd p) \<in> fst ` set (sv_sessions sv) \<Longrightarrow>
      bd_peer (snd p) \<in> fst ` set (sv_sessions sv')"
  shows "downloads_ok sv'"
  unfolding downloads_ok_def
proof (intro conjI allI)
  have dist: "dict_ok (sv_in_flight sv)" using assms(1) by (simp add: downloads_ok_def)
  show dist': "dict_ok (sv_in_flight sv')" unfolding assms(2) by (rule distinct_map_filter [OF dist])
  fix h d
  show "map_of (sv_in_flight sv') h = Some d \<longrightarrow> bd_block_hash d = h \<and> bd_peer d \<in> fst ` set (sv_sessions sv')"
  proof
    assume "map_of (sv_in_flight sv') h = Some d"
    then have "(h, d) \<in> set (filter Q (sv_in_flight sv))" unfolding assms(2) by (rule map_of_SomeD)
    then have hd: "(h, d) \<in> set (sv_in_flight sv)" "Q (h, d)" by simp_all
    then have "map_of (sv_in_flight sv) h = Some d" using dist by simp
    with assms(1) have "bd_block_hash d = h \<and> bd_peer d \<in> fst ` set (sv_sessions sv)" unfolding downloads_ok_def by blast
    with assms(4) [OF hd] show "bd_block_hash d = h \<and> bd_peer d \<in> fst ` set (sv_sessions sv')" by simp
  qed
next
  fix a
  have "in_flight_count sv' a \<le> in_flight_count sv a"
    using count_filter_le [of a Q "sv_in_flight sv"] unfolding in_flight_count_def assms(2) by simp
  also have "\<dots> \<le> sv_max_block_downloads_per_peer sv" using assms(1) by (simp add: downloads_ok_def)
  finally show "in_flight_count sv' a \<le> sv_max_block_downloads_per_peer sv'" using assms(3) by simp
qed

text \<open>The invariant together with peers that have a session.\<close>

definition downloads_for :: "pystr set \<Rightarrow> node_service \<Rightarrow> bool" where
  "downloads_for A sv \<longleftrightarrow> downloads_ok sv \<and> A \<subseteq> fst ` set (sv_sessions sv)"

lemma framed_for: "download_frame sv sv' \<Longrightarrow> downloads_for A sv \<Longrightarrow> downloads_for A sv'"
  using framed_ok [of sv sv'] by (auto simp: downloads_for_def download_frame_def)

lemma framed_keeps_for: "framed m \<Longrightarrow> keeps (downloads_for A) m"
  unfolding framed_def keeps_def using framed_for by blast

lemma keeps_delete: "keeps (downloads_for A) (omodify (\<lambda>sv. sv\<lparr>sv_in_flight := AList.delete h (sv_in_flight sv)\<rparr>))"
  unfolding keeps_def delete_filter downloads_for_def
  by (intro allI impI) (simp, elim conjE, erule downloads_filter [where Q = "\<lambda>p. fst p \<noteq> h"], simp_all)

text \<open>A peer that leaves takes its downloads with it.\<close>

lemma keeps_peer_gone:
  "keeps downloads_ok (obind (omodify (\<lambda>sv. sv\<lparr>sv_sessions := AList.delete a (sv_sessions sv)\<rparr>)) (\<lambda>_. clear_peer_downloads a True))"
  unfolding keeps_def
proof (intro allI impI)
  fix sv assume ok: "downloads_ok sv"
  let ?sv = "sv\<lparr>sv_sessions := AList.delete a (sv_sessions sv)\<rparr>"
  obtain r sv' where run: "clear_peer_downloads a True ?sv = (r, sv')" by (cases "clear_peer_downloads a True ?sv")
  note eff = clear_downloads_effect [OF run]
  have "downloads_ok sv'"
  proof (rule downloads_filter [OF ok, where Q = "\<lambda>(_, d). bd_peer d \<noteq> a"])
    fix p assume "case p of (_, d) \<Rightarrow> bd_peer d \<noteq> a" "bd_peer (snd p) \<in> fst ` set (sv_sessions sv)"
    then show "bd_peer (snd p) \<in> fst ` set (sv_sessions sv')"
      using eff by (auto simp: delete_filter case_prod_unfold)
  qed (use eff in simp_all)
  then show "downloads_ok (snd (obind (omodify (\<lambda>sv. sv\<lparr>sv_sessions := AList.delete a (sv_sessions sv)\<rparr>))
      (\<lambda>_. clear_peer_downloads a True) sv))"
    using run by (simp add: obind_def)
qed

lemma obind_assoc: "obind (obind m f) g = obind m (\<lambda>x. obind (f x) g)"
  by (rule ext) (simp add: obind_def split: prod.split sum.split)

lemma keeps_penalize: "keeps downloads_ok (penalize_peer a score now)"
proof -
  have "keeps downloads_ok (obind (omodify (\<lambda>sv. sv\<lparr>sv_sessions := AList.delete a (sv_sessions sv)\<rparr>)) (\<lambda>_.
       obind (clear_peer_downloads a True) (\<lambda>_. oreturn True)))"
    using keeps_obind [OF keeps_peer_gone, of "\<lambda>_. oreturn True" a] unfolding obind_assoc by (simp add: keeping)
  then show ?thesis
    unfolding penalize_peer_def by (intro keeps_obind [OF framed_keeps [OF framed_service(2)]] keeps_if keeps_basic)
qed

lemma keeps_disconnect: "keeps downloads_ok (disconnect_peer a now)"
  unfolding disconnect_peer_def by (intro keeps_obind [OF framed_keeps [OF framed_service(2)]] keeps_peer_gone)

lemma keeps_expire_loop: "keeps (downloads_for A) (expire_loop ds)"
  by (induction ds) (simp_all only: expire_loop.simps,
      (intro keeping keeps_delete framed_keeps_for [OF framed_record]; assumption?)+)

lemma keeps_finish: "keeps (downloads_for A) (finish_download h)"
  unfolding finish_download_def
  by (intro keeping keeps_delete) (auto intro: framed_keeps_for framing keeping split: option.split)

text \<open>A new download goes to a peer with a session that is below its limit.\<close>

lemma rank_peers_keys: "rank_peers source as sv = (Inr ks, sv') \<Longrightarrow> map snd ks = as"
  by (induction as arbitrary: ks sv sv') (auto simp: obind_def split: prod.splits sum.splits)

lemma download_candidates_sessions:
  assumes "source \<in> fst ` set (sv_sessions sv)"
  shows "download_candidates sv source h avoid \<noteq> []" and "set (download_candidates sv source h avoid) \<subseteq> fst ` set (sv_sessions sv)"
proof -
  let ?c = "map fst (filter (\<lambda>(a, s). a = source \<or> (ascii ''block_header'', h) \<in> se_known_inventory s) (sv_sessions sv))"
  have "source \<in> set ?c" using assms by force
  then have "?c \<noteq> []" by (metis list.set_cases list.simps(3))
  moreover have "set ?c \<subseteq> fst ` set (sv_sessions sv)" by auto
  ultimately show "download_candidates sv source h avoid \<noteq> []"
    "set (download_candidates sv source h avoid) \<subseteq> fst ` set (sv_sessions sv)"
    unfolding download_candidates_def Let_def by (auto split: if_splits)
qed

lemma select_peer:
  assumes "select_block_download_peer source h avoid sv = (Inr (Some p), sv')" and "source \<in> fst ` set (sv_sessions sv)"
  shows "p \<in> fst ` set (sv_sessions sv) \<and> in_flight_count sv p < sv_max_block_downloads_per_peer sv"
proof -
  let ?c = "download_candidates sv source h avoid"
  let ?b = "filter (\<lambda>a. in_flight_count sv a < sv_max_block_downloads_per_peer sv) ?c"
  obtain ks where ks: "rank_peers source ?b sv = (Inr ks, sv')" "p = snd (hd (sort_key fst ks))" "?b \<noteq> []"
    using assms(1) download_candidates_sessions(1) [OF assms(2)]
    by (auto simp: select_block_download_peer_def obind_def split: if_splits prod.splits sum.splits)
  have snds: "map snd ks = ?b" by (rule rank_peers_keys [OF ks(1)])
  with ks(3) have "sort_key fst ks \<noteq> []" by (metis length_0_conv length_sort list.simps(8))
  then have "hd (sort_key fst ks) \<in> set ks" by (metis hd_in_set set_sort)
  then have "p \<in> set ?b" using ks(2) snds by (metis image_eqI list.set_map)
  then show ?thesis using download_candidates_sessions(2) [OF assms(2), of h avoid] by auto
qed

lemma downloads_add:
  assumes "downloads_ok sv" and "map_of (sv_in_flight sv) h = None" and "p \<in> fst ` set (sv_sessions sv)"
    and "in_flight_count sv p < sv_max_block_downloads_per_peer sv"
  shows "downloads_ok (sv\<lparr>sv_in_flight := AList.update h \<lparr>bd_block_hash = h, bd_peer = p, bd_requested_at = now\<rparr> (sv_in_flight sv)\<rparr>)"
proof -
  let ?sv = "sv\<lparr>sv_in_flight := AList.update h \<lparr>bd_block_hash = h, bd_peer = p, bd_requested_at = now\<rparr> (sv_in_flight sv)\<rparr>"
  have "h \<notin> fst ` set (sv_in_flight sv)" using assms(2) by (simp add: map_of_eq_None_iff)
  then have "in_flight_count ?sv a = in_flight_count sv a + (if a = p then 1 else 0)" for a
    by (simp add: in_flight_count_def update_fresh)
  moreover have "in_flight_count sv a \<le> sv_max_block_downloads_per_peer sv" for a using assms(1) by (simp add: downloads_ok_def)
  ultimately have "in_flight_count ?sv a \<le> sv_max_block_downloads_per_peer ?sv" for a using assms(4) by simp
  moreover have "dict_ok (sv_in_flight ?sv)" using assms(1) by (simp add: downloads_ok_def distinct_update)
  moreover have "bd_block_hash d = k \<and> bd_peer d \<in> fst ` set (sv_sessions sv)"
    if "map_of (sv_in_flight ?sv) k = Some d" for k d
  proof (cases "k = h")
    case True
    with that have "d = \<lparr>bd_block_hash = h, bd_peer = p, bd_requested_at = now\<rparr>" by (simp add: map_of_update_dict)
    with True assms(3) show ?thesis by simp
  next
    case False
    with that assms(1) show ?thesis by (simp add: map_of_update_dict downloads_ok_def)
  qed
  ultimately show ?thesis by (simp add: downloads_ok_def)
qed

text \<open>The request loops, for sources that have a session.\<close>

lemma keeps_request_block:
  assumes "source \<in> A"
  shows "keeps (downloads_for A) (request_block source h avoid now rs)"
  unfolding keeps_def
proof (intro allI impI)
  fix sv assume ok: "downloads_for A sv"
  obtain x sv1 where sel: "select_block_download_peer source h avoid sv = (x, sv1)"
    by (cases "select_block_download_peer source h avoid sv")
  have fr: "download_frame sv sv1" using framed_select sel unfolding framed_def by (metis snd_conv)
  then have ok1: "downloads_for A sv1" using ok by (rule framed_for)
  have added: "downloads_for A (sv1\<lparr>sv_in_flight := AList.update h \<lparr>bd_block_hash = h, bd_peer = p, bd_requested_at = now\<rparr> (sv_in_flight sv1)\<rparr>)"
    if "should_request_block sv h" "x = Inr (Some p)" for p
  proof -
    have "p \<in> fst ` set (sv_sessions sv) \<and> in_flight_count sv p < sv_max_block_downloads_per_peer sv"
      using ok assms sel that(2) by (intro select_peer [of source h avoid sv p sv1]) (auto simp: downloads_for_def)
    then have "p \<in> fst ` set (sv_sessions sv1)" "in_flight_count sv1 p < sv_max_block_downloads_per_peer sv1"
        "map_of (sv_in_flight sv1) h = None"
      using fr that(1) by (auto simp: download_frame_def in_flight_count_def should_request_block_def)
    then show ?thesis using downloads_add ok1 by (auto simp: downloads_for_def)
  qed
  show "downloads_for A (snd (request_block source h avoid now rs sv))"
  proof (cases "should_request_block sv h")
    case False
    with ok show ?thesis by (simp add: request_block_def obind_def)
  next
    case True
    show ?thesis
    proof (cases "\<exists>p. x = Inr (Some p)")
      case False
      with True sel ok1 show ?thesis by (cases x) (auto simp: request_block_def obind_def split: option.splits)
    next
      case some: True
      then obtain p where p: "x = Inr (Some p)" by blast
      let ?s2 = "sv1\<lparr>sv_in_flight := AList.update h \<lparr>bd_block_hash = h, bd_peer = p, bd_requested_at = now\<rparr> (sv_in_flight sv1)\<rparr>"
      obtain y sv3 where rec: "record_progress p (\<lambda>q. q\<lparr>requested_blocks := requested_blocks q + 1\<rparr>) ?s2 = (y, sv3)"
        by (cases "record_progress p (\<lambda>q. q\<lparr>requested_blocks := requested_blocks q + 1\<rparr>) ?s2")
      have "downloads_for A sv3" by (rule keepsD [OF framed_keeps_for [OF framed_record] added [OF True p] rec])
      with True sel p rec show ?thesis by (cases y) (simp_all add: request_block_def obind_def)
    qed
  qed
qed

lemma keeps_request_headers: "a \<in> A \<Longrightarrow> keeps (downloads_for A) (request_headers C a now hs rs)"
  by (induction hs arbitrary: rs) (simp_all only: request_headers.simps, (intro keeping keeps_request_block; simp)+)

lemma keeps_request_again: "bd_peer ` set ds \<subseteq> A \<Longrightarrow> keeps (downloads_for A) (request_again now ds rs)"
proof (induction ds arbitrary: rs)
  case Nil
  show ?case unfolding request_again.simps by (intro keeping)
next
  case (Cons d ds)
  then have "bd_peer d \<in> A" "bd_peer ` set ds \<subseteq> A" by simp_all
  with Cons.IH show ?case unfolding request_again.simps by (intro keeps_obind keeps_request_block)
qed

lemma keeps_expire: "keeps (downloads_for A) (expire_block_downloads now)"
  unfolding expire_block_downloads_def by (intro keeping keeps_expire_loop)

lemma keeps_retry: "keeps downloads_ok (retry_expired_block_downloads now)"
  unfolding keeps_def
proof (intro allI impI)
  fix sv assume ok: "downloads_ok sv"
  obtain x sv1 where run: "expire_block_downloads now sv = (x, sv1)" by (cases "expire_block_downloads now sv")
  define A where "A = (case x of Inl e \<Rightarrow> {} | Inr ds \<Rightarrow> bd_peer ` set ds)"
  have "bd_peer d \<in> fst ` set (sv_sessions sv)" if "x = Inr ds" "d \<in> set ds" for ds d
  proof -
    have "d \<in> snd ` set (sv_in_flight sv)"
      using that run by (auto simp: expire_block_downloads_def obind_def split: prod.splits sum.splits)
    then obtain h where "map_of (sv_in_flight sv) h = Some d" using ok by (auto simp: downloads_ok_def)
    then show ?thesis using ok unfolding downloads_ok_def by blast
  qed
  then have "downloads_for A sv" using ok by (auto simp: downloads_for_def A_def split: sum.splits)
  then have ok1: "downloads_for A sv1" using keepsD [OF keeps_expire _ run] by blast
  show "downloads_ok (snd (retry_expired_block_downloads now sv))"
  proof (cases x)
    case (Inl e)
    with run ok1 show ?thesis by (simp add: retry_expired_block_downloads_def obind_def downloads_for_def)
  next
    case (Inr ds)
    then have "keeps (downloads_for A) (obind (request_again now ds []) (\<lambda>rs.
        oeval (\<lambda>sv. request_messages (sv_max_block_download_batch sv) rs)))"
      by (intro keeping keeps_request_again) (simp add: A_def)
    then have "downloads_for A (snd (retry_expired_block_downloads now sv))"
      using ok1 run Inr unfolding keeps_def retry_expired_block_downloads_def by (simp add: obind_def)
    then show ?thesis by (simp add: downloads_for_def)
  qed
qed

section \<open>The service keeps its downloads in order\<close>

lemma keeps_headers: "a \<in> A \<Longrightarrow> keeps (downloads_for A) (handle_headers C R a d now)"
  unfolding handle_headers_def by (intro keeping keeps_expire keeps_request_headers)

lemma keeps_block: "keeps (downloads_for A) (handle_block C rt d)"
  unfolding handle_block_def
  by (intro keeping keeps_finish framed_keeps_for [OF framed_service(1)] framed_keeps_for [OF framed_service(7)]
      framed_keeps_for [OF framed_index])

lemma keeps_route_for: "a \<in> A \<Longrightarrow> keeps (downloads_for A) (route C R rt a m now)"
  unfolding route_def
  by (cases "msg_type m")
    (simp_all only: message_type.case,
     (intro keeping keeps_block keeps_headers framed_keeps_for [OF framed_transaction] framed_keeps_for [OF framed_reads(1)]
      framed_keeps_for [OF framed_reads(2)] framed_keeps_for [OF framed_reads(3)]; assumption?)+)

lemma downloads_for_ok: "downloads_for A sv \<Longrightarrow> downloads_ok sv"
  by (simp add: downloads_for_def)

lemma route_result_downloads:
  assumes "downloads_for {a} sv" and "route_result C R rt a m now direct sv = (r, sv')"
  shows "downloads_ok sv'"
proof -
  obtain x sv1 where run: "route C R rt a m now sv = (x, sv1)" by (cases "route C R rt a m now sv")
  have ok1: "downloads_ok sv1" using keepsD [OF keeps_route_for assms(1) run] by (simp add: downloads_for_ok)
  have pen: "keeps downloads_ok (obind (penalize_peer a 10 now) (\<lambda>d. oreturn (g d)))" for g :: "bool \<Rightarrow> service_result"
    by (intro keeps_obind keeps_penalize keeps_basic)
  show ?thesis
  proof (cases x)
    case (Inl e)
    have "sv' = sv1 \<or> (\<exists>g :: bool \<Rightarrow> service_result. obind (penalize_peer a 10 now) (\<lambda>d. oreturn (g d)) sv1 = (r, sv'))"
      using assms(2) Inl run by (cases e) (auto simp: route_result_def split: if_splits)
    then show ?thesis using ok1 keepsD [OF pen ok1] by blast
  next
    case (Inr y)
    with assms(2) run ok1 show ?thesis by (cases y) (auto simp: route_result_def)
  qed
qed

lemma session_for_session:
  assumes "session_for C R a now sv = (Inr s, sv')"
  shows "a \<in> fst ` set (sv_sessions sv')"
proof (cases "map_of (sv_sessions sv) a")
  case None
  then show ?thesis
    using assms by (auto simp: session_for_def obind_def open_session_def dom_update split: prod.splits sum.splits)
next
  case (Some s0)
  then have "a \<in> fst ` set (sv_sessions sv)" by (force dest: map_of_SomeD)
  with Some assms show ?thesis by (simp add: session_for_def obind_def)
qed

lemma service_receive_downloads:
  assumes "downloads_ok sv" and "service_receive C R rt a m now sv = (r, sv')"
  shows "downloads_ok sv'"
proof -
  obtain x sv1 where run: "session_for C R a now sv = (x, sv1)" by (cases "session_for C R a now sv")
  have ok1: "downloads_ok sv1" by (rule keepsD [OF framed_keeps [OF framed_session_for] assms(1) run])
  show ?thesis
  proof (cases x)
    case (Inl e)
    with assms(2) ok1 run show ?thesis by (cases e) (auto simp: service_receive_def)
  next
    case (Inr s)
    then have for1: "downloads_for {a} sv1" using ok1 session_for_session run by (auto simp: downloads_for_def)
    obtain y sv2 where on: "on_session a s (session_receive C R m) sv1 = (y, sv2)" by (cases "on_session a s (session_receive C R m) sv1")
    have for2: "downloads_for {a} sv2" by (rule keepsD [OF framed_keeps_for [OF framed_service(5)] for1 on])
    have pen: "keeps downloads_ok (obind (penalize_peer a 10 now) (\<lambda>d. oreturn (g d)))" for g :: "bool \<Rightarrow> service_result"
      by (intro keeps_obind keeps_penalize keeps_basic)
    show ?thesis
    proof (cases y)
      case (Inl e)
      with assms(2) run Inr on for2 show ?thesis by (simp add: service_receive_def obind_def downloads_for_def)
    next
      case direct: (Inr direct)
      with assms(2) run Inr on have fin: "(if is_reject direct then obind (penalize_peer a 10 now) (\<lambda>disconnect.
            oreturn \<lparr>sr_direct = direct, sr_direct_to = [], sr_relay = [], sr_disconnect = disconnect\<rparr>)
          else route_result C R rt a m now direct) sv2 = (r, sv')"
        by (simp add: service_receive_def obind_def)
      show ?thesis
      proof (cases "is_reject direct")
        case True
        with fin show ?thesis using keepsD [OF pen downloads_for_ok [OF for2]] by simp
      next
        case False
        with fin show ?thesis using route_result_downloads [OF for2] by simp
      qed
    qed
  qed
qed

end
