(* ===== verification/Service_Runs.thy ===== *)
theory Service_Runs
  imports Service_Laws
begin

text \<open>
  The service as a state machine: every sequence of calls of its public methods, whichever raise. A
  predicate that each method keeps holds in every reachable state; the bounds on downloads are such a
  predicate, and so is the invariant of a node process (\<open>Process_Laws\<close>).
\<close>

text \<open>
  \<^verbatim>\<open>submit_local_transaction\<close> takes any \<^verbatim>\<open>ConsensusTransaction\<close> object; \<open>L\<close> says which ones a run submits. Time is an
  argument of the methods that use it; \<open>T\<close> says at which times a run calls them.
\<close>

inductive service_reach ::
  "crypto \<Rightarrow> py_runtime \<Rightarrow> (exn \<Rightarrow> pystr) \<Rightarrow> (consensus_transaction \<Rightarrow> bool) \<Rightarrow> (int \<Rightarrow> bool) \<Rightarrow> node_service \<Rightarrow> node_service \<Rightarrow> bool"
  for C R rt L T where
  start: "service_reach C R rt L T s s"
| receive: "service_reach C R rt L T s t \<Longrightarrow> T now \<Longrightarrow> service_receive C R rt a m now t = (r, t') \<Longrightarrow> service_reach C R rt L T s t'"
| connect: "service_reach C R rt L T s t \<Longrightarrow> T now \<Longrightarrow> connect_peer C R a now inb t = (r, t') \<Longrightarrow> service_reach C R rt L T s t'"
| accept: "service_reach C R rt L T s t \<Longrightarrow> T now \<Longrightarrow> accept_inbound_peer C R a now t = (r, t') \<Longrightarrow> service_reach C R rt L T s t'"
| disconnect: "service_reach C R rt L T s t \<Longrightarrow> T now \<Longrightarrow> disconnect_peer a now t = (r, t') \<Longrightarrow> service_reach C R rt L T s t'"
| expire: "service_reach C R rt L T s t \<Longrightarrow> T now \<Longrightarrow> expire_block_downloads now t = (r, t') \<Longrightarrow> service_reach C R rt L T s t'"
| retry: "service_reach C R rt L T s t \<Longrightarrow> T now \<Longrightarrow> retry_expired_block_downloads now t = (r, t') \<Longrightarrow> service_reach C R rt L T s t'"
| submit: "service_reach C R rt L T s t \<Longrightarrow> L tx \<Longrightarrow> submit_local_transaction C tx t = (r, t') \<Longrightarrow> service_reach C R rt L T s t'"
| mine: "service_reach C R rt L T s t \<Longrightarrow> mine_local_block C rt miner clock t = (r, t') \<Longrightarrow> service_reach C R rt L T s t'"

text \<open>The two methods a connection calls, and all of them.\<close>

locale connection_invariant =
  fixes C :: crypto and R :: py_runtime and rt :: "exn \<Rightarrow> pystr" and P :: "node_service \<Rightarrow> bool" and T :: "int \<Rightarrow> bool"
  assumes receive: "T now \<Longrightarrow> keeps P (service_receive C R rt a m now)"
    and accept: "T now \<Longrightarrow> keeps P (accept_inbound_peer C R a now)"

locale service_invariant = connection_invariant +
  fixes L :: "consensus_transaction \<Rightarrow> bool"
  assumes connect: "T now \<Longrightarrow> keeps P (connect_peer C R a now inb)"
    and disconnect: "T now \<Longrightarrow> keeps P (disconnect_peer a now)"
    and expire: "T now \<Longrightarrow> keeps P (expire_block_downloads now)"
    and retry: "T now \<Longrightarrow> keeps P (retry_expired_block_downloads now)"
    and submit: "L tx \<Longrightarrow> keeps P (submit_local_transaction C tx)"
    and mine: "keeps P (mine_local_block C rt miner clock)"
begin

lemma run_keeps: "service_reach C R rt L T s t \<Longrightarrow> P s \<Longrightarrow> P t"
  by (induction rule: service_reach.induct)
    (blast dest: keepsD [OF receive] keepsD [OF connect] keepsD [OF accept] keepsD [OF disconnect]
       keepsD [OF expire] keepsD [OF retry] keepsD [OF submit] keepsD [OF mine])+

end

section \<open>Methods and the node\<close>

lemma preserves_sessions:
  "preserves sv_node (connect_peer C R a now inb)" "preserves sv_node (accept_inbound_peer C R a now)"
  "preserves sv_node (disconnect_peer a now)" "preserves sv_node (retry_expired_block_downloads now)"
  unfolding connect_peer_def accept_inbound_peer_def disconnect_peer_def retry_expired_block_downloads_def
  by (intro preserving core_node [OF open_session_preserves] core_node [OF preserves_service(3)]
      core_node [OF progress_preserves(2)] core_node [OF expire_preserves(2)] core_node [OF request_loops_preserve(2)]
      | simp)+

lemma keeps_after_mining:
  "keeps (\<lambda>sv. N (sv_node sv)) (obind (oeval (\<lambda>_. block_hash C (sb_block stored))) (\<lambda>h.
     obind (omodify (\<lambda>sv. sv\<lparr>sv_blocks := AList.update h (sb_block stored) (sv_blocks sv)\<rparr>)) (\<lambda>_.
     obind (index_transactions C (blk_transactions (sb_block stored))) (\<lambda>_.
     obind (oeval (\<lambda>_. announce_one ''block'' h)) (\<lambda>relay. oreturn (service_result_of [] relay))))))"
  by (intro keeping keeps_core [OF index_preserves] keeps_preserves [OF preserves_omodify]) simp

text \<open>The block a node would mine has a binary encoding that reads back.\<close>

definition mines_encodable :: "crypto \<Rightarrow> pystr \<Rightarrow> 64 word \<Rightarrow> consensus_node \<Rightarrow> bool" where
  "mines_encodable C miner clock n \<longleftrightarrow>
     (\<forall>b. rbind (build_candidate_block C n miner clock) (mine C) = Inr b \<longrightarrow> block_ok b)"

context node_invariant
begin

lemma submit_local_keeps: "tx_ok True tx \<Longrightarrow> keeps (\<lambda>sv. N (sv_node sv)) (submit_local_transaction C tx)"
  unfolding submit_local_transaction_def
  by (intro keeping keeps_on_node submits keeps_preserves [OF preserves_omodify]) simp_all

lemma mine_local_keeps:
  assumes "\<And>n. N n \<Longrightarrow> mines_encodable C miner clock n"
  shows "keeps (\<lambda>sv. N (sv_node sv)) (mine_local_block C rt miner clock)"
proof -
  have "keeps N (mine_block C rt miner clock)"
    unfolding keeps_def
  proof (intro allI impI)
    fix n assume "N n"
    with assms imports_block show "N (snd (mine_block C rt miner clock n))"
      by (auto simp: mine_block_def obind_def mines_encodable_def keeps_def split: sum.split)
  qed
  then show ?thesis
    unfolding mine_local_block_def by (intro keeps_obind [OF keeps_on_node] keeps_after_mining)
qed

end

section \<open>The methods keep downloads bounded\<close>

lemma framed_methods:
  "framed (connect_peer C R a now inb)" "framed (accept_inbound_peer C R a now)"
  "framed (submit_local_transaction C tx)" "framed (mine_local_block C rt miner clock)"
  unfolding connect_peer_def accept_inbound_peer_def submit_local_transaction_def mine_local_block_def
  by (intro framing)+

interpretation downloads: service_invariant C R rt downloads_ok T L for C R rt T L
proof
  show "keeps downloads_ok (service_receive C R rt a m now)" for a m now
    unfolding keeps_def using service_receive_downloads [of _ C R rt a m now] by (metis prod.collapse)
  show "keeps downloads_ok (expire_block_downloads now)" for now
    using keeps_expire [of "{}" now] by (simp add: keeps_def downloads_for_def)
qed (auto intro: framed_keeps framed_methods keeps_disconnect keeps_retry)

lemma new_service_ok:
  assumes "new_service node network node_id peers timeout batch per_peer store = Inr sv"
  shows "sv_node sv = node" and "downloads_ok sv"
  using assms by (auto simp: new_service_def downloads_ok_def in_flight_count_def split: if_splits)

end
