(* ===== verification/Transport_Laws.thy ===== *)
theory Transport_Laws
  imports Transport Service_Runs
begin

text \<open>
  Lemmas on the transport: sending leaves the service alone, what a broadcast puts on the sockets, and what a closed connection leaves behind.
\<close>

section \<open>Sending leaves the service alone\<close>

lemma on_connections_preserves [simp]:
  "ta_service (register_connection a i ta) = ta_service ta" "ta_service (unregister_connection a ta) = ta_service ta"
  "ta_service (fold unregister_connection as ta) = ta_service ta"
proof -
  show "ta_service (fold unregister_connection as ta) = ta_service ta"
    by (induction as arbitrary: ta) (simp_all add: unregister_connection_def)
qed (simp_all add: register_connection_def unregister_connection_def)

lemma send_preserves [preserving]: "preserves ta_service (send_messages C i ms)"
proof -
  have [preserving]: "preserves ta_service (adapter_sendall i f)" for f
    by (simp add: preserves_def adapter_sendall_def split: prod.split)
  show ?thesis by (induction ms) (simp_all only: send_messages.simps, (intro preserving; assumption?)+)
qed

lemma broadcast_loop_preserves [preserving]: "preserves ta_service (broadcast_loop C ms ps stale)"
proof (induction ps arbitrary: stale)
  case Nil
  show ?case unfolding broadcast_loop.simps by (intro preserving)
next
  case (Cons p ps)
  show ?case
    unfolding preserves_def
  proof
    fix ta
    obtain r ta1 where run: "send_messages C (snd p) ms ta = (r, ta1)" by (cases "send_messages C (snd p) ms ta")
    have "ta_service ta1 = ta_service ta" by (rule preservesD [OF send_preserves run])
    moreover have "ta_service (snd (broadcast_loop C ms ps stale' ta1)) = ta_service ta1" for stale'
      using Cons by (simp add: preserves_def)
    ultimately show "ta_service (snd (broadcast_loop C ms (p # ps) stale ta)) = ta_service ta"
      using run by (simp split: sum.split)
  qed
qed

lemma broadcast_preserves [preserving]: "preserves ta_service (broadcast C ms ex)"
  unfolding broadcast_def by (intro preserving) simp_all

lemma send_to_preserves [preserving]: "preserves ta_service (send_to C a ms)"
  unfolding preserves_def
proof
  fix ta
  have "ta_service (snd (send_messages C i ms ta)) = ta_service ta" for i using send_preserves by (simp add: preserves_def)
  then show "ta_service (snd (send_to C a ms ta)) = ta_service ta"
    by (auto simp: send_to_def split: option.split prod.split sum.split) (metis snd_conv)+
qed

lemma send_to_all_preserves [preserving]: "preserves ta_service (send_to_all C ps)"
  by (induction ps) (simp_all only: send_to_all.simps, (intro preserving; assumption?)+)

lemma keeps_on_service: "keeps P f \<Longrightarrow> keeps (\<lambda>ta. P (ta_service ta)) (on_service f)"
  by (simp add: keeps_def on_service_def split: prod.split) (metis snd_conv)

section \<open>What is sent\<close>

definition after_send :: "bytes list \<Rightarrow> socket \<Rightarrow> socket" where
  "after_send fs s = (if so_broken s then s else s\<lparr>so_sent := so_sent s @ fs\<rparr>)"

lemma send_messages_effect:
  assumes "rmap (\<lambda>m. to_frame C m (ta_auth_key ta)) ms = Inr fs" and "ms \<noteq> []"
  shows "send_messages C i ms ta =
    (if so_broken (ta_sockets ta i) then Inl OSError else Inr (),
     ta\<lparr>ta_sockets := (ta_sockets ta)(i := after_send fs (ta_sockets ta i))\<rparr>)"
  using assms
proof (induction ms arbitrary: ta fs)
  case (Cons m ms)
  from Cons.prems(1) obtain f fs' where f: "to_frame C m (ta_auth_key ta) = Inr f" "fs = f # fs'"
      "rmap (\<lambda>m. to_frame C m (ta_auth_key ta)) ms = Inr fs'" by auto
  let ?ta = "ta\<lparr>ta_sockets := (ta_sockets ta)(i := after_send [f] (ta_sockets ta i))\<rparr>"
  have step: "send_messages C i (m # ms) ta = (if so_broken (ta_sockets ta i) then (Inl OSError, ?ta) else send_messages C i ms ?ta)"
    using f(1) by (simp add: obind_def adapter_sendall_def socket_sendall_def after_send_def)
  show ?case
  proof (cases "so_broken (ta_sockets ta i)")
    case True
    then show ?thesis unfolding step by (simp add: after_send_def)
  next
    case False
    show ?thesis
    proof (cases "ms = []")
      case True
      with False f show ?thesis unfolding step by (simp add: fun_upd_def)
    next
      case ms: False
      have nb: "\<not> so_broken (ta_sockets ?ta i)" using False by (simp add: after_send_def)
      have r: "rmap (\<lambda>m. to_frame C m (ta_auth_key ?ta)) ms = Inr fs'" using f(3) by simp
      have "send_messages C i ms ?ta = (Inr (), ?ta\<lparr>ta_sockets := (ta_sockets ?ta)(i := after_send fs' (ta_sockets ?ta i))\<rparr>)"
        using Cons.IH [OF r ms] nb by (simp only: if_False)
      moreover have "?ta\<lparr>ta_sockets := (ta_sockets ?ta)(i := after_send fs' (ta_sockets ?ta i))\<rparr> =
          ta\<lparr>ta_sockets := (ta_sockets ta)(i := after_send fs (ta_sockets ta i))\<rparr>"
        using False f(2) by (intro tcp_adapter.equality) (auto simp: fun_eq_iff after_send_def)
      ultimately show ?thesis unfolding step using False by (simp only: if_False)
    qed
  qed
qed simp

lemma broadcast_loop_effect:
  assumes "rmap (\<lambda>m. to_frame C m (ta_auth_key ta)) ms = Inr fs" and "ms \<noteq> []" and "distinct (map snd ps)"
  shows "broadcast_loop C ms ps stale ta =
    (Inr (stale @ map fst (filter (\<lambda>p. so_broken (ta_sockets ta (snd p))) ps)),
     ta\<lparr>ta_sockets := (\<lambda>j. if j \<in> snd ` set ps then after_send fs (ta_sockets ta j) else ta_sockets ta j)\<rparr>)"
  using assms(1,3)
proof (induction ps arbitrary: stale ta)
  case (Cons p ps)
  let ?ta = "ta\<lparr>ta_sockets := (ta_sockets ta)(snd p := after_send fs (ta_sockets ta (snd p)))\<rparr>"
  have IH: "broadcast_loop C ms ps st ?ta =
      (Inr (st @ map fst (filter (\<lambda>q. so_broken (ta_sockets ?ta (snd q))) ps)),
       ?ta\<lparr>ta_sockets := (\<lambda>j. if j \<in> snd ` set ps then after_send fs (ta_sockets ?ta j) else ta_sockets ?ta j)\<rparr>)" for st
    using Cons.IH [of ?ta st] Cons.prems by simp
  have notin: "snd p \<notin> snd ` set ps" using Cons.prems(2) by simp
  then have other: "snd q \<noteq> snd p" if "q \<in> set ps" for q using that by (metis image_eqI)
  have fil: "filter (\<lambda>q. so_broken (ta_sockets ?ta (snd q))) ps = filter (\<lambda>q. so_broken (ta_sockets ta (snd q))) ps"
    using other by (intro filter_cong) auto
  have socks: "(\<lambda>j. if j \<in> snd ` set ps then after_send fs (ta_sockets ?ta j) else ta_sockets ?ta j) =
      (\<lambda>j. if j \<in> snd ` set (p # ps) then after_send fs (ta_sockets ta j) else ta_sockets ta j)"
    by (rule ext) (use notin in \<open>simp split: if_split\<close>)
  note sent = send_messages_effect [OF Cons.prems(1) assms(2), of "snd p"]
  show ?case using IH sent fil socks by (simp add: is_os_error_def)
qed simp

lemma unregister_all: "ta_connections (fold unregister_connection as ta) = filter (\<lambda>p. fst p \<notin> set as) (ta_connections ta)"
  by (induction as arbitrary: ta) (auto simp: unregister_connection_def delete_filter intro!: filter_cong)

lemma unregister_sockets: "ta_sockets (fold unregister_connection as ta) = ta_sockets ta"
  by (induction as arbitrary: ta) (simp_all add: unregister_connection_def)

lemma broadcast_effect:
  fixes ex :: "pystr option" and ta :: tcp_adapter
  assumes "rmap (\<lambda>m. to_frame C m (ta_auth_key ta)) ms = Inr fs" and "ms \<noteq> []"
    and "distinct (map snd (ta_connections ta))"
  defines "rs \<equiv> filter (\<lambda>p. Some (fst p) \<noteq> ex) (ta_connections ta)"
  shows "\<exists>ta'. broadcast C ms ex ta = (Inr (), ta') \<and>
    ta_sockets ta' = (\<lambda>j. if j \<in> snd ` set rs then after_send fs (ta_sockets ta j) else ta_sockets ta j) \<and>
    ta_connections ta' = filter (\<lambda>p. fst p \<notin> fst ` {q \<in> set rs. so_broken (ta_sockets ta (snd q))}) (ta_connections ta)"
proof -
  have "distinct (map snd rs)" unfolding rs_def using assms(3) by (rule distinct_map_filter)
  from broadcast_loop_effect [OF assms(1,2) this, of "[]"] show ?thesis
    unfolding broadcast_def using assms(2)
    by (simp add: obind_def rs_def [symmetric] unregister_all unregister_sockets)
qed

text \<open>The same seen from one registered connection.\<close>

lemma recipients_iff:
  assumes "distinct (map snd cs)" and "distinct (map fst cs)" and "(a, i) \<in> set cs"
  shows "i \<in> snd ` set (filter (\<lambda>p. Some (fst p) \<noteq> exclude) cs) \<longleftrightarrow> Some a \<noteq> exclude"
    and "a \<in> fst ` {q \<in> set (filter (\<lambda>p. Some (fst p) \<noteq> exclude) cs). B (snd q)} \<longleftrightarrow> Some a \<noteq> exclude \<and> B i"
proof -
  have same: "b = a" if "(b, i) \<in> set cs" for b
    using inj_onD [OF conjunct2 [OF assms(1) [unfolded distinct_map]] _ assms(3) that] by simp
  have "i \<in> snd ` set (filter (\<lambda>p. Some (fst p) \<noteq> exclude) cs) \<longleftrightarrow> (\<exists>b. (b, i) \<in> set cs \<and> Some b \<noteq> exclude)"
    by (simp add: image_iff Bex_def)
  with assms(3) same show "i \<in> snd ` set (filter (\<lambda>p. Some (fst p) \<noteq> exclude) cs) \<longleftrightarrow> Some a \<noteq> exclude" by blast
  have "a \<in> fst ` {q \<in> set (filter (\<lambda>p. Some (fst p) \<noteq> exclude) cs). B (snd q)} \<longleftrightarrow>
      (\<exists>j. (a, j) \<in> set cs \<and> Some a \<noteq> exclude \<and> B j)"
    by (simp add: image_iff Bex_def)
  with assms(3) eq_key_imp_eq_value [OF assms(2,3)]
  show "a \<in> fst ` {q \<in> set (filter (\<lambda>p. Some (fst p) \<noteq> exclude) cs). B (snd q)} \<longleftrightarrow> Some a \<noteq> exclude \<and> B i" by blast
qed

lemma broadcast_each:
  fixes ta ta' :: tcp_adapter
  assumes "distinct (map snd (ta_connections ta))" and "distinct (map fst (ta_connections ta))"
    and ai: "(a, i) \<in> set (ta_connections ta)"
    and socks: "ta_sockets ta' = (\<lambda>j. if j \<in> snd ` set (filter (\<lambda>p. Some (fst p) \<noteq> exclude) (ta_connections ta))
       then after_send fs (ta_sockets ta j) else ta_sockets ta j)"
    and conns: "ta_connections ta' = filter (\<lambda>p. fst p \<notin> fst ` {q \<in> set (filter (\<lambda>p. Some (fst p) \<noteq> exclude) (ta_connections ta)).
       so_broken (ta_sockets ta (snd q))}) (ta_connections ta)"
  shows "if Some a = exclude then ta_sockets ta' i = ta_sockets ta i \<and> (a, i) \<in> set (ta_connections ta')
     else if so_broken (ta_sockets ta i) then ta_sockets ta' i = ta_sockets ta i \<and> (a, i) \<notin> set (ta_connections ta')
     else ta_sockets ta' i = (ta_sockets ta i)\<lparr>so_sent := so_sent (ta_sockets ta i) @ fs\<rparr> \<and> (a, i) \<in> set (ta_connections ta')"
proof -
  define G where "G = fst ` {q \<in> set (filter (\<lambda>p. Some (fst p) \<noteq> exclude) (ta_connections ta)). so_broken (ta_sockets ta (snd q))}"
  have sock: "ta_sockets ta' i = (if Some a \<noteq> exclude then after_send fs (ta_sockets ta i) else ta_sockets ta i)"
    unfolding socks recipients_iff(1) [OF assms(1,2) ai] ..
  have "a \<in> G \<longleftrightarrow> Some a \<noteq> exclude \<and> so_broken (ta_sockets ta i)"
    unfolding G_def by (rule recipients_iff(2) [OF assms(1,2) ai])
  with ai conns [folded G_def] have "(a, i) \<in> set (ta_connections ta') \<longleftrightarrow> \<not> (Some a \<noteq> exclude \<and> so_broken (ta_sockets ta i))"
    by simp
  with sock show ?thesis by (simp add: after_send_def)
qed

section \<open>Closed connections\<close>

text \<open>An inbound connection from an address that is not known.\<close>

definition inbound_record :: "pystr \<Rightarrow> peer_record" where
  "inbound_record a = (new_record a 0 True)\<lparr>pr_state := CONNECTED\<rparr>"

lemma connecting_new:
  assumes "validate_address R a = Inr ()" and "map_of (pm_peers m) a = None" and "manager_ok m"
  shows "mark_connecting R a 0 True m =
    (if inbound_count m \<ge> pm_max_inbound m
     then (peer_manager_error ''inbound peer limit reached'', put_peer a (new_record a 0 True) m)
     else (Inr ((new_record a 0 True)\<lparr>pr_state := CONNECTING\<rparr>),
           put_peer a ((new_record a 0 True)\<lparr>pr_state := CONNECTING\<rparr>) m))"
proof -
  have "inbound_count (put_peer a (new_record a 0 True) m) = inbound_count m"
    using assms(2,3) by (simp add: counts_put new_record_def is_active_def)
  then show ?thesis
    using assms(1,2) by (simp add: mark_connecting_def peer_ops clear_expired_ban_def is_banned_def)
      (simp add: new_record_def)
qed

lemma accept_new:
  assumes "validate_address R a = Inr ()" and "map_of (pm_peers (sv_peers sv)) a = None" and "manager_ok (sv_peers sv)"
    and "node_height C (sv_node sv) = Inr h" and "inbound_count (sv_peers sv) < pm_max_inbound (sv_peers sv)"
  shows "accept_inbound_peer C R a 0 sv = (Inr (), sv\<lparr>sv_peers := put_peer a (inbound_record a) (sv_peers sv),
    sv_sessions := AList.update a (new_session (sv_network sv) (sv_node_id sv) h) (sv_sessions sv)\<rparr>)"
  using connecting_new [OF assms(1-3)] assms(4,5)
  by (simp add: accept_inbound_peer_def obind_def on_peers_def open_session_def peer_ops clear_expired_ban_def is_banned_def
      inbound_record_def) (simp add: new_record_def)

lemma accept_full:
  assumes "validate_address R a = Inr ()" and "map_of (pm_peers (sv_peers sv)) a = None" and "manager_ok (sv_peers sv)"
    and "inbound_count (sv_peers sv) = pm_max_inbound (sv_peers sv)"
  shows "fst (accept_inbound_peer C R a 0 sv) = peer_manager_error ''inbound peer limit reached''"
  using connecting_new [OF assms(1-3)] assms(4) by (simp add: accept_inbound_peer_def obind_def on_peers_def)

lemma delete_updated: "AList.delete a (AList.update a i d) = AList.delete a d"
  by (induction d) auto

text \<open>A connection that is opened and closed without a message keeps its slot.\<close>

lemma handle_closed:
  fixes ta :: tcp_adapter
  defines "sv \<equiv> ta_service ta"
  assumes "validate_address R a = Inr ()" and "map_of (pm_peers (sv_peers sv)) a = None" and "manager_ok (sv_peers sv)"
    and "node_height C (sv_node sv) = Inr h" and "inbound_count (sv_peers sv) < pm_max_inbound (sv_peers sv)"
    and "handle C R rt a i [] ta = (r, ta')"
  shows "r = Inr ()" and "ta_connections ta' = AList.delete a (ta_connections ta)"
    and "sv_node (ta_service ta') = sv_node sv" and "sv_peers (ta_service ta') = put_peer a (inbound_record a) (sv_peers sv)"
    and "map_of (sv_sessions (ta_service ta')) a = Some (new_session (sv_network sv) (sv_node_id sv) h)"
    and "manager_ok (sv_peers (ta_service ta'))"
    and "inbound_count (sv_peers (ta_service ta')) = inbound_count (sv_peers sv) + 1"
proof -
  note acc = accept_new [OF assms(2-6)]
  have ta': "r = Inr ()" "ta' = unregister_connection a (register_connection a i (ta\<lparr>ta_service :=
      sv\<lparr>sv_peers := put_peer a (inbound_record a) (sv_peers sv),
         sv_sessions := AList.update a (new_session (sv_network sv) (sv_node_id sv) h) (sv_sessions sv)\<rparr>\<rparr>))"
    using assms(7) acc unfolding sv_def by (simp_all add: handle_def on_service_def)
  then show "r = Inr ()" "sv_node (ta_service ta') = sv_node sv"
    "sv_peers (ta_service ta') = put_peer a (inbound_record a) (sv_peers sv)"
    "map_of (sv_sessions (ta_service ta')) a = Some (new_session (sv_network sv) (sv_node_id sv) h)"
    by (simp_all add: update_conv')
  show "ta_connections ta' = AList.delete a (ta_connections ta)"
    unfolding ta'(2) by (simp add: unregister_connection_def register_connection_def delete_updated)
  show "manager_ok (sv_peers (ta_service ta'))"
    using assms(4) ta' by (auto simp: inbound_record_def new_record_def)
  show "inbound_count (sv_peers (ta_service ta')) = inbound_count (sv_peers sv) + 1"
    using assms(3,4) ta' by (simp add: counts_put inbound_record_def new_record_def is_active_def)
qed

primrec opened_and_closed :: "crypto \<Rightarrow> py_runtime \<Rightarrow> (exn \<Rightarrow> pystr) \<Rightarrow> pystr list \<Rightarrow> tcp_adapter \<Rightarrow> tcp_adapter" where
  "opened_and_closed C R rt [] ta = ta"
| "opened_and_closed C R rt (a # as) ta = opened_and_closed C R rt as (snd (handle C R rt a 0 [] ta))"

lemma closed_keep_slots:
  fixes rt :: "exn \<Rightarrow> pystr"
  assumes "\<forall>a \<in> set as. validate_address R a = Inr () \<and> map_of (pm_peers (sv_peers (ta_service ta))) a = None" and "distinct as"
    and "manager_ok (sv_peers (ta_service ta))" and "node_height C (sv_node (ta_service ta)) = Inr h"
    and "inbound_count (sv_peers (ta_service ta)) + int (length as) \<le> pm_max_inbound (sv_peers (ta_service ta))"
    and "ta_connections ta = []"
  defines "ta' \<equiv> opened_and_closed C R rt as ta"
  shows "inbound_count (sv_peers (ta_service ta')) = inbound_count (sv_peers (ta_service ta)) + int (length as) \<and>
    ta_connections ta' = [] \<and> manager_ok (sv_peers (ta_service ta')) \<and>
    pm_max_inbound (sv_peers (ta_service ta')) = pm_max_inbound (sv_peers (ta_service ta)) \<and>
    (\<forall>b. b \<notin> set as \<longrightarrow> map_of (pm_peers (sv_peers (ta_service ta'))) b = map_of (pm_peers (sv_peers (ta_service ta))) b)"
  using assms(1-6) unfolding ta'_def
proof (induction as arbitrary: ta)
  case (Cons a as)
  obtain r ta1 where run: "handle C R rt a 0 [] ta = (r, ta1)" by (cases "handle C R rt a 0 [] ta")
  have room: "inbound_count (sv_peers (ta_service ta)) < pm_max_inbound (sv_peers (ta_service ta))" using Cons.prems(5) by simp
  have new: "validate_address R a = Inr ()" "map_of (pm_peers (sv_peers (ta_service ta))) a = None" using Cons.prems(1) by simp_all
  note h = handle_closed [OF new Cons.prems(3,4) room run]
  have "\<forall>b \<in> set as. validate_address R b = Inr () \<and> map_of (pm_peers (sv_peers (ta_service ta1))) b = None"
    using Cons.prems(1,2) h(4) by auto
  moreover have "node_height C (sv_node (ta_service ta1)) = Inr h" using h(3) Cons.prems(4) by simp
  moreover have "inbound_count (sv_peers (ta_service ta1)) + int (length as) \<le> pm_max_inbound (sv_peers (ta_service ta1))"
    using h(4,7) Cons.prems(5) by simp
  moreover have "ta_connections ta1 = []" using h(2) Cons.prems(6) by simp
  ultimately show ?case using Cons.IH [of ta1] Cons.prems(2) h(4,6,7) run by simp
qed simp

end
