(* ===== verification/Handler_Threads.thy ===== *)
theory Handler_Threads
  imports Transport_Laws
begin

text \<open>
  The connection handler as a thread. \<^verbatim>\<open>ThreadedTCPServer\<close> runs \<^verbatim>\<open>NodeTCPHandler.handle\<close> once per connection, each
  in a thread of its own; a handler is at a point of its loop, and a step runs the statement there. The
  calls of the service, of \<^verbatim>\<open>sendall\<close> for one answer and of \<^verbatim>\<open>send_to\<close> and \<^verbatim>\<open>broadcast\<close> are single steps: the
  model lets no other thread run inside them, although the code takes no lock on the service. Alone, the
  thread does what \<open>handle\<close> does.
\<close>

section \<open>Points and steps\<close>

datatype handler_point =
  Reading connection_buffer
| Dispatching "peer_message list" connection_buffer
| Answering service_result "peer_message list" connection_buffer
| Directing service_result "peer_message list" connection_buffer
| Relaying service_result "peer_message list" connection_buffer
| Finished "unit result"

text \<open>The \<^verbatim>\<open>finally\<close> clause.\<close>

definition finish_handler :: "pystr \<Rightarrow> unit result \<Rightarrow> tcp_adapter \<Rightarrow> handler_point \<times> tcp_adapter" where
  "finish_handler address r ta = (Finished r, unregister_connection address ta)"

definition handler_accept :: "crypto \<Rightarrow> py_runtime \<Rightarrow> pystr \<Rightarrow> nat \<Rightarrow> tcp_adapter \<Rightarrow> handler_point \<times> tcp_adapter" where
  "handler_accept C R address i ta =
     (case on_service (accept_inbound_peer C R address 0) ta of
        (Inl e, ta1) \<Rightarrow> (Finished (if is_peer_manager_error e then Inr () else Inl e), ta1)
      | (Inr _, ta1) \<Rightarrow> (Reading \<lparr>cb_auth_key = ta_auth_key ta, cb_data = []\<rparr>, register_connection address i ta1))"

text \<open>One statement; \<open>received\<close> is what \<^verbatim>\<open>recv\<close> returns if the statement is the call of it.\<close>

fun handler_step :: "crypto \<Rightarrow> py_runtime \<Rightarrow> (exn \<Rightarrow> pystr) \<Rightarrow> pystr \<Rightarrow> nat \<Rightarrow> bytes result \<Rightarrow> handler_point \<Rightarrow> tcp_adapter \<Rightarrow>
    handler_point \<times> tcp_adapter" where
  "handler_step C R rt address i received (Reading buffer) ta =
     (case received of
        Inl e \<Rightarrow> finish_handler address (Inl e) ta
      | Inr chunk \<Rightarrow>
          if chunk = [] then finish_handler address (Inr ()) ta
          else
            (case feed C R chunk buffer of
               (Inl e, _) \<Rightarrow> finish_handler address (if is_network_error e then Inr () else Inl e) ta
             | (Inr messages, buffer') \<Rightarrow> (Dispatching messages buffer', ta)))"
| "handler_step C R rt address i received (Dispatching [] buffer) ta = (Reading buffer, ta)"
| "handler_step C R rt address i received (Dispatching (m # ms) buffer) ta =
     (case on_service (service_receive C R rt address m 0) ta of
        (Inl e, ta') \<Rightarrow> finish_handler address (Inl e) ta'
      | (Inr result, ta') \<Rightarrow> (Answering result ms buffer, ta'))"
| "handler_step C R rt address i received (Answering result ms buffer) ta =
     (case send_messages C i (sr_direct result) ta of
        (Inl e, ta') \<Rightarrow> finish_handler address (Inl e) ta'
      | (Inr _, ta') \<Rightarrow> (Directing result ms buffer, ta'))"
| "handler_step C R rt address i received (Directing result ms buffer) ta =
     (case send_to_all C (sr_direct_to result) ta of
        (Inl e, ta') \<Rightarrow> finish_handler address (Inl e) ta'
      | (Inr _, ta') \<Rightarrow> (Relaying result ms buffer, ta'))"
| "handler_step C R rt address i received (Relaying result ms buffer) ta =
     (case broadcast C (sr_relay result) (Some address) ta of
        (Inl e, ta') \<Rightarrow> finish_handler address (Inl e) ta'
      | (Inr _, ta') \<Rightarrow> if sr_disconnect result then finish_handler address (Inr ()) ta' else (Dispatching ms buffer, ta'))"
| "handler_step C R rt address i received (Finished r) ta = (Finished r, ta)"

section \<open>A handler that runs alone\<close>

text \<open>The steps of one handler to its end, with the outcomes of \<^verbatim>\<open>recv\<close> in order; after the last the peer has closed.\<close>

definition reads :: "handler_point \<Rightarrow> bool" where
  "reads p \<longleftrightarrow> (\<exists>b. p = Reading b)"

inductive runs_alone :: "crypto \<Rightarrow> py_runtime \<Rightarrow> (exn \<Rightarrow> pystr) \<Rightarrow> pystr \<Rightarrow> nat \<Rightarrow> handler_point \<times> tcp_adapter \<Rightarrow>
    bytes result list \<Rightarrow> unit result \<Rightarrow> tcp_adapter \<Rightarrow> bool" for C R rt a i where
  ended: "runs_alone C R rt a i (Finished r, ta) rs r ta"
| receives: "runs_alone C R rt a i (handler_step C R rt a i x (Reading b) ta) rs r ta' \<Longrightarrow>
    runs_alone C R rt a i (Reading b, ta) (x # rs) r ta'"
| closed: "runs_alone C R rt a i (handler_step C R rt a i (Inr []) (Reading b) ta) [] r ta' \<Longrightarrow>
    runs_alone C R rt a i (Reading b, ta) [] r ta'"
| works: "\<not> reads p \<Longrightarrow> runs_alone C R rt a i (handler_step C R rt a i x p ta) rs r ta' \<Longrightarrow>
    runs_alone C R rt a i (p, ta) rs r ta'"

text \<open>Where a handler goes after a message, or after all messages of a chunk.\<close>

definition after_message :: "pystr \<Rightarrow> handler_point \<Rightarrow> bool result \<times> tcp_adapter \<Rightarrow> handler_point \<times> tcp_adapter" where
  "after_message a p x =
     (case x of
        (Inl e, ta) \<Rightarrow> finish_handler a (Inl e) ta
      | (Inr stop, ta) \<Rightarrow> if stop then finish_handler a (Inr ()) ta else (p, ta))"

lemma message_runs:
  assumes "runs_alone C R rt a i (after_message a (Dispatching ms b) (handle_message C R rt a i m ta)) rs r ta'"
  shows "runs_alone C R rt a i (Dispatching (m # ms) b, ta) rs r ta'"
  using assms
  by (auto simp: handle_message_def after_message_def obind_def reads_def intro!: runs_alone.works [where x = "Inr []"]
      split: prod.splits sum.splits if_splits)

lemma messages_run:
  assumes "runs_alone C R rt a i (after_message a (Reading b) (handle_messages C R rt a i ms ta)) rs r ta'"
  shows "runs_alone C R rt a i (Dispatching ms b, ta) rs r ta'"
  using assms
proof (induction ms arbitrary: ta)
  case Nil
  then show ?case by (auto simp: after_message_def reads_def intro!: runs_alone.works [where x = "Inr []"])
next
  case (Cons m ms)
  obtain x ta1 where run: "handle_message C R rt a i m ta = (x, ta1)" by (cases "handle_message C R rt a i m ta")
  show ?case
  proof (rule message_runs)
    show "runs_alone C R rt a i (after_message a (Dispatching ms b) (handle_message C R rt a i m ta)) rs r ta'"
      using Cons run by (auto simp: after_message_def obind_def split: sum.splits if_splits)
  qed
qed

lemma loop_runs:
  assumes "handle_loop C R rt a i received b ta = (r, ta')"
  shows "runs_alone C R rt a i (Reading b, ta) received r (unregister_connection a ta')"
  using assms
proof (induction received arbitrary: b ta)
  case Nil
  then show ?case by (auto simp: finish_handler_def intro!: runs_alone.closed runs_alone.ended)
next
  case (Cons x received)
  show ?case
  proof (cases "\<exists>chunk ms b'. x = Inr chunk \<and> chunk \<noteq> [] \<and> feed C R chunk b = (Inr ms, b')")
    case True
    then obtain chunk ms b' where f: "x = Inr chunk" "chunk \<noteq> []" "feed C R chunk b = (Inr ms, b')" by blast
    obtain y ta1 where run: "handle_messages C R rt a i ms ta = (y, ta1)" by (cases "handle_messages C R rt a i ms ta")
    have "runs_alone C R rt a i (after_message a (Reading b') (y, ta1)) received r (unregister_connection a ta')"
      using Cons f run
      by (cases y) (auto simp: after_message_def finish_handler_def obind_def intro!: runs_alone.ended)
    with run have "runs_alone C R rt a i (Dispatching ms b', ta) received r (unregister_connection a ta')"
      by (intro messages_run) simp
    with f show ?thesis by (intro runs_alone.receives) simp
  next
    case False
    with Cons.prems show ?thesis
      by (intro runs_alone.receives)
        (auto simp: finish_handler_def intro!: runs_alone.ended split: sum.splits if_splits prod.splits)
  qed
qed

lemma step_ignores_received: "\<not> reads p \<Longrightarrow> handler_step C R rt a i x p ta = handler_step C R rt a i y p ta"
  by (cases "(C, R, rt, a, i, x, p, ta)" rule: handler_step.cases) (auto simp: reads_def)

inductive_cases runs_alone_Reading: "runs_alone C R rt a i (Reading b, ta) rs r' ta'"

lemma finished_stays: "runs_alone C R rt a i s rs r' ta' \<Longrightarrow> s = (Finished r, ta) \<Longrightarrow> r' = r \<and> ta' = ta"
  by (induction rule: runs_alone.induct) auto

lemma runs_alone_fun:
  "runs_alone C R rt a i s rs r ta \<Longrightarrow> runs_alone C R rt a i s rs r' ta' \<Longrightarrow> r' = r \<and> ta' = ta"
proof (induction arbitrary: r' ta' rule: runs_alone.induct)
  case (ended r ta rs)
  then show ?case using finished_stays by blast
next
  case (receives x b ta rs r ta1)
  from receives.prems show ?case by (rule runs_alone_Reading) (use receives.IH in \<open>auto simp: reads_def\<close>)
next
  case (closed b ta r ta1)
  from closed.prems show ?case by (rule runs_alone_Reading) (use closed.IH in \<open>auto simp: reads_def\<close>)
next
  case (works p x ta rs r ta1)
  note nr = works.hyps(1) and run = works.hyps(2) and IH = works.IH
  from works.prems show ?case
  proof cases
    case ended
    with run finished_stays [OF run] show ?thesis by simp
  next
    case (works y)
    have "handler_step C R rt a i y p ta = handler_step C R rt a i x p ta" by (rule step_ignores_received [OF nr])
    with IH works show ?thesis by simp
  qed (use nr in \<open>simp_all add: reads_def\<close>)
qed

text \<open>The sequential handler is the run of one thread with no other thread in between.\<close>

lemma handle_runs_alone:
  "handle C R rt a i received ta = (r, ta') \<longleftrightarrow> runs_alone C R rt a i (handler_accept C R a i ta) received r ta'"
proof
  show run: "runs_alone C R rt a i (handler_accept C R a i ta) received r ta'" if "handle C R rt a i received ta = (r, ta')" for r ta'
    using that loop_runs
    by (auto simp: handle_def handler_accept_def Let_def intro: runs_alone.ended split: prod.splits sum.splits if_splits)
  assume "runs_alone C R rt a i (handler_accept C R a i ta) received r ta'"
  with runs_alone_fun run show "handle C R rt a i received ta = (r, ta')" by (metis surj_pair)
qed

section \<open>Steps keep the invariants of the service\<close>

lemma finish_handler_service [simp]: "ta_service (snd (finish_handler a r ta)) = ta_service ta"
  by (simp add: finish_handler_def)

context connection_invariant
begin

lemma accept_step_keeps:
  assumes "T 0" and "P (ta_service ta)"
  shows "P (ta_service (snd (handler_accept C R a i ta)))"
  using keeps_on_service [OF accept [OF assms(1)], of a] assms(2)
  by (auto simp: handler_accept_def keeps_def split: prod.split sum.split)

lemma step_keeps:
  assumes "T 0" and "P (ta_service ta)"
  shows "P (ta_service (snd (handler_step C R rt a i received p ta)))"
proof -
  have one: "P (ta_service ta')" if "on_service (service_receive C R rt a m 0) ta = (x, ta')" for m x ta'
    by (rule keepsD [OF keeps_on_service [OF receive [OF assms(1)]] assms(2) that])
  have sent: "P (ta_service ta')" if "send_messages C i ms ta = (x, ta')" for ms x ta'
    using preservesD [OF send_preserves that] assms(2) by simp
  have sent_to: "P (ta_service ta')" if "send_to_all C ps ta = (x, ta')" for ps x ta'
    using preservesD [OF send_to_all_preserves that] assms(2) by simp
  have relayed: "P (ta_service ta')" if "broadcast C ms ex ta = (x, ta')" for ms ex x ta'
    using preservesD [OF broadcast_preserves that] assms(2) by simp
  show ?thesis
    using assms(2) one sent sent_to relayed
    by (cases "(C, R, rt, a, i, received, p, ta)" rule: handler_step.cases)
      (auto split: sum.split prod.split)
qed

end

end
