(* ===== verification/Process_Laws.thy ===== *)
theory Process_Laws
  imports Encodable_Blocks Handler_Threads
begin

text \<open>
  What a node process keeps: besides the validity of the node, a mempool whose transactions can all be
  encoded, so that every block the process mines has an encoding that reads back.
\<close>

section \<open>The mempool stays encodable\<close>

definition pool_view :: "consensus_node \<Rightarrow> mempool_policy \<times> consensus_transaction list" where
  "pool_view n = (nd_policy n, nd_mempool n)"

lemma keeps_pool_view: "preserves pool_view m \<Longrightarrow> keeps pool_ok m"
  by (simp add: preserves_def keeps_def pool_view_def pool_ok_def)

lemma pool_preserves [preserving]:
  "preserves pool_view (persist_mempool C)" "preserves pool_view (activate C old_tip)"
  "preserves pool_view (refresh_index C stored active)" "preserves pool_view (validate_and_store C rt b h)"
proof -
  show "preserves pool_view (persist_mempool C)"
    by (simp add: preserves_def persist_mempool_def pool_view_def split: option.split prod.split)
  show "preserves pool_view (activate C old_tip)"
    unfolding activate_def by (intro preserving) (simp_all add: pool_view_def)
  show "preserves pool_view (refresh_index C stored active)"
    by (rule refresh_view) (simp add: pool_view_def)
  show "preserves pool_view (validate_and_store C rt b h)"
    by (auto simp: preserves_def validate_and_store_def mark_rejected_def put_in_store_def obind_def pool_view_def
        split: prod.split sum.split option.split)
qed

lemma keeps_drop_included: "keeps pool_ok (drop_included C b)"
proof -
  have "pool_ok (n\<lparr>nd_mempool := rest\<rparr>)"
    if "rfilter (\<lambda>t. rbind (txid C t) (\<lambda>i. Inr (i \<notin> set included))) (nd_mempool n) = Inr rest" "pool_ok n" for n rest included
    using rfilter_subset [OF that(1)] that(2) by (auto simp: pool_ok_def list_all_iff)
  then show ?thesis by (auto simp: keeps_def drop_included_def obind_def split: sum.split)
qed

lemma keeps_prune: "keeps pool_ok (prune_invalid_mempool C)"
proof -
  have "pool_ok (n\<lparr>nd_mempool := prune_loop C (nd_policy n) (nd_mempool n) [] c\<rparr>)" if "pool_ok n" for n c
    using that admitted_pool [of "nd_mempool n" C c] by (simp add: pool_ok_def list_all_iff tx_item_ok_def)
  then show ?thesis by (auto simp: keeps_def prune_invalid_mempool_def obind_def split: sum.split)
qed

lemma import_pool_ok: "keeps pool_ok (import_block C rt b)"
  unfolding import_block_def
  by (intro keeping keeps_drop_included keeps_prune keeps_pool_view pool_preserves)

lemma submit_pool_ok:
  assumes "tx_ok True tx"
  shows "keeps pool_ok (submit_transaction C tx)"
proof -
  have "pool_ok (n\<lparr>nd_mempool := mempool\<rparr>)" if adm: "admit C n tx = Inr (t, mempool)" and ok: "pool_ok n" for n t mempool
  proof -
    obtain remaining c fee c' where a: "mempool = remaining @ [tx]" "set remaining \<subseteq> set (nd_mempool n)"
      "policy_validate (nd_policy n) tx fee (int (length remaining)) = Inr ()" by (rule admit_Inr [OF adm])
    with ok have "tx_item_ok tx" "length remaining < 5000"
      using assms by (auto simp: pool_ok_def policy_validate_Inr default_policy_def tx_item_ok_def blob_ok_def)
    with a ok show ?thesis by (auto simp: pool_ok_def list_all_iff)
  qed
  then have "keeps pool_ok (obind (oeval (\<lambda>n. admit C n tx)) (\<lambda>(t, mempool). omodify (nd_mempool_update (\<lambda>_. mempool))))"
    by (auto simp: keeps_def obind_def split: sum.split prod.split)
  then show ?thesis
    using keeps_pool_view [OF pool_preserves(1) [of C]]
    by (auto simp: keeps_def submit_transaction_def obind_def split: sum.split prod.split)
qed

section \<open>The invariant of a process\<close>

definition process_ok :: "crypto \<Rightarrow> consensus_node \<Rightarrow> bool" where
  "process_ok C n \<longleftrightarrow> digest_ok C \<and> node_ok C n \<and> pool_ok n"

lemma process_mines: "process_ok C n \<Longrightarrow> mines_encodable C miner clock n"
  unfolding process_ok_def mines_encodable_def node_ok_def using pool_mines_ok by metis

interpretation process: node_invariant C rt "process_ok C" for C rt
  using valid_node.submits valid_node.imports_block submit_pool_ok import_pool_ok
  by unfold_locales (simp_all add: process_ok_def keeps_def)

text \<open>
  Every method of the service keeps it, if the transactions that are submitted locally are such as a
  peer could have sent.
\<close>

interpretation process_service: service_invariant C R rt "\<lambda>sv. process_ok C (sv_node sv)" "\<lambda>_. True" "tx_ok True" for C R rt
  by unfold_locales
    (auto intro: process.keeps_receive process.submit_local_keeps process.mine_local_keeps process_mines
      keeps_preserves preserves_sessions keeps_core expire_preserves)

end
