(* ===== verification/Ban_Laws.thy ===== *)
theory Ban_Laws
  imports Service_Runs
begin

text \<open>
  A banned peer stays shut out: whatever methods of the service are called before its ban ends, it gets
  no session, and the ban is neither lifted nor shortened.
\<close>

section \<open>Operations that touch neither sessions nor the address book\<close>

definition gate :: "node_service \<Rightarrow> (pystr, peer_session) dict \<times> peer_manager" where
  "gate sv = (sv_sessions sv, sv_peers sv)"

lemma gate_basic [preserving]:
  "preserves gate (progress_for b)" "preserves gate (store_progress b p)" "preserves gate (on_node f)"
  "preserves gate (omodify (\<lambda>sv. sv\<lparr>sv_in_flight := F sv\<rparr>))" "preserves gate (omodify (\<lambda>sv. sv\<lparr>sv_transactions := X sv\<rparr>))"
  "preserves gate (omodify (\<lambda>sv. sv\<lparr>sv_peer_sync := Y sv\<rparr>))" "preserves gate (omodify (\<lambda>sv. sv\<lparr>sv_blocks := B sv\<rparr>))"
  by (simp_all add: preserves_def gate_def progress_for_def store_progress_def on_node_def Let_def split: prod.split option.split)

lemma gate_progress [preserving]: "preserves gate (record_progress b f)" "preserves gate (clear_peer_downloads b c)"
proof -
  show "preserves gate (record_progress b f)" for b f unfolding record_progress_def by (intro preserving)
  then show "preserves gate (clear_peer_downloads b c)" unfolding clear_peer_downloads_def by (intro preserving)
qed

lemma gate_expire [preserving]: "preserves gate (expire_loop ds)" "preserves gate (expire_block_downloads now)"
proof -
  show loop: "preserves gate (expire_loop ds)" for ds
    by (induction ds) (simp_all only: expire_loop.simps, (intro preserving; assumption?)+)
  show "preserves gate (expire_block_downloads now)" unfolding expire_block_downloads_def by (intro preserving loop)
qed

lemma gate_rank [preserving]: "preserves gate (rank_peers source as)"
  by (induction as) (simp_all only: rank_peers.simps, (intro preserving; assumption?)+)

lemma gate_request [preserving]: "preserves gate (request_block source h avoid now rs)"
  unfolding request_block_def select_block_download_peer_def by (intro preserving)

lemma gate_loops [preserving]:
  "preserves gate (request_headers C b now hs rs)" "preserves gate (request_again now ds rs)" "preserves gate (index_transactions C txs)"
proof -
  show "preserves gate (request_headers C b now hs rs)"
    by (induction hs arbitrary: rs) (simp_all only: request_headers.simps, (intro preserving; assumption?)+)
  show "preserves gate (request_again now ds rs)"
    by (induction ds arbitrary: rs) (simp_all only: request_again.simps, (intro preserving; assumption?)+)
  show "preserves gate (index_transactions C txs)"
    by (induction txs) (simp_all only: index_transactions.simps, (intro preserving; assumption?)+)
qed

lemma gate_handlers [preserving]:
  "preserves gate (handle_getdata R d)" "preserves gate (handle_getheaders C R d)" "preserves gate (handle_headers C R b d now)"
  "preserves gate (handle_transaction C d)" "preserves gate (handle_block C rt d)" "preserves gate (service_payload m)"
  unfolding handle_getdata_def handle_getheaders_def handle_headers_def handle_transaction_def handle_block_def
    service_payload_def finish_download_def
  by (intro preserving)+

lemma gate_route [preserving]: "preserves gate (route C R rt b m now)"
  unfolding route_def by (cases "msg_type m") (simp_all only: message_type.case, (intro preserving)+)

lemma gate_local [preserving]:
  "preserves gate (retry_expired_block_downloads now)" "preserves gate (submit_local_transaction C tx)"
  "preserves gate (mine_local_block C rt miner clock)"
  unfolding retry_expired_block_downloads_def submit_local_transaction_def mine_local_block_def by (intro preserving)+

section \<open>A peer that is shut out\<close>

definition shut_out :: "int \<Rightarrow> pystr \<Rightarrow> node_service \<Rightarrow> bool" where
  "shut_out t a sv \<longleftrightarrow> map_of (sv_sessions sv) a = None \<and> banned_until_at_least t a (sv_peers sv)"

lemma keeps_gate: "preserves gate m \<Longrightarrow> keeps (shut_out t a) m"
  by (simp add: preserves_def keeps_def gate_def shut_out_def)

lemma keeps_on_peers: "(\<And>p. banned_until_at_least t a p \<Longrightarrow> banned_until_at_least t a (snd (f p))) \<Longrightarrow> keeps (shut_out t a) (on_peers f)"
  by (auto simp: keeps_def on_peers_def shut_out_def split: prod.split) (metis snd_conv)+

lemma keeps_session_delete: "keeps (shut_out t a) (omodify (\<lambda>sv. sv\<lparr>sv_sessions := AList.delete b (sv_sessions sv)\<rparr>))"
  by (rule keeps_omodify) (simp add: shut_out_def map_of_delete_dict)

lemma keeps_marks:
  assumes "now < t"
  shows "keeps (shut_out t a) (on_peers (add_peer R b now inb))" "keeps (shut_out t a) (on_peers (mark_connecting R b now inb))"
    "keeps (shut_out t a) (on_peers (mark_connected b now))" "keeps (shut_out t a) (on_peers (mark_disconnected b now))"
  using assms banned_same [of t a _ now] banned_other [of t a _ b]
  by (cases "a = b"; intro keeps_on_peers; simp)+

text \<open>What the service does for another peer.\<close>

lemma keeps_other_session:
  assumes "b \<noteq> a"
  shows "keeps (shut_out t a) (on_session b s f)" "keeps (shut_out t a) (open_session C b)"
proof -
  show "keeps (shut_out t a) (on_session b s f)"
    using assms by (simp add: keeps_def on_session_def shut_out_def map_of_update_dict split: prod.split)
  have "keeps (shut_out t a) (omodify (\<lambda>sv. sv\<lparr>sv_sessions := AList.update b s (sv_sessions sv)\<rparr>))" for s
    by (rule keeps_omodify) (use assms in \<open>simp add: shut_out_def map_of_update_dict\<close>)
  then show "keeps (shut_out t a) (open_session C b)" unfolding open_session_def by (intro keeping)
qed

lemma keeps_penalize_other: "b \<noteq> a \<Longrightarrow> keeps (shut_out t a) (penalize_peer b score now)"
  unfolding penalize_peer_def
  by (intro keeping keeps_on_peers keeps_session_delete keeps_gate [OF gate_progress(2)]) (simp add: banned_other)

lemma keeps_reconnect:
  assumes "now < t"
  shows "keeps (shut_out t a) (reconnect R b now)"
proof -
  have "keeps (shut_out t a) (obind (on_peers (add_peer R b now False)) (\<lambda>_.
          obind (on_peers (mark_connected b now)) (\<lambda>_. oreturn ())))"
    by (intro keeping keeps_marks assms)
  then show ?thesis
    using keeps_marks(3) [OF assms, of a b] unfolding keeps_def reconnect_def
    by (auto split: prod.split sum.split exn.split)
qed

lemma keeps_session_for_other: "b \<noteq> a \<Longrightarrow> now < t \<Longrightarrow> keeps (shut_out t a) (session_for C R b now)"
  unfolding session_for_def
  by (intro keeps_obind keeps_basic) (auto split: option.split intro!: keeping keeps_reconnect keeps_other_session)

lemma keeps_route_result_other:
  assumes "b \<noteq> a"
  shows "keeps (shut_out t a) (route_result C R rt b m now direct)"
proof -
  have pen: "keeps (shut_out t a) (obind (penalize_peer b 10 now) (\<lambda>d. oreturn (g d)))" for g :: "bool \<Rightarrow> service_result"
    by (intro keeping keeps_penalize_other assms)
  show ?thesis
    unfolding keeps_def
  proof (intro allI impI)
    fix sv :: node_service assume ok: "shut_out t a sv"
    obtain r sv' where run: "route C R rt b m now sv = (r, sv')" by (cases "route C R rt b m now sv")
    have "shut_out t a sv'" by (rule keepsD [OF keeps_gate [OF gate_route] ok run])
    then show "shut_out t a (snd (route_result C R rt b m now direct sv))"
      using pen unfolding route_result_def run keeps_def by (auto split: sum.split exn.split)
  qed
qed

lemma keeps_receive_other:
  assumes "b \<noteq> a" and "now < t"
  shows "keeps (shut_out t a) (service_receive C R rt b m now)"
  unfolding keeps_def
proof (intro allI impI)
  fix sv :: node_service assume ok: "shut_out t a sv"
  obtain x sv1 where run: "session_for C R b now sv = (x, sv1)" by (cases "session_for C R b now sv")
  have ok1: "shut_out t a sv1" by (rule keepsD [OF keeps_session_for_other [OF assms] ok run])
  have "keeps (shut_out t a) (obind (on_session b s (session_receive C R m)) (\<lambda>direct.
          if is_reject direct
          then obind (penalize_peer b 10 now) (\<lambda>disconnect.
                 oreturn \<lparr>sr_direct = direct, sr_direct_to = [], sr_relay = [], sr_disconnect = disconnect\<rparr>)
          else route_result C R rt b m now direct))" for s
    by (intro keeping keeps_route_result_other keeps_other_session keeps_penalize_other assms(1))
  then show "shut_out t a (snd (service_receive C R rt b m now sv))"
    using ok1 run unfolding keeps_def service_receive_def by (auto split: sum.split exn.split)
qed

text \<open>What it does for the peer itself: opening a connection fails, and a message is answered by a notice.\<close>

lemma shut_out_connect:
  assumes "shut_out t a sv" and "now < t"
  shows "\<exists>e sv'. on_peers (mark_connecting R a now inb) sv = (Inl e, sv') \<and> shut_out t a sv'"
proof -
  obtain x sv' where run: "on_peers (mark_connecting R a now inb) sv = (x, sv')"
    by (cases "on_peers (mark_connecting R a now inb) sv")
  have ban: "banned_until_at_least t a (sv_peers sv)" using assms(1) by (simp add: shut_out_def)
  have "\<exists>e. fst (mark_connecting R a now inb (sv_peers sv)) = Inl e"
  proof (cases "validate_address R a")
    case (Inl e)
    then show ?thesis by (simp add: mark_connecting_def add_peer_def obind_def)
  next
    case (Inr u)
    then show ?thesis using banned_refuses(1) [OF ban assms(2)] by simp
  qed
  then obtain e where "x = Inl e" using run by (auto simp: on_peers_def split: prod.splits)
  with run keepsD [OF keeps_marks(2) [OF assms(2)] assms(1) run] show ?thesis by blast
qed

lemma keeps_opening:
  assumes "now < t" and "\<And>x. b \<noteq> a \<Longrightarrow> keeps (shut_out t a) (f x)"
  shows "keeps (shut_out t a) (obind (on_peers (mark_connecting R b now inb)) f)"
proof (cases "b = a")
  case True
  then show ?thesis
    unfolding keeps_def using shut_out_connect [OF _ assms(1), of a _ R inb] by (fastforce simp: obind_def)
next
  case False
  then show ?thesis by (intro keeps_obind keeps_marks assms)
qed

lemma shut_out_methods:
  assumes "now < t"
  shows "keeps (shut_out t a) (connect_peer C R b now inb)" "keeps (shut_out t a) (accept_inbound_peer C R b now)"
  unfolding connect_peer_def accept_inbound_peer_def
  by (intro keeps_opening assms keeps_obind keeps_basic keeps_marks keeps_other_session; assumption)+

lemma update_same: "map_of d k = Some v \<Longrightarrow> AList.update k v d = d"
  by (induction d) auto

lemma mark_connected_banned:
  assumes "banned_until_at_least t a m" and "now < t"
  shows "mark_connected a now m = (peer_manager_error ''peer is banned'', m)"
proof -
  obtain r where r: "map_of (pm_peers m) a = Some r" "is_banned r" "t \<le> pr_banned_until r" by (rule banned_obtain [OF assms(1)])
  then have "put_peer a r m = m" by (simp add: put_peer_def update_same)
  with r assms(2) banned_clear [of r now] show ?thesis by (simp add: peer_ops)
qed

text \<open>The address book notes that the peer was seen, and nothing else changes.\<close>

lemma shut_out_notice:
  assumes "shut_out t a sv" and "now < t" and "validate_address R a = Inr ()"
  shows "service_receive C R rt a m now sv = (Inr banned_result, sv\<lparr>sv_peers := snd (add_peer R a now False (sv_peers sv))\<rparr>)"
proof -
  have ban: "banned_until_at_least t a (sv_peers sv)" and none: "map_of (sv_sessions sv) a = None"
    using assms(1) by (simp_all add: shut_out_def)
  obtain r p where add: "add_peer R a now False (sv_peers sv) = (Inr r, p)"
    using assms(3) by (cases "map_of (pm_peers (sv_peers sv)) a") (auto simp: peer_ops)
  have ban2: "banned_until_at_least t a p" using banned_same(1) [OF ban assms(2), of R False] add by simp
  have "reconnect R a now sv = (peer_manager_error ''peer is banned'', sv\<lparr>sv_peers := p\<rparr>)"
    by (simp add: reconnect_def on_peers_def mark_connected_banned [OF ban assms(2)] mark_connected_banned [OF ban2 assms(2)] add obind_def)
  then show ?thesis using none add by (simp add: service_receive_def session_for_def obind_def)
qed

lemma keeps_receive_own:
  assumes "now < t"
  shows "keeps (shut_out t a) (service_receive C R rt a m now)"
  unfolding keeps_def
proof (intro allI impI)
  fix sv :: node_service assume ok: "shut_out t a sv"
  then have ban: "banned_until_at_least t a (sv_peers sv)" and none: "map_of (sv_sessions sv) a = None"
    by (simp_all add: shut_out_def)
  show "shut_out t a (snd (service_receive C R rt a m now sv))"
  proof (cases "validate_address R a")
    case (Inl e)
    then have "add_peer R a now False (sv_peers sv) = (Inl e, sv_peers sv)" by (simp add: add_peer_def obind_def)
    then have "session_for C R a now sv = (Inl e, sv)"
      using none by (simp add: session_for_def reconnect_def on_peers_def mark_connected_banned [OF ban assms] obind_def)
    with ok show ?thesis by (cases e) (simp_all add: service_receive_def)
  next
    case (Inr u)
    with shut_out_notice [OF ok assms] banned_same(1) [OF ban assms] none show ?thesis by (simp add: shut_out_def)
  qed
qed

text \<open>Every run of the service at times before the ban ends.\<close>

interpretation bans: service_invariant C R rt "shut_out t a" "\<lambda>now. now < t" L for C R rt t a L
proof
  show "keeps (shut_out t a) (service_receive C R rt b m now)" if "now < t" for b m now
    using keeps_receive_own [OF that] keeps_receive_other [OF _ that] by (cases "b = a") simp_all
  show "keeps (shut_out t a) (disconnect_peer b now)" if "now < t" for b now
    unfolding disconnect_peer_def by (intro keeping keeps_marks [OF that] keeps_session_delete keeps_gate [OF gate_progress(2)])
qed (auto intro: shut_out_methods keeps_gate gate_expire gate_local)

lemma cut_off_shut_out: "cut_off t a sv \<Longrightarrow> shut_out t a sv"
  by (simp add: cut_off_def shut_out_def)

text \<open>Opening a connection to it fails.\<close>

lemma opening_refused:
  assumes "shut_out t a sv" and "now < t" and "validate_address R a = Inr ()"
  shows "fst (obind (on_peers (mark_connecting R a now inb)) f sv) = peer_manager_error ''peer is banned''"
  using banned_refuses(1) [OF _ assms(2,3), of "sv_peers sv" inb] assms(1)
  by (cases "mark_connecting R a now inb (sv_peers sv)") (simp add: shut_out_def on_peers_def obind_def)

lemma shut_out_refused:
  assumes "shut_out t a sv" and "now < t" and "validate_address R a = Inr ()"
  shows "fst (connect_peer C R a now inb sv) = peer_manager_error ''peer is banned''"
    and "fst (accept_inbound_peer C R a now sv) = peer_manager_error ''peer is banned''"
  unfolding connect_peer_def accept_inbound_peer_def by (rule opening_refused [OF assms])+

text \<open>No download is left with a peer that has no session.\<close>

lemma shut_out_downloads: "shut_out t a sv \<Longrightarrow> downloads_ok sv \<Longrightarrow> in_flight_count sv a = 0"
  by (force simp: shut_out_def downloads_ok_def in_flight_count_def filter_empty_conv map_of_eq_None_iff)

end
