(* ===== verification/Header_Sync_Laws.thy ===== *)
theory Header_Sync_Laws
  imports Service_Laws
begin

text \<open>
  Header-first synchronisation: what a node answers to \<^verbatim>\<open>getheaders\<close> is a stretch of its active chain, and
  passes the checks a peer applies to received headers.
\<close>

lemma block_hash_root: "block_hash C b = Inr h \<Longrightarrow> blk_transaction_root b \<noteq> []"
  by (auto simp: block_hash_def header_bytes_def encode_hash_def)

lemma header_links_chain:
  assumes "header_links C height prev bs"
  shows "list_all (header_meets C) (map header_of_block bs)" and "successively (follows C) (map header_of_block bs)"
proof -
  have hash: "\<exists>h. block_hash C (bs ! k) = Inr h \<and> starts_with (replicate (nat (blk_difficulty (bs ! k))) 48) h"
    and height: "blk_height (bs ! k) = height + int k"
    and link: "k \<noteq> 0 \<Longrightarrow> blk_previous_hash (bs ! k) = projr (block_hash C (bs ! (k - 1)))" if "k < length bs" for k
    using assms that by (auto simp: header_links_def check_header_iff split: if_splits)
  have hh: "header_hash C (header_of_block (bs ! k)) = block_hash C (bs ! k)" if "k < length bs" for k
    using hash [OF that] block_hash_root by (auto intro: header_of_block_hash)
  show "list_all (header_meets C) (map header_of_block bs)"
    unfolding list_all_length header_meets_def using hash hh by (auto simp: header_of_block_def)
  show "successively (follows C) (map header_of_block bs)"
    unfolding successively_conv_nth
  proof (intro allI impI)
    fix i assume "Suc i < length (map header_of_block bs)"
    then have i: "i < length bs" "Suc i < length bs" by simp_all
    from hash [OF i(1)] obtain h where h: "block_hash C (bs ! i) = Inr h" by blast
    then have "header_hash C (header_of_block (bs ! i)) = Inr h" using hh [OF i(1)] by simp
    moreover have "blk_previous_hash (bs ! Suc i) = h" using link [OF i(2)] h by simp
    moreover have "blk_height (bs ! Suc i) = blk_height (bs ! i) + 1" using height [OF i(1)] height [OF i(2)] by simp
    ultimately show "follows C (map header_of_block bs ! i) (map header_of_block bs ! Suc i)"
      using i by (simp add: follows_def) (simp add: header_of_block_def)
  qed
qed

lemma stored_chain_links:
  assumes "node_ok C n" and "stored_active_chain C (nd_store n) = Inr chain"
  shows "header_links C 0 ZERO_HASH (map sb_block chain)"
proof (cases "chain = []")
  case True
  then show ?thesis by (simp add: header_links_def)
next
  case False
  let ?fc = "nd_fork_choice n"
  from assms(1) obtain a where "fc_active_chain C ?fc (nd_store n) = Inr a" by (auto simp: node_ok_def)
  with assms(2) False have "validate_stored_chain C ?fc chain = Inr a" by (simp add: fc_active_chain_def)
  then obtain st0 st where "chain_run C 0 ZERO_HASH st0 (map sb_block chain) st"
    by (auto simp: validate_stored_chain_Inr rebuild_iff)
  then show ?thesis by (rule chain_run_links)
qed

lemma collect_headers_prefix:
  "\<exists>j \<le> length xs. collect_headers stop limit n xs = map (\<lambda>p. header_of_block (sb_block (snd p))) (take j xs)"
proof (induction xs arbitrary: n)
  case Nil
  then show ?case by simp
next
  case (Cons p xs)
  obtain h sb where p: "p = (h, sb)" by (cases p)
  show ?case
  proof (cases "JStr h = stop \<or> int (Suc n) \<ge> limit")
    case True
    then show ?thesis by (intro exI [of _ 1]) (auto simp: p)
  next
    case False
    from Cons [of "Suc n"] obtain j where "j \<le> length xs"
      "collect_headers stop limit (Suc n) xs = map (\<lambda>p. header_of_block (sb_block (snd p))) (take j xs)" by blast
    with False show ?thesis by (intro exI [of _ "Suc j"]) (auto simp: p)
  qed
qed

lemma successively_stretch: "successively P xs \<Longrightarrow> successively P (take j (drop i xs))"
  unfolding successively_conv_nth by (auto simp: add.commute)

lemma collect_headers_length: "1 \<le> limit \<Longrightarrow> int n < limit \<Longrightarrow> int (n + length (collect_headers stop limit n xs)) \<le> limit"
proof (induction xs arbitrary: n)
  case Nil
  then show ?case by simp
next
  case (Cons p xs)
  obtain h sb where p: "p = (h, sb)" by (cases p)
  show ?case
  proof (cases "JStr h = stop \<or> int (Suc n) \<ge> limit")
    case True
    with Cons.prems show ?thesis by (auto simp: p)
  next
    case False
    with Cons.IH [of "Suc n"] Cons.prems(1) show ?thesis by (auto simp: p)
  qed
qed

lemma getheaders_limit:
  assumes "validate_getheaders d = Inr ()" and "rbind (py_getitem d ''limit'') (py_int R) = Inr limit"
  shows "limit \<le> 2000"
  using assms by (auto simp: validate_getheaders_def py_getitem_def py_get_def py_int_def as_int_def
      split: json.splits option.splits if_splits)

lemma collect_headers_bound: "length (collect_headers stop limit 0 xs) \<le> nat (max 1 limit)"
proof (cases "1 \<le> limit")
  case True
  then show ?thesis using collect_headers_length [of limit 0 stop xs] by simp
next
  case False
  then show ?thesis by (cases xs) auto
qed

lemma getheaders_answer:
  assumes "node_ok C (sv_node sv)" and "handle_getheaders C R d sv = (Inr m, sv')"
  obtains i j chain where "stored_active_chain C (nd_store (sv_node sv)) = Inr chain"
    and "headers_message C R (map (header_of_block \<circ> sb_block) (take j (drop i chain))) = Inr m"
    and "validate_header_chain C (map (header_of_block \<circ> sb_block) (take j (drop i chain))) None =
      Inr (map (header_of_block \<circ> sb_block) (take j (drop i chain)))"
    and "validate_getheaders d = Inr () \<Longrightarrow> length (take j (drop i chain)) \<le> 2000"
proof -
  obtain chain locator limit hashes where
      limit: "rbind (py_getitem d ''limit'') (py_int R) = Inr limit" and
      chain: "stored_active_chain C (nd_store (sv_node sv)) = Inr chain"
      and hashes: "rmap (\<lambda>sb. block_hash C (sb_block sb)) chain = Inr hashes"
      and msg: "headers_message C R (collect_headers (py_get d ''stop_hash'') limit 0
           (drop (locator_start hashes (map (py_str R) locator)) (zip hashes chain))) = Inr m"
    using assms(2) by (auto simp: handle_getheaders_def)
  let ?i = "locator_start hashes (map (py_str R) locator)"
  obtain j where j: "collect_headers (py_get d ''stop_hash'') limit 0 (drop ?i (zip hashes chain)) =
      map (\<lambda>p. header_of_block (sb_block (snd p))) (take j (drop ?i (zip hashes chain)))"
    using collect_headers_prefix by blast
  have len: "length hashes = length chain" by (rule rmap_length [OF hashes])
  have "map (\<lambda>p. header_of_block (sb_block (snd p))) (take j (drop ?i (zip hashes chain))) =
      map (header_of_block \<circ> sb_block) (map snd (take j (drop ?i (zip hashes chain))))" by simp
  also have "map snd (take j (drop ?i (zip hashes chain))) = take j (drop ?i chain)"
    using len by (simp add: take_map [symmetric] drop_map [symmetric] map_snd_zip)
  finally have eq: "collect_headers (py_get d ''stop_hash'') limit 0 (drop ?i (zip hashes chain)) =
      map (header_of_block \<circ> sb_block) (take j (drop ?i chain))" using j by simp
  let ?hs = "map header_of_block (map sb_block chain)"
  note links = header_links_chain [OF stored_chain_links [OF assms(1) chain]]
  have "map (header_of_block \<circ> sb_block) (take j (drop ?i chain)) = take j (drop ?i ?hs)"
    by (simp add: take_map [symmetric] drop_map [symmetric])
  moreover have "list_all (header_meets C) (take j (drop ?i ?hs))"
    using links(1) unfolding list_all_iff by (meson in_set_dropD in_set_takeD)
  moreover have "successively (follows C) (take j (drop ?i ?hs))" by (rule successively_stretch [OF links(2)])
  ultimately have "validate_header_chain C (map (header_of_block \<circ> sb_block) (take j (drop ?i chain))) None =
      Inr (map (header_of_block \<circ> sb_block) (take j (drop ?i chain)))"
    by (simp add: validate_header_chain_iff)
  moreover have "length (take j (drop ?i chain)) \<le> 2000" if "validate_getheaders d = Inr ()"
    using collect_headers_bound [of "py_get d ''stop_hash''" limit "drop ?i (zip hashes chain)"]
      getheaders_limit [OF that limit] unfolding eq by simp
  ultimately show ?thesis using that [OF chain] msg eq by simp
qed

section \<open>The answer is accepted\<close>

lemma branch_blocks: "branch C s h bs \<Longrightarrow> sb \<in> set bs \<Longrightarrow> \<exists>k. get_block C s k = Inr sb"
  by (induction rule: branch.induct) auto

lemma get_block_ok: "get_block C s h = Inr sb \<Longrightarrow> block_ok (sb_block sb)"
  by (auto simp: get_block_def decode_consensus_block_def split: option.splits dest!: block_to_from_bytes(1))

lemma stored_chain_blocks:
  assumes "node_ok C n" and "stored_active_chain C (nd_store n) = Inr chain" and "sb \<in> set chain"
  shows "block_ok (sb_block sb)"
proof -
  have "store_ok C (nd_store n)" using assms(1) by (auto simp: node_ok_def branches_ok_def)
  moreover obtain h where "chain_to_tip C (nd_store n) h = Inr chain"
    using assms(2,3) by (auto simp: stored_active_chain_def split: option.splits)
  ultimately have "branch C (nd_store n) h chain" by (rule chain_to_tip_Inr)
  from branch_blocks [OF this assms(3)] show ?thesis using get_block_ok by blast
qed

lemma stored_headers_valid:
  assumes "node_ok C n" and "stored_active_chain C (nd_store n) = Inr chain" and "sb \<in> set chain"
  shows "header_valid (header_of_block (sb_block sb))"
proof -
  obtain k where k: "k < length chain" "sb = chain ! k" using assms(3) by (auto simp: in_set_conv_nth)
  then have "0 \<le> blk_height (sb_block sb) \<and> 0 \<le> blk_difficulty (sb_block sb) \<and> blk_version (sb_block sb) = 1"
    using stored_chain_links [OF assms(1,2)] by (auto simp: header_links_def check_header_iff)
  then show ?thesis using stored_chain_blocks [OF assms]
    by (auto simp: header_valid_def header_of_block_def block_ok_def header_ok_def SUPPORTED_BLOCK_VERSIONS_def)
qed

text \<open>The text of a \<^verbatim>\<open>float\<close> reads back as the same number; Python promises it for all but \<^verbatim>\<open>nan\<close>.\<close>

definition float_reads_back :: "py_runtime \<Rightarrow> 64 word \<Rightarrow> bool" where
  "float_reads_back R w \<longleftrightarrow> float_of_text R (float_json R w) = Some w"

lemma headers_read_back:
  assumes "rmap (header_to_dict C R) hs = Inr js" and "\<forall>h \<in> set hs. header_valid h \<and> float_reads_back R (bh_timestamp h)"
  shows "rmap (\<lambda>j. rbind (py_dict j) (header_from_dict C R)) js = Inr hs"
  using assms
proof (induction hs arbitrary: js)
  case (Cons h hs)
  from Cons.prems(1) obtain j js' where j': "header_to_dict C R h = Inr j" "js = j # js'" "rmap (header_to_dict C R) hs = Inr js'"
    by auto
  moreover obtain d where "j = JObj d" using j'(1) by (auto simp: header_to_dict_def)
  ultimately have j: "header_to_dict C R h = Inr (JObj d)" "js = JObj d # js'" "rmap (header_to_dict C R) hs = Inr js'"
    by simp_all
  have "header_from_dict C R d = Inr h"
    using header_round_trip [OF j(1)] Cons.prems(2) by (simp add: float_reads_back_def)
  moreover have "rmap (\<lambda>j. rbind (py_dict j) (header_from_dict C R)) js' = Inr hs"
    using Cons.IH [OF j(3)] Cons.prems(2) by simp
  ultimately show ?case using j(2) by (simp add: py_dict_def)
qed simp

lemma headers_message_accepted:
  assumes "headers_message C R hs = Inr m" and "\<forall>h \<in> set hs. header_valid h \<and> float_reads_back R (bh_timestamp h)"
    and "length hs \<le> 2000" and "validate_header_chain C hs None = Inr hs"
  obtains d where "msg_payload m = JObj d" "headers_from_payload C R d = Inr hs" "validate_payload C R m = Inr ()"
proof -
  from assms(1) obtain js where js: "rmap (header_to_dict C R) hs = Inr js"
      and m: "m = mk_message HEADERS [(ascii ''headers'', JList js)]"
    by (auto simp: headers_message_def)
  have "length js = length hs" by (rule rmap_length [OF js])
  with headers_read_back [OF js assms(2)] assms(3,4)
  have "headers_from_payload C R [(ascii ''headers'', JList js)] = Inr hs"
    by (simp add: headers_from_payload_def py_get_def)
  with that m show ?thesis by (simp add: mk_message_def validate_payload_def payload_dict_def validate_headers_def)
qed

text \<open>
  A header whose timestamp reads back as another number is refused: the hash it claims is not the one
  the receiver computes.
\<close>

definition misread :: "crypto \<Rightarrow> py_runtime \<Rightarrow> block_header \<Rightarrow> bool" where
  "misread C R h \<longleftrightarrow> (\<exists>q. float_of_text R (float_json R (bh_timestamp h)) = Some q \<and>
     header_hash C (h\<lparr>bh_timestamp := q\<rparr>) \<noteq> header_hash C h)"

lemma header_hash_timestamp:
  assumes "header_hash C h = Inr hh" and "is_hash (bh_transaction_root h)"
  shows "\<exists>hh'. header_hash C (h\<lparr>bh_timestamp := q\<rparr>) = Inr hh'"
proof -
  have "bh_transaction_root h \<noteq> []" using assms(2) by (auto simp: is_hash_def)
  with assms(1) show ?thesis
    by (auto simp: header_hash_def new_block_def block_hash_def header_bytes_def encode_float_def)
qed

lemma misread_header_refused:
  assumes "header_to_dict C R h = Inr (JObj d)" and "header_valid h" and "misread C R h"
  shows "header_from_dict C R d = network_error ''block header hash is invalid''"
proof -
  obtain hh where hh: "header_hash C h = Inr hh" using assms(1) by (auto simp: header_to_dict_def)
  obtain q where q: "float_of_text R (float_json R (bh_timestamp h)) = Some q"
      "header_hash C (h\<lparr>bh_timestamp := q\<rparr>) \<noteq> header_hash C h"
    using assms(3) by (auto simp: misread_def)
  obtain hh' where hh': "header_hash C (h\<lparr>bh_timestamp := q\<rparr>) = Inr hh'"
    using header_hash_timestamp [OF hh] assms(2) by (auto simp: header_valid_def)
  have "header_fields R d = Inr (h\<lparr>bh_timestamp := q\<rparr>)"
    using assms(1) hh q(1) by (auto simp: header_to_dict_def header_fields_def py_getitem_def py_int_def py_float_def
        float_value_def py_str_def ascii_def)
  moreover have "py_get d ''hash'' = JStr hh"
    using assms(1) hh by (auto simp: header_to_dict_def py_get_def ascii_def)
  ultimately show ?thesis using assms(2) hh hh' q(2) by (simp add: header_from_dict_def malformed_def header_valid_def)
qed

lemma headers_misread:
  assumes "rmap (header_to_dict C R) hs = Inr js"
    and "\<forall>h \<in> set hs. header_valid h \<and> (float_reads_back R (bh_timestamp h) \<or> misread C R h)"
    and "\<exists>h \<in> set hs. \<not> float_reads_back R (bh_timestamp h)"
  shows "rmap (\<lambda>j. rbind (py_dict j) (header_from_dict C R)) js = network_error ''block header hash is invalid''"
  using assms
proof (induction hs arbitrary: js)
  case (Cons h hs)
  from Cons.prems(1) obtain j js' where j': "header_to_dict C R h = Inr j" "js = j # js'" "rmap (header_to_dict C R) hs = Inr js'"
    by auto
  moreover obtain d where d: "j = JObj d" using j'(1) by (auto simp: header_to_dict_def)
  show ?case
  proof (cases "float_reads_back R (bh_timestamp h)")
    case True
    then have "header_from_dict C R d = Inr h"
      using header_round_trip [of C R h d] j'(1) d Cons.prems(2) by (simp add: float_reads_back_def)
    moreover have "rmap (\<lambda>j. rbind (py_dict j) (header_from_dict C R)) js' = network_error ''block header hash is invalid''"
      using Cons.IH [OF j'(3)] Cons.prems(2,3) True by simp
    ultimately show ?thesis using j'(2) d by (simp add: py_dict_def)
  next
    case False
    then have "header_from_dict C R d = network_error ''block header hash is invalid''"
      using misread_header_refused [of C R h d] j'(1) d Cons.prems(2) by simp
    then show ?thesis using j'(2) d by (simp add: py_dict_def)
  qed
qed simp

lemma headers_message_refused:
  assumes "headers_message C R hs = Inr m" and "length hs \<le> 2000"
    and "\<forall>h \<in> set hs. header_valid h \<and> (float_reads_back R (bh_timestamp h) \<or> misread C R h)"
    and "\<exists>h \<in> set hs. \<not> float_reads_back R (bh_timestamp h)"
  shows "validate_payload C R m = network_error ''block header hash is invalid''"
proof -
  from assms(1) obtain js where js: "rmap (header_to_dict C R) hs = Inr js"
      and m: "m = mk_message HEADERS [(ascii ''headers'', JList js)]"
    by (auto simp: headers_message_def)
  have "length js = length hs" by (rule rmap_length [OF js])
  with headers_misread [OF js assms(3,4)] assms(2)
  show ?thesis by (simp add: m mk_message_def validate_payload_def payload_dict_def validate_headers_def
      headers_from_payload_def py_get_def)
qed

text \<open>
  What the runtime promises of the timestamps of a chain: numbers read back, and \<^verbatim>\<open>NaN\<close> reads as one \<open>q\<close>
  of its codes; a header with another of its codes then has another hash.
\<close>

definition timestamps_ok :: "crypto \<Rightarrow> py_runtime \<Rightarrow> 64 word \<Rightarrow> block_header list \<Rightarrow> bool" where
  "timestamps_ok C R q hs \<longleftrightarrow> float_of_text R (ascii ''NaN'') = Some q \<and>
     (\<forall>h \<in> set hs. if is_nan (bh_timestamp h)
        then bh_timestamp h = q \<or> header_hash C (h\<lparr>bh_timestamp := q\<rparr>) \<noteq> header_hash C h
        else float_reads_back R (bh_timestamp h))"

lemma timestamps_okD:
  assumes "timestamps_ok C R q hs" and "h \<in> set hs"
  shows "float_reads_back R (bh_timestamp h) \<longleftrightarrow> (is_nan (bh_timestamp h) \<longrightarrow> bh_timestamp h = q)"
    and "float_reads_back R (bh_timestamp h) \<or> misread C R h"
proof (atomize (full), cases "is_nan (bh_timestamp h)")
  case True
  then have "float_of_text R (float_json R (bh_timestamp h)) = Some q"
    "bh_timestamp h = q \<or> header_hash C (h\<lparr>bh_timestamp := q\<rparr>) \<noteq> header_hash C h"
    using assms by (auto simp: timestamps_ok_def float_json_def)
  with True show "(float_reads_back R (bh_timestamp h) \<longleftrightarrow> (is_nan (bh_timestamp h) \<longrightarrow> bh_timestamp h = q)) \<and>
      (float_reads_back R (bh_timestamp h) \<or> misread C R h)"
    by (auto simp: float_reads_back_def misread_def)
next
  case False
  then have "float_reads_back R (bh_timestamp h)" using assms by (auto simp: timestamps_ok_def)
  with False show "(float_reads_back R (bh_timestamp h) \<longleftrightarrow> (is_nan (bh_timestamp h) \<longrightarrow> bh_timestamp h = q)) \<and>
      (float_reads_back R (bh_timestamp h) \<or> misread C R h)" by simp
qed

lemma timestamps_ok_subset: "timestamps_ok C R q hs \<Longrightarrow> set hs' \<subseteq> set hs \<Longrightarrow> timestamps_ok C R q hs'"
  unfolding timestamps_ok_def by blast

lemma headers_message_decided:
  assumes "headers_message C R hs = Inr m" and "length hs \<le> 2000" and "timestamps_ok C R q hs"
    and "\<forall>h \<in> set hs. header_valid h" and "validate_header_chain C hs None = Inr hs"
  shows "if \<forall>h \<in> set hs. is_nan (bh_timestamp h) \<longrightarrow> bh_timestamp h = q
    then \<exists>d. msg_payload m = JObj d \<and> validate_payload C R m = Inr () \<and> headers_from_payload C R d = Inr hs
    else validate_payload C R m = network_error ''block header hash is invalid''"
proof (cases "\<forall>h \<in> set hs. float_reads_back R (bh_timestamp h)")
  case True
  then have "\<forall>h \<in> set hs. header_valid h \<and> float_reads_back R (bh_timestamp h)" using assms(4) by blast
  then have "\<exists>d. msg_payload m = JObj d \<and> validate_payload C R m = Inr () \<and> headers_from_payload C R d = Inr hs"
    using headers_message_accepted [OF assms(1) _ assms(2,5)] by metis
  with True timestamps_okD(1) [OF assms(3)] show ?thesis by auto
next
  case False
  then have "validate_payload C R m = network_error ''block header hash is invalid''"
    using headers_message_refused [OF assms(1,2)] timestamps_okD(2) [OF assms(3)] assms(4) by blast
  with False timestamps_okD(1) [OF assms(3)] show ?thesis by auto
qed

end
