(* ===== verification/Service_Properties.thy ===== *)
theory Service_Properties
  imports Process_Laws Ban_Laws Header_Sync_Laws Network_Properties Node_Samples
begin

text \<open>
  The properties of sessions (\<^verbatim>\<open>peer.py\<close>) and of the node service (\<^verbatim>\<open>service.py\<close>): the handshake,
  inventory requests, the node behind the service, block downloads, bans and header synchronisation.
\<close>

section \<open>Sessions\<close>

text \<open>
  However a session is driven, by messages of the peer, valid or not, and by calls of its owner,
  a \<^verbatim>\<open>verack\<close> is sent only after a version was received, is accepted only after a version was sent, and
  a session that received a version knows who its peer is; the session's own identity never changes.
\<close>

lemma handshake_order_kept:
  assumes "session_reach C R (new_session network node_id height) s"
  shows "(se_verack_sent s \<longrightarrow> se_version_received s) \<and> (se_verack_received s \<longrightarrow> se_version_sent s) \<and>
    (se_version_received s \<longrightarrow> se_remote_node_id s \<noteq> None) \<and>
    se_network s = network \<and> se_node_id s = node_id \<and> se_height s = height"
proof -
  have "session_ok s" by (rule handshake.reach_keeps [OF assms]) (simp add: session_ok_def new_session_def)
  moreover have "session_is network node_id height s"
    by (rule identity.reach_keeps [OF assms]) (simp add: session_is_def new_session_def)
  ultimately show ?thesis by (simp add: session_ok_def session_is_def)
qed

definition sample_session :: peer_session where
  "sample_session = new_session (ascii ''main'') (ascii ''n0'') 0"

lemma handshake_order_kept_witness:
  "se_remote_node_id (snd (session_receive toy sample_runtime sample_version sample_session)) \<noteq> None"
proof -
  let ?s = "snd (session_receive toy sample_runtime sample_version sample_session)"
  have "session_reach toy sample_runtime sample_session ?s"
    by (rule session_reach.receive [OF session_reach.start prod.collapse [symmetric]])
  moreover have "se_version_received ?s"
    by (simp add: sample_version_def sample_session_def receive_version new_session_def ascii_def)
  ultimately show ?thesis using handshake_order_kept unfolding sample_session_def by blast
qed

text \<open>
  C34: two new sessions of the same network with different node identities complete the handshake in
  three deliveries, each knows the other's identity and height, and no misbehaviour is counted.
\<close>

theorem handshake_completes:
  assumes "network \<noteq> []" and "ida \<noteq> []" and "idb \<noteq> []" and "ida \<noteq> idb" and "-1 \<le> ha" and "-1 \<le> hb"
    and "start_handshake (new_session network ida ha) = (Inr v, a1)"
  shows "\<exists>b1 a2 b2 replies acks.
    session_receive C R v (new_session network idb hb) = (Inr replies, b1) \<and>
    receive_all C R replies a1 = (Inr acks, a2) \<and> receive_all C R acks b1 = (Inr [], b2) \<and>
    handshake_complete a2 \<and> handshake_complete b2 \<and>
    se_remote_node_id a2 = Some idb \<and> se_remote_node_id b2 = Some ida \<and>
    se_remote_height a2 = hb \<and> se_remote_height b2 = ha \<and>
    se_misbehavior_score a2 = 0 \<and> se_misbehavior_score b2 = 0"
  using handshake_exchange [of "new_session network ida ha" "new_session network idb hb" v a1 C R] assms
  by (simp add: new_session_def)

theorem handshake_completes_witness:
  "\<exists>v a1 b1 replies. start_handshake (new_session (ascii ''m'') (ascii ''x'') 3) = (Inr v, a1) \<and>
     session_receive toy sample_runtime v (new_session (ascii ''m'') (ascii ''y'') 5) = (Inr replies, b1)"
proof -
  let ?a = "new_session (ascii ''m'') (ascii ''x'') 3"
  obtain v a1 where v: "start_handshake ?a = (Inr v, a1)"
    by (simp add: start_handshake_def new_session_def obind_def)
  from handshake_completes [OF _ _ _ _ _ _ v, of "ascii ''y''" 5 toy sample_runtime] v show ?thesis
    by (auto simp: ascii_def)
qed

text \<open>
  An inventory of valid items, for which the session has room, is answered by one request for
  exactly the items it did not know, each once; they are known and requested afterwards, and when
  nothing is new nothing is requested.
\<close>

lemma inventory_requests_new_items:
  assumes "list_all iv_ok items" and "length items \<le> 2000" and "finite (se_known_inventory s)"
    and "int (card (se_known_inventory s) + length items) \<le> se_max_inventory_items s"
    and "inventory_message INV items = Inr m"
  shows "\<exists>new. iv_key ` set new = iv_key ` set items - se_known_inventory s \<and> distinct (map iv_key new) \<and>
    session_receive C R m s =
      (Inr (if new = [] then [] else [mk_message GETDATA [(ascii ''items'', JList (map iv_to_dict new))]]),
       s\<lparr>se_known_inventory := se_known_inventory s \<union> iv_key ` set items,
         se_requested_inventory := se_requested_inventory s \<union> iv_key ` set new\<rparr>)"
proof -
  let ?new = "fresh_items (se_known_inventory s) items"
  have "length ?new \<le> length items" by (rule fresh_items_length)
  then have "int (card (se_known_inventory s) + length ?new) \<le> se_max_inventory_items s" using assms(4) by simp
  from receive_inv [OF assms(1-3) this assms(5), of C R] fresh_items_spec [of "se_known_inventory s" items]
  show ?thesis by (intro exI [of _ ?new]) simp
qed

definition sample_item :: inventory_vector where
  "sample_item = \<lparr>iv_kind = ascii ''tx'', iv_hash = spend_txid\<rparr>"

lemma inventory_requests_new_items_witness:
  "\<exists>m. inventory_message INV [sample_item, sample_item] = Inr m \<and>
     iv_key sample_item \<in> se_known_inventory (snd (session_receive toy sample_runtime m sample_session))"
proof -
  obtain m where m: "inventory_message INV [sample_item, sample_item] = Inr m" by (simp add: inventory_message_def)
  have "list_all iv_ok [sample_item, sample_item]" by code_simp
  from inventory_requests_new_items [OF this _ _ _ m, of sample_session toy sample_runtime] m show ?thesis
    by (auto simp: sample_session_def new_session_def)
qed

section \<open>The node behind the service\<close>

text \<open>
  Whatever peers send and whatever calls the operator makes, in any order and whichever of them
  raise, the node of the service stays valid, if the transactions submitted locally could be read from bytes: every stored branch passes the consensus rules and the
  node's state is the replay of the best one.
\<close>

lemma service_keeps_node_valid:
  assumes "new_service node network node_id peers timeout batch per_peer store = Inr s"
    and "digest_ok C" and "node_ok C node" and "pool_ok node" and "service_reach C R rt (tx_ok True) (\<lambda>_. True) s t"
  shows "node_ok C (sv_node t)"
  using process_service.run_keeps [OF assms(5)] new_service_ok(1) [OF assms(1)] assms(2-4) by (simp add: process_ok_def)

definition sample_service :: node_service where
  "sample_service = \<lparr>sv_node = node0, sv_network = ascii ''main'', sv_node_id = ascii ''n0'', sv_peers = default_peer_manager,
     sv_block_download_timeout = 120, sv_max_block_download_batch = 16, sv_max_block_downloads_per_peer = 128,
     sv_peer_sync_store = None, sv_sessions = [], sv_transactions = [], sv_blocks = [], sv_in_flight = [],
     sv_peer_sync = []\<rparr>"

lemma sample_service_new: "new_service node0 (ascii ''main'') (ascii ''n0'') None 120 16 128 None = Inr sample_service"
  by (simp add: new_service_def sample_service_def ascii_def)

lemma service_keeps_node_valid_witness:
  "\<exists>m. block_message block1 = Inr m \<and>
     node_ok toy (sv_node (snd (service_receive toy sample_runtime (\<lambda>_. []) (ascii ''p'') m 0 sample_service)))"
proof -
  obtain m where m: "block_message block1 = Inr m"
    using full_block.enc_total [OF sample_block_ok(2)] by (auto simp: block_message_def)
  have "service_reach toy sample_runtime (\<lambda>_. []) (tx_ok True) (\<lambda>_. True) sample_service
      (snd (service_receive toy sample_runtime (\<lambda>_. []) (ascii ''p'') m 0 sample_service))"
    by (rule service_reach.receive [OF service_reach.start TrueI prod.collapse [symmetric]])
  moreover have "pool_ok node0" by (simp add: pool_ok_def node0_def)
  ultimately show ?thesis using service_keeps_node_valid [OF sample_service_new toy_digest_ok node0_ok] m by blast
qed

section \<open>Block downloads\<close>

text \<open>
  C15: in every reachable state of the service no peer has more blocks in flight than its limit, a
  block is requested from one peer at a time, and only from a peer with a session.
\<close>

theorem downloads_stay_bounded:
  assumes "new_service node network node_id peers timeout batch per_peer store = Inr s"
    and "service_reach C R rt L T s t"
  shows "in_flight_count t a \<le> sv_max_block_downloads_per_peer t \<and> distinct (map fst (sv_in_flight t)) \<and>
    (\<forall>h d. map_of (sv_in_flight t) h = Some d \<longrightarrow> bd_block_hash d = h \<and> map_of (sv_sessions t) (bd_peer d) \<noteq> None)"
  using downloads.run_keeps [OF assms(2) new_service_ok(2) [OF assms(1)]]
  unfolding downloads_ok_def map_of_eq_None_iff by blast

theorem downloads_stay_bounded_witness:
  "in_flight_count (snd (accept_inbound_peer toy sample_runtime (ascii ''p'') 0 sample_service)) (ascii ''p'') \<le>
     sv_max_block_downloads_per_peer (snd (accept_inbound_peer toy sample_runtime (ascii ''p'') 0 sample_service))"
proof -
  have "service_reach toy sample_runtime (\<lambda>_. []) (\<lambda>_. True) (\<lambda>_. True) sample_service
      (snd (accept_inbound_peer toy sample_runtime (ascii ''p'') 0 sample_service))"
    by (rule service_reach.accept [OF service_reach.start TrueI prod.collapse [symmetric]])
  from downloads_stay_bounded [OF sample_service_new this] show ?thesis by blast
qed

section \<open>Bans\<close>

text \<open>
  C14: when a message makes the service disconnect a peer that was not banned before, then until the
  ban ends, whatever methods are called in whatever order, by messages of this peer and of others too,
  the peer has no session and no downloads, every message it sends is answered by a ban notice and
  changes nothing but when the peer was last seen, and no connection with it can be opened.
\<close>

theorem disconnected_peer_is_ignored:
  assumes "downloads_ok sv" and "map_of (sv_sessions sv) a = Some s" and "not_banned sv a" and "validate_address R a = Inr ()"
    and "service_receive C R rt a m now sv = (Inr res, sv1)" and "sr_disconnect res"
    and "service_reach C R rt L (\<lambda>t. t < now + pm_ban_seconds (sv_peers sv)) sv1 sv2"
    and "later < now + pm_ban_seconds (sv_peers sv)"
  shows "map_of (sv_sessions sv2) a = None \<and> in_flight_count sv2 a = 0 \<and>
    service_receive C R rt a m' later sv2 =
      (Inr banned_result, sv2\<lparr>sv_peers := snd (add_peer R a later False (sv_peers sv2))\<rparr>) \<and>
    fst (connect_peer C R a later inb sv2) = peer_manager_error ''peer is banned'' \<and>
    fst (accept_inbound_peer C R a later sv2) = peer_manager_error ''peer is banned''"
proof -
  have "shut_out (now + pm_ban_seconds (sv_peers sv)) a sv1"
    using disconnect_cuts_off [OF assms(5,6,2,3)] by (rule cut_off_shut_out)
  then have out: "shut_out (now + pm_ban_seconds (sv_peers sv)) a sv2" by (rule bans.run_keeps [OF assms(7)])
  have "downloads_ok sv2"
    by (rule downloads.run_keeps [OF assms(7) service_receive_downloads [OF assms(1,5)]])
  with out shut_out_downloads shut_out_notice [OF out assms(8,4)] shut_out_refused [OF out assms(8,4)] show ?thesis
    by (auto simp: shut_out_def)
qed

text \<open>A service whose peer is one offence away from a ban.\<close>

definition wary_service :: node_service where
  "wary_service = sample_service\<lparr>sv_peers := default_peer_manager\<lparr>pm_peers :=
     [(ascii ''p'', (new_record (ascii ''p'') 0 True)\<lparr>pr_misbehavior_score := 90\<rparr>)]\<rparr>,
     sv_sessions := [(ascii ''p'', sample_session)]\<rparr>"

theorem disconnected_peer_is_ignored_witness:
  "\<exists>res sv1 r2 sv2 p. service_receive toy sample_runtime (\<lambda>_. []) (ascii ''p'') (mk_message PONG []) 0 wary_service = (Inr res, sv1) \<and>
     service_receive toy sample_runtime (\<lambda>_. []) (ascii ''p'') sample_version 100 sv1 = (r2, sv2) \<and>
     service_receive toy sample_runtime (\<lambda>_. []) (ascii ''p'') sample_version 200 sv2 = (Inr banned_result, sv2\<lparr>sv_peers := p\<rparr>)"
proof -
  let ?run = "service_receive toy sample_runtime (\<lambda>_. []) (ascii ''p'') (mk_message PONG []) 0 wary_service"
  have "case ?run of (Inr res, sv1) \<Rightarrow> sr_disconnect res | _ \<Rightarrow> False" by code_simp
  then obtain res sv1 where run: "?run = (Inr res, sv1)" "sr_disconnect res" by (auto split: prod.splits sum.splits)
  obtain r2 sv2 where run2: "service_receive toy sample_runtime (\<lambda>_. []) (ascii ''p'') sample_version 100 sv1 = (r2, sv2)"
    by (meson surj_pair)
  have w: "map_of (sv_sessions wary_service) (ascii ''p'') = Some sample_session" "not_banned wary_service (ascii ''p'')"
      "validate_address sample_runtime (ascii ''p'') = Inr ()" "pm_ban_seconds (sv_peers wary_service) = 86400"
    by (auto simp: wary_service_def not_banned_def new_record_def is_banned_def default_peer_manager_def
        validate_address_def py_isspace_def sample_runtime_def ascii_def)
  have d: "downloads_ok wary_service" by (simp add: wary_service_def sample_service_def downloads_ok_def in_flight_count_def)
  have "service_reach toy sample_runtime (\<lambda>_. []) (\<lambda>_. True) (\<lambda>t. t < 0 + pm_ban_seconds (sv_peers wary_service)) sv1 sv2"
    by (rule service_reach.receive [OF service_reach.start _ run2]) (simp add: w(4))
  from disconnected_peer_is_ignored [OF d w(1-3) run this, of 200 sample_version] w(4) run(1) run2 show ?thesis by auto
qed

section \<open>Header synchronisation\<close>

text \<open>
  C16: what a valid node answers to a well formed \<^verbatim>\<open>getheaders\<close> is a stretch of its active chain, at most 2000
  headers. Every peer accepts the answer and decodes it to that stretch, unless a timestamp in it is a
  \<^verbatim>\<open>nan\<close> with other bits than those of Python's own: JSON does not carry the bits, so every peer computes
  another hash and rejects the answer. Consensus admits such blocks.
\<close>

theorem getheaders_answer_decided:
  assumes "node_ok C (sv_node sv)" and "validate_getheaders d = Inr ()"
    and "stored_active_chain C (nd_store (sv_node sv)) = Inr chain"
    and "timestamps_ok C R q (map (header_of_block \<circ> sb_block) chain)"
    and "handle_getheaders C R d sv = (Inr m, sv')"
  shows "sv' = sv \<and> (\<exists>i j. length (take j (drop i chain)) \<le> 2000 \<and>
    headers_message C R (map (header_of_block \<circ> sb_block) (take j (drop i chain))) = Inr m \<and>
    (if \<forall>sb \<in> set (take j (drop i chain)). is_nan (blk_timestamp (sb_block sb)) \<longrightarrow> blk_timestamp (sb_block sb) = q
     then \<exists>d'. msg_payload m = JObj d' \<and> validate_payload C R m = Inr () \<and>
       headers_from_payload C R d' = Inr (map (header_of_block \<circ> sb_block) (take j (drop i chain)))
     else validate_payload C R m = network_error ''block header hash is invalid''))"
proof -
  have "sv' = sv" using assms(5) by (simp add: handle_getheaders_def)
  obtain i j where hs: "headers_message C R (map (header_of_block \<circ> sb_block) (take j (drop i chain))) = Inr m"
      "validate_header_chain C (map (header_of_block \<circ> sb_block) (take j (drop i chain))) None =
        Inr (map (header_of_block \<circ> sb_block) (take j (drop i chain)))"
      "length (take j (drop i chain)) \<le> 2000"
    by (rule getheaders_answer [OF assms(1,5)]) (use assms(2,3) in auto)
  have sub: "set (take j (drop i chain)) \<subseteq> set chain" by (meson set_drop_subset set_take_subset subset_trans)
  then have valid: "\<forall>h \<in> set (map (header_of_block \<circ> sb_block) (take j (drop i chain))). header_valid h"
    using stored_headers_valid [OF assms(1,3)] by auto
  have ts: "timestamps_ok C R q (map (header_of_block \<circ> sb_block) (take j (drop i chain)))"
    by (rule timestamps_ok_subset [OF assms(4)]) (use sub in auto)
  from headers_message_decided [OF hs(1) _ ts valid hs(2)] hs(1,3) \<open>sv' = sv\<close>
  show ?thesis by (intro conjI exI [of _ i] exI [of _ j]) (simp_all add: header_of_block_def)
qed

text \<open>A node whose genesis block carries a \<^verbatim>\<open>nan\<close> with an unusual code, and a runtime that reads \<^verbatim>\<open>NaN\<close> as usual.\<close>

definition nan_block :: consensus_block where
  "nan_block = genesis_block\<lparr>blk_timestamp := 0x7FF8000000000001\<rparr>"

definition nan_node :: consensus_node where
  "nan_node = node0\<lparr>nd_store := snd (put_block toy nan_block empty_store)\<rparr>"

definition nan_runtime :: py_runtime where
  "nan_runtime = sample_runtime\<lparr>float_of_text := (\<lambda>t. Some (if t = ascii ''NaN'' then 0x7FF8000000000000 else 0))\<rparr>"

lemma nan_apply: "apply_block toy nan_block 0 ZERO_HASH empty_state = (Inr 0, genesis_state)"
  by code_simp

lemma nan_chain:
  "stored_active_chain toy (nd_store nan_node) = Inr [\<lparr>sb_block = nan_block, sb_cumulative_work = 1\<rparr>]"
  "timestamps_ok toy nan_runtime 0x7FF8000000000000 [header_of_block nan_block]"
  by code_simp+

lemma nan_block_stored:
  "block_ok nan_block" "\<exists>h. block_hash toy nan_block = Inr h"
  "\<exists>sb. put_block toy nan_block empty_store = (Inr sb, nd_store nan_node)"
proof -
  show ok: "block_ok nan_block"
    using sample_block_ok(1) by (simp add: nan_block_def block_ok_def header_ok_def)
  have work: "block_work toy empty_store nan_block = Inr 1"
    by (simp add: block_work_def work_for_def nan_block_def genesis_block_def)
  show "\<exists>h. block_hash toy nan_block = Inr h"
    using header_bytes_total ok by (force simp: block_hash_def block_ok_def)
  then obtain h where h: "block_hash toy nan_block = Inr h" ..
  from put_block_total [OF ok h _ work] show "\<exists>sb. put_block toy nan_block empty_store = (Inr sb, nd_store nan_node)"
    by (auto simp: has_block_def empty_store_def nan_node_def int64_ok_def)
qed

lemma nan_node_ok: "node_ok toy nan_node"
proof -
  have "extends_valid_branch toy sample_fc empty_store nan_block"
    using sample_new_state nan_apply by (simp add: extends_valid_branch_def sample_fc_def nan_block_def genesis_block_def)
  moreover obtain sb where "put_block toy nan_block empty_store = (Inr sb, nd_store nan_node)" using nan_block_stored(3) ..
  ultimately have "branches_ok toy sample_fc (nd_store nan_node)"
    using put_keeps_branches_ok [OF empty_store_ok(2) nan_block_stored(1)] by blast
  moreover have "\<exists>a. fc_active_chain toy sample_fc (nd_store nan_node) = Inr a \<and> ac_state a = genesis_state"
    using nan_chain(1) nan_apply nan_block_stored(2) sample_new_state
    by (auto simp: fc_active_chain_def validate_stored_chain_def rebuild_state_from_blocks_def sample_fc_def)
  ultimately show ?thesis using node0_ok by (auto simp: node_ok_def nan_node_def node0_def)
qed

abbreviation ask_all :: "(pystr, json) dict" where
  "ask_all \<equiv> [(ascii ''limit'', JInt 10), (ascii ''locator'', JList []), (ascii ''stop_hash'', JNull)]"

theorem getheaders_answer_decided_witness:
  "\<exists>m. fst (handle_getheaders toy nan_runtime ask_all (sample_service\<lparr>sv_node := nan_node\<rparr>)) = Inr m \<and>
     validate_payload toy nan_runtime m = network_error ''block header hash is invalid''"
proof -
  have "case handle_getheaders toy nan_runtime ask_all (sample_service\<lparr>sv_node := nan_node\<rparr>) of
      (Inr m, sv) \<Rightarrow> msg_payload m \<noteq> JObj [(ascii ''headers'', JList [])] | _ \<Rightarrow> False" by code_simp
  then obtain m sv where m: "handle_getheaders toy nan_runtime ask_all (sample_service\<lparr>sv_node := nan_node\<rparr>) = (Inr m, sv)"
      "msg_payload m \<noteq> JObj [(ascii ''headers'', JList [])]"
    by (auto split: prod.splits sum.splits)
  have "validate_getheaders ask_all = Inr ()" by code_simp
  from getheaders_answer_decided [OF _ this _ _ m(1), of "[\<lparr>sb_block = nan_block, sb_cumulative_work = 1\<rparr>]" "0x7FF8000000000000"]
  obtain i j where ij: "headers_message toy nan_runtime
        (map (header_of_block \<circ> sb_block) (take j (drop i [\<lparr>sb_block = nan_block, sb_cumulative_work = 1\<rparr>]))) = Inr m"
      "(\<exists>sb \<in> set (take j (drop i [\<lparr>sb_block = nan_block, sb_cumulative_work = 1\<rparr>])).
          is_nan (blk_timestamp (sb_block sb)) \<and> blk_timestamp (sb_block sb) \<noteq> 0x7FF8000000000000) \<Longrightarrow>
        validate_payload toy nan_runtime m = network_error ''block header hash is invalid''"
    using nan_node_ok nan_chain by (simp split: if_splits) metis
  have "take j (drop i [\<lparr>sb_block = nan_block, sb_cumulative_work = 1\<rparr>]) \<noteq> []"
  proof
    assume "take j (drop i [\<lparr>sb_block = nan_block, sb_cumulative_work = 1\<rparr>]) = []"
    with ij(1) m(2) show False by (auto simp: headers_message_def mk_message_def)
  qed
  then obtain sb where sb: "sb \<in> set (take j (drop i [\<lparr>sb_block = nan_block, sb_cumulative_work = 1\<rparr>]))" "sb_block sb = nan_block"
    by (cases i; cases j) auto
  have "is_nan (blk_timestamp nan_block) \<and> blk_timestamp nan_block \<noteq> 0x7FF8000000000000" by code_simp
  with sb have "validate_payload toy nan_runtime m = network_error ''block header hash is invalid''"
    by (intro ij(2) bexI [of _ sb]) simp_all
  with m(1) show ?thesis by simp
qed

end
