(* ===== verification/Runtime.thy ===== *)
theory Runtime
  imports Process_Laws
begin

text \<open>
  \<^verbatim>\<open>runtime.py\<close>: the configuration of a node process and the life cycle of node, service and server. The
  database path of the configuration is the argument \<open>files\<close> of the two constructors.
\<close>

record runtime_config =
  rc_network :: pystr
  rc_node_id :: pystr
  rc_host :: pystr
  rc_port :: int
  rc_peer_auth_key :: bytes
  rc_difficulty :: int
  rc_block_subsidy :: int
  rc_max_money :: int

abbreviation runtime_error :: "string \<Rightarrow> 'a result" where
  "runtime_error s \<equiv> Inl (RuntimeConfigError (ascii s))"

definition validate_config :: "runtime_config \<Rightarrow> unit result" where
  "validate_config c =
     (if rc_network c = [] then runtime_error ''network is required''
      else if rc_node_id c = [] then runtime_error ''node id is required''
      else if rc_host c = [] then runtime_error ''host is required''
      else if rc_port c < 0 \<or> rc_port c > 65535 then runtime_error ''port is out of range''
      else if rc_peer_auth_key c = [] then runtime_error ''peer auth key is required''
      else if rc_difficulty c < 0 then runtime_error ''difficulty cannot be negative''
      else if rc_block_subsidy c < 0 then runtime_error ''block subsidy cannot be negative''
      else if rc_max_money c \<le> 0 then runtime_error ''max money must be positive''
      else Inr ())"

text \<open>The node is an object of the service; \<open>nr_node_open\<close> is whether its databases are open.\<close>

record node_runtime =
  nr_config :: runtime_config
  nr_server :: tcp_adapter
  nr_running :: bool
  nr_node_open :: bool

definition runtime_for :: "runtime_config \<Rightarrow> unit result \<Rightarrow> consensus_node \<Rightarrow> node_runtime result" where
  "runtime_for c bind node =
     rbind (new_service node (rc_network c) (rc_node_id c) None 120 16 128 None) (\<lambda>service.
     rbind (new_adapter bind service (rc_peer_auth_key c)) (\<lambda>server.
     Inr \<lparr>nr_config = c, nr_server = server, nr_running = False, nr_node_open = True\<rparr>))"

definition create_runtime ::
  "crypto \<Rightarrow> runtime_config \<Rightarrow> unit result \<Rightarrow> (pystr, int) dict \<Rightarrow> 64 word \<Rightarrow> (node_files, node_runtime) op" where
  "create_runtime C c bind genesis_allocations clock =
     obind (oeval (\<lambda>_. validate_config c)) (\<lambda>_.
     obind (create_node C genesis_allocations (rc_difficulty c) (rc_block_subsidy c) (rc_max_money c) clock) (\<lambda>node.
     oeval (\<lambda>_. runtime_for c bind node)))"

definition open_runtime :: "crypto \<Rightarrow> runtime_config \<Rightarrow> unit result \<Rightarrow> (node_files, node_runtime) op" where
  "open_runtime C c bind =
     obind (oeval (\<lambda>_. validate_config c)) (\<lambda>_.
     obind (open_node C (rc_difficulty c) (rc_block_subsidy c) (rc_max_money c)) (\<lambda>node.
     oeval (\<lambda>_. runtime_for c bind node)))"

definition on_server :: "'a adapter_op \<Rightarrow> (node_runtime, 'a) op" where
  "on_server f n = (let (r, ta) = f (nr_server n) in (r, n\<lparr>nr_server := ta\<rparr>))"

definition runtime_start :: "(node_runtime, unit) op" where
  "runtime_start =
     obind (oeval (\<lambda>n. if nr_running n then runtime_error ''runtime is already running'' else Inr ())) (\<lambda>_.
     obind (on_server adapter_start) (\<lambda>_. omodify (\<lambda>n. n\<lparr>nr_running := True\<rparr>)))"

definition runtime_stop :: "(node_runtime, unit) op" where
  "runtime_stop =
     obind (oeval (\<lambda>n. Inr (nr_running n, ta_thread (nr_server n)))) (\<lambda>(running, thread).
     obind (if running then obind (on_server adapter_stop) (\<lambda>_. omodify (\<lambda>n. n\<lparr>nr_running := False\<rparr>))
            else if thread = None then on_server adapter_stop else oreturn ()) (\<lambda>_.
     omodify (\<lambda>n. n\<lparr>nr_node_open := False\<rparr>)))"

definition runtime_mine :: "crypto \<Rightarrow> (exn \<Rightarrow> pystr) \<Rightarrow> wallet \<Rightarrow> 64 word \<Rightarrow> (node_runtime, unit) op" where
  "runtime_mine C rt wallet clock =
     obind (oeval (\<lambda>_. wallet_address C wallet)) (\<lambda>address.
     obind (on_server (on_service (mine_local_block C rt address clock))) (\<lambda>_. oreturn ()))"

section \<open>Runs of a process\<close>

definition runtime_node :: "node_runtime \<Rightarrow> consensus_node" where
  "runtime_node n = sv_node (ta_service (nr_server n))"

text \<open>
  Any number of connections, each with its handler thread, whatever bytes they carry, and starts, stops
  and mined blocks of the main thread, in any order, as long as the databases are open. Every step is
  one statement of some thread. The calls of the service are such statements: they exclude each other
  here, as if each held a lock. The code holds none, and two calls that overlap inside \<^verbatim>\<open>import_block\<close> can
  leave the state of an older replay behind; such runs are not runs of this relation.
\<close>

record handler =
  hn_address :: pystr
  hn_socket :: nat
  hn_point :: handler_point

inductive runtime_reach :: "crypto \<Rightarrow> py_runtime \<Rightarrow> (exn \<Rightarrow> pystr) \<Rightarrow> node_runtime \<Rightarrow> node_runtime \<Rightarrow> handler list \<Rightarrow> bool" for C R rt n where
  begins: "runtime_reach C R rt n n []"
| accepts: "runtime_reach C R rt n m hs \<Longrightarrow> nr_node_open m \<Longrightarrow> handler_accept C R a i (nr_server m) = (p, ta) \<Longrightarrow>
    runtime_reach C R rt n (m\<lparr>nr_server := ta\<rparr>) (hs @ [\<lparr>hn_address = a, hn_socket = i, hn_point = p\<rparr>])"
| advances: "runtime_reach C R rt n m hs \<Longrightarrow> nr_node_open m \<Longrightarrow> k < length hs \<Longrightarrow>
    handler_step C R rt (hn_address (hs ! k)) (hn_socket (hs ! k)) received (hn_point (hs ! k)) (nr_server m) = (p, ta) \<Longrightarrow>
    runtime_reach C R rt n (m\<lparr>nr_server := ta\<rparr>) (hs[k := (hs ! k)\<lparr>hn_point := p\<rparr>])"
| starts: "runtime_reach C R rt n m hs \<Longrightarrow> runtime_start m = (r, m') \<Longrightarrow> runtime_reach C R rt n m' hs"
| stops: "runtime_reach C R rt n m hs \<Longrightarrow> runtime_stop m = (r, m') \<Longrightarrow> runtime_reach C R rt n m' hs"
| mines: "runtime_reach C R rt n m hs \<Longrightarrow> nr_node_open m \<Longrightarrow> runtime_mine C rt w clock m = (r, m') \<Longrightarrow> runtime_reach C R rt n m' hs"

text \<open>A connection that is handled with no other thread in between.\<close>

lemma alone_reach:
  assumes "runs_alone C R rt a i s received r ta'" and "nr_node_open m"
    and "runtime_reach C R rt n (m\<lparr>nr_server := snd s\<rparr>) (hs @ [\<lparr>hn_address = a, hn_socket = i, hn_point = fst s\<rparr>])"
  shows "runtime_reach C R rt n (m\<lparr>nr_server := ta'\<rparr>) (hs @ [\<lparr>hn_address = a, hn_socket = i, hn_point = Finished r\<rparr>])"
proof -
  have step: "runtime_reach C R rt n (m\<lparr>nr_server := snd (handler_step C R rt a i x p ta)\<rparr>)
      (hs @ [\<lparr>hn_address = a, hn_socket = i, hn_point = fst (handler_step C R rt a i x p ta)\<rparr>])"
    if "runtime_reach C R rt n (m\<lparr>nr_server := ta\<rparr>) (hs @ [\<lparr>hn_address = a, hn_socket = i, hn_point = p\<rparr>])" for x p ta
    using assms(2) runtime_reach.advances [OF that, of "length hs" x "fst (handler_step C R rt a i x p ta)" "snd (handler_step C R rt a i x p ta)"]
    by simp
  from assms(1,3) show ?thesis
    by (induction rule: runs_alone.induct) (simp_all only: fst_conv snd_conv step)
qed

lemma connection_reach:
  assumes "runtime_reach C R rt n m hs" and "nr_node_open m" and "on_server (handle C R rt a i received) m = (r, m')"
  shows "runtime_reach C R rt n m' (hs @ [\<lparr>hn_address = a, hn_socket = i, hn_point = Finished r\<rparr>])"
proof -
  obtain ta where ta: "handle C R rt a i received (nr_server m) = (r, ta)" "m' = m\<lparr>nr_server := ta\<rparr>"
    using assms(3) by (auto simp: on_server_def split: prod.splits)
  have "runs_alone C R rt a i (handler_accept C R a i (nr_server m)) received r ta" using ta(1) handle_runs_alone by blast
  from alone_reach [OF this assms(2)] runtime_reach.accepts [OF assms(1,2), of a i] ta(2) show ?thesis
    by (metis prod.collapse)
qed

definition runtime_service :: "node_runtime \<Rightarrow> node_service" where
  "runtime_service n = ta_service (nr_server n)"

lemma life_cycle_preserves: "preserves runtime_service runtime_start" "preserves runtime_service runtime_stop"
  by (auto simp: preserves_def runtime_service_def runtime_start_def runtime_stop_def obind_def on_server_def
      adapter_start_def adapter_stop_def)

lemma keeps_on_server: "keeps (\<lambda>ta. P (ta_service ta)) f \<Longrightarrow> keeps (\<lambda>m. P (runtime_service m)) (on_server f)"
  by (simp add: keeps_def on_server_def runtime_service_def split: prod.split) (metis snd_conv)

lemma keeps_runtime_mine: "keeps (\<lambda>m. process_ok C (sv_node (runtime_service m))) (runtime_mine C rt w clock)"
  unfolding runtime_mine_def
  by (intro keeping keeps_on_server [of "\<lambda>sv. process_ok C (sv_node sv)"]
      keeps_on_service [of "\<lambda>sv. process_ok C (sv_node sv)"] process_service.mine)

lemma runtime_reach_keeps:
  "runtime_reach C R rt n m hs \<Longrightarrow> process_ok C (sv_node (runtime_service n)) \<Longrightarrow> process_ok C (sv_node (runtime_service m))"
proof (induction rule: runtime_reach.induct)
  case (accepts m hs a i p ta)
  then show ?case using process_service.accept_step_keeps [of C "nr_server m" R a i] by (simp add: runtime_service_def)
next
  case (advances m hs k received p ta)
  then show ?case
    using process_service.step_keeps [of C "nr_server m" R rt "hn_address (hs ! k)" "hn_socket (hs ! k)" received "hn_point (hs ! k)"]
    by (simp add: runtime_service_def)
next
  case (mines m hs w clock r m')
  then show ?case using keepsD [OF keeps_runtime_mine] by blast
qed (auto dest: preservesD [OF life_cycle_preserves(1)] preservesD [OF life_cycle_preserves(2)])

lemma runtime_for_service:
  assumes "runtime_for c bind node = Inr n"
  shows "sv_node (runtime_service n) = node" and "new_service node (rc_network c) (rc_node_id c) None 120 16 128 None = Inr (runtime_service n)"
  using assms by (auto simp: runtime_for_def new_adapter_def runtime_service_def new_service_def split: if_splits)

lemma runtime_keeps_node:
  assumes "runtime_for c bind node = Inr n" and "process_ok C node" and "runtime_reach C R rt n m hs"
  shows "node_ok C (runtime_node m)"
  using runtime_reach_keeps [OF assms(3)] runtime_for_service(1) [OF assms(1)] assms(2)
  by (simp add: runtime_node_def runtime_service_def process_ok_def)

text \<open>What the two constructors return holds a valid node with an encodable mempool.\<close>

lemma open_runtime_ok:
  assumes "store_ok C (nf_store files)" and "open_runtime C c bind files = (Inr n, files')"
  shows "validate_config c = Inr ()" and "\<exists>node. node_ok C node \<and> pool_ok node \<and> runtime_for c bind node = Inr n"
proof -
  from assms(2) obtain node where node: "open_node C (rc_difficulty c) (rc_block_subsidy c) (rc_max_money c) files = (Inr node, files')"
      "runtime_for c bind node = Inr n" "validate_config c = Inr ()"
    by (auto simp: open_runtime_def obind_Inr)
  moreover have "pool_ok node" using node(1) by (rule open_node_Inr) (rule new_node_pool)
  ultimately show "validate_config c = Inr ()" "\<exists>node. node_ok C node \<and> pool_ok node \<and> runtime_for c bind node = Inr n"
    using open_node_ok [OF assms(1)] by blast+
qed

lemma create_runtime_ok:
  assumes "digest_ok C" and "store_ok C (nf_store files)"
    and "create_runtime C c bind allocations clock files = (Inr n, files')"
  shows "validate_config c = Inr ()" and "\<exists>node. node_ok C node \<and> pool_ok node \<and> runtime_for c bind node = Inr n"
proof -
  from assms(3) obtain node where node: "create_node C allocations (rc_difficulty c) (rc_block_subsidy c) (rc_max_money c) clock files = (Inr node, files')"
      "runtime_for c bind node = Inr n" "validate_config c = Inr ()"
    by (auto simp: create_runtime_def obind_Inr)
  have "pool_ok node" using node(1) new_node_pool by (auto simp: create_node_def obind_Inr Let_def)
  moreover have "node_ok C node" by (rule create_node_ok(1) [OF assms(2) _ node(1)]) (rule genesis_block_ok [OF assms(1)])
  ultimately show "validate_config c = Inr ()" "\<exists>node. node_ok C node \<and> pool_ok node \<and> runtime_for c bind node = Inr n"
    using node by blast+
qed

end
