(* ===== verification/Runtime_Properties.thy ===== *)
theory Runtime_Properties
  imports Runtime Service_Properties
begin

text \<open>
  The properties of the transport (\<^verbatim>\<open>transport.py\<close>) and of a whole node process (\<^verbatim>\<open>runtime.py\<close>).
\<close>

section \<open>A node process\<close>

text \<open>
  C7: a node process that was opened from its databases, or created with genesis allocations, keeps a
  valid node for as long as its databases are open and its calls of the service exclude each other:
  whatever bytes arrive on whatever connections, in whatever order the handler threads get their turns
  between these calls, however often the process is started and stopped and whatever blocks it mines,
  every stored branch passes the consensus rules and the node's state is the replay of the best one.
\<close>

theorem process_keeps_node_valid:
  assumes "digest_ok C" and "store_ok C (nf_store files)"
    and "open_runtime C c bind files = (Inr n, files') \<or> create_runtime C c bind allocations clock files = (Inr n, files')"
    and "runtime_reach C R rt n m hs"
  shows "validate_config c = Inr () \<and> node_ok C (runtime_node m)"
proof -
  have "validate_config c = Inr () \<and> (\<exists>node. process_ok C node \<and> runtime_for c bind node = Inr n)"
    using assms(3)
  proof
    assume "open_runtime C c bind files = (Inr n, files')"
    from open_runtime_ok [OF assms(2) this] assms(1) show ?thesis by (auto simp: process_ok_def)
  next
    assume "create_runtime C c bind allocations clock files = (Inr n, files')"
    from create_runtime_ok [OF assms(1,2) this] assms(1) show ?thesis by (auto simp: process_ok_def)
  qed
  with runtime_keeps_node [OF _ _ assms(4)] show ?thesis by blast
qed

definition sample_config :: runtime_config where
  "sample_config = \<lparr>rc_network = ascii ''main'', rc_node_id = ascii ''n0'', rc_host = ascii ''h'', rc_port = 8333,
     rc_peer_auth_key = [1], rc_difficulty = 0, rc_block_subsidy = 50, rc_max_money = 1000\<rparr>"

lemma sample_runtime_created: "\<exists>n x'. create_runtime toy sample_config (Inr ()) [(alice_address, 100)] 0 empty_files = (Inr n, x')"
proof -
  obtain n x' where "create_node toy [(alice_address, 100)] 0 50 1000 0 empty_files = (Inr n, x')" using sample_create_node by blast
  then show ?thesis
    by (simp add: create_runtime_def obind_def validate_config_def sample_config_def runtime_for_def new_service_def
        new_adapter_def ascii_def)
qed

text \<open>
  A process with a genesis block that starts, accepts two connections, mines to a wallet while both are
  open and then reads from the first.
\<close>

theorem process_keeps_node_valid_witness:
  "\<exists>n x' n1 p ta q tb r3 n3 p' tc.
     create_runtime toy sample_config (Inr ()) [(alice_address, 100)] 0 empty_files = (Inr n, x') \<and>
     runtime_start n = (Inr (), n1) \<and> handler_accept toy sample_runtime (ascii ''p'') 0 (nr_server n1) = (p, ta) \<and>
     handler_accept toy sample_runtime (ascii ''q'') 1 ta = (q, tb) \<and>
     runtime_mine toy (\<lambda>_. []) alice 1 (n1\<lparr>nr_server := tb\<rparr>) = (r3, n3) \<and>
     handler_step toy sample_runtime (\<lambda>_. []) (ascii ''p'') 0 (Inr [1, 2, 3]) p (nr_server n3) = (p', tc) \<and>
     node_ok toy (runtime_node n3) \<and> node_ok toy (runtime_node (n3\<lparr>nr_server := tc\<rparr>))"
proof -
  obtain n x' where n: "create_runtime toy sample_config (Inr ()) [(alice_address, 100)] 0 empty_files = (Inr n, x')"
    using sample_runtime_created by blast
  then have fresh: "\<not> nr_running n" "ta_thread (nr_server n) = None" "nr_node_open n"
    by (auto simp: create_runtime_def obind_Inr runtime_for_def new_adapter_def split: if_splits)
  then obtain n1 where n1: "runtime_start n = (Inr (), n1)"
    by (simp add: runtime_start_def obind_def on_server_def adapter_start_def)
  let ?h = "\<lambda>a i p. \<lparr>hn_address = a, hn_socket = i, hn_point = p\<rparr>"
  obtain p ta where p: "handler_accept toy sample_runtime (ascii ''p'') 0 (nr_server n1) = (p, ta)" by (meson surj_pair)
  obtain q tb where q: "handler_accept toy sample_runtime (ascii ''q'') 1 ta = (q, tb)" by (meson surj_pair)
  obtain r3 n3 where n3: "runtime_mine toy (\<lambda>_. []) alice 1 (n1\<lparr>nr_server := tb\<rparr>) = (r3, n3)" by (meson surj_pair)
  have up: "nr_node_open n1" "nr_node_open n3"
    using n1 n3 fresh(3)
    by (auto simp: runtime_start_def runtime_mine_def obind_def on_server_def split: if_splits prod.splits sum.splits)
  obtain p' tc where p': "handler_step toy sample_runtime (\<lambda>_. []) (ascii ''p'') 0 (Inr [1, 2, 3]) p (nr_server n3) = (p', tc)"
    by (meson surj_pair)
  have "runtime_reach toy sample_runtime (\<lambda>_. []) n (n1\<lparr>nr_server := ta\<rparr>) [?h (ascii ''p'') 0 p]"
    using runtime_reach.accepts [OF runtime_reach.starts [OF runtime_reach.begins n1] up(1) p] by simp
  from runtime_reach.accepts [OF this _, of "ascii ''q''" 1 q tb] q up(1)
  have "runtime_reach toy sample_runtime (\<lambda>_. []) n (n1\<lparr>nr_server := tb\<rparr>) [?h (ascii ''p'') 0 p, ?h (ascii ''q'') 1 q]" by simp
  from runtime_reach.mines [OF this _ n3] up(1)
  have reach3: "runtime_reach toy sample_runtime (\<lambda>_. []) n n3 [?h (ascii ''p'') 0 p, ?h (ascii ''q'') 1 q]" by simp
  have reach4: "runtime_reach toy sample_runtime (\<lambda>_. []) n (n3\<lparr>nr_server := tc\<rparr>) [?h (ascii ''p'') 0 p', ?h (ascii ''q'') 1 q]"
    using runtime_reach.advances [OF reach3 up(2), of 0 "Inr [1, 2, 3]" p' tc] p' by simp
  have "store_ok toy (nf_store empty_files)" using empty_store_ok(1) by (simp add: empty_files_def)
  note valid = process_keeps_node_valid [OF toy_digest_ok this disjI2 [OF n]]
  from valid [OF reach3] valid [OF reach4] n n1 p q n3 p' show ?thesis by blast
qed

section \<open>Fan-out\<close>

text \<open>
  A broadcast puts the frames of all its messages, in order, on every registered connection but
  the excluded one; connections that fail are dropped from the table, all others and all other sockets
  are left as they are.
\<close>

lemma broadcast_reaches_all:
  assumes "rmap (\<lambda>m. to_frame C m (ta_auth_key ta)) ms = Inr fs" and "ms \<noteq> []"
    and "distinct (map snd (ta_connections ta))" and "distinct (map fst (ta_connections ta))"
  shows "\<exists>ta'. broadcast C ms exclude ta = (Inr (), ta') \<and>
    (\<forall>a i. (a, i) \<in> set (ta_connections ta) \<longrightarrow>
       (if Some a = exclude then ta_sockets ta' i = ta_sockets ta i \<and> (a, i) \<in> set (ta_connections ta')
        else if so_broken (ta_sockets ta i) then ta_sockets ta' i = ta_sockets ta i \<and> (a, i) \<notin> set (ta_connections ta')
        else ta_sockets ta' i = (ta_sockets ta i)\<lparr>so_sent := so_sent (ta_sockets ta i) @ fs\<rparr> \<and>
          (a, i) \<in> set (ta_connections ta'))) \<and>
    (\<forall>i. i \<notin> snd ` set (ta_connections ta) \<longrightarrow> ta_sockets ta' i = ta_sockets ta i) \<and>
    set (ta_connections ta') \<subseteq> set (ta_connections ta)"
proof -
  let ?rs = "filter (\<lambda>p. Some (fst p) \<noteq> exclude) (ta_connections ta)"
  obtain ta' where run: "broadcast C ms exclude ta = (Inr (), ta')"
      and socks: "ta_sockets ta' = (\<lambda>j. if j \<in> snd ` set ?rs then after_send fs (ta_sockets ta j) else ta_sockets ta j)"
      and conns: "ta_connections ta' = filter (\<lambda>p. fst p \<notin> fst ` {q \<in> set ?rs. so_broken (ta_sockets ta (snd q))}) (ta_connections ta)"
    using broadcast_effect [OF assms(1-3), of exclude] by blast
  have "ta_sockets ta' i = ta_sockets ta i" if "i \<notin> snd ` set (ta_connections ta)" for i
    using that unfolding socks by auto
  moreover have "set (ta_connections ta') \<subseteq> set (ta_connections ta)" unfolding conns by auto
  ultimately show ?thesis
    using run broadcast_each [OF assms(3,4) _ socks conns] by (intro exI [of _ ta']) simp
qed

definition two_connections :: tcp_adapter where
  "two_connections = \<lparr>ta_service = sample_service, ta_auth_key = [1], ta_thread = Some True, ta_closed = False,
     ta_connections = [(ascii ''a'', 0), (ascii ''b'', 1)],
     ta_sockets = (\<lambda>i. \<lparr>so_sent = [], so_broken = (i = 1)\<rparr>)\<rparr>"

lemma broadcast_reaches_all_witness:
  "\<exists>f ta'. to_frame toy sample_version [1] = Inr f \<and> broadcast toy [sample_version] None two_connections = (Inr (), ta') \<and>
     so_sent (ta_sockets ta' 0) = [f] \<and> (ascii ''b'', 1) \<notin> set (ta_connections ta')"
proof -
  have "\<exists>f. to_frame toy sample_version [1] = Inr f"
    by (rule exI [of _ "projr (to_frame toy sample_version [1])"]) code_simp
  then obtain f where f: "to_frame toy sample_version [1] = Inr f" ..
  then have "rmap (\<lambda>m. to_frame toy m (ta_auth_key two_connections)) [sample_version] = Inr [f]"
    by (simp add: two_connections_def)
  from broadcast_reaches_all [OF this, of None] f show ?thesis
    by (auto simp: two_connections_def ascii_def)
qed

section \<open>Closed connections\<close>

text \<open>
  C36: a connection that the peer closes leaves the table of connections but keeps its inbound slot and
  its session, since the handler never tells the service. After as many such connections as there are
  slots, none of them open any more, every connection from a new address is refused.
\<close>

theorem closed_connections_use_up_slots:
  assumes "\<forall>a \<in> set (b # as). validate_address R a = Inr () \<and> map_of (pm_peers (sv_peers (ta_service ta))) a = None"
    and "distinct (b # as)" and "manager_ok (sv_peers (ta_service ta))"
    and "node_height C (sv_node (ta_service ta)) = Inr h" and "ta_connections ta = []"
    and "inbound_count (sv_peers (ta_service ta)) + int (length as) = pm_max_inbound (sv_peers (ta_service ta))"
    and "ta' = opened_and_closed C R rt as ta"
  shows "ta_connections ta' = [] \<and>
    inbound_count (sv_peers (ta_service ta')) = pm_max_inbound (sv_peers (ta_service ta')) \<and>
    fst (accept_inbound_peer C R b 0 (ta_service ta')) = peer_manager_error ''inbound peer limit reached''"
proof -
  have slots: "inbound_count (sv_peers (ta_service ta')) = inbound_count (sv_peers (ta_service ta)) + int (length as) \<and>
    ta_connections ta' = [] \<and> manager_ok (sv_peers (ta_service ta')) \<and>
    pm_max_inbound (sv_peers (ta_service ta')) = pm_max_inbound (sv_peers (ta_service ta)) \<and>
    (\<forall>c. c \<notin> set as \<longrightarrow> map_of (pm_peers (sv_peers (ta_service ta'))) c = map_of (pm_peers (sv_peers (ta_service ta))) c)"
    unfolding assms(7) using assms(1-6) by (intro closed_keep_slots [where h = h]) auto
  have "validate_address R b = Inr ()" "map_of (pm_peers (sv_peers (ta_service ta'))) b = None"
    using slots assms(1,2) by auto
  from accept_full [OF this] slots assms(6) show ?thesis by auto
qed

definition small_server :: tcp_adapter where
  "small_server = two_connections\<lparr>ta_connections := [],
     ta_service := sample_service\<lparr>sv_peers := default_peer_manager\<lparr>pm_max_inbound := 1\<rparr>\<rparr>\<rparr>"

theorem closed_connections_use_up_slots_witness:
  "fst (accept_inbound_peer toy sample_runtime (ascii ''b'') 0
     (ta_service (opened_and_closed toy sample_runtime (\<lambda>_. []) [ascii ''a''] small_server))) =
   peer_manager_error ''inbound peer limit reached''"
proof -
  have "case node_height toy (sv_node (ta_service small_server)) of Inl e \<Rightarrow> False | Inr h \<Rightarrow> True" by code_simp
  then obtain h where h: "node_height toy (sv_node (ta_service small_server)) = Inr h" by (auto split: sum.splits)
  have "\<forall>a \<in> set [ascii ''b'', ascii ''a'']. validate_address sample_runtime a = Inr () \<and>
      map_of (pm_peers (sv_peers (ta_service small_server))) a = None"
    by (auto simp: small_server_def default_peer_manager_def validate_address_def py_isspace_def sample_runtime_def ascii_def)
  moreover have "distinct [ascii ''b'', ascii ''a'']" by (simp add: ascii_def)
  moreover have "manager_ok (sv_peers (ta_service small_server))" "ta_connections small_server = []"
      "inbound_count (sv_peers (ta_service small_server)) + int (length [ascii ''a'']) = pm_max_inbound (sv_peers (ta_service small_server))"
    by (simp_all add: small_server_def default_peer_manager_def manager_ok_def inbound_count_def)
  ultimately show ?thesis using closed_connections_use_up_slots [OF _ _ _ h _ _ refl] by blast
qed

end
