(* ===== verification/Wallet_File.thy ===== *)
theory Wallet_File
  imports Crypto Json_Round_Trip
begin

text \<open>
  The wallet files of \<^verbatim>\<open>crypto.py\<close>: \<^verbatim>\<open>atomic_write_json\<close>, key derivation, encryption and decryption
  of the payload, \<^verbatim>\<open>Wallet.to_dict\<close>, \<^verbatim>\<open>from_dict\<close>, \<^verbatim>\<open>encrypted_dict\<close>, \<^verbatim>\<open>save\<close> and \<^verbatim>\<open>load\<close>.

  PBKDF2 and AES-GCM come from the \<^verbatim>\<open>cryptography\<close> library and are the fields of \<open>cipher\<close>; the bytes
  of \<^verbatim>\<open>os.urandom\<close> and the random part of a temporary file's name are arguments. \<open>cipher_ok\<close> states
  what is relied on: a 32-byte key is derived for the iteration count of the program, and what was
  encrypted under such a key and a 12-byte nonce is decrypted again.

  The files are a map from a path in normal form (no empty or \<^verbatim>\<open>.\<close> part) to the bytes of the file.
  Directories, permissions and a full disk are not modelled.
\<close>

section \<open>Files\<close>

type_synonym files = "pystr \<rightharpoonup> bytes"

text \<open>What the writer does to the file system, one step after the other.\<close>

datatype file_step =
    CreateFile pystr \<comment> \<open>\<^verbatim>\<open>NamedTemporaryFile\<close>\<close>
  | AppendFile pystr bytes \<comment> \<open>\<^verbatim>\<open>handle.write\<close>\<close>
  | ReplaceFile pystr pystr \<comment> \<open>\<^verbatim>\<open>os.replace\<close>\<close>

primrec run_step :: "file_step \<Rightarrow> files \<Rightarrow> files" where
  "run_step (CreateFile t) fs = fs(t \<mapsto> [])"
| "run_step (AppendFile t bs) fs = fs(t \<mapsto> (case fs t of None \<Rightarrow> bs | Some old \<Rightarrow> old @ bs))"
| "run_step (ReplaceFile t p) fs = (case fs t of None \<Rightarrow> fs | Some bs \<Rightarrow> (fs(t := None))(p \<mapsto> bs))"

text \<open>The parent directory with its slash, the name, and the temporary file beside the target.\<close>

definition path_name :: "pystr \<Rightarrow> pystr" where
  "path_name p = rev (takeWhile (\<lambda>c. c \<noteq> 47) (rev p))"

definition path_parent :: "pystr \<Rightarrow> pystr" where
  "path_parent p = rev (dropWhile (\<lambda>c. c \<noteq> 47) (rev p))"

definition temp_name :: "pystr \<Rightarrow> pystr \<Rightarrow> pystr" where
  "temp_name random path = path_parent path @ [46] @ path_name path @ [46] @ random @ ascii ''.tmp''"

definition atomic_write_steps :: "pystr \<Rightarrow> pystr \<Rightarrow> bytes \<Rightarrow> file_step list" where
  "atomic_write_steps random path encoded =
     (let temp = temp_name random path
      in [CreateFile temp, AppendFile temp encoded, AppendFile temp [10], ReplaceFile temp path])"

definition atomic_write_json :: "pystr \<Rightarrow> pystr \<Rightarrow> json \<Rightarrow> (files, unit) op" where
  "atomic_write_json random path payload fs =
     (case utf8_encode (dumps_indent payload) of
        Inl e \<Rightarrow> (Inl e, fs)
      | Inr encoded \<Rightarrow> (Inr (), fold run_step (atomic_write_steps random path encoded) fs))"

text \<open>\<^verbatim>\<open>read_text(encoding="utf-8")\<close>: strict decoding, then every line ending becomes a newline.\<close>

fun universal_newlines :: "pystr \<Rightarrow> pystr" where
  "universal_newlines [] = []"
| "universal_newlines [c] = [if c = 13 then 10 else c]"
| "universal_newlines (c # d # s) =
     (if c = 13 then (if d = 10 then 10 # universal_newlines s else 10 # universal_newlines (d # s))
      else c # universal_newlines (d # s))"

definition read_text :: "files \<Rightarrow> pystr \<Rightarrow> pystr result" where
  "read_text fs path =
     (case fs path of
        None \<Rightarrow> Inl OSError
      | Some bs \<Rightarrow>
          (case utf8_decode bs of
             None \<Rightarrow> Inl UnicodeDecodeError
           | Some s \<Rightarrow> Inr (universal_newlines s)))"

section \<open>Encryption\<close>

datatype aead_result =
    Opened bytes
  | InvalidTag
  | InvalidArgument \<comment> \<open>\<^verbatim>\<open>ValueError\<close>, for a nonce or data of a wrong size\<close>

record cipher =
  pbkdf2_sha256 :: "bytes \<Rightarrow> int \<Rightarrow> (bytes \<Rightarrow> bytes) result" \<comment> \<open>\<^verbatim>\<open>PBKDF2HMAC(SHA256, 32, salt, iterations)\<close> and its \<^verbatim>\<open>derive\<close>\<close>
  aesgcm_encrypt :: "bytes \<Rightarrow> bytes \<Rightarrow> bytes \<Rightarrow> bytes \<Rightarrow> bytes" \<comment> \<open>key, nonce, data, associated data\<close>
  aesgcm_decrypt :: "bytes \<Rightarrow> bytes \<Rightarrow> bytes \<Rightarrow> bytes \<Rightarrow> aead_result"

definition WALLET_SCHEMA_VERSION :: int where
  "WALLET_SCHEMA_VERSION = 1"

definition WALLET_KDF :: pystr where
  "WALLET_KDF = ascii ''pbkdf2-sha256''"

definition WALLET_ENCRYPTION :: pystr where
  "WALLET_ENCRYPTION = ascii ''aes-256-gcm''"

definition WALLET_KDF_ITERATIONS :: int where
  "WALLET_KDF_ITERATIONS = 600000"

text \<open>The associated data of both directions, \<^verbatim>\<open>b"blockchaincoin-wallet-v1"\<close>.\<close>

definition wallet_aad :: bytes where
  "wallet_aad = map word_of_int (ascii ''blockchaincoin-wallet-v1'')"

definition cipher_ok :: "cipher \<Rightarrow> bool" where
  "cipher_ok W \<longleftrightarrow>
     (\<forall>salt. \<exists>derive. pbkdf2_sha256 W salt WALLET_KDF_ITERATIONS = Inr derive \<and> (\<forall>p. length (derive p) = 32)) \<and>
     (\<forall>key nonce data aad. length key = 32 \<longrightarrow> length nonce = 12 \<longrightarrow>
        aesgcm_decrypt W key nonce (aesgcm_encrypt W key nonce data aad) aad = Opened data)"

definition derive_wallet_key :: "cipher \<Rightarrow> pystr \<Rightarrow> bytes \<Rightarrow> int \<Rightarrow> bytes result" where
  "derive_wallet_key W passphrase salt iterations =
     (if passphrase = [] then value_error ''wallet passphrase is required''
      else if iterations \<le> 0 then value_error ''wallet KDF iterations must be positive''
      else rbind (pbkdf2_sha256 W salt iterations) (\<lambda>derive.
           rbind (utf8_encode passphrase) (\<lambda>p. Inr (derive p))))"

text \<open>\<^verbatim>\<open>_encrypt_wallet_payload\<close>, with the two draws of \<^verbatim>\<open>os.urandom\<close> as arguments.\<close>

definition encrypt_wallet_payload :: "cipher \<Rightarrow> bytes \<Rightarrow> bytes \<Rightarrow> json \<Rightarrow> pystr \<Rightarrow> json result" where
  "encrypt_wallet_payload W salt nonce payload passphrase =
     rbind (derive_wallet_key W passphrase salt WALLET_KDF_ITERATIONS) (\<lambda>key.
     rbind (utf8_encode (dumps payload)) (\<lambda>data.
     Inr (JObj
       [(ascii ''schema_version'', JInt WALLET_SCHEMA_VERSION),
        (ascii ''encrypted'', JBool True),
        (ascii ''encryption'', JStr WALLET_ENCRYPTION),
        (ascii ''kdf'', JStr WALLET_KDF),
        (ascii ''iterations'', JInt WALLET_KDF_ITERATIONS),
        (ascii ''salt'', JStr (b64encode salt)),
        (ascii ''nonce'', JStr (b64encode nonce)),
        (ascii ''ciphertext'', JStr (b64encode (aesgcm_encrypt W key nonce data wallet_aad)))])))"

text \<open>The text behind a key, converted and decoded: \<^verbatim>\<open>b64decode(str(data[key]))\<close>.\<close>

definition b64_field :: "py_runtime \<Rightarrow> (pystr, json) dict \<Rightarrow> string \<Rightarrow> bytes result" where
  "b64_field R d k = rbind (py_getitem d k) (\<lambda>v. b64decode (py_str R v))"

text \<open>
  The two \<^verbatim>\<open>try\<close> blocks of \<^verbatim>\<open>_decrypt_wallet_payload\<close>: a failed authentication and any other
  \<^verbatim>\<open>ValueError\<close> of the first are told apart; of the second only undecodable text and malformed JSON
  are caught.
\<close>

definition open_wallet_payload :: "cipher \<Rightarrow> py_runtime \<Rightarrow> bytes \<Rightarrow> (pystr, json) dict \<Rightarrow> bytes result" where
  "open_wallet_payload W R key d =
     (case rbind (b64_field R d ''nonce'') (\<lambda>nonce.
           rbind (b64_field R d ''ciphertext'') (\<lambda>ciphertext.
           Inr (aesgcm_decrypt W key nonce ciphertext wallet_aad))) of
        Inl e \<Rightarrow> if is_value_error e then value_error ''encrypted wallet payload is invalid'' else Inl e
      | Inr (Opened plaintext) \<Rightarrow> Inr plaintext
      | Inr InvalidTag \<Rightarrow> value_error ''wallet passphrase is invalid''
      | Inr InvalidArgument \<Rightarrow> value_error ''encrypted wallet payload is invalid'')"

definition parse_wallet_payload :: "py_runtime \<Rightarrow> bytes \<Rightarrow> (pystr, json) dict result" where
  "parse_wallet_payload R plaintext =
     (case utf8_decode plaintext of
        None \<Rightarrow> value_error ''encrypted wallet payload is invalid''
      | Some s \<Rightarrow>
          (case loads R s of
             Inl e \<Rightarrow> if e = JSONDecodeError then value_error ''encrypted wallet payload is invalid'' else Inl e
           | Inr (JObj d) \<Rightarrow> Inr d
           | Inr _ \<Rightarrow> value_error ''encrypted wallet payload is invalid''))"

definition decrypt_wallet_payload ::
  "cipher \<Rightarrow> py_runtime \<Rightarrow> (pystr, json) dict \<Rightarrow> pystr option \<Rightarrow> (pystr, json) dict result" where
  "decrypt_wallet_payload W R d passphrase =
     (case passphrase of
        None \<Rightarrow> value_error ''wallet passphrase is required''
      | Some p \<Rightarrow>
          if py_get d ''encryption'' \<noteq> JStr WALLET_ENCRYPTION then value_error ''unsupported wallet encryption''
          else if py_get d ''kdf'' \<noteq> JStr WALLET_KDF then value_error ''unsupported wallet key derivation''
          else rbind (py_getitem d ''iterations'') (\<lambda>it.
               rbind (py_int R it) (\<lambda>iterations.
               rbind (b64_field R d ''salt'') (\<lambda>salt.
               rbind (derive_wallet_key W p salt iterations) (\<lambda>key.
               rbind (open_wallet_payload W R key d) (parse_wallet_payload R))))))"

section \<open>Wallets\<close>

text \<open>\<^verbatim>\<open>PublicKey.from_dict\<close> on a decoded value: subscripting anything but an object raises.\<close>

definition pk_from_json :: "py_runtime \<Rightarrow> json \<Rightarrow> public_key result" where
  "pk_from_json R v =
     (case v of
        JObj d \<Rightarrow>
          rbind (py_getitem d ''algorithm'') (\<lambda>a.
          rbind (py_getitem d ''key'') (\<lambda>k.
          Inr \<lparr>pk_algorithm = py_str R a, pk_key = py_str R k\<rparr>))
      | _ \<Rightarrow> Inl TypeError)"

definition pk_to_json :: "public_key \<Rightarrow> json" where
  "pk_to_json pk = JObj (map (map_prod id JStr) (pk_to_dict pk))"

definition wallet_to_dict :: "wallet \<Rightarrow> json" where
  "wallet_to_dict w =
     JObj [(ascii ''schema_version'', JInt WALLET_SCHEMA_VERSION),
           (ascii ''public_key'', pk_to_json (w_public_key w)),
           (ascii ''private_key'', JStr (w_private_key w))]"

definition wallet_from_dict :: "crypto \<Rightarrow> py_runtime \<Rightarrow> (pystr, json) dict \<Rightarrow> wallet result" where
  "wallet_from_dict C R d =
     rbind (case map_of d (ascii ''schema_version'') of None \<Rightarrow> Inr 0 | Some v \<Rightarrow> py_int R v) (\<lambda>version.
     if version \<noteq> WALLET_SCHEMA_VERSION
     then Inl (ValueError (ascii ''unsupported wallet schema version: '' @ int_repr version))
     else rbind (py_getitem d ''public_key'') (\<lambda>v.
          rbind (pk_from_json R v) (\<lambda>pk.
          rbind (py_getitem d ''private_key'') (\<lambda>k.
          rbind (b64decode (py_str R k)) (\<lambda>raw.
          if \<not> ed25519_secret_ok C raw
          then value_error ''An Ed25519 private key is 32 bytes long''
          else if pk_create (ed25519_public C raw) \<noteq> pk
          then value_error ''wallet private key does not match public key''
          else Inr \<lparr>w_public_key = pk, w_private_key = py_str R k\<rparr>)))))"

definition encrypted_dict :: "cipher \<Rightarrow> bytes \<Rightarrow> bytes \<Rightarrow> wallet \<Rightarrow> pystr \<Rightarrow> json result" where
  "encrypted_dict W salt nonce w passphrase = encrypt_wallet_payload W salt nonce (wallet_to_dict w) passphrase"

text \<open>
  The random draws of a save: salt and nonce of the encryption, and the part of the temporary file's
  name.
\<close>

record save_draws =
  sd_salt :: bytes
  sd_nonce :: bytes
  sd_temp :: pystr

definition wallet_save :: "cipher \<Rightarrow> save_draws \<Rightarrow> wallet \<Rightarrow> pystr \<Rightarrow> pystr option \<Rightarrow> (files, unit) op" where
  "wallet_save W r w path passphrase fs =
     (case (case passphrase of
              Some p \<Rightarrow> encrypted_dict W (sd_salt r) (sd_nonce r) w p
            | None \<Rightarrow> Inr (wallet_to_dict w)) of
        Inl e \<Rightarrow> (Inl e, fs)
      | Inr payload \<Rightarrow> atomic_write_json (sd_temp r) path payload fs)"

definition wallet_load :: "crypto \<Rightarrow> cipher \<Rightarrow> py_runtime \<Rightarrow> files \<Rightarrow> pystr \<Rightarrow> pystr option \<Rightarrow> wallet result" where
  "wallet_load C W R fs path passphrase =
     rbind (read_text fs path) (\<lambda>s.
     rbind (loads R s) (\<lambda>v.
     case v of
       JObj payload \<Rightarrow>
         rbind (if py_get payload ''encrypted'' = JBool True
                then decrypt_wallet_payload W R payload passphrase else Inr payload)
               (wallet_from_dict C R)
     | _ \<Rightarrow> value_error ''wallet file must contain an object''))"

section \<open>Atomic writes\<close>

lemma temp_name_other: "temp_name random path \<noteq> path"
proof -
  have "path_parent path @ path_name path = path"
    unfolding path_parent_def path_name_def by (metis rev_append rev_rev_ident takeWhile_dropWhile_id)
  then have "length path = length (path_parent path) + length (path_name path)" by (metis length_append)
  then have "length (temp_name random path) > length path" by (simp add: temp_name_def)
  then show ?thesis by auto
qed

lemma atomic_write_prefix:
  "fold run_step (take k (atomic_write_steps random path encoded)) fs path \<in> {fs path, Some (encoded @ [10])}"
proof -
  consider "k = 0" | "k = 1" | "k = 2" | "k = 3" | "4 \<le> k" by linarith
  then show ?thesis
    using temp_name_other [of random path]
    by cases (auto simp: atomic_write_steps_def Let_def numeral_2_eq_2 numeral_3_eq_3)
qed

lemma atomic_write_result:
  "fold run_step (atomic_write_steps random path encoded) fs = fs(temp_name random path := None, path \<mapsto> encoded @ [10])"
  using temp_name_other [of random path] by (auto simp: atomic_write_steps_def Let_def)

lemma atomic_write_json_ok:
  assumes "json_wf R payload"
  shows "atomic_write_json random path payload fs =
    (Inr (), fs(temp_name random path := None, path \<mapsto> map word_of_int (dumps_indent payload @ [10])))"
  using utf8_encode_ascii [OF is_ascii_plain [OF dumps_indent_plain [OF json_wf_floats_plain [OF assms]]]]
  by (simp add: atomic_write_json_def atomic_write_result)

lemma universal_newlines_plain: "list_all is_plain s \<Longrightarrow> universal_newlines s = s"
  by (induction s rule: universal_newlines.induct) (auto simp: is_plain_def)

text \<open>What was written is read and parsed as the same value.\<close>

lemma read_back:
  assumes "json_wf R payload" and "fs path = Some (map word_of_int (dumps_indent payload @ [10]))"
  shows "rbind (read_text fs path) (loads R) = Inr (json_sort payload)"
proof -
  let ?t = "dumps_indent payload @ [10]"
  have plain: "list_all is_plain ?t" using dumps_indent_plain [OF json_wf_floats_plain [OF assms(1)]] by (simp add: is_plain_def)
  have "utf8_decode (map word_of_int ?t) = Some ?t"
    by (rule utf8_decode_encode [OF utf8_encode_ascii [OF is_ascii_plain [OF plain]]])
  moreover have "loads R ?t = Inr (json_sort payload)"
    using assms(1) by (intro loads_dumps_indent) (simp_all add: is_ws_def)
  ultimately show ?thesis
    using assms(2) universal_newlines_plain [OF plain] by (simp add: read_text_def del: map_append)
qed

end
