(* ===== verification/Wallet_Properties.thy ===== *)
theory Wallet_Properties
  imports Wallet_File Samples
begin

text \<open>
  A saved wallet is loaded again, plain or encrypted; a loaded wallet has matching keys; an encrypted
  one needs its passphrase; a write that is cut off leaves the old file or the new one.
\<close>

section \<open>Payloads that survive the file\<close>

definition wallet_ok :: "crypto \<Rightarrow> wallet \<Rightarrow> bool" where
  "wallet_ok C w \<longleftrightarrow> (\<exists>raw. b64decode (w_private_key w) = Inr raw \<and> ed25519_secret_ok C raw \<and>
     w_public_key w = pk_create (ed25519_public C raw))"

lemma wallet_ok_create:
  "ed25519_secret_ok C raw \<Longrightarrow> wallet_create C bits raw = Inr w \<Longrightarrow> wallet_ok C w"
  by (auto simp: wallet_ok_def wallet_create_def b64decode_b64encode split: if_splits)

lemma wallet_ok_verifies:
  "ed25519_ok C \<Longrightarrow> wallet_ok C w \<Longrightarrow> wallet_sign C w message = Inr signature \<Longrightarrow>
     verify_signature C (w_public_key w) message signature"
  by (auto simp: wallet_ok_def wallet_sign_def verify_signature_def pk_material_def pk_create_def
      b64decode_b64encode ed25519_ok_def split: if_splits)

lemma wallet_ok_sign_total: "wallet_ok C w \<Longrightarrow> is_ascii message \<Longrightarrow> \<exists>s. wallet_sign C w message = Inr s"
  by (auto simp: wallet_ok_def wallet_sign_def utf8_encode_ascii)

lemma is_ascii_scalar: "is_ascii s \<Longrightarrow> list_all is_scalar s"
  by (auto simp: is_ascii_def is_scalar_def list_all_iff)

lemma wallet_private_ascii: "b64decode s = Inr raw \<Longrightarrow> is_ascii s"
  by (auto simp: b64decode_def is_ascii_def Let_def split: if_splits)

lemma int_small_wf: "0 \<le> i \<Longrightarrow> i < 10 \<Longrightarrow> json_wf R (JInt i)"
  by (simp add: nat_repr.simps INT_MAX_STR_DIGITS_def)

lemma iterations_wf: "json_wf R (JInt WALLET_KDF_ITERATIONS)"
  by (simp add: WALLET_KDF_ITERATIONS_def nat_repr.simps INT_MAX_STR_DIGITS_def)

lemma wallet_dict_wf:
  assumes "wallet_ok C w"
  shows "json_wf R (wallet_to_dict w)"
proof -
  have "list_all is_scalar (w_private_key w)" "list_all is_scalar (pk_algorithm (w_public_key w))"
      "list_all is_scalar (pk_key (w_public_key w))"
    using assms by (auto simp: wallet_ok_def pk_create_def KEY_ALGORITHM_def ascii_scalar
        is_ascii_scalar [OF b64encode_ascii] intro: is_ascii_scalar dest!: wallet_private_ascii)
  moreover have "distinct [ascii ''schema_version'', ascii ''public_key'', ascii ''private_key'']"
      "distinct [ascii ''algorithm'', ascii ''key'']" by (simp_all add: ascii_eq)
  ultimately show ?thesis
    using ascii_scalar int_small_wf [of 1 R]
    unfolding wallet_to_dict_def json_wf_object pk_to_json_def pk_to_dict_def WALLET_SCHEMA_VERSION_def by simp
qed

lemma wallet_from_sorted:
  assumes "wallet_ok C w" and "json_sort (wallet_to_dict w) = JObj d"
  shows "wallet_from_dict C R d = Inr w"
proof -
  let ?kvs = "\<lambda>pk. [(ascii ''schema_version'', JInt WALLET_SCHEMA_VERSION), (ascii ''public_key'', JObj pk),
     (ascii ''private_key'', JStr (w_private_key w))]"
  let ?pk = "[(ascii ''algorithm'', JStr (pk_algorithm (w_public_key w))), (ascii ''key'', JStr (pk_key (w_public_key w)))]"
  have "distinct (map fst ?pk)" by (simp add: ascii_eq)
  then obtain p where p: "json_sort (JObj ?pk) = JObj p" "map_of p = map_option json_sort \<circ> map_of ?pk"
    by (rule sorted_object)
  have pk: "pk_from_json R (JObj p) = Inr (w_public_key w)"
    by (simp add: pk_from_json_def py_getitem_def p(2) py_str_def ascii_eq)
  have "map_of d = map_option json_sort \<circ> map_of (?kvs ?pk)"
  proof (rule map_of_json_sort)
    show "json_sort (JObj (?kvs ?pk)) = JObj d"
      using assms(2) unfolding wallet_to_dict_def pk_to_json_def pk_to_dict_def list.map map_prod_simp id_apply .
  qed (simp add: ascii_eq)
  then have "map_of d (ascii ''schema_version'') = Some (JInt WALLET_SCHEMA_VERSION)"
      "map_of d (ascii ''public_key'') = Some (JObj p)" "map_of d (ascii ''private_key'') = Some (JStr (w_private_key w))"
    by (simp_all add: ascii_eq p(1) del: json_sort.simps(7))
  moreover obtain raw where "b64decode (w_private_key w) = Inr raw" "ed25519_secret_ok C raw"
      "w_public_key w = pk_create (ed25519_public C raw)"
    using assms(1) by (auto simp: wallet_ok_def)
  ultimately show ?thesis
    using pk by (simp add: wallet_from_dict_def py_getitem_def py_int_def py_str_def)
qed

lemma wallet_dict_not_encrypted:
  assumes "json_sort (wallet_to_dict w) = JObj d"
  shows "map_of d (ascii ''encrypted'') = None"
proof -
  let ?kvs = "[(ascii ''schema_version'', JInt WALLET_SCHEMA_VERSION), (ascii ''public_key'', pk_to_json (w_public_key w)),
    (ascii ''private_key'', JStr (w_private_key w))]"
  have "distinct (map fst ?kvs)" by (simp add: ascii_eq)
  then have "map_of d = map_option json_sort \<circ> map_of ?kvs"
    by (rule map_of_json_sort [OF assms [unfolded wallet_to_dict_def]])
  then show ?thesis by (simp add: ascii_eq)
qed

text \<open>The payload of an encrypted wallet, and what each key holds after the file was read.\<close>

definition encrypted_members :: "bytes \<Rightarrow> bytes \<Rightarrow> bytes \<Rightarrow> (pystr \<times> json) list" where
  "encrypted_members salt nonce ciphertext =
     [(ascii ''schema_version'', JInt WALLET_SCHEMA_VERSION), (ascii ''encrypted'', JBool True),
      (ascii ''encryption'', JStr WALLET_ENCRYPTION), (ascii ''kdf'', JStr WALLET_KDF),
      (ascii ''iterations'', JInt WALLET_KDF_ITERATIONS), (ascii ''salt'', JStr (b64encode salt)),
      (ascii ''nonce'', JStr (b64encode nonce)), (ascii ''ciphertext'', JStr (b64encode ciphertext))]"

lemma encrypted_members_wf: "json_wf R (JObj (encrypted_members salt nonce ciphertext))"
  using int_small_wf [of 1 R] iterations_wf [of R]
  by (simp add: json_wf_object encrypted_members_def ascii_eq ascii_scalar WALLET_SCHEMA_VERSION_def
      WALLET_ENCRYPTION_def WALLET_KDF_def is_ascii_scalar [OF b64encode_ascii] del: json_wf.simps(3,7))

lemma encrypted_members_sorted:
  assumes "json_sort (JObj (encrypted_members salt nonce ciphertext)) = JObj d"
  shows "map_of d (ascii ''encrypted'') = Some (JBool True)"
    "map_of d (ascii ''encryption'') = Some (JStr WALLET_ENCRYPTION)" "map_of d (ascii ''kdf'') = Some (JStr WALLET_KDF)"
    "map_of d (ascii ''iterations'') = Some (JInt WALLET_KDF_ITERATIONS)"
    "map_of d (ascii ''salt'') = Some (JStr (b64encode salt))" "map_of d (ascii ''nonce'') = Some (JStr (b64encode nonce))"
    "map_of d (ascii ''ciphertext'') = Some (JStr (b64encode ciphertext))"
proof -
  have "distinct (map fst (encrypted_members salt nonce ciphertext))" by (simp add: encrypted_members_def ascii_eq)
  then have "map_of d = map_option json_sort \<circ> map_of (encrypted_members salt nonce ciphertext)"
    by (rule map_of_json_sort [OF assms])
  then show "map_of d (ascii ''encrypted'') = Some (JBool True)"
    "map_of d (ascii ''encryption'') = Some (JStr WALLET_ENCRYPTION)" "map_of d (ascii ''kdf'') = Some (JStr WALLET_KDF)"
    "map_of d (ascii ''iterations'') = Some (JInt WALLET_KDF_ITERATIONS)"
    "map_of d (ascii ''salt'') = Some (JStr (b64encode salt))" "map_of d (ascii ''nonce'') = Some (JStr (b64encode nonce))"
    "map_of d (ascii ''ciphertext'') = Some (JStr (b64encode ciphertext))"
    by (simp_all add: encrypted_members_def ascii_eq)
qed

lemma derive_wallet_key_ok:
  assumes "cipher_ok W" and "p \<noteq> []" and "list_all is_scalar p"
  obtains key where "derive_wallet_key W p salt WALLET_KDF_ITERATIONS = Inr key" "length key = 32"
proof -
  obtain derive where d: "pbkdf2_sha256 W salt WALLET_KDF_ITERATIONS = Inr derive" "\<forall>p. length (derive p) = 32"
    using assms(1) unfolding cipher_ok_def by blast
  moreover obtain bs where "utf8_encode p = Inr bs" using assms(3) by (auto simp: utf8_encode_def)
  ultimately have "derive_wallet_key W p salt WALLET_KDF_ITERATIONS = Inr (derive bs)"
    using assms(2) by (simp add: derive_wallet_key_def WALLET_KDF_ITERATIONS_def)
  with d(2) that show ?thesis by blast
qed

lemma encrypted_dict_ok:
  assumes "wallet_ok C w" and "derive_wallet_key W p salt WALLET_KDF_ITERATIONS = Inr key"
  shows "encrypted_dict W salt nonce w p = Inr (JObj (encrypted_members salt nonce
    (aesgcm_encrypt W key nonce (map word_of_int (dumps (wallet_to_dict w))) wallet_aad)))"
proof -
  have "floats_ascii (wallet_to_dict w)" by (simp add: wallet_to_dict_def pk_to_json_def pk_to_dict_def)
  then have "utf8_encode (dumps (wallet_to_dict w)) = Inr (map word_of_int (dumps (wallet_to_dict w)))"
    by (intro utf8_encode_ascii is_ascii_dumps)
  with assms(2) show ?thesis
    by (simp add: encrypted_dict_def encrypt_wallet_payload_def encrypted_members_def)
qed

lemma parse_wallet_payload_dumps:
  assumes "wallet_ok C w"
  obtains d where "parse_wallet_payload R (map word_of_int (dumps (wallet_to_dict w))) = Inr d"
    "wallet_from_dict C R d = Inr w"
proof -
  have "floats_ascii (wallet_to_dict w)" by (simp add: wallet_to_dict_def pk_to_json_def pk_to_dict_def)
  then have "utf8_decode (map word_of_int (dumps (wallet_to_dict w))) = Some (dumps (wallet_to_dict w))"
    by (intro utf8_decode_encode utf8_encode_ascii is_ascii_dumps)
  moreover obtain d where d: "json_sort (wallet_to_dict w) = JObj d" by (simp add: wallet_to_dict_def)
  moreover have "loads R (dumps (wallet_to_dict w)) = Inr (json_sort (wallet_to_dict w))"
    by (rule loads_dumps [OF wallet_dict_wf [OF assms]])
  ultimately have "parse_wallet_payload R (map word_of_int (dumps (wallet_to_dict w))) = Inr d"
    by (simp add: parse_wallet_payload_def)
  with that wallet_from_sorted [OF assms d] show ?thesis by blast
qed

lemma decrypt_encrypted:
  assumes "wallet_ok C w" and "cipher_ok W" and "length nonce = 12" and "length key = 32"
    and "derive_wallet_key W p salt WALLET_KDF_ITERATIONS = Inr key"
    and "json_sort (JObj (encrypted_members salt nonce
      (aesgcm_encrypt W key nonce (map word_of_int (dumps (wallet_to_dict w))) wallet_aad))) = JObj d"
  shows "rbind (decrypt_wallet_payload W R d (Some p)) (wallet_from_dict C R) = Inr w"
proof -
  let ?data = "map word_of_int (dumps (wallet_to_dict w))"
  note keys = encrypted_members_sorted [OF assms(6)]
  have "aesgcm_decrypt W key nonce (aesgcm_encrypt W key nonce ?data wallet_aad) wallet_aad = Opened ?data"
    using assms(2,3,4) by (simp add: cipher_ok_def)
  then have "open_wallet_payload W R key d = Inr ?data"
    by (simp add: open_wallet_payload_def b64_field_def py_getitem_def py_str_def keys b64decode_b64encode)
  moreover obtain d' where "parse_wallet_payload R ?data = Inr d'" "wallet_from_dict C R d' = Inr w"
    using assms(1) by (rule parse_wallet_payload_dumps)
  ultimately show ?thesis
    using assms(5) by (simp add: decrypt_wallet_payload_def b64_field_def py_get_def py_getitem_def py_str_def py_int_def keys
        b64decode_b64encode)
qed

text \<open>Loading what a save of a payload wrote.\<close>

lemma load_saved:
  assumes "json_wf R payload" and "json_sort payload = JObj d"
    and "fs path = Some (map word_of_int (dumps_indent payload @ [10]))"
  shows "wallet_load C W R fs path passphrase =
    rbind (if py_get d ''encrypted'' = JBool True then decrypt_wallet_payload W R d passphrase else Inr d)
      (wallet_from_dict C R)"
proof -
  from read_back [where fs = fs and path = path, OF assms(1,3)] obtain s where "read_text fs path = Inr s" "loads R s = Inr (JObj d)"
    using assms(2) by auto
  then show ?thesis by (simp add: wallet_load_def)
qed

text \<open>The payload of a save, and that the load makes the wallet of it.\<close>

lemma wallet_payload_ok:
  assumes "wallet_ok C w" and "cipher_ok W" and "length nonce = 12"
    and "\<forall>p. passphrase = Some p \<longrightarrow> p \<noteq> [] \<and> list_all is_scalar p"
  obtains payload d where "(case passphrase of Some p \<Rightarrow> encrypted_dict W salt nonce w p | None \<Rightarrow> Inr (wallet_to_dict w)) = Inr payload"
    "json_wf R payload" "json_sort payload = JObj d"
    "rbind (if py_get d ''encrypted'' = JBool True then decrypt_wallet_payload W R d passphrase else Inr d)
      (wallet_from_dict C R) = Inr w"
proof (cases passphrase)
  case None
  obtain d where d: "json_sort (wallet_to_dict w) = JObj d" by (simp add: wallet_to_dict_def)
  show ?thesis
    using that [OF _ wallet_dict_wf [OF assms(1)] d] None wallet_dict_not_encrypted [OF d] wallet_from_sorted [OF assms(1) d]
    by (simp add: py_get_def)
next
  case (Some p)
  then obtain key where key: "derive_wallet_key W p salt WALLET_KDF_ITERATIONS = Inr key" "length key = 32"
    using assms(2,4) derive_wallet_key_ok by metis
  let ?m = "encrypted_members salt nonce (aesgcm_encrypt W key nonce (map word_of_int (dumps (wallet_to_dict w))) wallet_aad)"
  obtain d where d: "json_sort (JObj ?m) = JObj d" by simp
  show ?thesis
    using that [OF _ encrypted_members_wf d] Some encrypted_dict_ok [OF assms(1) key(1)] encrypted_members_sorted(1) [OF d]
      decrypt_encrypted [OF assms(1,2,3) key(2,1) d]
    by (simp add: py_get_def del: json_sort.simps)
qed

text \<open>Loading an encrypted file decrypts, whichever primitives and passphrase it is loaded with.\<close>

lemma load_encrypted:
  assumes "wallet_ok C w" and "wallet_save W r w path (Some p) fs = (Inr (), fs')"
    and "derive_wallet_key W p (sd_salt r) WALLET_KDF_ITERATIONS = Inr key"
  obtains d where "json_sort (JObj (encrypted_members (sd_salt r) (sd_nonce r)
      (aesgcm_encrypt W key (sd_nonce r) (map word_of_int (dumps (wallet_to_dict w))) wallet_aad))) = JObj d"
    and "\<And>C' W' R passphrase. wallet_load C' W' R fs' path passphrase =
      rbind (decrypt_wallet_payload W' R d passphrase) (wallet_from_dict C' R)"
proof -
  let ?c = "aesgcm_encrypt W key (sd_nonce r) (map word_of_int (dumps (wallet_to_dict w))) wallet_aad"
  let ?m = "JObj (encrypted_members (sd_salt r) (sd_nonce r) ?c)"
  have content: "fs' path = Some (map word_of_int (dumps_indent ?m @ [10]))"
    using assms(2) encrypted_dict_ok [OF assms(1,3), of "sd_nonce r"] atomic_write_json_ok [OF encrypted_members_wf]
    by (auto simp: wallet_save_def)
  obtain d where d: "json_sort ?m = JObj d" by simp
  show ?thesis
    using that [OF d] load_saved [where fs = fs' and path = path, OF encrypted_members_wf d content] encrypted_members_sorted(1) [OF d] by (simp add: py_get_def)
qed

lemma load_encrypted_None:
  assumes "wallet_ok C w" and "wallet_save W r w path (Some p) fs = (Inr (), fs')"
  shows "wallet_load C' W' R fs' path None = value_error ''wallet passphrase is required''"
proof -
  obtain key where "derive_wallet_key W p (sd_salt r) WALLET_KDF_ITERATIONS = Inr key"
    using assms(2) by (auto simp: wallet_save_def encrypted_dict_def encrypt_wallet_payload_def split: sum.splits)
  from load_encrypted [OF assms this] obtain d where "wallet_load C' W' R fs' path None =
      rbind (decrypt_wallet_payload W' R d None) (wallet_from_dict C' R)" by metis
  then show ?thesis by (simp add: decrypt_wallet_payload_def value_error_def)
qed

section \<open>Properties\<close>

text \<open>A stand-in for the cipher, for the witnesses.\<close>

definition toy_cipher :: cipher where
  "toy_cipher = \<lparr>pbkdf2_sha256 = (\<lambda>salt n. Inr (\<lambda>p. take 32 (p @ salt @ replicate 32 0))),
     aesgcm_encrypt = (\<lambda>key nonce data aad. key @ data),
     aesgcm_decrypt = (\<lambda>key nonce c aad. if take 32 c = key then Opened (drop 32 c) else InvalidTag)\<rparr>"

definition sample_draws :: save_draws where
  "sample_draws = \<lparr>sd_salt = replicate 16 7, sd_nonce = replicate 12 8, sd_temp = ascii ''x1''\<rparr>"

lemma alice_created: "wallet_create toy None (replicate 32 3) = Inr alice"
  by code_simp

lemma toy_cipher_ok: "cipher_ok toy_cipher"
  by (auto simp: cipher_ok_def toy_cipher_def min_def)

text \<open>
  C18: a wallet that was created and saved, with or without a passphrase, is loaded again with the same
  passphrase, and no other file but the temporary one is touched.
\<close>

theorem wallet_save_load:
  assumes "cipher_ok W" and "ed25519_secret_ok C raw" and "wallet_create C bits raw = Inr w"
    and "length (sd_nonce r) = 12" and "\<forall>p. passphrase = Some p \<longrightarrow> p \<noteq> [] \<and> list_all is_scalar p"
  shows "\<exists>fs'. wallet_save W r w path passphrase fs = (Inr (), fs') \<and>
    wallet_load C W R fs' path passphrase = Inr w \<and>
    (\<forall>q. q \<noteq> path \<and> q \<noteq> temp_name (sd_temp r) path \<longrightarrow> fs' q = fs q)"
proof -
  obtain payload d where p: "(case passphrase of Some p \<Rightarrow> encrypted_dict W (sd_salt r) (sd_nonce r) w p
        | None \<Rightarrow> Inr (wallet_to_dict w)) = Inr payload" "json_wf R payload" "json_sort payload = JObj d"
      "rbind (if py_get d ''encrypted'' = JBool True then decrypt_wallet_payload W R d passphrase else Inr d)
        (wallet_from_dict C R) = Inr w"
    using wallet_payload_ok [OF wallet_ok_create [OF assms(2,3)] assms(1,4,5)] .
  show ?thesis
    using load_saved [OF p(2,3), of "fs(temp_name (sd_temp r) path := None, path \<mapsto> map word_of_int (dumps_indent payload @ [10]))"
      path C W passphrase] p(1,4) by (simp add: wallet_save_def atomic_write_json_ok [OF p(2)])
qed

theorem wallet_save_load_witness:
  "\<exists>fs'. wallet_save toy_cipher sample_draws alice (ascii ''a.json'') (Some [112]) Map.empty = (Inr (), fs') \<and>
     wallet_load toy toy_cipher sample_runtime fs' (ascii ''a.json'') (Some [112]) = Inr alice"
proof -
  have "wallet_create toy None (replicate 32 3) = Inr alice" by (rule alice_created)
  moreover have "ed25519_secret_ok toy (replicate 32 3)" by (simp add: toy_def)
  moreover have "\<forall>p. Some [112] = Some p \<longrightarrow> p \<noteq> [] \<and> list_all is_scalar p" by (simp add: is_scalar_def)
  ultimately show ?thesis
    using wallet_save_load [OF toy_cipher_ok, of toy "replicate 32 3" None alice sample_draws "Some [112]" "ascii ''a.json''"
      Map.empty sample_runtime] by (auto simp: sample_draws_def)
qed

text \<open>
  Whatever file a wallet is loaded from, its keys match: every message it signs verifies under its
  public key.
\<close>

lemma loaded_wallet_signs:
  assumes "ed25519_ok C" and "wallet_load C W R fs path passphrase = Inr w" and "wallet_sign C w message = Inr signature"
  shows "verify_signature C (w_public_key w) message signature"
proof -
  from assms(2) obtain s v where "(case v of JObj payload \<Rightarrow>
      rbind (if py_get payload ''encrypted'' = JBool True then decrypt_wallet_payload W R payload passphrase else Inr payload)
        (wallet_from_dict C R) | _ \<Rightarrow> value_error ''wallet file must contain an object'') = Inr w"
    by (auto simp: wallet_load_def)
  then obtain d where "wallet_from_dict C R d = Inr w" by (cases v) (auto simp: value_error_def)
  then have "wallet_ok C w" by (auto simp: wallet_from_dict_def wallet_ok_def value_error_def split: if_splits)
  then show ?thesis by (rule wallet_ok_verifies [OF assms(1) _ assms(3)])
qed

definition alice_files :: files where
  "alice_files = [ascii ''a.json'' \<mapsto> map word_of_int (dumps_indent (wallet_to_dict alice) @ [10])]"

lemma alice_ok: "wallet_ok toy alice"
  by (rule wallet_ok_create [OF _ alice_created]) (simp add: toy_def)

lemma alice_file_loads: "wallet_load toy toy_cipher sample_runtime alice_files (ascii ''a.json'') None = Inr alice"
proof -
  obtain d where d: "json_sort (wallet_to_dict alice) = JObj d" by (simp add: wallet_to_dict_def)
  have "alice_files (ascii ''a.json'') = Some (map word_of_int (dumps_indent (wallet_to_dict alice) @ [10]))"
    by (simp add: alice_files_def)
  then show ?thesis
    using load_saved [where fs = alice_files and path = "ascii ''a.json''", OF wallet_dict_wf [OF alice_ok] d]
      wallet_dict_not_encrypted [OF d] wallet_from_sorted [OF alice_ok d] by (simp add: py_get_def)
qed

lemma loaded_wallet_signs_witness:
  "\<exists>w s. wallet_load toy toy_cipher sample_runtime alice_files (ascii ''a.json'') None = Inr w \<and>
     wallet_sign toy w [104, 105] = Inr s \<and> verify_signature toy (w_public_key w) [104, 105] s"
proof -
  obtain s where s: "wallet_sign toy alice [104, 105] = Inr s"
    using wallet_sign_total [OF _ alice_created, of "[104, 105]"] by (auto simp: toy_def)
  show ?thesis using alice_file_loads s loaded_wallet_signs [OF toy_ed25519_ok alice_file_loads s] by blast
qed

text \<open>
  An encrypted wallet file cannot be loaded without a passphrase, nor with one that AES-GCM does
  not authenticate; both raise the documented \<^verbatim>\<open>ValueError\<close>. Saving under the empty passphrase raises
  and leaves the files as they were.
\<close>

lemma encrypted_wallet_needs_passphrase:
  assumes "wallet_ok C w" and "wallet_save W r w path (Some p) fs = (Inr (), fs')"
    and key: "derive_wallet_key W p (sd_salt r) WALLET_KDF_ITERATIONS = Inr key"
    and key': "derive_wallet_key W q (sd_salt r) WALLET_KDF_ITERATIONS = Inr key'"
    and tag: "aesgcm_decrypt W key' (sd_nonce r)
      (aesgcm_encrypt W key (sd_nonce r) (map word_of_int (dumps (wallet_to_dict w))) wallet_aad) wallet_aad = InvalidTag"
  shows "wallet_load C W R fs' path None = Inl (ValueError (ascii ''wallet passphrase is required'')) \<and>
    wallet_load C W R fs' path (Some q) = Inl (ValueError (ascii ''wallet passphrase is invalid'')) \<and>
    wallet_save W r w path (Some []) fs = (Inl (ValueError (ascii ''wallet passphrase is required'')), fs)"
proof -
  obtain d where d: "json_sort (JObj (encrypted_members (sd_salt r) (sd_nonce r)
        (aesgcm_encrypt W key (sd_nonce r) (map word_of_int (dumps (wallet_to_dict w))) wallet_aad))) = JObj d"
      and load: "\<And>passphrase. wallet_load C W R fs' path passphrase =
        rbind (decrypt_wallet_payload W R d passphrase) (wallet_from_dict C R)"
    using load_encrypted [OF assms(1,2) key] by metis
  note keys = encrypted_members_sorted [OF d]
  have "wallet_load C W R fs' path None = Inl (ValueError (ascii ''wallet passphrase is required''))"
    by (simp add: load decrypt_wallet_payload_def value_error_def)
  moreover have "wallet_load C W R fs' path (Some q) = Inl (ValueError (ascii ''wallet passphrase is invalid''))"
    using key' tag by (simp add: load decrypt_wallet_payload_def open_wallet_payload_def b64_field_def py_get_def py_getitem_def
        py_str_def py_int_def keys b64decode_b64encode value_error_def)
  moreover have "wallet_save W r w path (Some []) fs = (Inl (ValueError (ascii ''wallet passphrase is required'')), fs)"
    by (simp add: wallet_save_def encrypted_dict_def encrypt_wallet_payload_def derive_wallet_key_def value_error_def)
  ultimately show ?thesis by blast
qed

lemma encrypted_wallet_needs_passphrase_witness:
  "\<exists>fs'. wallet_save toy_cipher sample_draws alice (ascii ''a.json'') (Some [112]) Map.empty = (Inr (), fs') \<and>
     wallet_load toy toy_cipher sample_runtime fs' (ascii ''a.json'') None =
       Inl (ValueError (ascii ''wallet passphrase is required'')) \<and>
     wallet_load toy toy_cipher sample_runtime fs' (ascii ''a.json'') (Some [113]) =
       Inl (ValueError (ascii ''wallet passphrase is invalid''))"
proof -
  have key: "derive_wallet_key toy_cipher [112] (sd_salt sample_draws) WALLET_KDF_ITERATIONS = Inr (112 # replicate 16 7 @ replicate 15 0)"
      "derive_wallet_key toy_cipher [113] (sd_salt sample_draws) WALLET_KDF_ITERATIONS = Inr (113 # replicate 16 7 @ replicate 15 0)"
    by code_simp+
  then obtain fs' where fs': "wallet_save toy_cipher sample_draws alice (ascii ''a.json'') (Some [112]) Map.empty = (Inr (), fs')"
    using encrypted_dict_ok [OF alice_ok] atomic_write_json_ok [OF encrypted_members_wf] by (simp add: wallet_save_def)
  show ?thesis
    using fs' encrypted_wallet_needs_passphrase [OF alice_ok fs' key, of sample_runtime] by (simp add: toy_cipher_def)
qed

text \<open>
  C31: a JSON file is replaced atomically: after any number of the writer's steps, a crash between two of
  them included, the target holds what it held before or the complete new text, and after all of them
  it is the new text and the temporary file is gone.
\<close>

theorem atomic_write_is_atomic:
  "fold run_step (take k (atomic_write_steps random path encoded)) fs path \<in> {fs path, Some (encoded @ [10])} \<and>
   fold run_step (atomic_write_steps random path encoded) fs =
     fs(temp_name random path := None, path \<mapsto> encoded @ [10])"
  by (simp add: atomic_write_prefix [simplified] atomic_write_result)

end
