(* ===== verification/Release.thy ===== *)
theory Release
  imports Wallet_File "HOL-Library.Multiset"
begin

text \<open>
  \<^verbatim>\<open>release.py\<close>: the manifest of a release, its digest and its detached signature. The artifacts are
  paths into the files of \<open>Wallet_File\<close>; \<^verbatim>\<open>sys.version_info\<close> as text is an argument of
  \<open>build_release_manifest\<close>. A \<^verbatim>\<open>hashlib\<close> object is the bytes it was given so far.
\<close>

section \<open>Artifacts and manifests\<close>

record release_artifact =
  ra_filename :: pystr
  ra_size :: int
  ra_sha256 :: pystr

definition artifact_to_dict :: "release_artifact \<Rightarrow> json" where
  "artifact_to_dict a =
     JObj [(ascii ''filename'', JStr (ra_filename a)),
           (ascii ''sha256'', JStr (ra_sha256 a)),
           (ascii ''size'', JInt (ra_size a))]"

record release_manifest =
  rm_project :: pystr
  rm_version :: pystr
  rm_python :: pystr
  rm_artifacts :: "release_artifact list"

definition manifest_to_dict :: "release_manifest \<Rightarrow> json" where
  "manifest_to_dict m =
     JObj [(ascii ''artifacts'', JList (map artifact_to_dict (rm_artifacts m))),
           (ascii ''project'', JStr (rm_project m)),
           (ascii ''python'', JStr (rm_python m)),
           (ascii ''version'', JStr (rm_version m))]"

definition manifest_to_json :: "release_manifest \<Rightarrow> pystr" where
  "manifest_to_json m = dumps_indent (manifest_to_dict m) @ [10]"

section \<open>Detached signatures\<close>

record release_signature =
  rs_public_key :: public_key
  rs_signature :: pystr

definition release_public_key_fingerprint :: "crypto \<Rightarrow> public_key \<Rightarrow> pystr result" where
  "release_public_key_fingerprint C pk = sha256_hex_text C (canonical_json (pk_to_json pk))"

definition public_key_fingerprint :: "crypto \<Rightarrow> release_signature \<Rightarrow> pystr result" where
  "public_key_fingerprint C s = release_public_key_fingerprint C (rs_public_key s)"

definition signature_to_dict :: "crypto \<Rightarrow> release_signature \<Rightarrow> json result" where
  "signature_to_dict C s =
     rbind (public_key_fingerprint C s) (\<lambda>f.
     Inr (JObj [(ascii ''public_key'', pk_to_json (rs_public_key s)),
                (ascii ''public_key_fingerprint'', JStr f),
                (ascii ''signature'', JStr (rs_signature s))]))"

definition signature_to_json :: "crypto \<Rightarrow> release_signature \<Rightarrow> pystr result" where
  "signature_to_json C s = rbind (signature_to_dict C s) (\<lambda>d. Inr (dumps_indent d @ [10]))"

definition signature_from_dict :: "crypto \<Rightarrow> py_runtime \<Rightarrow> (pystr, json) dict \<Rightarrow> release_signature result" where
  "signature_from_dict C R d =
     rbind (py_getitem d ''public_key'') (\<lambda>v.
     case v of
       JObj _ \<Rightarrow>
         rbind (pk_from_json R v) (\<lambda>pk.
         rbind (py_getitem d ''signature'') (\<lambda>sig.
         (let s = \<lparr>rs_public_key = pk, rs_signature = py_str R sig\<rparr>;
              expected = py_get d ''public_key_fingerprint''
          in if expected = JNull then Inr s
             else rbind (public_key_fingerprint C s) (\<lambda>f.
                  if py_str R expected \<noteq> f
                  then value_error ''release signature public key fingerprint is invalid''
                  else Inr s))))
     | _ \<Rightarrow> value_error ''release signature public key is invalid'')"

section \<open>Building the manifest\<close>

text \<open>
  \<^verbatim>\<open>iter(lambda: artifact.read(1024 * 1024), b"")\<close>: pieces of at most a mebibyte up to the first empty
  one, each fed to the digest.
\<close>

definition CHUNK_SIZE :: nat where
  "CHUNK_SIZE = 1024 * 1024"

function update_chunks :: "bytes \<Rightarrow> bytes \<Rightarrow> bytes" where
  "update_chunks digest content =
     (let chunk = take CHUNK_SIZE content
      in if chunk = [] then digest else update_chunks (digest @ chunk) (drop CHUNK_SIZE content))"
  by pat_completeness auto

termination
  by (relation "measure (length \<circ> snd)") (auto simp: CHUNK_SIZE_def)

declare update_chunks.simps [simp del]

definition sha256_file :: "crypto \<Rightarrow> files \<Rightarrow> pystr \<Rightarrow> pystr result" where
  "sha256_file C fs path =
     (case fs path of None \<Rightarrow> Inl OSError | Some content \<Rightarrow> Inr (sha256_hex C (update_chunks [] content)))"

definition file_size :: "files \<Rightarrow> pystr \<Rightarrow> int result" where
  "file_size fs path = (case fs path of None \<Rightarrow> Inl OSError | Some content \<Rightarrow> Inr (int (length content)))"

definition build_release_manifest ::
  "crypto \<Rightarrow> files \<Rightarrow> pystr \<Rightarrow> pystr list \<Rightarrow> pystr \<Rightarrow> pystr \<Rightarrow> pystr option \<Rightarrow> release_manifest result" where
  "build_release_manifest C fs version_info artifacts project version python =
     rbind (rmap (\<lambda>path.
              rbind (file_size fs path) (\<lambda>n.
              rbind (sha256_file C fs path) (\<lambda>h.
              Inr \<lparr>ra_filename = path_name path, ra_size = n, ra_sha256 = h\<rparr>)))
            (sort_key path_name artifacts)) (\<lambda>entries.
     Inr \<lparr>rm_project = project, rm_version = version,
          rm_python = (case python of Some p \<Rightarrow> if p = [] then version_info else p | None \<Rightarrow> version_info),
          rm_artifacts = entries\<rparr>)"

section \<open>Signing and verifying\<close>

definition sign_release_manifest :: "crypto \<Rightarrow> release_manifest \<Rightarrow> wallet \<Rightarrow> release_signature result" where
  "sign_release_manifest C m w =
     rbind (wallet_sign C w (manifest_to_json m)) (\<lambda>s.
     Inr \<lparr>rs_public_key = w_public_key w, rs_signature = s\<rparr>)"

definition verify_release_manifest_signature ::
  "crypto \<Rightarrow> release_manifest \<Rightarrow> release_signature \<Rightarrow> pystr option \<Rightarrow> bool result" where
  "verify_release_manifest_signature C m s expected =
     rbind (case expected of
              None \<Rightarrow> Inr False
            | Some e \<Rightarrow> rbind (public_key_fingerprint C s) (\<lambda>f. Inr (f \<noteq> e))) (\<lambda>mismatch.
     if mismatch then Inr False
     else Inr (verify_signature C (rs_public_key s) (manifest_to_json m) (rs_signature s)))"

section \<open>Lemmas\<close>

lemma update_chunks_all: "update_chunks digest content = digest @ content"
proof (induction digest content rule: update_chunks.induct)
  case (1 digest content)
  show ?case
  proof (cases "take CHUNK_SIZE content = []")
    case True
    then have "content = []" by (simp add: CHUNK_SIZE_def)
    then show ?thesis by (simp add: update_chunks.simps [of digest])
  next
    case False
    then show ?thesis using 1 by (simp add: update_chunks.simps [of digest])
  qed
qed

lemma sha256_file_digest: "fs path = Some content \<Longrightarrow> sha256_file C fs path = Inr (sha256_hex C content)"
  by (simp add: sha256_file_def update_chunks_all)

lemma pk_to_json_plain [simp]: "floats_plain (pk_to_json pk)" "floats_ascii (pk_to_json pk)"
  by (simp_all add: pk_to_json_def pk_to_dict_def)

lemma fingerprint_total:
  "release_public_key_fingerprint C pk = Inr (sha256_hex C (map word_of_int (dumps (pk_to_json pk))))"
  by (simp add: release_public_key_fingerprint_def sha256_hex_text_def canonical_json_def
      utf8_encode_ascii [OF is_ascii_dumps])

lemma manifest_json_ascii: "is_ascii (manifest_to_json m)"
proof -
  have "floats_plain (manifest_to_dict m)" by (auto simp: manifest_to_dict_def artifact_to_dict_def list_all_iff)
  then show ?thesis by (simp add: manifest_to_json_def is_ascii_plain [OF dumps_indent_plain])
qed

end
