(* ===== verification/Release_Properties.thy ===== *)
theory Release_Properties
  imports Release Wallet_Properties
begin

text \<open>
  What a signed release guarantees: the manifest lists exactly the artifacts with their sizes and
  digests, in an order that does not depend on the command line; its text determines it; a signature
  made with the signing wallet verifies, and only under the pinned fingerprint.
\<close>

section \<open>The text determines the manifest\<close>

definition artifact_members :: "release_artifact \<Rightarrow> (pystr \<times> json) list" where
  "artifact_members a = [(ascii ''filename'', JStr (ra_filename a)), (ascii ''sha256'', JStr (ra_sha256 a)),
     (ascii ''size'', JInt (ra_size a))]"

lemma artifact_sort_inject:
  assumes "json_sort (artifact_to_dict a) = json_sort (artifact_to_dict b)"
  shows "a = b"
proof -
  obtain d where d: "json_sort (JObj (artifact_members a)) = JObj d" by simp
  have eq: "artifact_to_dict x = JObj (artifact_members x)" for x
    by (simp add: artifact_to_dict_def artifact_members_def)
  have "distinct (map fst (artifact_members x))" for x by (simp add: artifact_members_def ascii_eq)
  then have "map_of d = map_option json_sort \<circ> map_of (artifact_members x)" if "x = a \<or> x = b" for x
    using that d assms map_of_json_sort [of "artifact_members x" d] by (auto simp only: eq)
  then have m: "map_option json_sort (map_of (artifact_members a) k) = map_option json_sort (map_of (artifact_members b) k)" for k
    by (metis comp_apply)
  show ?thesis
    using m [of "ascii ''filename''"] m [of "ascii ''sha256''"] m [of "ascii ''size''"]
    by (simp add: artifact_members_def ascii_eq)
qed

definition manifest_members :: "release_manifest \<Rightarrow> (pystr \<times> json) list" where
  "manifest_members m = [(ascii ''artifacts'', JList (map artifact_to_dict (rm_artifacts m))),
     (ascii ''project'', JStr (rm_project m)), (ascii ''python'', JStr (rm_python m)),
     (ascii ''version'', JStr (rm_version m))]"

lemma manifest_sort_inject:
  assumes "json_sort (manifest_to_dict a) = json_sort (manifest_to_dict b)"
  shows "a = b"
proof -
  obtain d where d: "json_sort (JObj (manifest_members a)) = JObj d" by simp
  have eq: "manifest_to_dict x = JObj (manifest_members x)" for x
    by (simp add: manifest_to_dict_def manifest_members_def)
  have "distinct (map fst (manifest_members x))" for x by (simp add: manifest_members_def ascii_eq)
  then have "map_of d = map_option json_sort \<circ> map_of (manifest_members x)" if "x = a \<or> x = b" for x
    using that d assms map_of_json_sort [of "manifest_members x" d] by (auto simp only: eq)
  then have m: "map_option json_sort (map_of (manifest_members a) k) = map_option json_sort (map_of (manifest_members b) k)" for k
    by (metis comp_apply)
  have "map (json_sort \<circ> artifact_to_dict) (rm_artifacts a) = map (json_sort \<circ> artifact_to_dict) (rm_artifacts b)"
    using m [of "ascii ''artifacts''"] by (simp add: manifest_members_def)
  then have "rm_artifacts a = rm_artifacts b"
    by (rule map_injective) (auto intro!: injI artifact_sort_inject)
  then show ?thesis
    using m [of "ascii ''project''"] m [of "ascii ''python''"] m [of "ascii ''version''"]
    by (simp add: manifest_members_def ascii_eq)
qed

lemma manifest_text_inject:
  assumes "json_wf R (manifest_to_dict a)" and "json_wf R (manifest_to_dict b)" and "manifest_to_json a = manifest_to_json b"
  shows "a = b"
proof -
  have "loads R (manifest_to_json x) = Inr (json_sort (manifest_to_dict x))" if "x = a \<or> x = b" for x
    using that assms(1,2) by (auto simp: manifest_to_json_def is_ws_def intro!: loads_dumps_indent)
  with assms(3) have "json_sort (manifest_to_dict a) = json_sort (manifest_to_dict b)" by (metis sum.inject(2))
  then show ?thesis by (rule manifest_sort_inject)
qed

section \<open>The entries of a manifest\<close>

definition artifact_entry :: "crypto \<Rightarrow> files \<Rightarrow> pystr \<Rightarrow> release_artifact" where
  "artifact_entry C fs p = \<lparr>ra_filename = path_name p, ra_size = int (length (the (fs p))), ra_sha256 = sha256_hex C (the (fs p))\<rparr>"

lemma rmap_OSError: "rmap (\<lambda>p. if fs p = None then Inl e else Inr (g p)) xs =
    (if \<exists>p. p \<in> set xs \<and> fs p = None then Inl e else Inr (map g xs))"
  by (induction xs) auto

lemma rmap_artifacts:
  "rmap (\<lambda>path. rbind (file_size fs path) (\<lambda>n. rbind (sha256_file C fs path) (\<lambda>h.
      Inr \<lparr>ra_filename = path_name path, ra_size = n, ra_sha256 = h\<rparr>))) xs =
   (if \<exists>p. p \<in> set xs \<and> fs p = None then Inl OSError else Inr (map (artifact_entry C fs) xs))"
proof -
  have "rbind (file_size fs p) (\<lambda>n. rbind (sha256_file C fs p) (\<lambda>h. Inr \<lparr>ra_filename = path_name p, ra_size = n, ra_sha256 = h\<rparr>)) =
      (if fs p = None then Inl OSError else Inr (artifact_entry C fs p))" for p
    by (auto simp: file_size_def sha256_file_digest artifact_entry_def)
  then show ?thesis by (simp add: rmap_OSError)
qed

section \<open>Properties\<close>

text \<open>
  C32: a manifest lists the artifacts in the order of their names, each with its size and the digest of
  its whole content, although the file is hashed in pieces; a missing artifact raises; and for
  artifacts of different names the order in which they are given does not matter.
\<close>

theorem release_manifest_lists_artifacts:
  assumes "mset xs = mset ys" and "inj_on path_name (set xs)"
  shows "build_release_manifest C fs v ys project version python = build_release_manifest C fs v xs project version python \<and>
    build_release_manifest C fs v xs project version python =
      (if \<exists>p. p \<in> set xs \<and> fs p = None then Inl OSError
       else Inr \<lparr>rm_project = project, rm_version = version, 
         rm_python = (case python of Some p \<Rightarrow> if p = [] then v else p | None \<Rightarrow> v),
         rm_artifacts = map (artifact_entry C fs) (sort_key path_name xs)\<rparr>)"
proof -
  have "sort_key path_name ys = sort_key path_name xs"
    using assms mset_eq_setD [OF assms(1)] by (intro sort_key_inj_key_eq) auto
  then show ?thesis by (auto simp: build_release_manifest_def rmap_artifacts)
qed

definition sample_release :: files where
  "sample_release = [ascii ''dist/b.whl'' \<mapsto> [1, 2], ascii ''dist/a.tgz'' \<mapsto> [3]]"

theorem release_manifest_lists_artifacts_witness:
  "build_release_manifest toy sample_release [51] [ascii ''dist/a.tgz'', ascii ''dist/b.whl''] [112] [49] (Some []) =
     build_release_manifest toy sample_release [51] [ascii ''dist/b.whl'', ascii ''dist/a.tgz''] [112] [49] (Some []) \<and>
   build_release_manifest toy sample_release [51] [ascii ''dist/b.whl'', ascii ''dist/a.tgz''] [112] [49] (Some []) =
     Inr \<lparr>rm_project = [112], rm_version = [49], rm_python = [51],
       rm_artifacts = [\<lparr>ra_filename = ascii ''a.tgz'', ra_size = 1, ra_sha256 = sha256_hex toy [3]\<rparr>,
                       \<lparr>ra_filename = ascii ''b.whl'', ra_size = 2, ra_sha256 = sha256_hex toy [1, 2]\<rparr>]\<rparr>"
proof -
  let ?xs = "[ascii ''dist/b.whl'', ascii ''dist/a.tgz'']" and ?ys = "[ascii ''dist/a.tgz'', ascii ''dist/b.whl'']"
  have names: "path_name (ascii ''dist/b.whl'') = ascii ''b.whl''" "path_name (ascii ''dist/a.tgz'') = ascii ''a.tgz''"
    "ascii ''a.tgz'' < ascii ''b.whl''" by code_simp+
  have "\<not> ascii ''b.whl'' \<le> ascii ''a.tgz''" using names(3) by (simp add: not_le)
  then have sorted: "sort_key path_name ?xs = ?ys" by (simp add: names)
  have "mset ?xs = mset ?ys" "inj_on path_name (set ?xs)" by (simp_all add: names ascii_eq)
  from release_manifest_lists_artifacts [OF this, of toy sample_release "[51]" "[112]" "[49]" "Some []"]
  show ?thesis
    unfolding sorted by (simp add: artifact_entry_def names sample_release_def ascii_eq)
qed

text \<open>
  C33: a manifest signed with a wallet whose keys match verifies without a pinned fingerprint and with
  the wallet's, and with no other; no manifest of another text has the same signed message.
\<close>

theorem signed_manifest_verifies:
  assumes "ed25519_ok C" and "wallet_ok C w" and "json_wf R (manifest_to_dict m)"
  shows "\<exists>s f. sign_release_manifest C m w = Inr s \<and> release_public_key_fingerprint C (w_public_key w) = Inr f \<and>
    verify_release_manifest_signature C m s None = Inr True \<and>
    (\<forall>e. verify_release_manifest_signature C m s (Some e) = Inr (e = f)) \<and>
    (\<forall>m'. json_wf R (manifest_to_dict m') \<and> manifest_to_json m' = manifest_to_json m \<longrightarrow> m' = m)"
proof -
  obtain s where s: "wallet_sign C w (manifest_to_json m) = Inr s"
    using wallet_ok_sign_total [OF assms(2) manifest_json_ascii] by blast
  have "verify_signature C (w_public_key w) (manifest_to_json m) s"
    by (rule wallet_ok_verifies [OF assms(1,2) s])
  moreover have "\<forall>m'. json_wf R (manifest_to_dict m') \<and> manifest_to_json m' = manifest_to_json m \<longrightarrow> m' = m"
    using manifest_text_inject assms(3) by blast
  ultimately show ?thesis
    by (auto simp: sign_release_manifest_def s verify_release_manifest_signature_def public_key_fingerprint_def fingerprint_total)
qed

theorem signed_manifest_verifies_witness:
  "\<exists>s f. sign_release_manifest toy \<lparr>rm_project = [112], rm_version = [49], rm_python = [51], rm_artifacts = []\<rparr> alice = Inr s \<and>
     release_public_key_fingerprint toy (w_public_key alice) = Inr f \<and>
     verify_release_manifest_signature toy \<lparr>rm_project = [112], rm_version = [49], rm_python = [51], rm_artifacts = []\<rparr> s (Some f) = Inr True \<and>
     verify_release_manifest_signature toy \<lparr>rm_project = [112], rm_version = [49], rm_python = [51], rm_artifacts = []\<rparr> s (Some []) = Inr (f = [])"
proof -
  let ?m = "\<lparr>rm_project = [112], rm_version = [49], rm_python = [51], rm_artifacts = []\<rparr>"
  have "json_wf sample_runtime (manifest_to_dict ?m)" by code_simp
  from signed_manifest_verifies [OF toy_ed25519_ok alice_ok this] show ?thesis by fastforce
qed

text \<open>
  A detached signature survives its dictionary form and is refused when the fingerprint beside it
  is not the one of its key.
\<close>

lemma release_signature_round_trip:
  "\<exists>kvs f. signature_to_dict C s = Inr (JObj kvs) \<and> public_key_fingerprint C s = Inr f \<and>
     signature_from_dict C R kvs = Inr s \<and>
     (\<forall>g. signature_from_dict C R (AList.update (ascii ''public_key_fingerprint'') (JStr g) kvs) =
        (if g = f then Inr s else value_error ''release signature public key fingerprint is invalid''))"
  by (simp add: signature_to_dict_def signature_from_dict_def public_key_fingerprint_def fingerprint_total py_getitem_def
      py_get_def pk_from_json_def pk_to_json_def pk_to_dict_def py_str_def ascii_eq Let_def)

end
