(* ===== verification/Dict_Forms.thy ===== *)
theory Dict_Forms
  imports Network_Laws
begin

text \<open>
  The dictionary forms of \<^verbatim>\<open>consensus.py\<close>: \<^verbatim>\<open>to_dict\<close> and \<^verbatim>\<open>from_dict\<close> of outpoints, inputs, outputs,
  transactions and blocks, and \<^verbatim>\<open>ConsensusBlock.header\<close>. A dictionary is what its JSON text carries.

  \<^verbatim>\<open>TxInput.from_dict\<close> stores what it finds under \<^verbatim>\<open>public_key\<close> without a check. A value that is not the
  dictionary of texts its annotation promises has no counterpart among the typed inputs; the result is
  then \<open>Inr None\<close>.
\<close>

section \<open>Writing\<close>

definition opt_json :: "('a \<Rightarrow> json) \<Rightarrow> 'a option \<Rightarrow> json" where
  "opt_json f x = (case x of None \<Rightarrow> JNull | Some y \<Rightarrow> f y)"

definition input_to_dict :: "tx_input \<Rightarrow> json" where
  "input_to_dict i =
     JObj [(ascii ''previous_output'', outpoint_to_dict (in_previous_output i)),
           (ascii ''signature'', opt_json JStr (in_signature i)),
           (ascii ''public_key'', opt_json (\<lambda>d. JObj (map (map_prod id JStr) d)) (in_public_key i))]"

definition tx_to_dict :: "consensus_transaction \<Rightarrow> json" where
  "tx_to_dict tx =
     JObj [(ascii ''version'', JInt (tx_version tx)),
           (ascii ''inputs'', JList (map input_to_dict (tx_inputs tx))),
           (ascii ''outputs'', JList (map output_to_dict (tx_outputs tx)))]"

definition block_header_members :: "py_runtime \<Rightarrow> consensus_block \<Rightarrow> (pystr \<times> json) list" where
  "block_header_members R b =
     [(ascii ''difficulty'', JInt (blk_difficulty b)),
      (ascii ''height'', JInt (blk_height b)),
      (ascii ''nonce'', JInt (blk_nonce b)),
      (ascii ''previous_hash'', JStr (blk_previous_hash b)),
      (ascii ''timestamp'', JFloat (float_json R (blk_timestamp b))),
      (ascii ''transaction_root'', JStr (blk_transaction_root b)),
      (ascii ''version'', JInt (blk_version b))]"

definition block_to_dict :: "crypto \<Rightarrow> py_runtime \<Rightarrow> consensus_block \<Rightarrow> json result" where
  "block_to_dict C R b =
     rbind (block_hash C b) (\<lambda>h. Inr (JObj (block_header_members R b @
       [(ascii ''hash'', JStr h), (ascii ''transactions'', JList (map tx_to_dict (blk_transactions b)))])))"

section \<open>Reading\<close>

text \<open>\<^verbatim>\<open>v[key]\<close> and \<^verbatim>\<open>v.get\<close> of a value that should be a dictionary.\<close>

definition subscript :: "json \<Rightarrow> string \<Rightarrow> json result" where
  "subscript v k = (case v of JObj d \<Rightarrow> py_getitem d k | _ \<Rightarrow> Inl TypeError)"

definition with_get :: "json \<Rightarrow> ((pystr, json) dict \<Rightarrow> 'a result) \<Rightarrow> 'a result" where
  "with_get v f = (case v of JObj d \<Rightarrow> f d | _ \<Rightarrow> Inl AttributeError)"

definition outpoint_from_dict :: "py_runtime \<Rightarrow> json \<Rightarrow> outpoint result" where
  "outpoint_from_dict R v =
     rbind (subscript v ''txid'') (\<lambda>t. rbind (subscript v ''index'') (\<lambda>i. rbind (py_int R i) (\<lambda>n.
       Inr (OutPoint (py_str R t) n))))"

definition typed_public_key :: "json \<Rightarrow> (pystr, pystr) dict option option" where
  "typed_public_key v =
     (if \<not> truthy v then Some None
      else case v of
        JObj d \<Rightarrow> map_option Some (those (map (\<lambda>(k, x). case x of JStr s \<Rightarrow> Some (k, s) | _ \<Rightarrow> None) d))
      | _ \<Rightarrow> None)"

definition input_from_dict :: "py_runtime \<Rightarrow> json \<Rightarrow> tx_input option result" where
  "input_from_dict R v =
     with_get v (\<lambda>d.
       let public_key = typed_public_key (py_get d ''public_key'') in
       rbind (py_getitem d ''previous_output'') (\<lambda>o1. rbind (outpoint_from_dict R o1) (\<lambda>previous_output.
       let signature = (if truthy (py_get d ''signature'') then Some (py_str R (py_get d ''signature'')) else None) in
       Inr (map_option (\<lambda>pk. \<lparr>in_previous_output = previous_output, in_signature = signature, in_public_key = pk\<rparr>)
         public_key))))"

definition output_from_dict :: "py_runtime \<Rightarrow> json \<Rightarrow> tx_output result" where
  "output_from_dict R v =
     rbind (subscript v ''amount'') (\<lambda>a. rbind (py_int R a) (\<lambda>amount. rbind (subscript v ''address'') (\<lambda>s.
       Inr \<lparr>out_amount = amount, out_address = py_str R s\<rparr>)))"

text \<open>\<^verbatim>\<open>data.get(key, default)\<close>\<close>

definition get_default :: "(pystr, json) dict \<Rightarrow> string \<Rightarrow> json \<Rightarrow> json" where
  "get_default d k v = (case map_of d (ascii k) of None \<Rightarrow> v | Some x \<Rightarrow> x)"

definition tx_from_dict :: "py_runtime \<Rightarrow> json \<Rightarrow> consensus_transaction option result" where
  "tx_from_dict R v =
     with_get v (\<lambda>d.
       rbind (py_int R (get_default d ''version'' (JInt 1))) (\<lambda>version.
       rbind (py_items (get_default d ''inputs'' (JList []))) (\<lambda>is. rbind (rmap (input_from_dict R) is) (\<lambda>inputs.
       rbind (py_items (get_default d ''outputs'' (JList []))) (\<lambda>os. rbind (rmap (output_from_dict R) os) (\<lambda>outputs.
       Inr (map_option (\<lambda>ins. \<lparr>tx_inputs = ins, tx_outputs = outputs, tx_version = version\<rparr>) (those inputs))))))))"

definition block_from_dict :: "crypto \<Rightarrow> py_runtime \<Rightarrow> (pystr, json) dict \<Rightarrow> consensus_block option result" where
  "block_from_dict C R d =
     rbind (py_getitem d ''height'') (\<lambda>v. rbind (py_int R v) (\<lambda>height.
     rbind (py_getitem d ''previous_hash'') (\<lambda>prev.
     rbind (py_items (get_default d ''transactions'' (JList []))) (\<lambda>ts. rbind (rmap (tx_from_dict R) ts) (\<lambda>txs.
     rbind (py_getitem d ''difficulty'') (\<lambda>v. rbind (py_int R v) (\<lambda>difficulty.
     rbind (py_getitem d ''timestamp'') (\<lambda>v. rbind (py_float R v) (\<lambda>timestamp.
     rbind (py_getitem d ''nonce'') (\<lambda>v. rbind (py_int R v) (\<lambda>nonce.
     rbind (py_getitem d ''transaction_root'') (\<lambda>root.
     rbind (py_int R (get_default d ''version'' (JInt 1))) (\<lambda>version.
       case those txs of
         None \<Rightarrow> Inr None
       | Some transactions \<Rightarrow>
           rbind (new_block C \<lparr>blk_height = height, blk_previous_hash = py_str R prev, blk_transactions = transactions,
             blk_difficulty = difficulty, blk_timestamp = timestamp, blk_nonce = nonce,
             blk_transaction_root = py_str R root, blk_version = version\<rparr>) (\<lambda>b. Inr (Some b)))))))))))))))"

section \<open>Reading what was written\<close>

text \<open>An empty signature and an empty key dictionary are written as they are, and read as absent.\<close>

definition drop_empty :: "tx_input \<Rightarrow> tx_input" where
  "drop_empty i = i\<lparr>in_signature := (if in_signature i = Some [] then None else in_signature i),
     in_public_key := (if in_public_key i = Some [] then None else in_public_key i)\<rparr>"

definition drop_empty_witness :: "consensus_transaction \<Rightarrow> consensus_transaction" where
  "drop_empty_witness tx = tx\<lparr>tx_inputs := map drop_empty (tx_inputs tx)\<rparr>"

lemma those_Some [simp]: "those (map Some xs) = Some xs"
  by (induction xs) simp_all

lemma outpoint_dict_round_trip [simp]: "outpoint_from_dict R (outpoint_to_dict p) = Inr p"
  by (cases p) (simp add: outpoint_from_dict_def outpoint_to_dict_def subscript_def py_getitem_def py_int_def py_str_def ascii_eq)

lemma output_dict_round_trip [simp]: "output_from_dict R (output_to_dict out) = Inr out"
  by (cases out) (simp add: output_from_dict_def output_to_dict_def subscript_def py_getitem_def py_int_def py_str_def ascii_eq)

lemma typed_public_key_written:
  "typed_public_key (opt_json (\<lambda>d. JObj (map (map_prod id JStr) d)) pk) = Some (if pk = Some [] then None else pk)"
proof (cases pk)
  case (Some d)
  have "those (map ((\<lambda>(k, x). case x of JStr s \<Rightarrow> Some (k, s) | _ \<Rightarrow> None) \<circ> map_prod id JStr) d) = Some d"
    by (induction d) auto
  then show ?thesis using Some by (auto simp: typed_public_key_def opt_json_def truthy_def)
qed (simp add: typed_public_key_def opt_json_def truthy_def)

lemma input_dict_round_trip [simp]: "input_from_dict R (input_to_dict i) = Inr (Some (drop_empty i))"
  using typed_public_key_written [of "in_public_key i"]
  by (cases i; cases "in_signature i")
    (auto simp: input_from_dict_def input_to_dict_def with_get_def py_get_def py_getitem_def ascii_eq Let_def drop_empty_def
      opt_json_def truthy_def py_str_def)

lemma rmap_written: "(\<And>x. f (g x) = Inr (h x)) \<Longrightarrow> rmap f (map g xs) = Inr (map h xs)"
  by (induction xs) simp_all

text \<open>
  A transaction that is written and read again has lost its empty signatures and keys, and nothing else;
  so it keeps its signing messages, and its identifier when there were none of these.
\<close>

lemma tx_dict_round_trip: "tx_from_dict R (tx_to_dict tx) = Inr (Some (drop_empty_witness tx))"
proof -
  have "rmap (input_from_dict R) (map input_to_dict (tx_inputs tx)) = Inr (map Some (map drop_empty (tx_inputs tx)))"
    using rmap_written [of "input_from_dict R" input_to_dict "Some \<circ> drop_empty"] by simp
  moreover have "rmap (output_from_dict R) (map output_to_dict (tx_outputs tx)) = Inr (tx_outputs tx)"
    using rmap_written [of "output_from_dict R" output_to_dict id] by simp
  ultimately show ?thesis
    by (simp add: tx_from_dict_def tx_to_dict_def with_get_def get_default_def py_int_def py_items_def ascii_eq drop_empty_witness_def
        del: map_map)
qed

lemma drop_empty_signing: "signing_message (drop_empty_witness tx) i = signing_message tx i"
  by (simp add: signing_message_def drop_empty_witness_def drop_empty_def input_unsigned_payload_def [abs_def] comp_def)

lemma drop_empty_id:
  assumes "\<forall>i \<in> set (tx_inputs tx). in_signature i \<noteq> Some [] \<and> in_public_key i \<noteq> Some []"
  shows "drop_empty_witness tx = tx"
proof -
  have "map drop_empty (tx_inputs tx) = tx_inputs tx" using assms by (intro map_idI) (simp add: drop_empty_def)
  then show ?thesis by (simp add: drop_empty_witness_def)
qed

lemma block_dict_round_trip:
  assumes "block_to_dict C R b = Inr (JObj d)" and "float_of_text R (float_json R (blk_timestamp b)) = Some (blk_timestamp b)"
    and "blk_transaction_root b \<noteq> []"
  shows "block_from_dict C R d = Inr (Some (b\<lparr>blk_transactions := map drop_empty_witness (blk_transactions b)\<rparr>))"
proof -
  have txs: "rmap (tx_from_dict R) (map tx_to_dict (blk_transactions b)) = Inr (map Some (map drop_empty_witness (blk_transactions b)))"
    using rmap_written [of "tx_from_dict R" tx_to_dict "Some \<circ> drop_empty_witness"] tx_dict_round_trip by simp
  obtain h where d: "d = block_header_members R b @
      [(ascii ''hash'', JStr h), (ascii ''transactions'', JList (map tx_to_dict (blk_transactions b)))]"
    using assms(1) by (auto simp: block_to_dict_def)
  show ?thesis
    using assms(2,3) txs
    by (cases b) (simp add: d block_header_members_def block_from_dict_def get_default_def py_getitem_def py_int_def py_float_def
        float_value_def py_str_def py_items_def ascii_eq new_block_def del: map_map)
qed

end
