(* ===== verification/Db_Paths.thy ===== *)
theory Db_Paths
  imports Python_Runtime
begin

text \<open>
  Where a node keeps its databases: \<^verbatim>\<open>_utxo_index_path\<close>, \<^verbatim>\<open>_mempool_path\<close> and \<^verbatim>\<open>_invalid_blocks_path\<close> of
  \<^verbatim>\<open>utxo_node.py\<close> over the text of a \<^verbatim>\<open>pathlib.Path\<close>, in which separators are neither repeated nor last.
\<close>

section \<open>Parts of a path\<close>

definition path_name :: "pystr \<Rightarrow> pystr" where
  "path_name p = (if p = [46] then [] else rev (takeWhile (\<lambda>c. c \<noteq> 47) (rev p)))"

text \<open>The last dot starts the suffix, unless it is the first or the last character of the name.\<close>

definition path_suffix :: "pystr \<Rightarrow> pystr" where
  "path_suffix p =
     (let name = path_name p; s = rev (takeWhile (\<lambda>c. c \<noteq> 46) (rev name)); i = length name - length s - 1
      in if length s < length name \<and> 0 < i \<and> i < length name - 1 then 46 # s else [])"

definition with_suffix :: "pystr \<Rightarrow> pystr \<Rightarrow> pystr result" where
  "with_suffix p s =
     (if 47 \<in> set s then value_error ''Invalid suffix''
      else if s \<noteq> [] \<and> hd s \<noteq> 46 \<or> s = [46] then value_error ''Invalid suffix''
      else if path_name p = [] then value_error ''path has an empty name''
      else Inr (take (length p - length (path_suffix p)) p @ s))"

section \<open>The files beside a database\<close>

definition beside :: "string \<Rightarrow> pystr \<Rightarrow> pystr result" where
  "beside s p = with_suffix p (if path_suffix p \<noteq> [] then path_suffix p @ ascii s else ascii s)"

definition utxo_index_path :: "pystr \<Rightarrow> pystr result" where
  "utxo_index_path db_path = beside ''.utxos.sqlite3'' db_path"

definition mempool_path :: "pystr \<Rightarrow> pystr result" where
  "mempool_path db_path = beside ''.mempool.sqlite3'' db_path"

definition invalid_blocks_path :: "pystr \<Rightarrow> pystr result" where
  "invalid_blocks_path db_path = beside ''.invalid.sqlite3'' db_path"

section \<open>The suffix is a suffix\<close>

lemma rev_takeWhile_suffix: "\<exists>a. xs = a @ rev (takeWhile P (rev xs)) \<and> (a \<noteq> [] \<longrightarrow> \<not> P (last a))"
proof -
  have "xs = rev (dropWhile P (rev xs)) @ rev (takeWhile P (rev xs))"
    by (metis rev_append rev_rev_ident takeWhile_dropWhile_id)
  moreover have "rev (dropWhile P (rev xs)) \<noteq> [] \<longrightarrow> \<not> P (last (rev (dropWhile P (rev xs))))"
    by (auto simp: last_rev hd_dropWhile)
  ultimately show ?thesis by blast
qed

lemma path_name_suffix: "\<exists>a. p = a @ path_name p"
  using rev_takeWhile_suffix [of p "\<lambda>c. c \<noteq> 47"] by (auto simp: path_name_def)

lemma path_suffix_suffix: "\<exists>a. p = a @ path_suffix p" and path_suffix_chars: "47 \<notin> set (path_suffix p)"
    and path_suffix_start: "path_suffix p \<noteq> [] \<Longrightarrow> hd (path_suffix p) = 46"
proof -
  let ?name = "path_name p" and ?s = "rev (takeWhile (\<lambda>c. c \<noteq> 46) (rev (path_name p)))"
  obtain b where b: "?name = b @ ?s" "b \<noteq> [] \<longrightarrow> last b = 46"
    using rev_takeWhile_suffix [of ?name "\<lambda>c. c \<noteq> 46"] by auto
  have dot: "\<exists>c. ?name = c @ 46 # ?s" if "length ?s < length ?name"
  proof -
    have "b \<noteq> []" using b(1) that by (metis append_Nil less_irrefl)
    then have "b = butlast b @ [46]" using b(2) append_butlast_last_id by metis
    then have "b @ ?s = butlast b @ 46 # ?s" by (metis append.assoc append_Cons append_Nil)
    with b(1) show ?thesis by metis
  qed
  then have c: "\<exists>c. ?name = c @ path_suffix p" by (auto simp: path_suffix_def Let_def)
  with path_name_suffix show "\<exists>a. p = a @ path_suffix p" by (metis append.assoc)
  have "47 \<notin> set ?name" by (auto simp: path_name_def dest: set_takeWhileD)
  with c show "47 \<notin> set (path_suffix p)" by (metis Un_iff set_append)
  show "path_suffix p \<noteq> [] \<Longrightarrow> hd (path_suffix p) = 46" by (auto simp: path_suffix_def Let_def split: if_splits)
qed

lemma beside_appends:
  assumes "path_name p \<noteq> []" and "47 \<notin> set (ascii s)" and "hd (ascii s) = 46" and "1 < length s"
  shows "beside s p = Inr (p @ ascii s)"
proof -
  let ?t = "path_suffix p @ ascii s"
  obtain a where a: "p = a @ path_suffix p" using path_suffix_suffix by blast
  have "take (length p - length (path_suffix p)) p = a" by (subst (2) a, subst a) simp
  moreover have "a @ ?t = p @ ascii s" using a by (metis append.assoc)
  moreover have "1 < length ?t" using assms(4) by simp
  then have "?t \<noteq> []" "?t \<noteq> [46]" by fastforce+
  moreover have "hd ?t = 46" "47 \<notin> set ?t"
    using assms(2,3) path_suffix_start [of p] path_suffix_chars [of p] by (cases "path_suffix p = []"; simp)+
  ultimately have "with_suffix p ?t = Inr (p @ ascii s)" using assms(1) unfolding with_suffix_def by simp
  then show ?thesis by (cases "path_suffix p = []") (simp_all add: beside_def)
qed

text \<open>
  The databases of a node are four different files, named after the first: whatever the path, its index,
  its mempool and its cache have their names appended to it.
\<close>

lemma node_paths:
  assumes "path_name p \<noteq> []"
  shows "utxo_index_path p = Inr (p @ ascii ''.utxos.sqlite3'')" "mempool_path p = Inr (p @ ascii ''.mempool.sqlite3'')"
    "invalid_blocks_path p = Inr (p @ ascii ''.invalid.sqlite3'')"
    "distinct [p, p @ ascii ''.utxos.sqlite3'', p @ ascii ''.mempool.sqlite3'', p @ ascii ''.invalid.sqlite3'']"
proof -
  show "utxo_index_path p = Inr (p @ ascii ''.utxos.sqlite3'')"
    unfolding utxo_index_path_def by (rule beside_appends [OF assms]) code_simp+
  show "mempool_path p = Inr (p @ ascii ''.mempool.sqlite3'')"
    unfolding mempool_path_def by (rule beside_appends [OF assms]) code_simp+
  show "invalid_blocks_path p = Inr (p @ ascii ''.invalid.sqlite3'')"
    unfolding invalid_blocks_path_def by (rule beside_appends [OF assms]) code_simp+
  show "distinct [p, p @ ascii ''.utxos.sqlite3'', p @ ascii ''.mempool.sqlite3'', p @ ascii ''.invalid.sqlite3'']"
  proof -
    have "distinct [[], ascii ''.utxos.sqlite3'', ascii ''.mempool.sqlite3'', ascii ''.invalid.sqlite3'']" by code_simp
    then show ?thesis by auto
  qed
qed

lemma beside_empty: "path_name p = [] \<Longrightarrow> raises (beside s p)"
  unfolding beside_def with_suffix_def value_error_def by simp

lemma node_paths_empty: "path_name p = [] \<Longrightarrow> raises (utxo_index_path p) \<and> raises (mempool_path p) \<and> raises (invalid_blocks_path p)"
  unfolding utxo_index_path_def mempool_path_def invalid_blocks_path_def using beside_empty by blast

end
