(* ===== verification/Cli.thy ===== *)
theory Cli
  imports Runtime Wallet_File Dict_Forms Db_Paths
begin

text \<open>
  \<^verbatim>\<open>cli.py\<close>: the commands behind the argument parser, over wallet files and node databases, and \<^verbatim>\<open>main\<close>.
  The summaries of the node, which are records in \<open>Node\<close>, are turned into the dictionaries that the
  commands print. A \<open>command\<close> is what the argument parser, in \<open>Cli_Args\<close>, hands to a handler.
\<close>

section \<open>Dictionaries\<close>

definition spendable_members :: "spendable_summary_row \<Rightarrow> (pystr \<times> json) list" where
  "spendable_members s =
     [(ascii ''address'', JStr (ss_address s)),
      (ascii ''balance'', JInt (ss_balance s)),
      (ascii ''count'', JInt (ss_count s)),
      (ascii ''utxos'', JList (map (\<lambda>e. JObj
         [(ascii ''txid'', JStr (op_txid (utxo_outpoint e))),
          (ascii ''index'', JInt (op_index (utxo_outpoint e))),
          (ascii ''amount'', JInt (out_amount (utxo_output e))),
          (ascii ''address'', JStr (out_address (utxo_output e)))]) (ss_utxos s)))]"

definition block_members :: "py_runtime \<Rightarrow> block_summary_row \<Rightarrow> (pystr \<times> json) list" where
  "block_members R s =
     [(ascii ''hash'', JStr (bs_hash s)),
      (ascii ''height'', JInt (blk_height (bs_block s))),
      (ascii ''previous_hash'', JStr (blk_previous_hash (bs_block s))),
      (ascii ''difficulty'', JInt (blk_difficulty (bs_block s))),
      (ascii ''timestamp'', JFloat (float_json R (blk_timestamp (bs_block s)))),
      (ascii ''nonce'', JInt (blk_nonce (bs_block s))),
      (ascii ''transaction_root'', JStr (blk_transaction_root (bs_block s))),
      (ascii ''transactions'', JList (map JStr (bs_transactions s))),
      (ascii ''transaction_count'', JInt (bs_transaction_count s)),
      (ascii ''cumulative_work'', JInt (bs_cumulative_work s)),
      (ascii ''active'', JBool (bs_active s))]"

definition mempool_entry_to_dict :: "mempool_entry \<Rightarrow> json" where
  "mempool_entry_to_dict e =
     JObj [(ascii ''txid'', JStr (me_txid e)),
           (ascii ''inputs'', JInt (me_inputs e)),
           (ascii ''outputs'', JInt (me_outputs e)),
           (ascii ''output_value'', JInt (me_output_value e)),
           (ascii ''fee'', opt_json JInt (me_fee e)),
           (ascii ''fee_rate'', opt_json JInt (me_fee_rate e)),
           (ascii ''bytes'', JInt (me_bytes e)),
           (ascii ''valid'', JBool (me_valid e))]"

text \<open>\<^verbatim>\<open>_transaction_summary\<close>: the block and the height are keys only of a confirmed transaction.\<close>

definition transaction_members :: "crypto \<Rightarrow> transaction_summary_row \<Rightarrow> (pystr \<times> json) list result" where
  "transaction_members C s =
     (let tx = ts_transaction s
      in rbind (txid C tx) (\<lambda>t. Inr
       ([(ascii ''txid'', JStr t),
         (ascii ''status'', JStr (if ts_confirmed s then ascii ''confirmed'' else ascii ''mempool'')),
         (ascii ''coinbase'', JBool (is_coinbase tx)),
         (ascii ''inputs'', JList (map input_to_dict (tx_inputs tx))),
         (ascii ''outputs'', JList (map output_to_dict (tx_outputs tx))),
         (ascii ''input_count'', JInt (int (length (tx_inputs tx)))),
         (ascii ''output_count'', JInt (int (length (tx_outputs tx)))),
         (ascii ''output_value'', JInt (output_total tx))] @
        (case ts_location s of
           None \<Rightarrow> []
         | Some (h, n) \<Rightarrow> [(ascii ''block_hash'', JStr h), (ascii ''height'', JInt n)]))))"

section \<open>The world of a command\<close>

text \<open>
  What a command finds and leaves: wallet files, node databases by path (a database that does not exist
  has empty tables), the lines printed, and the runtime object of the last command that made one. What comes from
  outside is the environment: the primitives, the random draws, the clock, and the outcome of binding
  the server's socket with the address it got.
\<close>

record cli_world =
  cw_files :: files
  cw_dbs :: "pystr \<Rightarrow> node_files"
  cw_out :: "pystr list"
  cw_process :: "node_runtime option"

record cli_env =
  ce_crypto :: crypto
  ce_cipher :: cipher
  ce_python :: py_runtime
  ce_exn_text :: "exn \<Rightarrow> pystr"
  ce_secret :: bytes
  ce_draws :: save_draws
  ce_clock :: "64 word"
  ce_bind :: "unit result"
  ce_address :: "pystr \<times> int"

record node_args =
  na_db :: pystr
  na_difficulty :: int
  na_reward :: int

record runtime_args = node_args +
  ra_network :: pystr
  ra_node_id :: pystr
  ra_host :: pystr
  ra_port :: int
  ra_peer_auth_key :: pystr

text \<open>The options with their defaults; only the database and the authentication key are required.\<close>

definition default_node_args :: "pystr \<Rightarrow> node_args" where
  "default_node_args db = \<lparr>na_db = db, na_difficulty = 0, na_reward = 50\<rparr>"

definition default_runtime_args :: "pystr \<Rightarrow> pystr \<Rightarrow> runtime_args" where
  "default_runtime_args db key =
     \<lparr>na_db = db, na_difficulty = 0, na_reward = 50, ra_network = ascii ''regtest'', ra_node_id = ascii ''node'',
      ra_host = ascii ''127.0.0.1'', ra_port = 0, ra_peer_auth_key = key\<rparr>"

text \<open>An optional text that counts as given: neither absent nor empty.\<close>

definition given :: "pystr option \<Rightarrow> bool" where
  "given x \<longleftrightarrow> x \<noteq> None \<and> x \<noteq> Some []"

text \<open>\<^verbatim>\<open>json.dumps(payload, sort_keys=True)\<close>, with the default separators.\<close>

primrec dumps_default :: "json \<Rightarrow> pystr" where
  "dumps_default JNull = ascii ''null''"
| "dumps_default (JBool b) = (if b then ascii ''true'' else ascii ''false'')"
| "dumps_default (JInt i) = int_repr i"
| "dumps_default (JFloat t) = t"
| "dumps_default (JStr s) = json_string s"
| "dumps_default (JList vs) = [91] @ join_comma_space (map dumps_default vs) @ [93]"
| "dumps_default (JObj kvs) =
     [123] @ join_comma_space (map (\<lambda>(k, t). json_string k @ [58, 32] @ t)
                                   (sort_key fst (map (map_prod id dumps_default) kvs))) @ [125]"

definition emit :: "bool \<Rightarrow> (pystr \<times> json) list \<times> pystr \<Rightarrow> (cli_world, unit) op" where
  "emit json p = omodify (\<lambda>w. w\<lparr>cw_out := cw_out w @ [if json then dumps_default (JObj (fst p)) else snd p]\<rparr>)"

definition load_wallet :: "cli_env \<Rightarrow> files \<Rightarrow> pystr \<Rightarrow> wallet result" where
  "load_wallet E fs path = wallet_load (ce_crypto E) (ce_cipher E) (ce_python E) fs path None"

definition load_address :: "cli_env \<Rightarrow> files \<Rightarrow> pystr \<Rightarrow> pystr result" where
  "load_address E fs path = rbind (load_wallet E fs path) (wallet_address (ce_crypto E))"

text \<open>\<^verbatim>\<open>close()\<close>: what the node left in its databases.\<close>

definition close_node :: "node_files \<Rightarrow> consensus_node \<Rightarrow> node_files" where
  "close_node x n =
     \<lparr>nf_store = nd_store n,
      nf_mempool_store = (case nd_mempool_store n of None \<Rightarrow> nf_mempool_store x | Some s \<Rightarrow> s),
      nf_utxo_index = (case nd_utxo_index n of None \<Rightarrow> nf_utxo_index x | Some i \<Rightarrow> i),
      nf_invalid_blocks = (case nd_invalid_blocks n of None \<Rightarrow> nf_invalid_blocks x | Some c \<Rightarrow> c)\<rparr>"

definition put_db :: "pystr \<Rightarrow> node_files \<Rightarrow> cli_world \<Rightarrow> cli_world" where
  "put_db db x w = w\<lparr>cw_dbs := (cw_dbs w)(db := x)\<rparr>"

text \<open>
  The frame of most commands: open the node, work with it, print, and close it in any case. The work
  returns the payload and the text to print.
\<close>

type_synonym node_work = "(consensus_node, (pystr \<times> json) list \<times> pystr) op"

definition print_result :: "bool \<Rightarrow> ((pystr \<times> json) list \<times> pystr) result \<Rightarrow> (cli_world, unit) op" where
  "print_result json r = (case r of Inl e \<Rightarrow> oeval (\<lambda>_. Inl e) | Inr p \<Rightarrow> emit json p)"

definition with_node :: "cli_env \<Rightarrow> bool \<Rightarrow> node_args \<Rightarrow> (files \<Rightarrow> node_work) \<Rightarrow> (cli_world, unit) op" where
  "with_node E json a work w =
     (case open_node (ce_crypto E) (na_difficulty a) (na_reward a) MAX_MONEY (cw_dbs w (na_db a)) of
        (Inl e, x) \<Rightarrow> (Inl e, put_db (na_db a) x w)
      | (Inr n, x) \<Rightarrow>
          (let (r, n') = work (cw_files w) n; (u, w') = print_result json r w
           in (u, put_db (na_db a) (close_node x n') w')))"

text \<open>The same for a runtime; an exception of \<^verbatim>\<open>stop\<close> in the \<^verbatim>\<open>finally\<close> block would replace the other.\<close>

definition with_runtime :: "bool \<Rightarrow> pystr \<Rightarrow> (node_files, node_runtime) op \<Rightarrow>
    (node_runtime, (pystr \<times> json) list \<times> pystr) op \<Rightarrow> (cli_world, unit) op" where
  "with_runtime json db start work w =
     (case start (cw_dbs w db) of
        (Inl e, x) \<Rightarrow> (Inl e, put_db db x w)
      | (Inr n, x) \<Rightarrow>
          (let (r, n1) = work n; (u, w') = print_result json r w; (s, n2) = runtime_stop n1
           in (rbind s (\<lambda>_. u),
               (put_db db (close_node x (runtime_node n2)) w')\<lparr>cw_process := Some n2\<rparr>)))"

section \<open>Commands\<close>

definition cmd_wallet_new :: "cli_env \<Rightarrow> bool \<Rightarrow> pystr \<Rightarrow> pystr option \<Rightarrow> (cli_world, unit) op" where
  "cmd_wallet_new E json out passphrase =
     obind (oeval (\<lambda>_. wallet_create (ce_crypto E) None (ce_secret E))) (\<lambda>wallet.
     obind (\<lambda>w. case wallet_save (ce_cipher E) (ce_draws E) wallet out passphrase (cw_files w) of
                  (r, fs) \<Rightarrow> (r, w\<lparr>cw_files := fs\<rparr>)) (\<lambda>_.
     obind (oeval (\<lambda>_. wallet_address (ce_crypto E) wallet)) (\<lambda>address.
     emit json ([(ascii ''address'', JStr address), (ascii ''wallet'', JStr out)],
                ascii ''created wallet '' @ address))))"

definition runtime_config_of :: "runtime_args \<Rightarrow> runtime_config result" where
  "runtime_config_of a =
     rbind (utf8_encode (ra_peer_auth_key a)) (\<lambda>key.
     Inr \<lparr>rc_network = ra_network a, rc_node_id = ra_node_id a, rc_host = ra_host a, rc_port = ra_port a,
          rc_peer_auth_key = key, rc_difficulty = na_difficulty a, rc_block_subsidy = na_reward a,
          rc_max_money = MAX_MONEY\<rparr>)"

definition wallet_or_address :: "cli_env \<Rightarrow> files \<Rightarrow> pystr option \<Rightarrow> pystr option \<Rightarrow> pystr result" where
  "wallet_or_address E fs wallet address =
     (if given wallet then load_address E fs (the wallet)
      else if given address then
        (if \<not> is_valid_address (the address) then Inl (SystemExit (ascii ''address is invalid''))
         else Inr (the address))
      else Inl (SystemExit (ascii ''provide --wallet or --address'')))"

definition init_work :: "cli_env \<Rightarrow> runtime_args \<Rightarrow> (node_runtime, (pystr \<times> json) list \<times> pystr) op" where
  "init_work E a =
     oeval (\<lambda>n.
       rbind (tip_hash (ce_crypto E) (runtime_node n)) (\<lambda>tip.
       rbind (node_height (ce_crypto E) (runtime_node n)) (\<lambda>height.
       Inr ([(ascii ''db'', JStr (na_db a)), (ascii ''network'', JStr (ra_network a)),
             (ascii ''node_id'', JStr (ra_node_id a)), (ascii ''tip'', JStr tip), (ascii ''height'', JInt height)],
            ascii ''initialized UTXO node '' @ ra_node_id a @ ascii '' at height '' @ int_repr height))))"

definition cmd_init :: "cli_env \<Rightarrow> bool \<Rightarrow> runtime_args \<Rightarrow> pystr \<Rightarrow> int \<Rightarrow> (cli_world, unit) op" where
  "cmd_init E json a genesis_wallet amount =
     obind (oeval (\<lambda>w. load_wallet E (cw_files w) genesis_wallet)) (\<lambda>wallet.
     obind (oeval (\<lambda>_. runtime_config_of a)) (\<lambda>c.
     obind (oeval (\<lambda>_. wallet_address (ce_crypto E) wallet)) (\<lambda>address.
     with_runtime json (na_db a) (create_runtime (ce_crypto E) c (ce_bind E) [(address, amount)] (ce_clock E))
       (init_work E a))))"

definition chain_work :: "cli_env \<Rightarrow> pystr option \<Rightarrow> files \<Rightarrow> node_work" where
  "chain_work E wallet fs =
     oeval (\<lambda>n.
       rbind (node_height (ce_crypto E) n) (\<lambda>height.
       rbind (tip_hash (ce_crypto E) n) (\<lambda>tip.
       let utxos = utxo_len (cs_utxos (nd_state n)); supply = utxo_total (cs_utxos (nd_state n));
           mempool = int (length (nd_mempool n))
       in rbind (if given wallet
                 then rbind (load_address E fs (the wallet)) (\<lambda>address.
                      Inr [(ascii ''address'', JStr address),
                           (ascii ''balance'',
                            JInt (sum_list (map (\<lambda>e. out_amount (utxo_output e)) (spendable_outputs n address))))])
                 else Inr []) (\<lambda>extra.
       Inr ([(ascii ''height'', JInt height), (ascii ''tip'', JStr tip), (ascii ''utxos'', JInt utxos),
             (ascii ''supply'', JInt supply), (ascii ''mempool'', JInt mempool)] @ extra,
            ascii ''height: '' @ int_repr height @ [10] @ ascii ''tip: '' @ tip @ [10] @
            ascii ''utxos: '' @ int_repr utxos @ [10] @ ascii ''supply: '' @ int_repr supply @ [10] @
            ascii ''mempool: '' @ int_repr mempool)))))"

definition cmd_chain :: "cli_env \<Rightarrow> bool \<Rightarrow> node_args \<Rightarrow> pystr option \<Rightarrow> (cli_world, unit) op" where
  "cmd_chain E json a wallet = with_node E json a (chain_work E wallet)"

definition balance_work :: "cli_env \<Rightarrow> pystr \<Rightarrow> files \<Rightarrow> node_work" where
  "balance_work E wallet fs =
     oeval (\<lambda>n.
       rbind (load_address E fs wallet) (\<lambda>address.
       rbind (spendable_summary n address) (\<lambda>summary.
       rbind (node_height (ce_crypto E) n) (\<lambda>height.
       rbind (tip_hash (ce_crypto E) n) (\<lambda>tip.
       Inr (spendable_members summary @ [(ascii ''height'', JInt height), (ascii ''tip'', JStr tip)],
            ascii ''address:   '' @ address @ [10] @ ascii ''confirmed: '' @ int_repr (ss_balance summary)))))))"

definition cmd_balance :: "cli_env \<Rightarrow> bool \<Rightarrow> node_args \<Rightarrow> pystr \<Rightarrow> (cli_world, unit) op" where
  "cmd_balance E json a wallet = with_node E json a (balance_work E wallet)"

fun join_lines :: "pystr list \<Rightarrow> pystr" where
  "join_lines [] = []"
| "join_lines [x] = x"
| "join_lines (x # y # ys) = x @ [10] @ join_lines (y # ys)"

definition utxos_work :: "pystr \<Rightarrow> files \<Rightarrow> node_work" where
  "utxos_work address fs =
     oeval (\<lambda>n.
       rbind (spendable_summary n address) (\<lambda>summary.
       Inr (spendable_members summary,
            if ss_utxos summary = [] then ascii ''no spendable UTXOs for '' @ address
            else join_lines (map (\<lambda>e. op_txid (utxo_outpoint e) @ [58] @ int_repr (op_index (utxo_outpoint e)) @
                   ascii '' amount='' @ int_repr (out_amount (utxo_output e))) (ss_utxos summary)))))"

definition cmd_utxos :: "cli_env \<Rightarrow> bool \<Rightarrow> node_args \<Rightarrow> pystr option \<Rightarrow> pystr option \<Rightarrow> (cli_world, unit) op" where
  "cmd_utxos E json a wallet address =
     obind (oeval (\<lambda>w. wallet_or_address E (cw_files w) wallet address)) (\<lambda>target.
     with_node E json a (utxos_work target))"

definition send_work :: "cli_env \<Rightarrow> wallet \<Rightarrow> pystr \<Rightarrow> int \<Rightarrow> int \<Rightarrow> files \<Rightarrow> node_work" where
  "send_work E sender recipient amount fee fs =
     obind (oeval (\<lambda>n. create_transaction (ce_crypto E) n sender recipient amount fee)) (\<lambda>tx.
     obind (submit_transaction (ce_crypto E) tx) (\<lambda>t.
     oreturn ([(ascii ''txid'', JStr t), (ascii ''inputs'', JInt (int (length (tx_inputs tx)))),
               (ascii ''outputs'', JInt (int (length (tx_outputs tx))))],
              ascii ''queued UTXO transaction '' @ t)))"

definition send_recipient :: "cli_env \<Rightarrow> files \<Rightarrow> pystr option \<Rightarrow> pystr option \<Rightarrow> pystr result" where
  "send_recipient E fs to_wallet to_address =
     (if given to_wallet then load_address E fs (the to_wallet)
      else if given to_address then Inr (the to_address)
      else Inl (SystemExit (ascii ''provide --to-wallet or --to-address'')))"

definition cmd_send :: "cli_env \<Rightarrow> bool \<Rightarrow> node_args \<Rightarrow> pystr \<Rightarrow> pystr option \<Rightarrow> pystr option \<Rightarrow> int \<Rightarrow> int \<Rightarrow>
    (cli_world, unit) op" where
  "cmd_send E json a from_wallet to_wallet to_address amount fee =
     obind (oeval (\<lambda>w. load_wallet E (cw_files w) from_wallet)) (\<lambda>sender.
     obind (oeval (\<lambda>w. send_recipient E (cw_files w) to_wallet to_address)) (\<lambda>recipient.
     with_node E json a (send_work E sender recipient amount fee)))"

definition mempool_line :: "cli_env \<Rightarrow> mempool_entry \<Rightarrow> pystr" where
  "mempool_line E e =
     me_txid e @ ascii '' inputs='' @ int_repr (me_inputs e) @ ascii '' outputs='' @ int_repr (me_outputs e) @
     ascii '' fee='' @ py_str (ce_python E) (opt_json JInt (me_fee e)) @
     ascii '' valid='' @ py_str (ce_python E) (JBool (me_valid e))"

definition mempool_work :: "cli_env \<Rightarrow> bool \<Rightarrow> bool \<Rightarrow> files \<Rightarrow> node_work" where
  "mempool_work E prune clear fs =
     (if clear then
        obind (clear_mempool (ce_crypto E)) (\<lambda>removed.
        oreturn ([(ascii ''removed'', JInt removed)],
                 ascii ''cleared '' @ int_repr removed @ ascii '' UTXO mempool transaction(s)''))
      else if prune then
        obind (prune_mempool (ce_crypto E)) (\<lambda>removed.
        oreturn ([(ascii ''removed'', JInt removed)],
                 ascii ''pruned '' @ int_repr removed @ ascii '' UTXO mempool transaction(s)''))
      else
        oeval (\<lambda>n.
          rbind (mempool_summary (ce_crypto E) n) (\<lambda>txs.
          Inr ([(ascii ''count'', JInt (int (length txs))),
                (ascii ''transactions'', JList (map mempool_entry_to_dict txs))],
               if txs = [] then ascii ''UTXO mempool is empty'' else join_lines (map (mempool_line E) txs)))))"

definition cmd_mempool :: "cli_env \<Rightarrow> bool \<Rightarrow> node_args \<Rightarrow> bool \<Rightarrow> bool \<Rightarrow> (cli_world, unit) op" where
  "cmd_mempool E json a prune clear = with_node E json a (mempool_work E prune clear)"

text \<open>
  The classes \<^verbatim>\<open>main\<close> and the query commands turn into an exit: \<^verbatim>\<open>ConsensusNodeError\<close> with its subclass
  \<^verbatim>\<open>MempoolPolicyError\<close>, and in \<^verbatim>\<open>main\<close> also the \<^verbatim>\<open>RuntimeError\<close> of \<^verbatim>\<open>runtime.py\<close>.
\<close>

fun exit_on_node_error :: "exn \<Rightarrow> exn" where
  "exit_on_node_error (ConsensusNodeError m) = SystemExit m"
| "exit_on_node_error (MempoolPolicyError m) = SystemExit m"
| "exit_on_node_error e = e"

definition exiting :: "(exn \<Rightarrow> exn) \<Rightarrow> 'a result \<Rightarrow> 'a result" where
  "exiting f r = (case r of Inl e \<Rightarrow> Inl (f e) | Inr x \<Rightarrow> Inr x)"

definition block_work_cmd :: "cli_env \<Rightarrow> pystr option \<Rightarrow> int option \<Rightarrow> files \<Rightarrow> node_work" where
  "block_work_cmd E hash_arg height_arg fs =
     oeval (\<lambda>n.
       rbind (exiting exit_on_node_error (block_summary (ce_crypto E) n hash_arg height_arg)) (\<lambda>s.
       Inr (block_members (ce_python E) s,
            ascii ''block #'' @ int_repr (blk_height (bs_block s)) @ [32] @ bs_hash s @ [10] @
            ascii ''transactions: '' @ int_repr (bs_transaction_count s) @ [10] @
            ascii ''active: '' @ py_str (ce_python E) (JBool (bs_active s)))))"

definition cmd_block :: "cli_env \<Rightarrow> bool \<Rightarrow> node_args \<Rightarrow> pystr option \<Rightarrow> int option \<Rightarrow> (cli_world, unit) op" where
  "cmd_block E json a hash_arg height_arg = with_node E json a (block_work_cmd E hash_arg height_arg)"

definition tx_work :: "cli_env \<Rightarrow> pystr \<Rightarrow> files \<Rightarrow> node_work" where
  "tx_work E t fs =
     oeval (\<lambda>n.
       rbind (exiting exit_on_node_error
         (rbind (transaction_summary (ce_crypto E) n t) (\<lambda>s.
          rbind (transaction_members (ce_crypto E) s) (\<lambda>members. Inr (s, members))))) (\<lambda>(s, members).
       rbind (txid (ce_crypto E) (ts_transaction s)) (\<lambda>i.
       Inr (members,
            i @ ascii '' status='' @ (if ts_confirmed s then ascii ''confirmed'' else ascii ''mempool'') @
            (case ts_location s of Some (h, height) \<Rightarrow> ascii '' height='' @ int_repr height | None \<Rightarrow> []) @
            ascii '' outputs='' @ int_repr (int (length (tx_outputs (ts_transaction s)))) @
            ascii '' value='' @ int_repr (output_total (ts_transaction s))))))"

definition cmd_tx :: "cli_env \<Rightarrow> bool \<Rightarrow> node_args \<Rightarrow> pystr \<Rightarrow> (cli_world, unit) op" where
  "cmd_tx E json a t = with_node E json a (tx_work E t)"

definition mine_work :: "cli_env \<Rightarrow> wallet \<Rightarrow> files \<Rightarrow> node_work" where
  "mine_work E wallet fs =
     obind (oeval (\<lambda>_. wallet_address (ce_crypto E) wallet)) (\<lambda>address.
     obind (mine_block (ce_crypto E) (ce_exn_text E) address (ce_clock E)) (\<lambda>stored.
     oeval (\<lambda>_. rbind (block_hash (ce_crypto E) (sb_block stored)) (\<lambda>h.
       Inr ([(ascii ''height'', JInt (blk_height (sb_block stored))), (ascii ''hash'', JStr h),
             (ascii ''cumulative_work'', JInt (sb_cumulative_work stored))],
            ascii ''mined UTXO block #'' @ int_repr (blk_height (sb_block stored)) @ [10] @ ascii ''hash: '' @ h)))))"

definition cmd_mine :: "cli_env \<Rightarrow> bool \<Rightarrow> node_args \<Rightarrow> pystr \<Rightarrow> (cli_world, unit) op" where
  "cmd_mine E json a miner_wallet =
     obind (oeval (\<lambda>w. load_wallet E (cw_files w) miner_wallet)) (\<lambda>wallet.
     with_node E json a (mine_work E wallet))"

definition serve_work :: "cli_env \<Rightarrow> (node_runtime, (pystr \<times> json) list \<times> pystr) op" where
  "serve_work E =
     obind runtime_start (\<lambda>_.
     oeval (\<lambda>n. rbind (node_height (ce_crypto E) (runtime_node n)) (\<lambda>height.
       let (host, port) = ce_address E
       in Inr ([(ascii ''host'', JStr host), (ascii ''port'', JInt port), (ascii ''height'', JInt height)],
               ascii ''serving UTXO node on '' @ host @ [58] @ int_repr port))))"

definition cmd_serve :: "cli_env \<Rightarrow> bool \<Rightarrow> runtime_args \<Rightarrow> (cli_world, unit) op" where
  "cmd_serve E json a =
     obind (oeval (\<lambda>_. runtime_config_of a)) (\<lambda>c.
     with_runtime json (na_db a) (open_runtime (ce_crypto E) c (ce_bind E)) (serve_work E))"

section \<open>The entry point\<close>

datatype command =
    WalletNew pystr "pystr option"
  | Init runtime_args pystr int
  | Balance node_args pystr
  | Send node_args pystr "pystr option" "pystr option" int int
  | Mine node_args pystr
  | ShowChain node_args "pystr option"
  | Utxos node_args "pystr option" "pystr option"
  | Mempool node_args bool bool
  | ShowBlock node_args "pystr option" "int option"
  | ShowTx node_args pystr
  | Serve runtime_args

primrec run_command :: "cli_env \<Rightarrow> bool \<Rightarrow> command \<Rightarrow> (cli_world, unit) op" where
  "run_command E json (WalletNew out passphrase) = cmd_wallet_new E json out passphrase"
| "run_command E json (Init a wallet amount) = cmd_init E json a wallet amount"
| "run_command E json (Balance a wallet) = cmd_balance E json a wallet"
| "run_command E json (Send a from_wallet to_wallet to_address amount fee) =
     cmd_send E json a from_wallet to_wallet to_address amount fee"
| "run_command E json (Mine a wallet) = cmd_mine E json a wallet"
| "run_command E json (ShowChain a wallet) = cmd_chain E json a wallet"
| "run_command E json (Utxos a wallet address) = cmd_utxos E json a wallet address"
| "run_command E json (Mempool a prune clear) = cmd_mempool E json a prune clear"
| "run_command E json (ShowBlock a hash_arg height_arg) = cmd_block E json a hash_arg height_arg"
| "run_command E json (ShowTx a t) = cmd_tx E json a t"
| "run_command E json (Serve a) = cmd_serve E json a"

fun exit_in_main :: "exn \<Rightarrow> exn" where
  "exit_in_main (RuntimeConfigError m) = SystemExit m"
| "exit_in_main e = exit_on_node_error e"

definition main :: "cli_env \<Rightarrow> bool \<Rightarrow> command \<Rightarrow> (cli_world, unit) op" where
  "main E json c w = (case run_command E json c w of (r, w') \<Rightarrow> (exiting exit_in_main r, w'))"

end
