(* ===== verification/Cli_Args.thy ===== *)
theory Cli_Args
  imports Cli
begin

text \<open>
  \<^verbatim>\<open>build_parser\<close> of \<^verbatim>\<open>cli.py\<close>: the options of every command, and what \<^verbatim>\<open>argparse\<close> does with them once it has
  split the command line. An \<open>occurrence\<close> is an option with the value that follows it, or without one for a
  switch; how \<^verbatim>\<open>argparse\<close> cuts the line into these (abbreviated names, \<^verbatim>\<open>--name=value\<close>) is its own business.
  Every error of the parser is \<^verbatim>\<open>SystemExit(2)\<close>.
\<close>

section \<open>The options\<close>

datatype opt_kind = TextOpt | IntOpt | SwitchOpt

record subparser =
  sp_options :: "(string \<times> opt_kind) list"
  sp_required :: "string list"
  sp_exclusive :: "string list" \<comment> \<open>the options of the mutually exclusive group\<close>
  sp_one_of :: bool \<comment> \<open>whether that group is required\<close>

definition add_node_args :: "(string \<times> opt_kind) list" where
  "add_node_args = [(''--db'', TextOpt), (''--difficulty'', IntOpt), (''--reward'', IntOpt)]"

definition add_runtime_args :: "(string \<times> opt_kind) list" where
  "add_runtime_args = add_node_args @
     [(''--network'', TextOpt), (''--node-id'', TextOpt), (''--host'', TextOpt), (''--port'', IntOpt), (''--peer-auth-key'', TextOpt)]"

definition plain_parser :: "(string \<times> opt_kind) list \<Rightarrow> string list \<Rightarrow> subparser" where
  "plain_parser opts req = \<lparr>sp_options = opts, sp_required = req, sp_exclusive = [], sp_one_of = False\<rparr>"

definition build_parser :: "string list \<Rightarrow> subparser option" where
  "build_parser words =
     map_of [
       ([''wallet'', ''new''], plain_parser [(''--out'', TextOpt), (''--passphrase'', TextOpt)] [''--out'']),
       ([''init''], plain_parser (add_runtime_args @ [(''--genesis-wallet'', TextOpt), (''--amount'', IntOpt)])
          [''--db'', ''--peer-auth-key'', ''--genesis-wallet'']),
       ([''balance''], plain_parser (add_node_args @ [(''--wallet'', TextOpt)]) [''--db'', ''--wallet'']),
       ([''send''], plain_parser (add_node_args @ [(''--from-wallet'', TextOpt), (''--to-wallet'', TextOpt),
          (''--to-address'', TextOpt), (''--amount'', IntOpt), (''--fee'', IntOpt)]) [''--db'', ''--from-wallet'', ''--amount'']),
       ([''mine''], plain_parser (add_node_args @ [(''--miner-wallet'', TextOpt)]) [''--db'', ''--miner-wallet'']),
       ([''chain''], plain_parser (add_node_args @ [(''--wallet'', TextOpt)]) [''--db'']),
       ([''utxos''], plain_parser (add_node_args @ [(''--wallet'', TextOpt), (''--address'', TextOpt)]) [''--db'']),
       ([''mempool''], \<lparr>sp_options = add_node_args @ [(''--prune'', SwitchOpt), (''--clear'', SwitchOpt)], sp_required = [''--db''],
          sp_exclusive = [''--prune'', ''--clear''], sp_one_of = False\<rparr>),
       ([''block''], \<lparr>sp_options = add_node_args @ [(''--hash'', TextOpt), (''--height'', IntOpt)], sp_required = [''--db''],
          sp_exclusive = [''--hash'', ''--height''], sp_one_of = True\<rparr>),
       ([''tx''], plain_parser (add_node_args @ [(''--txid'', TextOpt)]) [''--db'', ''--txid'']),
       ([''serve''], plain_parser add_runtime_args [''--db'', ''--peer-auth-key''])] words"

section \<open>Reading the occurrences\<close>

type_synonym occurrence = "string \<times> pystr option"

definition usage_error :: "'a result" where
  "usage_error = Inl (SystemExit (ascii ''2''))"

definition check_occurrence :: "py_runtime \<Rightarrow> subparser \<Rightarrow> occurrence \<Rightarrow> bool" where
  "check_occurrence R sp x =
     (case (map_of (sp_options sp) (fst x), snd x) of
        (Some TextOpt, Some v) \<Rightarrow> True
      | (Some IntOpt, Some v) \<Rightarrow> (case int_of_text R v of Inl e \<Rightarrow> False | Inr i \<Rightarrow> True)
      | (Some SwitchOpt, None) \<Rightarrow> True
      | _ \<Rightarrow> False)"

definition chosen :: "subparser \<Rightarrow> occurrence list \<Rightarrow> string list" where
  "chosen sp xs = filter (\<lambda>k. k \<in> set (map fst xs)) (sp_exclusive sp)"

definition occurrences_ok :: "py_runtime \<Rightarrow> subparser \<Rightarrow> occurrence list \<Rightarrow> bool" where
  "occurrences_ok R sp xs \<longleftrightarrow> list_all (check_occurrence R sp) xs \<and> length (chosen sp xs) \<le> 1 \<and>
     list_all (\<lambda>k. k \<in> set (map fst xs)) (sp_required sp) \<and> (sp_one_of sp \<longrightarrow> chosen sp xs \<noteq> [])"

text \<open>The fields of the namespace: the last occurrence counts.\<close>

definition text_of :: "occurrence list \<Rightarrow> string \<Rightarrow> pystr option" where
  "text_of xs k = (case map_of (rev xs) k of Some v \<Rightarrow> v | None \<Rightarrow> None)"

definition text_or :: "occurrence list \<Rightarrow> string \<Rightarrow> pystr \<Rightarrow> pystr" where
  "text_or xs k d = (case text_of xs k of Some v \<Rightarrow> v | None \<Rightarrow> d)"

definition int_of :: "py_runtime \<Rightarrow> occurrence list \<Rightarrow> string \<Rightarrow> int option" where
  "int_of R xs k = (case text_of xs k of Some v \<Rightarrow> (case int_of_text R v of Inr i \<Rightarrow> Some i | Inl e \<Rightarrow> None) | None \<Rightarrow> None)"

definition int_or :: "py_runtime \<Rightarrow> occurrence list \<Rightarrow> string \<Rightarrow> int \<Rightarrow> int" where
  "int_or R xs k d = (case int_of R xs k of Some i \<Rightarrow> i | None \<Rightarrow> d)"

definition node_args_of :: "py_runtime \<Rightarrow> occurrence list \<Rightarrow> node_args" where
  "node_args_of R xs =
     (default_node_args (text_or xs ''--db'' []))
       \<lparr>na_difficulty := int_or R xs ''--difficulty'' 0, na_reward := int_or R xs ''--reward'' 50\<rparr>"

definition runtime_args_of :: "py_runtime \<Rightarrow> occurrence list \<Rightarrow> runtime_args" where
  "runtime_args_of R xs =
     (default_runtime_args (text_or xs ''--db'' []) (text_or xs ''--peer-auth-key'' []))
       \<lparr>na_difficulty := int_or R xs ''--difficulty'' 0, na_reward := int_or R xs ''--reward'' 50,
        ra_network := text_or xs ''--network'' (ascii ''regtest''), ra_node_id := text_or xs ''--node-id'' (ascii ''node''),
        ra_host := text_or xs ''--host'' (ascii ''127.0.0.1''), ra_port := int_or R xs ''--port'' 0\<rparr>"

definition command_of :: "py_runtime \<Rightarrow> string list \<Rightarrow> occurrence list \<Rightarrow> command option" where
  "command_of R words xs =
     (let node = node_args_of R xs; runtime = runtime_args_of R xs; txt = (\<lambda>k. text_or xs k []) in
      map_of [
        ([''wallet'', ''new''], WalletNew (txt ''--out'') (text_of xs ''--passphrase'')),
        ([''init''], Init runtime (txt ''--genesis-wallet'') (int_or R xs ''--amount'' 100)),
        ([''balance''], Balance node (txt ''--wallet'')),
        ([''send''], Send node (txt ''--from-wallet'') (text_of xs ''--to-wallet'') (text_of xs ''--to-address'')
           (int_or R xs ''--amount'' 0) (int_or R xs ''--fee'' 1)),
        ([''mine''], Mine node (txt ''--miner-wallet'')),
        ([''chain''], ShowChain node (text_of xs ''--wallet'')),
        ([''utxos''], Utxos node (text_of xs ''--wallet'') (text_of xs ''--address'')),
        ([''mempool''], Mempool node (''--prune'' \<in> set (map fst xs)) (''--clear'' \<in> set (map fst xs))),
        ([''block''], ShowBlock node (text_of xs ''--hash'') (int_of R xs ''--height'')),
        ([''tx''], ShowTx node (txt ''--txid'')),
        ([''serve''], Serve runtime)] words)"

definition parse_args :: "py_runtime \<Rightarrow> string list \<Rightarrow> occurrence list \<Rightarrow> command result" where
  "parse_args R words xs =
     (case (build_parser words, command_of R words xs) of
        (Some sp, Some c) \<Rightarrow> if occurrences_ok R sp xs then Inr c else usage_error
      | _ \<Rightarrow> usage_error)"

text \<open>The console script: parse, then dispatch.\<close>

definition main_args :: "cli_env \<Rightarrow> bool \<Rightarrow> string list \<Rightarrow> occurrence list \<Rightarrow> (cli_world, unit) op" where
  "main_args E json words xs w =
     (case parse_args (ce_python E) words xs of Inl e \<Rightarrow> (Inl e, w) | Inr c \<Rightarrow> main E json c w)"

end
