(* ===== verification/Cli_Args_Laws.thy ===== *)
theory Cli_Args_Laws
  imports Cli_Args
begin

text \<open>
  What the argument parser guarantees to the handlers, and that every command the handlers can be given has a
  command line.
\<close>

section \<open>Numbers\<close>

text \<open>What the character tables say of the decimal digits and the sign.\<close>

definition digits_ok :: "py_runtime \<Rightarrow> bool" where
  "digits_ok R \<longleftrightarrow> (\<forall>c. 48 \<le> c \<and> c \<le> 57 \<longrightarrow> char_decimal R c = Some (c - 48) \<and> \<not> char_space R c) \<and> \<not> char_space R 45"

lemma strip_id: "s \<noteq> [] \<Longrightarrow> \<not> char_space R (hd s) \<Longrightarrow> \<not> char_space R (last s) \<Longrightarrow> strip R s = s"
  unfolding strip_def by (metis dropWhile_eq_self_iff hd_rev rev_is_Nil_conv rev_rev_ident)

lemma int_digits_plain:
  assumes "digits_ok R" and "list_all is_digit cs" and "cs \<noteq> []"
  shows "int_digits R cs = Some (map (\<lambda>c. c - 48) cs)"
  using assms(2,3)
proof (induction cs rule: induct_list012)
  case (3 c c' cs)
  then show ?case using assms(1) by (auto simp: digits_ok_def is_digit_def)
qed (use assms(1) in \<open>auto simp: digits_ok_def is_digit_def\<close>)

lemma digits_value_repr: "digits_value (map (\<lambda>c. c - 48) (nat_repr n)) = int n"
  using nat_repr_value [of n] by (simp add: digits_value_def foldl_map)

lemma int_of_text_repr:
  assumes "digits_ok R" and "length (nat_repr (nat \<bar>i\<bar>)) \<le> INT_MAX_STR_DIGITS"
  shows "int_of_text R (int_repr i) = Inr i"
proof -
  let ?ds = "nat_repr (nat \<bar>i\<bar>)"
  have ds: "list_all is_digit ?ds" "?ds \<noteq> []" using nat_repr_digits by auto
  have repr: "int_repr i = (if i < 0 then 45 # ?ds else ?ds)" by (auto simp: int_repr_def)
  have d: "is_digit (hd ?ds)" "is_digit (last ?ds)" using ds by (auto simp: list_all_iff)
  have "strip R (int_repr i) = int_repr i"
    using assms(1) d ds(2) by (intro strip_id) (auto simp: repr digits_ok_def is_digit_def)
  moreover have "hd ?ds \<noteq> 45" "hd ?ds \<noteq> 43" using d(1) by (auto simp: is_digit_def)
  ultimately show ?thesis
    using int_digits_plain [OF assms(1) ds] assms(2) ds(2) digits_value_repr [of "nat \<bar>i\<bar>"]
    by (auto simp: int_of_text_def repr Let_def)
qed

section \<open>What the handlers may rely on\<close>

definition command_ok :: "command \<Rightarrow> bool" where
  "command_ok c \<longleftrightarrow>
     (case c of Mempool a prune clear \<Rightarrow> \<not> (prune \<and> clear)
      | ShowBlock a hash_arg height_arg \<Rightarrow> (hash_arg = None) \<noteq> (height_arg = None)
      | _ \<Rightarrow> True)"

lemma text_of_None: "k \<notin> set (map fst xs) \<Longrightarrow> text_of xs k = None"
  by (auto simp: text_of_def map_of_eq_None_iff [THEN iffD2])

lemma last_occurrence:
  assumes "k \<in> set (map fst xs)"
  obtains v where "map_of (rev xs) k = Some v" "(k, v) \<in> set xs"
proof -
  have "map_of (rev xs) k \<noteq> None" using assms by (simp add: map_of_eq_None_iff)
  then obtain v where "map_of (rev xs) k = Some v" by blast
  with that map_of_SomeD [OF this] show ?thesis by simp
qed

lemma option_present:
  assumes "occurrences_ok R sp xs" and "k \<in> set (map fst xs)" and "map_of (sp_options sp) k = Some kind"
  shows "kind = TextOpt \<Longrightarrow> text_of xs k \<noteq> None" and "kind = IntOpt \<Longrightarrow> int_of R xs k \<noteq> None"
proof -
  obtain v where v: "map_of (rev xs) k = Some v" "(k, v) \<in> set xs" using assms(2) by (rule last_occurrence)
  then have "check_occurrence R sp (k, v)" using assms(1) by (auto simp: occurrences_ok_def list_all_iff)
  with assms(3) v(1) show "kind = TextOpt \<Longrightarrow> text_of xs k \<noteq> None" "kind = IntOpt \<Longrightarrow> int_of R xs k \<noteq> None"
    by (auto simp: check_occurrence_def text_of_def int_of_def split: option.splits sum.splits)
qed

lemma at_most_one: "length (filter (\<lambda>k. k \<in> S) [p, q]) \<le> 1 \<Longrightarrow> \<not> (p \<in> S \<and> q \<in> S)"
  by auto

lemma at_least_one: "filter (\<lambda>k. k \<in> S) [p, q] \<noteq> [] \<Longrightarrow> p \<in> S \<or> q \<in> S"
  by (auto split: if_splits)

lemma parsed_command_ok:
  assumes "parse_args R words xs = Inr c"
  shows "command_ok c"
proof -
  obtain sp where sp: "build_parser words = Some sp" "command_of R words xs = Some c" "occurrences_ok R sp xs"
    using assms by (auto simp: parse_args_def usage_error_def split: option.splits if_splits)
  consider "words = [''mempool'']" | "words = [''block'']" | "words \<noteq> [''mempool'']" "words \<noteq> [''block'']" by blast
  then show ?thesis
  proof cases
    case 1
    with sp have c: "c = Mempool (node_args_of R xs) (''--prune'' \<in> set (map fst xs)) (''--clear'' \<in> set (map fst xs))"
      and excl: "sp_exclusive sp = [''--prune'', ''--clear'']" by (auto simp: command_of_def build_parser_def Let_def)
    have "\<not> (''--prune'' \<in> set (map fst xs) \<and> ''--clear'' \<in> set (map fst xs))"
      using at_most_one [of "set (map fst xs)"] sp(3) excl unfolding occurrences_ok_def chosen_def by metis
    then show ?thesis by (simp add: c command_ok_def)
  next
    case 2
    with sp have c: "c = ShowBlock (node_args_of R xs) (text_of xs ''--hash'') (int_of R xs ''--height'')"
      and opts: "sp_exclusive sp = [''--hash'', ''--height'']" "sp_one_of sp"
        "map_of (sp_options sp) ''--hash'' = Some TextOpt" "map_of (sp_options sp) ''--height'' = Some IntOpt"
      by (auto simp: command_of_def build_parser_def Let_def add_node_args_def)
    have "(''--hash'' \<in> set (map fst xs)) \<noteq> (''--height'' \<in> set (map fst xs))"
      using at_most_one [of "set (map fst xs)"] at_least_one [of "set (map fst xs)"] sp(3) opts(1,2)
      unfolding occurrences_ok_def chosen_def by metis
    moreover have "int_of R xs ''--height'' = None" if "''--height'' \<notin> set (map fst xs)"
      using text_of_None [OF that] by (simp add: int_of_def)
    ultimately have "(text_of xs ''--hash'' = None) \<noteq> (int_of R xs ''--height'' = None)"
      using option_present(1) [OF sp(3) _ opts(3)] option_present(2) [OF sp(3) _ opts(4)] text_of_None [of "''--hash''" xs]
      by metis
    then show ?thesis by (simp add: c command_ok_def)
  next
    case 3
    with sp(2) show ?thesis by (auto simp: command_of_def Let_def command_ok_def split: if_splits)
  qed
qed

section \<open>Every command has a command line\<close>

definition node_options :: "('a :: type) node_args_scheme \<Rightarrow> occurrence list" where
  "node_options a = [(''--db'', Some (na_db a)), (''--difficulty'', Some (int_repr (na_difficulty a))),
     (''--reward'', Some (int_repr (na_reward a)))]"

definition runtime_options :: "runtime_args \<Rightarrow> occurrence list" where
  "runtime_options a = node_options a @ [(''--network'', Some (ra_network a)), (''--node-id'', Some (ra_node_id a)),
     (''--host'', Some (ra_host a)), (''--port'', Some (int_repr (ra_port a))), (''--peer-auth-key'', Some (ra_peer_auth_key a))]"

definition optional :: "string \<Rightarrow> pystr option \<Rightarrow> occurrence list" where
  "optional k v = (case v of None \<Rightarrow> [] | Some x \<Rightarrow> [(k, Some x)])"

primrec command_line :: "command \<Rightarrow> string list \<times> occurrence list" where
  "command_line (WalletNew out passphrase) = ([''wallet'', ''new''], (''--out'', Some out) # optional ''--passphrase'' passphrase)"
| "command_line (Init a wallet amount) =
     ([''init''], runtime_options a @ [(''--genesis-wallet'', Some wallet), (''--amount'', Some (int_repr amount))])"
| "command_line (Balance a wallet) = ([''balance''], node_options a @ [(''--wallet'', Some wallet)])"
| "command_line (Send a from_wallet to_wallet to_address amount fee) =
     ([''send''], node_options a @ (''--from-wallet'', Some from_wallet) # optional ''--to-wallet'' to_wallet @
        optional ''--to-address'' to_address @ [(''--amount'', Some (int_repr amount)), (''--fee'', Some (int_repr fee))])"
| "command_line (Mine a wallet) = ([''mine''], node_options a @ [(''--miner-wallet'', Some wallet)])"
| "command_line (ShowChain a wallet) = ([''chain''], node_options a @ optional ''--wallet'' wallet)"
| "command_line (Utxos a wallet address) = ([''utxos''], node_options a @ optional ''--wallet'' wallet @ optional ''--address'' address)"
| "command_line (Mempool a prune clear) =
     ([''mempool''], node_options a @ (if prune then [(''--prune'', None)] else []) @ (if clear then [(''--clear'', None)] else []))"
| "command_line (ShowBlock a hash_arg height_arg) =
     ([''block''], node_options a @ optional ''--hash'' hash_arg @ optional ''--height'' (map_option int_repr height_arg))"
| "command_line (ShowTx a t) = ([''tx''], node_options a @ [(''--txid'', Some t)])"
| "command_line (Serve a) = ([''serve''], runtime_options a)"

text \<open>A number that \<^verbatim>\<open>int\<close> reads has at most 4300 digits.\<close>

definition short_int :: "int \<Rightarrow> bool" where
  "short_int i \<longleftrightarrow> length (nat_repr (nat \<bar>i\<bar>)) \<le> INT_MAX_STR_DIGITS"

definition node_ints :: "('a :: type) node_args_scheme \<Rightarrow> int list" where
  "node_ints a = [na_difficulty a, na_reward a]"

primrec command_ints :: "command \<Rightarrow> int list" where
  "command_ints (WalletNew out passphrase) = []"
| "command_ints (Init a wallet amount) = node_ints a @ [ra_port a, amount]"
| "command_ints (Balance a wallet) = node_ints a"
| "command_ints (Send a from_wallet to_wallet to_address amount fee) = node_ints a @ [amount, fee]"
| "command_ints (Mine a wallet) = node_ints a"
| "command_ints (ShowChain a wallet) = node_ints a"
| "command_ints (Utxos a wallet address) = node_ints a"
| "command_ints (Mempool a prune clear) = node_ints a"
| "command_ints (ShowBlock a hash_arg height_arg) = node_ints a @ (case height_arg of None \<Rightarrow> [] | Some i \<Rightarrow> [i])"
| "command_ints (ShowTx a t) = node_ints a"
| "command_ints (Serve a) = node_ints a @ [ra_port a]"

lemmas parsing = parse_args_def build_parser_def command_of_def plain_parser_def add_node_args_def add_runtime_args_def
  occurrences_ok_def check_occurrence_def chosen_def text_of_def text_or_def int_of_def int_or_def node_args_of_def
  runtime_args_of_def default_node_args_def default_runtime_args_def node_options_def runtime_options_def optional_def Let_def

text \<open>Parsing the command line of a command gives the command back.\<close>

lemma parse_command_line:
  assumes "digits_ok R" and "command_ok c" and "list_all short_int (command_ints c)"
  shows "parse_args R (fst (command_line c)) (snd (command_line c)) = Inr c"
proof -
  have i: "int_of_text R (int_repr i) = Inr i" if "i \<in> set (command_ints c)" for i
    using int_of_text_repr [OF assms(1)] assms(3) that by (simp add: short_int_def list_all_iff)
  show ?thesis
    using i assms(2)
    by (cases c) (auto simp: parsing node_ints_def command_ok_def split: option.splits)
qed

end
