(* ===== verification/Cli_Properties.thy ===== *)
theory Cli_Properties
  imports Cli_Args_Laws Encodable_Blocks Runtime_Properties Wallet_Properties
begin

text \<open>
  What the commands of \<^verbatim>\<open>cli.py\<close> guarantee: whatever is run, every node a later command opens is valid;
  the balance printed is the one of the replayed chain; and two behaviours that differ from what the
  commands say.
\<close>

section \<open>Databases stay well formed\<close>

definition files_ok :: "crypto \<Rightarrow> node_files \<Rightarrow> bool" where
  "files_ok C x \<longleftrightarrow> store_ok C (nf_store x)"

definition dbs_ok :: "crypto \<Rightarrow> cli_world \<Rightarrow> bool" where
  "dbs_ok C w \<longleftrightarrow> (\<forall>db. files_ok C (cw_dbs w db))"

lemma files_ok_blocks: "fs_blocks (nf_store x') = fs_blocks (nf_store x) \<Longrightarrow> files_ok C x \<Longrightarrow> files_ok C x'"
  by (auto simp: files_ok_def intro: store_ok_blocks)

lemma files_ok_index [simp]:
  "files_ok C (x\<lparr>nf_utxo_index := i\<rparr>) = files_ok C x" "files_ok C (x\<lparr>nf_mempool_store := m\<rparr>) = files_ok C x"
  by (simp_all add: files_ok_def)

abbreviation db_blocks :: "node_files \<Rightarrow> (pystr \<times> fork_row) list" where
  "db_blocks x \<equiv> fs_blocks (nf_store x)"

lemma require_preserves: "preserves db_blocks (on_store (require_chain_parameters C p))"
  using require_parameters_blocks by (auto simp: preserves_def on_store_def split: prod.split)

lemma open_state_preserves: "preserves db_blocks (open_state C fc active)"
proof (cases "ac_tip active")
  case None
  then show ?thesis by (simp add: open_state_def preserves_basic)
next
  case (Some tip)
  have save: "preserves db_blocks (\<lambda>x. case save_snapshot h (cs_utxos (ac_state active)) (nf_utxo_index x) of
      (r, i') \<Rightarrow> (rbind r (\<lambda>_. Inr (ac_state active)), x\<lparr>nf_utxo_index := i'\<rparr>))" for h
    by (simp add: preserves_def split: prod.split)
  show ?thesis
    unfolding open_state_def Some option.case
    by (intro preserving) (auto intro: save preserves_basic split: option.split)
qed

lemma open_files_preserves: "preserves db_blocks open_files"
proof -
  have "preserves db_blocks (on_store (sql_transaction open_fork_store))"
    by (auto simp: preserves_def on_store_def sql_transaction_def fork_database.open_Inr split: prod.split sum.split)
  then show ?thesis
    unfolding open_files_def by (intro preserves_obind) (simp_all add: preserves_def split: prod.split)
qed

lemma open_node_blocks:
  assumes "open_node C d s m x = (r, x')"
  shows "db_blocks x' = db_blocks x"
proof -
  have "preserves db_blocks (open_checks C d fc)" for fc
    unfolding open_checks_def by (intro preserving require_preserves open_state_preserves)
  then have "preserves db_blocks (\<lambda>x. case open_checks C d fc x of
      (Inl e, x') \<Rightarrow> (if e = Diverges then Inl Diverges else node_error ''stored consensus chain failed validation'', x')
    | (Inr st, x') \<Rightarrow> (new_node C x' st d fc, x'))" for fc
    by (auto simp: preserves_def split: prod.split sum.split) (metis snd_conv)+
  then have "preserves db_blocks (open_node C d s m)"
    unfolding open_node_def Let_def by (intro preserves_obind open_files_preserves)
  then show ?thesis using assms by (auto simp: preserves_def dest: spec [of _ x])
qed

lemma close_node_ok: "node_ok C n \<Longrightarrow> files_ok C (close_node x n)"
  by (simp add: files_ok_def close_node_def node_ok_def branches_ok_def)

lemma put_db_ok: "dbs_ok C w \<Longrightarrow> files_ok C x \<Longrightarrow> dbs_ok C (put_db db x w)"
  by (simp add: dbs_ok_def put_db_def)

lemma print_result_dbs: "cw_dbs (snd (print_result json r w)) = cw_dbs w" "cw_files (snd (print_result json r w)) = cw_files w"
  by (auto simp: print_result_def emit_def omodify_def oeval_def split: sum.split)

lemma with_node_keeps:
  assumes "dbs_ok (ce_crypto E) w"
    and "\<And>n x. open_node (ce_crypto E) (na_difficulty a) (na_reward a) MAX_MONEY (cw_dbs w (na_db a)) = (Inr n, x) \<Longrightarrow>
      node_ok (ce_crypto E) n \<Longrightarrow> node_ok (ce_crypto E) (snd (work (cw_files w) n))"
  shows "dbs_ok (ce_crypto E) (snd (with_node E json a work w))"
proof -
  obtain r x where run: "open_node (ce_crypto E) (na_difficulty a) (na_reward a) MAX_MONEY (cw_dbs w (na_db a)) = (r, x)"
    by (meson surj_pair)
  have old: "files_ok (ce_crypto E) (cw_dbs w (na_db a))" using assms(1) by (simp add: dbs_ok_def)
  show ?thesis
  proof (cases r)
    case (Inl e)
    with run assms(1) files_ok_blocks [OF open_node_blocks [OF run] old] show ?thesis
      by (simp add: with_node_def put_db_ok)
  next
    case (Inr n)
    have "node_ok (ce_crypto E) n" using open_node_ok(1) run Inr old by (simp add: files_ok_def)
    then have "node_ok (ce_crypto E) (snd (work (cw_files w) n))" using assms(2) run Inr by simp
    moreover have "dbs_ok (ce_crypto E) (snd (print_result json (fst (work (cw_files w) n)) w))"
      using assms(1) by (simp add: dbs_ok_def print_result_dbs)
    ultimately show ?thesis
      using run Inr by (simp add: with_node_def Let_def case_prod_unfold put_db_ok close_node_ok)
  qed
qed

lemma with_node_other: "db \<noteq> na_db a \<Longrightarrow> cw_dbs (snd (with_node E json a work w)) db = cw_dbs w db"
  by (auto simp: with_node_def put_db_def Let_def case_prod_unfold print_result_dbs split: prod.split sum.split)

text \<open>The contract of a command that works on an opened node: it keeps a valid node valid.\<close>

locale node_command =
  fixes C :: crypto and work :: "files \<Rightarrow> node_work"
  assumes work_keeps: "keeps (node_ok C) (work fs)"
begin

lemma command_keeps: "ce_crypto E = C \<Longrightarrow> dbs_ok C w \<Longrightarrow> dbs_ok C (snd (with_node E json a work w))"
  using with_node_keeps [of E w a work json] work_keeps by (auto simp: keeps_def)

end

lemma keeps_view: "preserves chain_view m \<Longrightarrow> keeps (node_ok C) m"
  unfolding keeps_def preserves_def using node_ok_view by metis

interpretation chain_command: node_command "ce_crypto E" "chain_work E wallet" for E wallet
  by unfold_locales (simp add: chain_work_def keeps_basic)

interpretation balance_command: node_command "ce_crypto E" "balance_work E wallet" for E wallet
  by unfold_locales (simp add: balance_work_def keeps_basic)

interpretation utxos_command: node_command C "utxos_work address" for C address
  by unfold_locales (simp add: utxos_work_def keeps_basic)

interpretation block_command: node_command "ce_crypto E" "block_work_cmd E hash_arg height_arg" for E hash_arg height_arg
  by unfold_locales (simp add: block_work_cmd_def keeps_basic)

interpretation tx_command: node_command "ce_crypto E" "tx_work E t" for E t
  by unfold_locales (simp add: tx_work_def keeps_basic)

interpretation send_command: node_command "ce_crypto E" "send_work E sender recipient amount fee" for E sender recipient amount fee
  unfolding send_work_def by unfold_locales (intro keeps_view preserving)

interpretation mempool_command: node_command "ce_crypto E" "mempool_work E prune clear" for E prune clear
proof unfold_locales
  fix fs
  have "preserves chain_view (clear_mempool C)" "preserves chain_view (prune_mempool C)" for C
    unfolding clear_mempool_def prune_mempool_def by (intro preserving; simp add: chain_view_def)+
  then show "keeps (node_ok (ce_crypto E)) (mempool_work E prune clear fs)"
    unfolding mempool_work_def by (intro keeps_if keeps_view preserving)
qed

section \<open>Commands that run a whole process\<close>

lemma keeps_value:
  "(\<And>x. g = Inr x \<Longrightarrow> keeps P (f x)) \<Longrightarrow> keeps P (obind (oeval (\<lambda>_. g)) f)"
  by (cases g) (simp_all add: keeps_def obind_def)

lemma keeps_blocks: "preserves db_blocks m \<Longrightarrow> keeps (files_ok C) m"
  unfolding keeps_def preserves_def using files_ok_blocks by metis

lemma put_block_keeps:
  assumes "\<And>p. encode_consensus_block g = Inr p \<Longrightarrow> block_ok g"
  shows "keeps (files_ok C) (on_store (put_block C g))"
  unfolding keeps_def
proof (intro allI impI)
  fix x assume x: "files_ok C x"
  obtain r s where run: "put_block C g (nf_store x) = (r, s)" by (meson surj_pair)
  have "store_ok C s"
  proof (cases "s = nf_store x")
    case False
    then obtain sb where "r = Inr sb" using run put_block_fail [of C g "nf_store x"] by (cases r) auto
    with run False assms put_block_encodes [of C g "nf_store x" sb s] have "block_ok g" by auto
    with run \<open>r = Inr sb\<close> x show ?thesis using put_block_ok(1) by (auto simp: files_ok_def)
  qed (use x in \<open>simp add: files_ok_def\<close>)
  with run show "files_ok C (snd (on_store (put_block C g) x))" by (simp add: on_store_def files_ok_def)
qed

lemma create_files_keeps:
  assumes "digest_ok C"
  shows "keeps (files_ok C) (create_files C allocations d sub m now)"
proof -
  have save: "preserves db_blocks (on_store (save_chain_parameters C p))" for p
    by (auto simp: preserves_def on_store_def save_chain_parameters_def sql_transaction_def split: prod.split sum.split)
  have pool: "preserves db_blocks (\<lambda>x. case ms_replace_all C [] (nf_mempool_store x) of (r, ms') \<Rightarrow> (r, x\<lparr>nf_mempool_store := ms'\<rparr>))"
    by (simp add: preserves_def split: prod.split)
  have index: "preserves db_blocks (\<lambda>x. case save_snapshot h u (nf_utxo_index x) of (r, i') \<Rightarrow> (r, x\<lparr>nf_utxo_index := i'\<rparr>))" for h u
    by (simp add: preserves_def split: prod.split)
  show ?thesis
    unfolding create_files_def
    by (intro keeps_obind keeps_value keeps_basic keeps_blocks [OF save] keeps_blocks [OF pool] keeps_blocks [OF index]
        put_block_keeps genesis_block_ok [OF assms]; assumption)
qed

lemma create_runtime_keeps:
  assumes "digest_ok C"
  shows "keeps (files_ok C) (create_runtime C c bind allocations clock)"
proof -
  have "keeps (files_ok C) (create_node C allocations (rc_difficulty c) sub m clock)" for sub m
    unfolding create_node_def Let_def
    by (intro keeps_obind keeps_basic keeps_blocks [OF open_files_preserves] create_files_keeps assms)
  then show "keeps (files_ok C) (create_runtime C c bind allocations clock)"
    unfolding create_runtime_def by (intro keeping)
qed

lemma open_runtime_keeps: "keeps (files_ok C) (open_runtime C c bind)"
proof -
  have "keeps (files_ok C) (open_node C d sub m)" for d sub m
    using open_node_blocks files_ok_blocks unfolding keeps_def by (metis prod.collapse)
  then show "keeps (files_ok C) (open_runtime C c bind)"
    unfolding open_runtime_def by (intro keeping)
qed

lemma stop_node: "runtime_node (snd (runtime_stop n)) = runtime_node n"
  using life_cycle_preserves(2) by (simp add: preserves_def runtime_service_def runtime_node_def)

text \<open>What stopping a started runtime leaves: a thread that has ended, a closed socket and closed databases.\<close>

lemma start_running: "runtime_start n = (Inr (), n') \<Longrightarrow> nr_running n' \<and> ta_thread (nr_server n') \<noteq> None"
  by (auto simp: runtime_start_def obind_def on_server_def adapter_start_def split: if_splits prod.splits sum.splits)

lemma stop_effect:
  assumes "runtime_stop n = (r, n')" and "nr_running n" and "ta_thread (nr_server n) \<noteq> None"
  shows "\<not> nr_running n' \<and> ta_thread (nr_server n') = Some False \<and> ta_closed (nr_server n') \<and> \<not> nr_node_open n'"
  using assms by (auto simp: runtime_stop_def obind_def on_server_def adapter_stop_def)

lemma with_runtime_keeps:
  assumes "dbs_ok C w" and "keeps (files_ok C) start" and "\<And>n. runtime_node (snd (work n)) = runtime_node n"
    and "\<And>n x. start (cw_dbs w db) = (Inr n, x) \<Longrightarrow> node_ok C (runtime_node n)"
  shows "dbs_ok C (snd (with_runtime json db start work w))"
proof -
  obtain r x where run: "start (cw_dbs w db) = (r, x)" by (meson surj_pair)
  have x: "files_ok C x" using assms(1) keepsD [OF assms(2) _ run] by (simp add: dbs_ok_def)
  show ?thesis
  proof (cases r)
    case (Inl e)
    with run x assms(1) show ?thesis by (simp add: with_runtime_def put_db_ok)
  next
    case (Inr n)
    have "dbs_ok C (snd (print_result json (fst (work n)) w))"
      using assms(1) by (simp add: dbs_ok_def print_result_dbs)
    moreover have "node_ok C (runtime_node (snd (runtime_stop (snd (work n)))))"
      using assms(3,4) run Inr by (simp add: stop_node)
    ultimately have "dbs_ok C (put_db db (close_node x (runtime_node (snd (runtime_stop (snd (work n))))))
        (snd (print_result json (fst (work n)) w)))" by (intro put_db_ok close_node_ok)
    then show ?thesis
      using run Inr by (simp add: with_runtime_def Let_def case_prod_unfold dbs_ok_def)
  qed
qed

lemma runtime_work_node: "runtime_node (snd (init_work E a n)) = runtime_node n" "runtime_node (snd (serve_work E n)) = runtime_node n"
proof -
  show "runtime_node (snd (init_work E a n)) = runtime_node n" by (simp add: init_work_def)
  have "preserves runtime_service (serve_work E)"
    unfolding serve_work_def by (intro preserves_obind life_cycle_preserves(1) preserves_basic)
  then show "runtime_node (snd (serve_work E n)) = runtime_node n"
    by (simp add: preserves_def runtime_service_def runtime_node_def)
qed

section \<open>Sessions of commands\<close>

lemma opened_mines_encodable:
  assumes "digest_ok C" and "node_ok C n" and "open_node C d sub m x = (Inr n, x')"
  shows "mines_encodable C address now n"
proof -
  have "pool_ok n" using assms(3) by (rule open_node_Inr) (rule new_node_pool)
  with assms(1,2) show ?thesis by (intro process_mines) (simp add: process_ok_def)
qed

lemma mine_work_keeps:
  assumes "node_ok (ce_crypto E) n"
    and "\<And>address. wallet_address (ce_crypto E) wallet = Inr address \<Longrightarrow> mines_encodable (ce_crypto E) address (ce_clock E) n"
  shows "node_ok (ce_crypto E) (snd (mine_work E wallet fs n))"
proof (cases "wallet_address (ce_crypto E) wallet")
  case (Inl e)
  with assms(1) show ?thesis by (simp add: mine_work_def obind_def)
next
  case (Inr address)
  obtain r n' where run: "mine_block (ce_crypto E) (ce_exn_text E) address (ce_clock E) n = (r, n')" by (meson surj_pair)
  then have "node_ok (ce_crypto E) n'"
    using assms(2) [OF Inr] import_node_ok [OF assms(1)] assms(1)
    by (auto simp: mine_block_def obind_def mines_encodable_def split: sum.splits)
  with run Inr show ?thesis by (auto simp: mine_work_def obind_def split: sum.splits)
qed

lemma runtime_for_node: "runtime_for c bind node = Inr n \<Longrightarrow> runtime_node n = node"
  using runtime_for_service(1) [of c bind node n] by (simp add: runtime_node_def runtime_service_def)

lemma init_keeps:
  assumes "digest_ok (ce_crypto E)" and "dbs_ok (ce_crypto E) w"
  shows "dbs_ok (ce_crypto E) (snd (cmd_init E json a wallet amount w))"
proof -
  have db: "store_ok (ce_crypto E) (nf_store (cw_dbs w (na_db a)))" using assms(2) by (simp add: dbs_ok_def files_ok_def)
  have "dbs_ok (ce_crypto E) (snd (with_runtime json (na_db a)
      (create_runtime (ce_crypto E) c (ce_bind E) [(address, amount)] (ce_clock E)) (init_work E a) w))" for c address
    using create_runtime_ok(2) [OF assms(1) db] runtime_for_node
    by (intro with_runtime_keeps [OF assms(2) create_runtime_keeps [OF assms(1)] runtime_work_node(1)]) blast+
  then show ?thesis
    using assms(2) by (simp add: cmd_init_def obind_def split: sum.split)
qed

lemma serve_keeps:
  assumes "dbs_ok (ce_crypto E) w"
  shows "dbs_ok (ce_crypto E) (snd (cmd_serve E json a w))"
proof -
  have db: "store_ok (ce_crypto E) (nf_store (cw_dbs w (na_db a)))" using assms by (simp add: dbs_ok_def files_ok_def)
  have "dbs_ok (ce_crypto E) (snd (with_runtime json (na_db a) (open_runtime (ce_crypto E) c (ce_bind E)) (serve_work E) w))" for c
    using open_runtime_ok(2) [OF db] runtime_for_node
    by (intro with_runtime_keeps [OF assms open_runtime_keeps runtime_work_node(2)]) blast+
  then show ?thesis using assms by (simp add: cmd_serve_def obind_def split: sum.split)
qed

lemma wallet_new_dbs: "cw_dbs (snd (cmd_wallet_new E json out passphrase w)) = cw_dbs w"
proof -
  have "preserves cw_dbs (cmd_wallet_new E json out passphrase)"
    unfolding cmd_wallet_new_def emit_def
    by (intro preserves_obind preserves_basic preserves_omodify) (simp_all add: preserves_def split: prod.split)
  then show ?thesis by (simp add: preserves_def)
qed

lemma main_keeps:
  assumes "digest_ok (ce_crypto E)" and "dbs_ok (ce_crypto E) w" and "main E json c w = (r, w')"
  shows "dbs_ok (ce_crypto E) w'"
proof -
  have w': "w' = snd (run_command E json c w)" using assms(3) by (auto simp: main_def split: prod.splits)
  show ?thesis
  proof (cases c)
    case (WalletNew out passphrase)
    then show ?thesis using assms(2) w' by (simp add: dbs_ok_def wallet_new_dbs)
  next
    case (Init a wallet amount)
    then show ?thesis using init_keeps assms(1,2) w' by simp
  next
    case (Mine a wallet)
    have "dbs_ok (ce_crypto E) (snd (with_node E json a (mine_work E wl) w))" if "load_wallet E (cw_files w) wallet = Inr wl" for wl
      by (intro with_node_keeps [OF assms(2)] mine_work_keeps opened_mines_encodable [OF assms(1)])
    then show ?thesis using assms(2) w' by (simp add: Mine cmd_mine_def obind_def split: sum.split)
  next
    case (Serve a)
    then show ?thesis using serve_keeps assms(2) w' by simp
  qed (use assms(2) w' in \<open>simp_all add: cmd_balance_def cmd_send_def cmd_chain_def cmd_utxos_def cmd_mempool_def
      cmd_block_def cmd_tx_def obind_def chain_command.command_keeps balance_command.command_keeps utxos_command.command_keeps
      block_command.command_keeps tx_command.command_keeps send_command.command_keeps mempool_command.command_keeps
      split: sum.split\<close>)
qed

lemma main_args_keeps:
  assumes "digest_ok (ce_crypto E)" and "dbs_ok (ce_crypto E) w" and "main_args E json words xs w = (r, w')"
  shows "dbs_ok (ce_crypto E) w'"
  using assms main_keeps [OF assms(1,2)] by (auto simp: main_args_def split: sum.splits)

text \<open>Any sequence of command lines, each with its own random draws, clock and sockets.\<close>

inductive cli_reach :: "crypto \<Rightarrow> cli_world \<Rightarrow> cli_world \<Rightarrow> bool" for C where
  begins: "cli_reach C w w"
| runs: "cli_reach C w w1 \<Longrightarrow> ce_crypto E = C \<Longrightarrow> main_args E json words xs w1 = (r, w2) \<Longrightarrow> cli_reach C w w2"

lemma cli_reach_keeps: "cli_reach C w w' \<Longrightarrow> digest_ok C \<Longrightarrow> dbs_ok C w \<Longrightarrow> dbs_ok C w'"
  by (induction rule: cli_reach.induct) (auto dest: main_args_keeps)

text \<open>The spendable outputs of two states with the same coins are listed in the same order.\<close>

lemma utxo_entries_cong:
  assumes "dict_ok u" and "dict_ok u'" and "map_of u = map_of u'"
  shows "utxo_entries u = utxo_entries u'"
proof -
  have set: "set u = set u'" using map_of_inject_set [of u u'] assms by simp
  have dist: "distinct u" "distinct u'" using assms(1,2) by (auto simp: distinct_map)
  then have "mset u = mset u'" using set set_eq_iff_mset_eq_distinct by blast
  moreover have "inj_on (\<lambda>p :: outpoint \<times> tx_output. (op_txid (fst p), op_index (fst p))) (set u)"
    using assms(1) outpoint.expand by (fastforce simp: inj_on_def dest: eq_key_imp_eq_value)
  ultimately have "sort_key (\<lambda>p. (op_txid (fst p), op_index (fst p))) u = sort_key (\<lambda>p. (op_txid (fst p), op_index (fst p))) u'"
    by (intro sort_key_inj_key_eq) auto
  then show ?thesis by (simp add: utxo_entries_def)
qed

lemma balance_run:
  assumes "main E False (Balance a wallet) w = (Inr (), w')"
  obtains n x p where "open_node (ce_crypto E) (na_difficulty a) (na_reward a) MAX_MONEY (cw_dbs w (na_db a)) = (Inr n, x)"
    and "balance_work E wallet (cw_files w) n = (Inr p, n)"
    and "w' = put_db (na_db a) (close_node x n) (w\<lparr>cw_out := cw_out w @ [snd p]\<rparr>)"
proof -
  obtain r x where run: "open_node (ce_crypto E) (na_difficulty a) (na_reward a) MAX_MONEY (cw_dbs w (na_db a)) = (r, x)"
    by (meson surj_pair)
  with assms obtain n where n: "r = Inr n"
    by (cases r) (auto simp: main_def exiting_def cmd_balance_def with_node_def split: prod.splits)
  obtain q n' where work: "balance_work E wallet (cw_files w) n = (q, n')" by (meson surj_pair)
  then have "n' = n" by (simp add: balance_work_def oeval_def)
  with assms run n work that show ?thesis
    by (cases q) (auto simp: main_def exiting_def cmd_balance_def with_node_def print_result_def emit_def omodify_def oeval_def
        split: prod.splits)
qed

section \<open>Properties\<close>

text \<open>
  C10: whatever sequence of command lines is run, well formed or not, successful or not, every node that is opened afterwards on
  any database is valid: all its stored branches pass the consensus rules and its state is the replay
  of the best one. It needs of the hash only that a digest has 32 bytes.
\<close>

theorem commands_keep_nodes_valid:
  assumes "digest_ok C" and "cli_reach C w w'" and "\<forall>db. store_ok C (nf_store (cw_dbs w db))"
    and "open_node C difficulty reward max_money (cw_dbs w' db) = (Inr n, x)"
  shows "node_ok C n"
proof -
  have "dbs_ok C w'" using cli_reach_keeps assms(1-3) by (simp add: dbs_ok_def files_ok_def)
  then show ?thesis using open_node_ok(1) [OF _ assms(4)] by (simp add: dbs_ok_def files_ok_def)
qed

definition sample_env :: cli_env where
  "sample_env = \<lparr>ce_crypto = toy, ce_cipher = toy_cipher, ce_python = sample_runtime, ce_exn_text = (\<lambda>_. []),
     ce_secret = replicate 32 3, ce_draws = sample_draws, ce_clock = 0, ce_bind = Inr (), ce_address = (ascii ''h'', 8333)\<rparr>"

definition sample_world :: cli_world where
  "sample_world = \<lparr>cw_files = alice_files, cw_dbs = (\<lambda>_. empty_files), cw_out = [], cw_process = None\<rparr>"

definition sample_args :: node_args where
  "sample_args = default_node_args (ascii ''n.db'')"

theorem commands_keep_nodes_valid_witness:
  "\<exists>r w' n x. main_args sample_env False [''chain''] [(''--db'', Some (ascii ''n.db''))] sample_world = (r, w') \<and>
     open_node toy 0 50 1000 (cw_dbs w' (ascii ''m.db'')) = (Inr n, x) \<and> node_ok toy n"
proof -
  obtain r w' where run: "main_args sample_env False [''chain''] [(''--db'', Some (ascii ''n.db''))] sample_world = (r, w')"
    by (meson surj_pair)
  have "parse_args (ce_python sample_env) [''chain''] [(''--db'', Some (ascii ''n.db''))] = Inr (ShowChain sample_args None)"
    by (simp add: parsing sample_args_def)
  with run have main: "main sample_env False (ShowChain sample_args None) sample_world = (r, w')" by (simp add: main_args_def)
  have toy: "ce_crypto sample_env = toy" by (simp add: sample_env_def)
  have reach: "cli_reach toy sample_world w'"
    by (rule cli_reach.runs [OF cli_reach.begins toy run])
  have "w' = snd (with_node sample_env False sample_args (chain_work sample_env None) sample_world)"
    using main by (auto simp: main_def cmd_chain_def split: prod.splits)
  then have "cw_dbs w' (ascii ''m.db'') = empty_files"
    by (simp add: with_node_other sample_args_def default_node_args_def sample_world_def ascii_eq)
  then obtain n x where n: "open_node toy 0 50 1000 (cw_dbs w' (ascii ''m.db'')) = (Inr n, x)" using sample_open_node by auto
  have "\<forall>db. store_ok toy (nf_store (cw_dbs sample_world db))"
    using empty_store_ok(1) by (simp add: sample_world_def empty_files_def)
  from commands_keep_nodes_valid [OF toy_digest_ok reach this n] run n show ?thesis by blast
qed

text \<open>
  C39: a wallet that \<^verbatim>\<open>wallet new --passphrase\<close> wrote cannot be used by the commands that need it: mining,
  sending and initialising end in a \<^verbatim>\<open>ValueError\<close> that \<^verbatim>\<open>main\<close> lets through, and change nothing.
\<close>

theorem encrypted_wallet_unusable:
  assumes "ed25519_secret_ok (ce_crypto E) (ce_secret E)" and "main E json (WalletNew path (Some p)) w = (Inr (), w')"
  shows "main E' json' (Mine a path) w' = (Inl (ValueError (ascii ''wallet passphrase is required'')), w') \<and>
    main E' json' (Send a path to_wallet to_address amount fee) w' = (Inl (ValueError (ascii ''wallet passphrase is required'')), w') \<and>
    main E' json' (Init b path allocation) w' = (Inl (ValueError (ascii ''wallet passphrase is required'')), w')"
proof -
  obtain wl fs' where "wallet_create (ce_crypto E) None (ce_secret E) = Inr wl"
      "wallet_save (ce_cipher E) (ce_draws E) wl path (Some p) (cw_files w) = (Inr (), fs')" "cw_files w' = fs'"
    using assms(2) by (auto simp: main_def exiting_def cmd_wallet_new_def emit_def obind_def omodify_def
        split: prod.splits sum.splits)
  with load_encrypted_None [OF wallet_ok_create [OF assms(1)]]
  have "load_wallet E' (cw_files w') path = Inl (ValueError (ascii ''wallet passphrase is required''))"
    by (simp add: load_wallet_def value_error_def)
  then show ?thesis
    by (simp add: main_def cmd_mine_def cmd_send_def cmd_init_def obind_def exiting_def)
qed

theorem encrypted_wallet_unusable_witness:
  "\<exists>w'. main sample_env False (WalletNew (ascii ''e.json'') (Some [112])) sample_world = (Inr (), w') \<and>
     main sample_env False (Mine sample_args (ascii ''e.json'')) w' = (Inl (ValueError (ascii ''wallet passphrase is required'')), w')"
proof -
  have key: "derive_wallet_key toy_cipher [112] (sd_salt sample_draws) WALLET_KDF_ITERATIONS = Inr (112 # replicate 16 7 @ replicate 15 0)"
    by code_simp
  obtain w' where run: "main sample_env False (WalletNew (ascii ''e.json'') (Some [112])) sample_world = (Inr (), w')"
    using encrypted_dict_ok [OF alice_ok key] atomic_write_json_ok [OF encrypted_members_wf] alice_created sample_addresses(1)
    by (simp add: main_def exiting_def cmd_wallet_new_def sample_env_def emit_def obind_def wallet_save_def)
  have "ed25519_secret_ok (ce_crypto sample_env) (ce_secret sample_env)" by (simp add: sample_env_def toy_def)
  from encrypted_wallet_unusable [OF this run] run show ?thesis by blast
qed

text \<open>
  C40: \<^verbatim>\<open>serve\<close> announces the address on which it serves, but when the command returns its server thread has
  ended, the listening socket and the databases are closed, and starting the runtime again yields a
  thread that ends at once.
\<close>

theorem serve_stops_at_once:
  assumes "main E json (Serve a) w = (Inr (), w')"
  shows "(\<not> json \<longrightarrow>
      cw_out w' = cw_out w @ [ascii ''serving UTXO node on '' @ fst (ce_address E) @ [58] @ int_repr (snd (ce_address E))]) \<and>
    (\<exists>n. cw_process w' = Some n \<and> \<not> nr_running n \<and> ta_thread (nr_server n) = Some False \<and> ta_closed (nr_server n) \<and>
       \<not> nr_node_open n \<and> ta_thread (nr_server (snd (runtime_start n))) = Some False)"
proof -
  obtain c where run: "with_runtime json (na_db a) (open_runtime (ce_crypto E) c (ce_bind E)) (serve_work E) w = (Inr (), w')"
    using assms by (auto simp: main_def exiting_def cmd_serve_def obind_def split: prod.splits sum.splits)
  then obtain n x r n1 w1 n2 where work: "serve_work E n = (r, n1)" "print_result json r w = (Inr (), w1)" "runtime_stop n1 = (Inr (), n2)"
      and w': "w' = (put_db (na_db a) (close_node x (runtime_node n2)) w1)\<lparr>cw_process := Some n2\<rparr>"
    by (auto simp: with_runtime_def split: prod.splits sum.splits)
  obtain p where p: "r = Inr p" "w1 = w\<lparr>cw_out := cw_out w1\<rparr>" "\<not> json \<longrightarrow> cw_out w1 = cw_out w @ [snd p]"
    using work(2) by (cases r) (auto simp: print_result_def emit_def omodify_def split: if_splits)
  have "runtime_start n = (Inr (), n1)" and "snd p = ascii ''serving UTXO node on '' @ fst (ce_address E) @ [58] @ int_repr (snd (ce_address E))"
    using work(1) p(1) by (auto simp: serve_work_def obind_Inr case_prod_unfold Let_def)
  then have stopped: "\<not> nr_running n2 \<and> ta_thread (nr_server n2) = Some False \<and> ta_closed (nr_server n2) \<and> \<not> nr_node_open n2"
    using stop_effect [OF work(3)] start_running by blast
  then have "ta_thread (nr_server (snd (runtime_start n2))) = Some False"
    by (simp add: runtime_start_def obind_def on_server_def adapter_start_def)
  with stopped p(3) \<open>snd p = _\<close> w' show ?thesis by (simp add: put_db_def)
qed

definition sample_runtime_args :: runtime_args where
  "sample_runtime_args = default_runtime_args (ascii ''n.db'') [107]"

lemma sample_cli_open: "\<exists>n x'. open_node toy 0 50 MAX_MONEY empty_files = (Inr n, x') \<and> fs_blocks (nd_store n) = []"
proof -
  obtain i where i: "chain_id toy \<lparr>cp_difficulty = 0, cp_block_subsidy = 50, cp_max_money = MAX_MONEY\<rparr> = Inr i"
    by (simp add: chain_id_def sha256_hex_text_def canonical_json_def utf8_encode_ascii is_ascii_dumps parameters_to_dict_def
        del: dumps.simps)
  have "new_state None 50 MAX_MONEY = Inr \<lparr>cs_utxos = [], cs_block_subsidy = 50, cs_max_money = MAX_MONEY\<rparr>"
      "new_state (Some []) 50 MAX_MONEY = Inr \<lparr>cs_utxos = [], cs_block_subsidy = 50, cs_max_money = MAX_MONEY\<rparr>"
    by (simp_all add: new_state_def MAX_MONEY_def utxo_total_def)
  with i empty_files_open [unfolded empty_files_def empty_store_def] show ?thesis
    by (simp add: open_node_def open_checks_def obind_def on_store_def require_chain_parameters_def
        load_chain_parameters_def save_chain_parameters_def sql_transaction_def best_tip_def empty_files_def
        empty_store_def fc_active_chain_def stored_active_chain_def validate_all_known_branches_def open_state_def
        ac_tip_def new_node_def load_mempool_def ms_transactions_def tbl_ordered_def ms_count_def copy_state_def
        rebuild_state_from_blocks_def utxo_copy_def utxo_new_def)
qed

theorem serve_stops_at_once_witness:
  "\<exists>w' n. main sample_env False (Serve sample_runtime_args) sample_world = (Inr (), w') \<and> cw_process w' = Some n \<and>
     ta_thread (nr_server n) = Some False"
proof -
  obtain n x where n: "open_node toy 0 50 MAX_MONEY empty_files = (Inr n, x)" "fs_blocks (nd_store n) = []"
    using sample_cli_open by blast
  have "\<exists>w'. main sample_env False (Serve sample_runtime_args) sample_world = (Inr (), w')"
    using n by (simp add: main_def exiting_def cmd_serve_def obind_def runtime_config_of_def sample_runtime_args_def default_runtime_args_def utf8_encode_ascii
        sample_env_def sample_world_def with_runtime_def open_runtime_def validate_config_def MAX_MONEY_def ascii_def runtime_for_def
        new_service_def new_adapter_def serve_work_def runtime_start_def on_server_def adapter_start_def runtime_stop_def
        adapter_stop_def print_result_def emit_def runtime_node_def node_height_def best_tip_def Let_def case_prod_unfold)
  then obtain w' where "main sample_env False (Serve sample_runtime_args) sample_world = (Inr (), w')" by blast
  with serve_stops_at_once [OF this] show ?thesis by blast
qed

text \<open>
  C19: \<^verbatim>\<open>balance\<close> prints the sum of the outputs that the replay of the best stored branch leaves to the
  wallet's address, whatever the UTXO index holds, and changes neither blocks nor wallet files.
\<close>

theorem balance_is_replayed:
  assumes "\<forall>db. store_ok (ce_crypto E) (nf_store (cw_dbs w db))" and "main E False (Balance a wallet) w = (Inr (), w')"
  shows "\<exists>address active. load_address E (cw_files w) wallet = Inr address \<and>
    fc_active_chain (ce_crypto E) \<lparr>fc_block_subsidy = na_reward a, fc_max_money = MAX_MONEY\<rparr> (nf_store (cw_dbs w' (na_db a))) = Inr active \<and>
    cw_out w' = cw_out w @ [ascii ''address:   '' @ address @ [10] @ ascii ''confirmed: '' @
      int_repr (sum_list (map (\<lambda>e. out_amount (utxo_output e)) (utxo_entries_for_address address (cs_utxos (ac_state active)))))] \<and>
    fs_blocks (nf_store (cw_dbs w' (na_db a))) = fs_blocks (nf_store (cw_dbs w (na_db a))) \<and> cw_files w' = cw_files w"
proof -
  let ?C = "ce_crypto E" and ?fc = "\<lparr>fc_block_subsidy = na_reward a, fc_max_money = MAX_MONEY\<rparr>"
  have st: "store_ok ?C (nf_store (cw_dbs w (na_db a)))" using assms(1) by blast
  obtain n x p where n: "open_node ?C (na_difficulty a) (na_reward a) MAX_MONEY (cw_dbs w (na_db a)) = (Inr n, x)"
    and p: "balance_work E wallet (cw_files w) n = (Inr p, n)"
    and w': "w' = put_db (na_db a) (close_node x n) (w\<lparr>cw_out := cw_out w @ [snd p]\<rparr>)"
    using assms(2) by (rule balance_run)
  note ok = open_node_ok [OF st n]
  have fc: "nd_fork_choice n = ?fc"
    by (rule open_node_Inr [OF n]) (auto dest: new_node_Inr(3))
  obtain active where act: "fc_active_chain ?C ?fc (nd_store n) = Inr active"
      "map_of (cs_utxos (nd_state n)) = map_of (cs_utxos (ac_state active))" and br: "branches_ok ?C ?fc (nd_store n)"
      and state: "state_ok (nd_state n)"
    using ok(1) fc by (auto simp: node_ok_def)
  have "utxo_entries (cs_utxos (nd_state n)) = utxo_entries (cs_utxos (ac_state active))"
    by (rule utxo_entries_cong [OF state_ok_dict [OF state] state_ok_dict [OF active_state_ok(1) [OF br act(1)]] act(2)])
  then have entries: "spendable_outputs n address = utxo_entries_for_address address (cs_utxos (ac_state active))" for address
    by (simp add: spendable_outputs_def utxo_entries_for_address_def)
  obtain address where "load_address E (cw_files w) wallet = Inr address" and "snd p = ascii ''address:   '' @ address @ [10] @
      ascii ''confirmed: '' @ int_repr (sum_list (map (\<lambda>e. out_amount (utxo_output e)) (spendable_outputs n address)))"
    using p by (auto simp: balance_work_def spendable_summary_def Let_def split: if_splits)
  with act(1) ok(2) show ?thesis by (simp add: w' put_db_def close_node_def entries)
qed

theorem balance_is_replayed_witness:
  "\<exists>w' active. main sample_env False (Balance sample_args (ascii ''a.json'')) sample_world = (Inr (), w') \<and>
     fc_active_chain toy \<lparr>fc_block_subsidy = 50, fc_max_money = MAX_MONEY\<rparr> (nf_store (cw_dbs w' (ascii ''n.db''))) = Inr active \<and>
     cw_out w' = [ascii ''address:   '' @ alice_address @ [10] @ ascii ''confirmed: '' @
       int_repr (sum_list (map (\<lambda>e. out_amount (utxo_output e)) (utxo_entries_for_address alice_address (cs_utxos (ac_state active)))))]"
proof -
  obtain n x where n: "open_node toy 0 50 MAX_MONEY empty_files = (Inr n, x)" "fs_blocks (nd_store n) = []"
    using sample_cli_open by blast
  have address: "load_address sample_env alice_files (ascii ''a.json'') = Inr alice_address"
    using alice_file_loads sample_addresses(1) by (simp add: load_address_def load_wallet_def sample_env_def)
  have fields: "ce_crypto sample_env = toy" "na_difficulty sample_args = 0" "na_reward sample_args = 50"
      "na_db sample_args = ascii ''n.db''" "cw_files sample_world = alice_files" "cw_dbs sample_world db = empty_files"
      "cw_out sample_world = []" for db
    by (simp_all add: sample_env_def sample_args_def default_node_args_def sample_world_def)
  obtain p where "balance_work sample_env (ascii ''a.json'') alice_files n = (Inr p, n)"
    using n(2) address sample_addresses(2)
    by (simp add: balance_work_def spendable_summary_def Let_def node_height_def tip_hash_def best_tip_def)
  then obtain w' where run: "main sample_env False (Balance sample_args (ascii ''a.json'')) sample_world = (Inr (), w')"
    using n(1) by (simp add: main_def exiting_def cmd_balance_def with_node_def fields print_result_def emit_def)
  have "\<forall>db. store_ok (ce_crypto sample_env) (nf_store (cw_dbs sample_world db))"
    using empty_store_ok(1) by (simp add: fields empty_files_def)
  from balance_is_replayed [OF this run] run address show ?thesis by (auto simp: fields)
qed

end
