(* ===== verification/Fuzz.thy ===== *)
theory Fuzz
  imports Network_Laws
begin

text \<open>
  The fuzz harnesses: \<^verbatim>\<open>fuzz/fuzz_consensus_codecs.py\<close> feeds arbitrary bytes to the decoders of transactions
  and blocks and compares what they return with a second round trip; \<^verbatim>\<open>fuzz/fuzz_network_frames.py\<close> feeds
  arbitrary bytes to the frame decoder. What \<^verbatim>\<open>os.urandom\<close> returns for each size is an argument.
\<close>

section \<open>Equality of decoded objects\<close>

text \<open>
  \<^verbatim>\<open>==\<close> of the data classes compares field by field. For a \<^verbatim>\<open>float\<close> this is the comparison of numbers: the two
  zeros are equal, and \<^verbatim>\<open>nan\<close> equals nothing, itself included, since the fields compared are different
  objects. A dictionary equals another one with the same entries.
\<close>

definition float_eq :: "64 word \<Rightarrow> 64 word \<Rightarrow> bool" where
  "float_eq v w \<longleftrightarrow> \<not> is_nan v \<and> \<not> is_nan w \<and> (v = w \<or> uint v mod 2 ^ 63 = 0 \<and> uint w mod 2 ^ 63 = 0)"

definition dict_eq :: "(pystr, pystr) dict \<Rightarrow> (pystr, pystr) dict \<Rightarrow> bool" where
  "dict_eq d d' \<longleftrightarrow> (\<forall>k \<in> set (map fst d) \<union> set (map fst d'). map_of d k = map_of d' k)"

definition input_eq :: "tx_input \<Rightarrow> tx_input \<Rightarrow> bool" where
  "input_eq i j \<longleftrightarrow> in_previous_output i = in_previous_output j \<and> in_signature i = in_signature j \<and>
     (case (in_public_key i, in_public_key j) of
        (None, None) \<Rightarrow> True | (Some d, Some d') \<Rightarrow> dict_eq d d' | _ \<Rightarrow> False)"

definition tx_eq :: "consensus_transaction \<Rightarrow> consensus_transaction \<Rightarrow> bool" where
  "tx_eq t u \<longleftrightarrow> list_all2 input_eq (tx_inputs t) (tx_inputs u) \<and> tx_outputs t = tx_outputs u \<and> tx_version t = tx_version u"

definition block_eq :: "consensus_block \<Rightarrow> consensus_block \<Rightarrow> bool" where
  "block_eq a b \<longleftrightarrow> blk_height a = blk_height b \<and> blk_previous_hash a = blk_previous_hash b \<and>
     list_all2 tx_eq (blk_transactions a) (blk_transactions b) \<and> blk_difficulty a = blk_difficulty b \<and>
     float_eq (blk_timestamp a) (blk_timestamp b) \<and> blk_nonce a = blk_nonce b \<and>
     blk_transaction_root a = blk_transaction_root b \<and> blk_version a = blk_version b"

section \<open>The codec harness\<close>

definition fuzz_transaction :: "bytes \<Rightarrow> unit result" where
  "fuzz_transaction data =
     (case tx_from_bytes True data of
        Inl (ConsensusError m) \<Rightarrow> Inr ()
      | Inl e \<Rightarrow> Inl e
      | Inr tx \<Rightarrow>
          rbind (tx_to_bytes True tx) (\<lambda>bs. rbind (tx_from_bytes True bs) (\<lambda>tx'.
            if \<not> tx_eq tx' tx then Inl AssertionError else Inr ())))"

definition fuzz_block :: "crypto \<Rightarrow> bytes \<Rightarrow> unit result" where
  "fuzz_block C data =
     (case block_from_bytes C data of
        Inl (ConsensusError m) \<Rightarrow> Inr ()
      | Inl e \<Rightarrow> Inl e
      | Inr b \<Rightarrow>
          rbind (block_to_bytes b) (\<lambda>bs. rbind (block_from_bytes C bs) (\<lambda>b'.
            if \<not> block_eq b' b then Inl AssertionError else Inr ())))"

definition codec_samples :: "(nat \<Rightarrow> bytes) \<Rightarrow> bytes list" where
  "codec_samples urandom =
     [[], [0], replicate 64 255] @ map urandom (filter (\<lambda>n. n mod 19 = 0) [0..<256])"

definition fuzz_codecs_main :: "crypto \<Rightarrow> (nat \<Rightarrow> bytes) \<Rightarrow> unit result" where
  "fuzz_codecs_main C urandom =
     rfold (\<lambda>sample _. rbind (fuzz_transaction sample) (\<lambda>_. fuzz_block C sample)) (codec_samples urandom) ()"

section \<open>The frame harness\<close>

definition FUZZ_AUTH_KEY :: bytes where
  "FUZZ_AUTH_KEY = map word_of_int (ascii ''fuzz-peer-auth-key'')"

definition fuzz_frame :: "crypto \<Rightarrow> py_runtime \<Rightarrow> bytes \<Rightarrow> unit result" where
  "fuzz_frame C R data =
     (case from_frame C R data FUZZ_AUTH_KEY of
        Inl (NetworkError m) \<Rightarrow> Inr ()
      | Inl e \<Rightarrow> Inl e
      | Inr m \<Rightarrow> Inr ())"

definition frame_samples :: "crypto \<Rightarrow> (nat \<Rightarrow> bytes) \<Rightarrow> bytes list result" where
  "frame_samples C urandom =
     rbind (to_frame C (mk_message PING [(ascii ''nonce'', JInt 1)]) FUZZ_AUTH_KEY) (\<lambda>ping.
     rbind (to_frame C (mk_message REJECT [(ascii ''reason'', JStr (ascii ''fuzz''))]) FUZZ_AUTH_KEY) (\<lambda>reject.
       Inr ([[], map word_of_int (ascii ''BCCN'') @ [0, 0, 0, 0], ping, reject] @
         map urandom (filter (\<lambda>n. n mod 17 = 0) [0..<256]))))"

definition fuzz_frames_main :: "crypto \<Rightarrow> py_runtime \<Rightarrow> (nat \<Rightarrow> bytes) \<Rightarrow> unit result" where
  "fuzz_frames_main C R urandom =
     rbind (frame_samples C urandom) (\<lambda>samples. rfold (\<lambda>sample _. fuzz_frame C R sample) samples ())"

end
