(* ===== verification/Fuzz_Properties.thy ===== *)
theory Fuzz_Properties
  imports Fuzz Network_Properties
begin

text \<open>
  What the fuzz harnesses can find: the codec harness passes on every input except the encodings of
  blocks whose timestamp is \<^verbatim>\<open>nan\<close>, and the frame harness reaches the message decoder only with frames
  that carry a valid tag.
\<close>

section \<open>Decoders reject with one exception\<close>

definition only_consensus :: "'a result \<Rightarrow> bool" where
  "only_consensus r \<longleftrightarrow> (\<forall>e. r = Inl e \<longrightarrow> (\<exists>m. e = ConsensusError m))"

named_theorems rejecting \<open>computations that raise at most \<^verbatim>\<open>ConsensusError\<close>\<close>

lemma only_consensus_basic [rejecting]: "only_consensus (Inr x)" "only_consensus (Inl (ConsensusError m))"
  by (simp_all add: only_consensus_def)

lemma only_consensus_rbind [rejecting]:
  "only_consensus m \<Longrightarrow> (\<And>x. m = Inr x \<Longrightarrow> only_consensus (f x)) \<Longrightarrow> only_consensus (rbind m f)"
  by (cases m) (auto simp: only_consensus_def)

lemma only_consensus_cases [rejecting]:
  "only_consensus r \<Longrightarrow> only_consensus r' \<Longrightarrow> only_consensus (if c then r else r')"
  "(\<And>a b. only_consensus (g a b)) \<Longrightarrow> only_consensus (case p of (a, b) \<Rightarrow> g a b)"
  "only_consensus r \<Longrightarrow> (\<And>x. only_consensus (h x)) \<Longrightarrow> only_consensus (case v of None \<Rightarrow> r | Some x \<Rightarrow> h x)"
  by (simp_all split: prod.split option.split)

locale rejecting_decoder =
  fixes dec :: "byte_reader \<Rightarrow> ('a \<times> byte_reader) result"
  assumes rejects: "only_consensus (dec r)"
begin

lemma many: "only_consensus (decode_n dec n r)"
  by (induction n arbitrary: r) (simp; intro rejecting rejects; assumption?)+

lemma whole: "only_consensus (decode_all dec p)"
  unfolding decode_all_def require_finished_def by (intro rejecting rejects)

end

lemma fields_reject [rejecting]:
  "only_consensus (reader_read n r)" "only_consensus (decode_int r)" "only_consensus (decode_uint r)"
  "only_consensus (decode_float r)" "only_consensus (decode_bytes r)" "only_consensus (decode_text r)"
proof -
  show read: "only_consensus (reader_read n r)" for n r
    unfolding reader_read_def Let_def by (intro rejecting)
  show "only_consensus (decode_int r)" "only_consensus (decode_uint r)" "only_consensus (decode_float r)"
    unfolding decode_int_def decode_uint_def decode_float_def by (intro rejecting read)+
  show blob: "only_consensus (decode_bytes r)" for r
    unfolding decode_bytes_def by (intro rejecting read)
  show "only_consensus (decode_text r)"
    unfolding decode_text_def by (intro rejecting blob)
qed

interpretation tx_input_decoder: rejecting_decoder "input_from_reader w" for w
  by unfold_locales (unfold input_from_reader_def outpoint_from_reader_def, intro rejecting)

interpretation tx_output_decoder: rejecting_decoder output_from_reader
  by unfold_locales (unfold output_from_reader_def, intro rejecting)

interpretation tx_decoder: rejecting_decoder "tx_from_reader w" for w
  by unfold_locales (unfold tx_from_reader_def, intro rejecting tx_input_decoder.many tx_output_decoder.many)

interpretation tx_item_decoder: rejecting_decoder tx_item_from_reader
  by unfold_locales (unfold tx_item_from_reader_def tx_from_bytes_def, intro rejecting tx_decoder.whole)

interpretation block_decoder: rejecting_decoder block_from_reader
  by unfold_locales (unfold block_from_reader_def, intro rejecting tx_item_decoder.many)

lemma tx_from_bytes_rejects: "only_consensus (tx_from_bytes w bs)"
  unfolding tx_from_bytes_def by (rule tx_decoder.whole)

text \<open>A decoded block names its transaction root, so the constructor does not compute one.\<close>

lemma block_from_bytes_rejects: "only_consensus (block_from_bytes C bs)"
proof -
  have "only_consensus (new_block C b)" if "decode_all block_from_reader bs = Inr b" for b
  proof -
    have "blk_transaction_root b \<noteq> []"
      using that by (auto simp: decode_all_def block_from_reader_def reader_read_consumes split: if_splits)
        (metis length_hexlify list.size(3) mult_is_0 zero_neq_numeral)
    then show ?thesis by (simp add: new_block_def rejecting)
  qed
  then show ?thesis unfolding block_from_bytes_def by (intro rejecting block_decoder.whole)
qed

section \<open>Equality of what was decoded\<close>

lemma input_eq_refl: "input_eq i i"
  by (simp add: input_eq_def dict_eq_def split: option.split)

lemma tx_eq_refl: "tx_eq t t"
  by (simp add: tx_eq_def input_eq_refl list.rel_refl)

lemma block_eq_self: "block_eq b b \<longleftrightarrow> \<not> is_nan (blk_timestamp b)"
  by (auto simp: block_eq_def float_eq_def tx_eq_refl list.rel_refl)

lemma fuzz_block_decoded:
  assumes "block_from_bytes C data = Inr b"
  shows "fuzz_block C data = (if is_nan (blk_timestamp b) then Inl AssertionError else Inr ())"
  using assms block_to_from_bytes(2) [OF assms] by (simp add: fuzz_block_def block_eq_self)

lemma fuzz_outcome:
  "fuzz_transaction data = Inr () \<and>
   fuzz_block C data =
     (case block_from_bytes C data of
        Inr b \<Rightarrow> if is_nan (blk_timestamp b) then Inl AssertionError else Inr ()
      | Inl e \<Rightarrow> Inr ())"
proof
  show "fuzz_transaction data = Inr ()"
  proof (cases "tx_from_bytes True data")
    case (Inl e)
    then show ?thesis using tx_from_bytes_rejects [of True data] by (auto simp: fuzz_transaction_def only_consensus_def)
  next
    case (Inr tx)
    moreover from this have "tx_to_bytes True tx = Inr data"
      using full_tx.all_enc_dec [of True data tx] by (auto simp: tx_from_bytes_def)
    ultimately show ?thesis by (simp add: fuzz_transaction_def tx_eq_refl)
  qed
  show "fuzz_block C data = (case block_from_bytes C data of
      Inr b \<Rightarrow> if is_nan (blk_timestamp b) then Inl AssertionError else Inr () | Inl e \<Rightarrow> Inr ())"
  proof (cases "block_from_bytes C data")
    case (Inl e)
    then show ?thesis using block_from_bytes_rejects [of C data] by (auto simp: fuzz_block_def only_consensus_def)
  next
    case (Inr b)
    then show ?thesis by (simp add: fuzz_block_decoded)
  qed
qed

section \<open>Frames\<close>

text \<open>Bytes on which the frame harness fails carry a valid tag under its key.\<close>

lemma fuzz_frame_fails:
  assumes "fuzz_frame C R data = Inl e"
  obtains p where "data = frame_head p @ hmac_sha256 C FUZZ_AUTH_KEY (frame_head p)" "int (length p) \<le> MAX_MESSAGE_SIZE"
proof -
  have "\<forall>msg. from_frame C R data FUZZ_AUTH_KEY \<noteq> Inl (NetworkError msg)"
    using assms by (auto simp: fuzz_frame_def)
  then show ?thesis by (rule from_frame_authentic) (rule that)
qed

lemma fuzz_frame_message:
  assumes "digest_ok C" and "to_frame C m FUZZ_AUTH_KEY = Inr f" and "json_wf R (msg_payload m)"
    and "msg_version m = PROTOCOL_VERSION" and "validate_payload C R (sorted_message m) = Inr ()"
  shows "fuzz_frame C R f = Inr ()"
  using frame_reads_back [OF assms(1,3,4,2)] assms(5) by (simp add: fuzz_frame_def)

lemma rfold_unit: "(\<And>x. x \<in> set xs \<Longrightarrow> f x () = Inr ()) \<Longrightarrow> rfold f xs () = Inr ()"
  by (induction xs) simp_all

lemma frame_samples_total: "\<exists>samples. frame_samples C urandom = Inr samples"
proof -
  have "\<exists>f. to_frame C m FUZZ_AUTH_KEY = Inr f"
    if "case encode_payload m of Inl e \<Rightarrow> False | Inr p \<Rightarrow> int (length p) \<le> MAX_MESSAGE_SIZE" for m
    using that by (auto simp: to_frame_Inr FUZZ_AUTH_KEY_def ascii_def split: sum.splits)
  moreover have "case encode_payload (mk_message PING [(ascii ''nonce'', JInt 1)]) of Inl e \<Rightarrow> False
      | Inr p \<Rightarrow> int (length p) \<le> MAX_MESSAGE_SIZE" by code_simp
  moreover have "case encode_payload (mk_message REJECT [(ascii ''reason'', JStr (ascii ''fuzz''))]) of Inl e \<Rightarrow> False
      | Inr p \<Rightarrow> int (length p) \<le> MAX_MESSAGE_SIZE" by code_simp
  ultimately show ?thesis by (simp add: frame_samples_def) blast
qed

text \<open>
  The frame harness passes unless the random source forges a tag: its own two messages are accepted,
  and of the rest nothing gets past the authentication.
\<close>

lemma fuzz_frames_pass:
  assumes "digest_ok C" and "\<forall>n p. urandom n \<noteq> frame_head p @ hmac_sha256 C FUZZ_AUTH_KEY (frame_head p)"
  shows "fuzz_frames_main C R urandom = Inr ()"
proof -
  obtain samples where samples: "frame_samples C urandom = Inr samples" using frame_samples_total by blast
  have "fuzz_frame C R x = Inr ()" if x: "x \<in> set samples" for x
  proof -
    consider "x = []" | "x = map word_of_int (ascii ''BCCN'') @ [0, 0, 0, 0]"
      | m where "to_frame C m FUZZ_AUTH_KEY = Inr x" "m \<in> {mk_message PING [(ascii ''nonce'', JInt 1)],
          mk_message REJECT [(ascii ''reason'', JStr (ascii ''fuzz''))]}"
      | n where "x = urandom n"
      using samples x by (auto simp: frame_samples_def)
    then show ?thesis
    proof cases
      case (3 m)
      then have "json_wf R (msg_payload m)" "msg_version m = PROTOCOL_VERSION" "validate_payload C R (sorted_message m) = Inr ()"
        by (auto simp: mk_message_def sorted_message_def validate_payload_def payload_dict_def validate_nonce_def
            validate_reject_def py_get_def as_int_def ascii_def is_scalar_def
            nonempty_text_def int_at_least_def nat_repr.simps INT_MAX_STR_DIGITS_def)
      then show ?thesis by (rule fuzz_frame_message [OF assms(1) 3(1)])
    next
      case (4 n)
      then show ?thesis using fuzz_frame_fails [of C R x] assms(2) by (cases "fuzz_frame C R x") auto
    qed (simp_all add: fuzz_frame_def from_frame_def HEADER_SIZE_def NETWORK_MAGIC_def AUTH_TAG_SIZE_def ascii_def
        MAX_MESSAGE_SIZE_def be_decode_def)
  qed
  then show ?thesis using samples rfold_unit [of samples] by (simp add: fuzz_frames_main_def)
qed

text \<open>The codec harness as a whole passes unless a random sample encodes a block at time \<^verbatim>\<open>nan\<close>.\<close>

lemma decoded_block_starts: "block_from_bytes C x = Inr b \<Longrightarrow> x \<noteq> [] \<and> hd x = 98"
  using block_to_from_bytes(2) [of C x b]
  by (auto simp: block_to_bytes_def header_bytes_def BLOCK_MAGIC_def ascii_def)

lemma fuzz_codecs_pass:
  assumes "\<And>n b. block_from_bytes C (urandom n) = Inr b \<Longrightarrow> \<not> is_nan (blk_timestamp b)"
  shows "fuzz_codecs_main C urandom = Inr ()"
proof -
  have "fuzz_transaction x = Inr () \<and> fuzz_block C x = Inr ()" if "x \<in> set (codec_samples urandom)" for x
  proof -
    have "x \<notin> {[], [0], replicate 64 255}" if "block_from_bytes C x = Inr b" for b
      using decoded_block_starts [OF that] by auto
    with that assms have "block_from_bytes C x = Inr b \<Longrightarrow> \<not> is_nan (blk_timestamp b)" for b
      unfolding codec_samples_def by auto
    then show ?thesis using fuzz_outcome [of x C] by (simp split: sum.splits)
  qed
  then show ?thesis unfolding fuzz_codecs_main_def by (intro rfold_unit) simp
qed

section \<open>Properties\<close>

text \<open>
  C38: decoding arbitrary bytes raises nothing but \<^verbatim>\<open>ConsensusError\<close>, and what decodes survives a second
  round trip, with one exception: the harness for blocks fails exactly on the encodings of blocks whose
  timestamp is \<^verbatim>\<open>nan\<close>.
\<close>

theorem fuzz_codecs_outcome:
  "fuzz_transaction data = Inr () \<and>
   fuzz_block C data =
     (case block_from_bytes C data of
        Inr b \<Rightarrow> if is_nan (blk_timestamp b) then Inl AssertionError else Inr ()
      | Inl e \<Rightarrow> Inr ())"
  by (rule fuzz_outcome)

end
