(* ===== verification/Spec2Isabelle.thy ===== *)
theory Spec2Isabelle
  imports Consensus_Properties Encoding_Properties Storage_Properties Node_Properties Mining_Properties
    Peer_Properties Network_Properties Service_Properties Runtime_Properties Wallet_Properties
    Release_Properties Cli_Properties Fuzz_Properties
begin

text \<open>
  BlockchainCoin: a verification library of the UTXO node of \<^verbatim>\<open>src/blockchaincoin\<close>.

  \<^bold>\<open>The program.\<close> \<^verbatim>\<open>consensus.py\<close> defines transactions, blocks, their canonical binary encoding, the set of
  spendable outputs and the rules that accept transactions and blocks; \<^verbatim>\<open>crypto.py\<close> the keys, addresses
  and signatures they use. \<^verbatim>\<open>storage.py\<close> keeps blocks, UTXO snapshots, the mempool and the cache of
  rejected blocks in SQLite tables. \<^verbatim>\<open>fork_choice.py\<close> selects the stored branch with the most work and
  replays it through the consensus rules. \<^verbatim>\<open>utxo_node.py\<close> ties these together: it admits transactions
  to the mempool, assembles and mines blocks, imports blocks of others and follows reorganisations.
  Around the node, \<^verbatim>\<open>network.py\<close> defines authenticated frames of JSON messages, \<^verbatim>\<open>peer.py\<close> the session with
  one peer, \<^verbatim>\<open>peers.py\<close> the address book with limits and bans, \<^verbatim>\<open>service.py\<close> the routing of messages and
  the scheduling of block downloads, \<^verbatim>\<open>transport.py\<close> the TCP server and client, and \<^verbatim>\<open>runtime.py\<close> the life
  cycle of a node process. \<^verbatim>\<open>release.py\<close> builds and signs the manifest of a release;
  \<^verbatim>\<open>cli.py\<close> runs all of this as commands over wallet files and node databases.

  \<^bold>\<open>The theories, by layer.\<close>

  \<^item> \<open>Prelude\<close>: Python values (\<open>bytes\<close>, \<open>pystr\<close>, dictionaries as association lists in insertion order),
    exceptions as the datatype \<open>exn\<close>, fallible expressions as \<open>'a result = exn + 'a\<close> and methods that
    mutate their object as \<open>('s, 'a) op\<close>, which return the object also when they raise; the sequencing
    combinators \<open>rbind\<close>, \<open>rmap\<close>, \<open>rfold\<close>, \<open>obind\<close> and the lemmas on them.
  \<^item> \<open>Byte_Codec\<close>, \<open>Utf8\<close>, \<open>Field_Codec\<close>, \<open>Codec_Combinators\<close>: \<^verbatim>\<open>struct\<close> packing, hexadecimal text, strict UTF-8,
    the cursor \<^verbatim>\<open>_ByteReader\<close> and the field encoders of \<^verbatim>\<open>consensus.py\<close>. The locale \<open>reader_codec\<close> states what
    an encoder and a cursor decoder promise each other; every field and every record format of the
    package is an interpretation of it.
  \<^item> \<open>Json\<close>, \<open>Crypto\<close>: \<^verbatim>\<open>canonical_json\<close>, base64, addresses, public keys, wallets, signatures (\<^verbatim>\<open>crypto.py\<close>).
  \<^item> \<open>Transaction\<close>, \<open>Block\<close>: the data of \<^verbatim>\<open>consensus.py\<close>, identifiers, signing, the Merkle root, headers, hashes.
  \<^item> \<open>Utxo_Set\<close>, \<open>Consensus_State\<close>, \<open>Block_Processor\<close>: the spendable set behind the locale \<open>coin_store\<close>, the rules for
    one transaction, for one block and for a replayed chain.
  \<^item> \<open>Sql_Table\<close>, \<open>Fork_Store\<close>, \<open>Index_Stores\<close>, \<open>Fork_Choice\<close>: keyed tables with the errors and the roll-back of
    SQLite, the five stores of \<^verbatim>\<open>storage.py\<close> over them (\<open>upsert_store\<close> is the interface of the two stores
    that insert or overwrite, \<open>versioned_store\<close> what opening any of them does) and \<^verbatim>\<open>fork_choice.py\<close>.
  \<^item> \<open>Mempool_Policy\<close>, \<open>Node\<close>, \<open>Node_Chain\<close>: \<^verbatim>\<open>utxo_node.py\<close>, method by method.
  \<^item> \<open>Node_Laws\<close>, \<open>Mempool_Laws\<close>, \<open>Mining_Laws\<close>, \<open>Spending_Laws\<close>, \<open>Node_Open_Laws\<close>: the lemmas on the node.
  \<^item> \<open>Encodable_Blocks\<close>: a stored genesis block, and every block mined on a mempool whose transactions came from bytes,
    has an encoding that reads back.
  \<^item> \<open>Python_Runtime\<close>, \<open>Json_Parse\<close>, \<open>Json_Round_Trip\<close>: what the network code uses of Python: \<^verbatim>\<open>int\<close>, \<^verbatim>\<open>float\<close>,
    \<^verbatim>\<open>str\<close> and \<^verbatim>\<open>dict\<close> of JSON values, \<^verbatim>\<open>json.loads\<close>, and that it reads back what \<^verbatim>\<open>json.dumps\<close> wrote; the
    locale \<open>json_layout\<close> proves this once for every layout, and is interpreted for the compact text of
    messages and the indented text of files.
  \<^item> \<open>Wallet_File\<close>: the wallet files of \<^verbatim>\<open>crypto.py\<close>, plain and encrypted. \<open>Release\<close>: \<^verbatim>\<open>release.py\<close>.
    \<open>Cli\<close>: \<^verbatim>\<open>cli.py\<close>, handler by handler; the locale \<open>node_command\<close> is what a command must do for the
    databases to stay well formed, and every command that works on an opened node interprets it.
    \<open>Cli_Args\<close>, \<open>Cli_Args_Laws\<close>: its argument parser, and that every command has a command line that parses
    to it. \<open>Db_Paths\<close>: the four files of a database.
  \<^item> \<open>Dict_Forms\<close>: the dictionary forms of transactions and blocks, and what a round trip through them keeps.
  \<^item> \<open>Network\<close>, \<open>Network_Laws\<close>: \<^verbatim>\<open>network.py\<close>. \<open>Peer_Session\<close>, \<open>Peer_Session_Laws\<close>: \<^verbatim>\<open>peer.py\<close>; the locale
    \<open>session_invariant\<close> carries a predicate along every run of a session. \<open>Peers\<close>, \<open>Peers_Laws\<close>: \<^verbatim>\<open>peers.py\<close>.
  \<^item> \<open>Service\<close>, \<open>Service_Laws\<close>, \<open>Service_Runs\<close>, \<open>Header_Sync_Laws\<close>: \<^verbatim>\<open>service.py\<close>; \<open>service_reach\<close> is the state machine
    of its public methods, the locale \<open>service_invariant\<close> states what a predicate must satisfy to hold in every
    reachable state, and \<open>node_invariant\<close> what the node must promise for the service to keep an invariant of it.
    \<open>Ban_Laws\<close>: a banned peer stays shut out in every run before its ban ends.
  \<^item> \<open>Connection_Buffer\<close>, \<open>Transport\<close>, \<open>Transport_Laws\<close>: \<^verbatim>\<open>transport.py\<close>. \<open>Handler_Threads\<close>: the
    handler as a thread that runs statement by statement; alone it does what the sequential handler does
    (\<open>handle_runs_alone\<close>), and a step keeps what the two service methods it calls keep
    (\<open>connection_invariant\<close>, which \<open>service_invariant\<close> extends). \<open>Process_Laws\<close>: the invariant of a process, a valid node with an encodable
    mempool, as an instance of these locales. \<open>Runtime\<close>: \<^verbatim>\<open>runtime.py\<close>; \<open>runtime_reach\<close> interleaves the main
    thread with any number of handlers.
  \<^item> \<open>Fuzz\<close>: the harnesses under \<^verbatim>\<open>fuzz/\<close>; the locale \<open>rejecting_decoder\<close> carries through every decoder that it
    raises nothing but \<^verbatim>\<open>ConsensusError\<close>.
  \<^item> \<open>Samples\<close>, \<open>Node_Samples\<close>: concrete wallets, blocks, databases and nodes for the witnesses.
  \<^item> \<open>Consensus_Properties\<close>, \<open>Encoding_Properties\<close>, \<open>Storage_Properties\<close>, \<open>Node_Properties\<close>, \<open>Mining_Properties\<close>,
    \<open>Peer_Properties\<close>, \<open>Network_Properties\<close>, \<open>Service_Properties\<close>, \<open>Runtime_Properties\<close>,
    \<open>Wallet_Properties\<close>, \<open>Release_Properties\<close>, \<open>Cli_Properties\<close>, \<open>Fuzz_Properties\<close>: the properties.

  \<^bold>\<open>What is shown.\<close> Value is conserved by transfers and created only by coinbases, within the subsidy and
  the maximum supply; an output is spent only by its owner and only once in a chain; the validator
  accepts exactly the declaratively valid transactions; blocks are applied entirely or not at all;
  a replayed chain is linked, and its spendable set is the fold of an abstract ledger. Byte strings
  decode exactly when they are encodings; header hashes and Merkle roots commit to what they hash,
  short of a collision, and where they do not this is stated. The active chain is the heaviest stored
  branch whatever the order of arrival; import, mining, creation and reopening keep a node whose
  branches are valid and whose state is the replay of the best one; the mempool stays minable in
  order; mining finds the first suitable nonce. A frame is accepted exactly when its tag and its message
  are valid; messages arrive in order however the stream is cut; sessions complete the handshake and
  ask for exactly what they do not know; a valid node's headers are accepted by its peers, unless a timestamp
  among them is a \<^verbatim>\<open>nan\<close> that JSON does not carry; decoding arbitrary bytes fails in one way only; connections,
  bans and downloads keep their bounds; and whatever bytes arrive on whatever connections, the node of
  a running process stays valid as long as calls of the service exclude each other. Wallets survive their files, which are replaced atomically; a signed
  release manifest verifies, and its text determines it; whatever command lines are run, the nodes they open
  are valid, and the balance they print is the one of the replayed chain. Where the code falls short of its intent (a rejected copy that blocks
  the genuine block, a mined block that is rejected near the supply limit, a repeated last leaf that
  keeps the root, closed connections that keep their slots, a malformed item that escapes the error
  handling, an encrypted wallet that no command can use, a server that stops at once) the exact behaviour is a theorem.

  \<^bold>\<open>Parameters.\<close> SHA-256 and Ed25519 are not code of the package: the record \<open>crypto\<close> holds the digest and
  the key operations as functions, and a property that relies on them says so (\<open>digest_ok\<close>: digests are 32
  bytes; \<open>ed25519_ok\<close>: signing and verifying fit together). \<open>Samples.toy\<close> shows that both can hold.
  PBKDF2 and AES-GCM are the record \<open>cipher\<close> with the law \<open>cipher_ok\<close>; random bytes are arguments. The
  clock is an argument: a \<^verbatim>\<open>float\<close> is kept as its 64 bits, which is what the encoding writes. The texts
  of exceptions raised by the interpreter and its libraries, which the cache of invalid blocks
  stores, are the argument \<open>rt\<close>. The conversion of a \<^verbatim>\<open>float\<close> to and from text and the Unicode character
  classes are the record \<open>py_runtime\<close>; \<open>float_reads_back\<close> is the one law that is used of it, and \<open>timestamps_ok\<close>
  adds that \<^verbatim>\<open>NaN\<close> reads as one fixed code. What sockets
  deliver, and whether binding and connecting succeed, are arguments of the transport operations.

  \<^bold>\<open>Bounds and loops.\<close> Python integers are \<open>int\<close>; \<^verbatim>\<open>struct\<close> and INTEGER columns raise outside their range, as in
  the code. Loops are structural recursion, or have a \<open>termination\<close> proof (Merkle layers, the nonce
  search, which ends because \<^verbatim>\<open>struct.pack\<close> refuses a nonce of 2\<open>^\<close>63). The walk to genesis would not end on
  a cyclic table: it takes one unit of fuel per row and returns \<open>Diverges\<close> when it runs out, and
  \<open>chain_to_tip_correct\<close> shows that a walk on a well formed table never does. The JSON parser takes two
  units of fuel per character, and \<open>loads_not_diverges\<close> shows that this is enough; the limit on nesting
  of CPython's parser is not modelled.

  \<^bold>\<open>Not modelled.\<close> Threads inside the service: the handler threads take turns at every statement of
  the handler, but a call of a service method is one step, as under a lock. The code takes no lock on the
  service, so runs in which such calls overlap are outside the theorems; two overlapping imports can
  leave the state of an older replay. A started walk over a cyclic table, which no operation of the node
  writes, is \<open>Diverges\<close>. The JSON text of the stored chain parameters is kept as the record it is read into.
  A target string of more than available memory (\<^verbatim>\<open>"0" * difficulty\<close>) raises \<^verbatim>\<open>MemoryError\<close> in Python; here the
  block fails its proof of work, so what is accepted is the same. SQLite files, pragmas
  and connections, directories and file permissions are input and output around the modelled logic.
  How \<^verbatim>\<open>argparse\<close> cuts a command line into options (abbreviations, \<^verbatim>\<open>--name=value\<close>) is not code of the package;
  the model starts from the occurrences. \<^verbatim>\<open>TxInput.from_dict\<close> stores whatever value it finds under
  \<^verbatim>\<open>public_key\<close>: a value that is not a dictionary of texts has no counterpart in the typed model, and the
  model says so with \<open>Inr None\<close>. The package files \<^verbatim>\<open>__init__.py\<close> and \<^verbatim>\<open>__main__.py\<close> hold no logic.
\<close>

end
